(* ===== verification/Prelude.thy ===== *)
theory Prelude
  imports Main "HOL-Library.Word" "HOL-Library.Char_ord" "HOL-Library.List_Lexorder"
begin

text \<open>
  Shared ground of the development: the types that name the C++ machine types, the failure
  values of C++ code (a thrown exception, undefined behaviour), the sequencing of code that may
  fail, and the collections of rewrite rules that the component theories extend.
\<close>

subsection \<open>Machine types of the sources\<close>

type_synonym uint16 = "16 word"
type_synonym uint32 = "32 word"
type_synonym size_t = "64 word"

named_theorems cadena_simps \<open>rewriting of the string primitives\<close>
named_theorems fallo_simps \<open>rewriting of code that may fail\<close>
named_theorems mapa_simps \<open>lookup and update of ordered tables\<close>

subsection \<open>Failure of C++ code\<close>

text \<open>
  A C++ function may return, throw a standard exception, or run into undefined behaviour (an
  unchecked \<^verbatim>\<open>operator[]\<close> past the end of a vector). The three outcomes are kept apart: a
  \<^verbatim>\<open>catch\<close> clause sees exceptions only.
\<close>

datatype excepcion =
    Invalid_argument
  | Out_of_range
  | Zmq_error nat
  | System_error
  | Runtime_error

datatype fallo =
    Excepcion excepcion
  | Indefinido

type_synonym 'a res = "fallo + 'a"

definition bindE :: "'a res \<Rightarrow> ('a \<Rightarrow> 'b res) \<Rightarrow> 'b res" where
  "bindE m f = (case m of Inl e \<Rightarrow> Inl e | Inr x \<Rightarrow> f x)"

definition throwE :: "excepcion \<Rightarrow> 'a res" where
  "throwE e = Inl (Excepcion e)"

text \<open>\<^verbatim>\<open>v[i]\<close> on a vector: no bounds check, undefined out of range.\<close>

definition indice :: "'a list \<Rightarrow> nat \<Rightarrow> 'a res" where
  "indice xs i = (if i < length xs then Inr (xs ! i) else Inl Indefinido)"

lemma bindE_simps [simp, fallo_simps]:
  "bindE (Inl e) f = Inl e"
  "bindE (Inr x) f = f x"
  by (simp_all add: bindE_def)

lemma bindE_assoc [fallo_simps]: "bindE (bindE m f) g = bindE m (\<lambda>x. bindE (f x) g)"
  by (cases m) simp_all

lemma bindE_eq_Inr_iff: "bindE m f = Inr y \<longleftrightarrow> (\<exists>x. m = Inr x \<and> f x = Inr y)"
  by (cases m) simp_all

lemma bindE_eq_Inl_iff:
  "bindE m f = Inl e \<longleftrightarrow> m = Inl e \<or> (\<exists>x. m = Inr x \<and> f x = Inl e)"
  by (cases m) simp_all

lemma indice_Cons_simps [simp, fallo_simps]:
  "indice (x # xs) 0 = Inr x"
  "indice (x # xs) (Suc i) = indice xs i"
  "indice [] i = Inl Indefinido"
  by (simp_all add: indice_def)

lemma indice_eq_Inr_iff: "indice xs i = Inr x \<longleftrightarrow> i < length xs \<and> x = xs ! i"
  by (auto simp: indice_def)

subsection \<open>List facts shared by the components\<close>

lemma takeWhile_stop:
  assumes "list_all P xs" "ys = [] \<or> \<not> P (hd ys)"
  shows "takeWhile P (xs @ ys) = xs"
  using assms by (induction xs) (auto simp: takeWhile_eq_Nil_iff)

lemma dropWhile_stop:
  assumes "list_all P xs" "ys = [] \<or> \<not> P (hd ys)"
  shows "dropWhile P (xs @ ys) = ys"
  using assms by (induction xs) (auto simp: dropWhile_eq_self_iff)

lemma length_dropWhile_less:
  "xs \<noteq> [] \<Longrightarrow> P (hd xs) \<Longrightarrow> length (dropWhile P xs) < length xs"
  by (cases xs) (auto simp: le_imp_less_Suc length_dropWhile_le)

lemma takeWhile_nonempty_length:
  "takeWhile P xs \<noteq> [] \<Longrightarrow> length (dropWhile P xs) < length xs"
  by (cases xs) (auto simp: le_imp_less_Suc length_dropWhile_le split: if_splits)

end
