(* ===== verification/Cadenas.thy ===== *)
theory Cadenas
  imports Prelude
begin

text \<open>
  The part of the C++ string and stream library that the sources use: searching and slicing of
  \<^verbatim>\<open>std::string\<close>, decimal printing (\<^verbatim>\<open>std::to_string\<close>, \<^verbatim>\<open>operator<<\<close>), decimal reading
  (\<^verbatim>\<open>std::stoi\<close>, \<^verbatim>\<open>operator>>\<close>) and \<^verbatim>\<open>std::getline\<close> with a separator. A \<^verbatim>\<open>std::string\<close> is a list
  of 8-bit characters.
\<close>

subsection \<open>Searching and slicing\<close>

text \<open>\<open>busca d s\<close> is the least position at which \<open>d\<close> occurs in \<open>s\<close> (\<^verbatim>\<open>s.find(d)\<close>).\<close>

primrec busca :: "string \<Rightarrow> string \<Rightarrow> nat option" where
  "busca d [] = (if d = [] then Some 0 else None)"
| "busca d (c # s) =
     (if take (length d) (c # s) = d then Some 0 else map_option Suc (busca d s))"

definition aparece :: "string \<Rightarrow> string \<Rightarrow> bool" where
  "aparece d s \<longleftrightarrow> busca d s \<noteq> None"

definition npos :: size_t where
  "npos = - 1"

text \<open>\<^verbatim>\<open>s.find(d, pos)\<close>, as a \<^verbatim>\<open>size_t\<close>: \<open>npos\<close> when there is no occurrence from \<open>pos\<close> on.\<close>

definition find_desde :: "string \<Rightarrow> string \<Rightarrow> size_t \<Rightarrow> size_t" where
  "find_desde s d pos =
     (if unat pos \<le> length s then
        (case busca d (drop (unat pos) s) of
           None \<Rightarrow> npos
         | Some i \<Rightarrow> word_of_nat (unat pos + i))
      else npos)"

text \<open>\<^verbatim>\<open>s.substr(pos, n)\<close>: throws \<^verbatim>\<open>std::out_of_range\<close> when \<open>pos\<close> is past the end.\<close>

definition substr :: "string \<Rightarrow> size_t \<Rightarrow> size_t \<Rightarrow> string res" where
  "substr s pos n =
     (if unat pos \<le> length s then Inr (take (unat n) (drop (unat pos) s))
      else throwE Out_of_range)"

lemma busca_bound: "busca d s = Some i \<Longrightarrow> i + length d \<le> length s"
proof (induction s arbitrary: i)
  case Nil
  then show ?case by (simp split: if_splits)
next
  case (Cons c s)
  show ?case
  proof (cases "take (length d) (c # s) = d")
    case True
    then have "length d \<le> length (c # s)"
      by (metis length_take min.absorb_iff2 min.commute)
    with True Cons.prems show ?thesis by simp
  next
    case False
    with Cons show ?thesis by auto
  qed
qed

lemma busca_match: "busca d s = Some i \<Longrightarrow> take (length d) (drop i s) = d"
  by (induction s arbitrary: i) (auto split: if_splits)

lemma busca_least: "busca d s = Some i \<Longrightarrow> j < i \<Longrightarrow> take (length d) (drop j s) \<noteq> d"
proof (induction s arbitrary: i j)
  case Nil
  then show ?case by (simp split: if_splits)
next
  case (Cons c s)
  then show ?case by (cases j) (auto split: if_splits)
qed

lemma busca_None_iff:
  "busca d s = None \<longleftrightarrow> (\<forall>j \<le> length s. take (length d) (drop j s) \<noteq> d)"
proof (induction s)
  case Nil
  then show ?case by simp
next
  case (Cons c s)
  have "(\<forall>j \<le> length (c # s). take (length d) (drop j (c # s)) \<noteq> d) \<longleftrightarrow>
        take (length d) (c # s) \<noteq> d \<and> (\<forall>j \<le> length s. take (length d) (drop j s) \<noteq> d)"
    by (metis (no_types, opaque_lifting) Suc_le_mono drop0 drop_Suc_Cons le0 length_Cons
        less_Suc_eq_0_disj less_Suc_eq_le)
  with Cons show ?case by simp
qed

lemma busca_SomeI:
  assumes "take (length d) (drop i s) = d" "i \<le> length s"
    and "\<And>j. j < i \<Longrightarrow> take (length d) (drop j s) \<noteq> d"
  shows "busca d s = Some i"
proof -
  from assms(1,2) have "busca d s \<noteq> None"
    by (auto simp: busca_None_iff)
  then obtain k where k: "busca d s = Some k" by auto
  have "\<not> k < i" using busca_match [OF k] assms(3) by blast
  moreover have "\<not> i < k" using busca_least [OF k] assms(1) by blast
  ultimately show ?thesis using k by simp
qed

text \<open>
  A pattern whose first character does not come back inside it (such as the separator
  \<^verbatim>\<open></>\<close>) is found right behind any text that does not contain it.
\<close>

lemma busca_append:
  assumes "d = c # ds" "c \<notin> set ds" "busca d s = None"
  shows "busca d (s @ d @ r) = Some (length s)"
  using assms(3)
proof (induction s)
  case Nil
  then show ?case using assms(1) by simp
next
  case (Cons a s)
  have "take (length d) (a # s @ d @ r) \<noteq> d"
  proof
    assume h: "take (length d) (a # s @ d @ r) = d"
    show False
    proof (cases "length d \<le> length (a # s)")
      case True
      then have "take (length d) (a # s @ d @ r) = take (length d) (a # s)"
        by (metis append_Cons append_Nil2 diff_is_0_eq take0 take_append)
      with h Cons.prems show False by simp
    next
      case False
      then have lt: "length (a # s) < length d" by simp
      then have "d ! length (a # s) = (a # s @ d @ r) ! length (a # s)"
        using h by (metis nth_take)
      also have "\<dots> = d ! 0" using assms(1) by (simp add: nth_append)
      finally have "d ! length (a # s) = c" using assms(1) by simp
      moreover have "d ! length (a # s) = ds ! length s" using assms(1) by simp
      moreover have "length s < length ds" using lt assms(1) by simp
      ultimately show False using assms(2) by (metis nth_mem)
    qed
  qed
  moreover have "busca d s = None" using Cons.prems by (simp split: if_splits)
  ultimately show ?case using Cons.IH by simp
qed

text \<open>Searching for a single character.\<close>

lemma busca_char: "busca [c] s = (if c \<in> set s then Some (length (takeWhile (\<lambda>x. x \<noteq> c) s)) else None)"
  by (induction s) auto

subsection \<open>Characters\<close>

text \<open>\<^verbatim>\<open>isspace\<close> and \<^verbatim>\<open>isdigit\<close> in the C locale.\<close>

definition es_espacio :: "char \<Rightarrow> bool" where
  "es_espacio c \<longleftrightarrow> of_char c = (32::nat) \<or> (9 \<le> (of_char c :: nat) \<and> of_char c \<le> (13::nat))"

definition es_digito :: "char \<Rightarrow> bool" where
  "es_digito c \<longleftrightarrow> 48 \<le> (of_char c :: nat) \<and> of_char c \<le> (57::nat)"

definition digito :: "char \<Rightarrow> nat" where
  "digito c = of_char c - 48"

definition car_digito :: "nat \<Rightarrow> char" where
  "car_digito n = char_of (48 + n)"

lemma car_digito_numerales:
  "car_digito 0 = CHR ''0''" "car_digito (Suc 0) = CHR ''1''" "car_digito 2 = CHR ''2''"
  "car_digito 3 = CHR ''3''" "car_digito 4 = CHR ''4''" "car_digito 5 = CHR ''5''"
  "car_digito 6 = CHR ''6''" "car_digito 7 = CHR ''7''" "car_digito 8 = CHR ''8''"
  "car_digito 9 = CHR ''9''"
  by (code_simp, code_simp, code_simp, code_simp, code_simp, code_simp, code_simp, code_simp,
      code_simp, code_simp)

lemma of_char_car_digito: "n < 10 \<Longrightarrow> (of_char (car_digito n) :: nat) = 48 + n"
  by (simp add: car_digito_def)

lemma digito_car_digito [simp]: "n < 10 \<Longrightarrow> digito (car_digito n) = n"
  by (simp add: digito_def of_char_car_digito)

lemma es_digito_car_digito [simp]: "n < 10 \<Longrightarrow> es_digito (car_digito n)"
  by (simp add: es_digito_def of_char_car_digito)

lemma es_digito_no_espacio: "es_digito c \<Longrightarrow> \<not> es_espacio c"
  by (auto simp: es_digito_def es_espacio_def)

lemma es_espacio_no_digito: "es_espacio c \<Longrightarrow> \<not> es_digito c"
  by (auto simp: es_digito_def es_espacio_def)

subsection \<open>Decimal numbers: printing\<close>

text \<open>What \<^verbatim>\<open>std::to_string\<close> and \<^verbatim>\<open>operator<<\<close> print for an unsigned and for a signed integer.\<close>

fun decimal :: "nat \<Rightarrow> string" where
  "decimal n = (if n < 10 then [car_digito n] else decimal (n div 10) @ [car_digito (n mod 10)])"

declare decimal.simps [simp del]

lemmas evalua_decimal = decimal.simps car_digito_numerales

definition to_string_int :: "int \<Rightarrow> string" where
  "to_string_int i = (if i < 0 then CHR ''-'' # decimal (nat (- i)) else decimal (nat i))"

definition valor_decimal :: "string \<Rightarrow> nat" where
  "valor_decimal s = foldl (\<lambda>n c. 10 * n + digito c) 0 s"

lemma valor_decimal_snoc: "valor_decimal (s @ [c]) = 10 * valor_decimal s + digito c"
  by (simp add: valor_decimal_def)

lemma decimal_digitos: "list_all es_digito (decimal n)"
  by (induction n rule: decimal.induct) (subst decimal.simps, simp)

lemma decimal_no_vacio: "decimal n \<noteq> []"
  by (subst decimal.simps) simp

lemma valor_decimal_decimal [simp]: "valor_decimal (decimal n) = n"
proof (induction n rule: decimal.induct)
  case (1 n)
  show ?case
  proof (cases "n < 10")
    case True
    then show ?thesis by (subst decimal.simps) (simp add: valor_decimal_def)
  next
    case False
    with "1.IH" show ?thesis by (subst decimal.simps) (simp add: valor_decimal_snoc)
  qed
qed

lemma decimal_inject: "decimal m = decimal n \<longleftrightarrow> m = n"
  by (metis valor_decimal_decimal)

lemma decimal_sin_espacio: "list_all (\<lambda>c. \<not> es_espacio c) (decimal n)"
  using decimal_digitos [of n] by (auto simp: list_all_iff es_digito_no_espacio)

lemma takeWhile_decimal: "takeWhile es_digito (decimal n) = decimal n"
  using takeWhile_stop [OF decimal_digitos, of "[]"] by simp

lemma hd_decimal: "es_digito (hd (decimal n))"
  using decimal_digitos [of n] decimal_no_vacio [of n] by (cases "decimal n") auto

lemma hd_decimal_nonzero: "0 < n \<Longrightarrow> hd (decimal n) \<noteq> CHR ''0''"
proof (induction n rule: decimal.induct)
  case (1 n)
  show ?case
  proof (cases "n < 10")
    case True
    have "car_digito n \<noteq> CHR ''0''"
    proof
      assume "car_digito n = CHR ''0''"
      then have "(of_char (car_digito n) :: nat) = of_char (CHR ''0'')" by simp
      with True \<open>0 < n\<close> show False by (simp add: of_char_car_digito)
    qed
    with True show ?thesis by (subst decimal.simps) simp
  next
    case False
    with 1 show ?thesis by (subst decimal.simps) (simp add: decimal_no_vacio hd_append)
  qed
qed

subsection \<open>Decimal numbers: reading\<close>

text \<open>
  \<^verbatim>\<open>std::stoi(s)\<close>: blanks, an optional sign, decimal digits; the text behind the digits is
  ignored. No digit at all throws \<^verbatim>\<open>std::invalid_argument\<close>, a value outside \<^verbatim>\<open>int\<close> throws
  \<^verbatim>\<open>std::out_of_range\<close>.
\<close>

definition salta_espacios :: "string \<Rightarrow> string" where
  "salta_espacios s = dropWhile es_espacio s"

fun signo :: "string \<Rightarrow> int \<times> string" where
  "signo (c # s) =
     (if c = CHR ''-'' then (- 1, s) else if c = CHR ''+'' then (1, s) else (1, c # s))"
| "signo [] = (1, [])"

definition int_min :: int where
  "int_min = - (2 ^ 31)"

definition int_max :: int where
  "int_max = 2 ^ 31 - 1"

definition stoi :: "string \<Rightarrow> int res" where
  "stoi s =
     (let (sg, r) = signo (salta_espacios s);
          ds = takeWhile es_digito r;
          v = sg * int (valor_decimal ds)
      in if ds = [] then throwE Invalid_argument
         else if v < int_min \<or> int_max < v then throwE Out_of_range
         else Inr v)"

lemma stoi_range: "stoi s = Inr v \<Longrightarrow> int_min \<le> v \<and> v \<le> int_max"
  by (auto simp: stoi_def Let_def throwE_def split: if_splits prod.splits)

lemma stoi_solo_excepciones: "stoi s = Inl e \<Longrightarrow> e = Excepcion Invalid_argument \<or> e = Excepcion Out_of_range"
  by (auto simp: stoi_def Let_def throwE_def split: if_splits prod.splits)

lemma salta_espacios_digito: "es_digito (hd s) \<Longrightarrow> salta_espacios s = s"
  by (cases s) (auto simp: salta_espacios_def es_digito_no_espacio)

lemma signo_digito: "s \<noteq> [] \<Longrightarrow> es_digito (hd s) \<Longrightarrow> signo s = (1, s)"
  by (cases s) (auto simp: es_digito_def)

lemma stoi_decimal:
  assumes "int n \<le> int_max" "r = [] \<or> \<not> es_digito (hd r)"
  shows "stoi (decimal n @ r) = Inr (int n)"
proof -
  have hd: "es_digito (hd (decimal n @ r))"
    by (simp add: hd_append decimal_no_vacio hd_decimal)
  have "takeWhile es_digito (decimal n @ r) = decimal n"
    by (rule takeWhile_stop [OF decimal_digitos assms(2)])
  then show ?thesis
    using assms(1) hd
    by (simp add: stoi_def salta_espacios_digito signo_digito decimal_no_vacio int_min_def)
qed

lemma stoi_vacio: "stoi [] = Inl (Excepcion Invalid_argument)"
  by (simp add: stoi_def salta_espacios_def throwE_def)

lemma stoi_to_string_int:
  assumes "int_min \<le> i" "i \<le> int_max"
  shows "stoi (to_string_int i) = Inr i"
proof (cases "i < 0")
  case False
  then show ?thesis using stoi_decimal [of "nat i" "[]"] assms by (simp add: to_string_int_def)
next
  case True
  with assms show ?thesis
    by (simp add: stoi_def to_string_int_def salta_espacios_def es_espacio_def decimal_no_vacio
        takeWhile_decimal)
qed

subsection \<open>Streams: \<^verbatim>\<open>operator>>\<close> and \<^verbatim>\<open>std::getline\<close>\<close>

text \<open>
  The unread part of an input stream is a string. \<open>None\<close> is a failed extraction (failbit), after
  which every further extraction of the same stream fails too. A word is a maximal run of
  non-blank characters; an unsigned integer is read with an optional sign, a negative one wraps
  around, a value past the maximum of the type fails.
\<close>

definition lee_palabra :: "string \<Rightarrow> (string \<times> string) option" where
  "lee_palabra s =
     (let r = salta_espacios s; w = takeWhile (\<lambda>c. \<not> es_espacio c) r
      in if w = [] then None else Some (w, dropWhile (\<lambda>c. \<not> es_espacio c) r))"

definition lee_sin_signo :: "string \<Rightarrow> ('a::len word \<times> string) option" where
  "lee_sin_signo s =
     (let (sg, r) = signo (salta_espacios s);
          ds = takeWhile es_digito r
      in if ds = [] \<or> 2 ^ LENGTH('a) \<le> valor_decimal ds then None
         else Some (word_of_int (sg * int (valor_decimal ds)), dropWhile es_digito r))"

lemma length_salta_espacios [simp]: "length (salta_espacios s) \<le> length s"
  by (simp add: salta_espacios_def length_dropWhile_le)

lemma length_signo: "signo s = (sg, r) \<Longrightarrow> length r \<le> length s"
  by (cases s) (auto split: if_splits)

lemma lee_palabra_decrece: "lee_palabra s = Some (w, r) \<Longrightarrow> length r < length s"
  using takeWhile_nonempty_length [of "\<lambda>c. \<not> es_espacio c" "salta_espacios s"]
  by (auto simp: lee_palabra_def Let_def split: if_splits
      intro: order.strict_trans2 [OF _ length_salta_espacios])

lemma lee_sin_signo_decrece:
  assumes "lee_sin_signo s = Some ((w :: 'a::len word), r)"
  shows "length r < length s"
proof -
  obtain sg t where t: "signo (salta_espacios s) = (sg, t)" by fastforce
  then have "length t \<le> length s"
    using length_signo length_salta_espacios order_trans by blast
  moreover from assms t have "length r < length t"
    using takeWhile_nonempty_length [of es_digito t]
    by (auto simp: lee_sin_signo_def Let_def split: if_splits)
  ultimately show ?thesis by simp
qed

text \<open>Reading back what was printed, when a blank or the end of the stream follows.\<close>

lemma salta_espacios_blanco: "list_all es_espacio b \<Longrightarrow> salta_espacios (b @ s) = salta_espacios s"
  by (induction b) (auto simp: salta_espacios_def)

lemma lee_palabra_impresa:
  assumes "list_all es_espacio b" "w \<noteq> []" "list_all (\<lambda>c. \<not> es_espacio c) w"
    and "r = [] \<or> es_espacio (hd r)"
  shows "lee_palabra (b @ w @ r) = Some (w, r)"
proof -
  have "salta_espacios (b @ w @ r) = w @ r"
    using assms(1-3) by (simp add: salta_espacios_blanco) (cases w; simp add: salta_espacios_def)
  moreover have "takeWhile (\<lambda>c. \<not> es_espacio c) (w @ r) = w"
    using assms(3,4) by (intro takeWhile_stop) auto
  moreover have "dropWhile (\<lambda>c. \<not> es_espacio c) (w @ r) = r"
    using assms(3,4) by (intro dropWhile_stop) auto
  ultimately show ?thesis using assms(2) by (simp add: lee_palabra_def)
qed

lemma lee_sin_signo_impreso:
  fixes w :: "'a::len word"
  assumes "list_all es_espacio b" "r = [] \<or> \<not> es_digito (hd r)"
  shows "lee_sin_signo (b @ decimal (unat w) @ r) = Some (w, r)"
proof -
  let ?d = "decimal (unat w)"
  have hd: "es_digito (hd (?d @ r))"
    by (simp add: hd_append decimal_no_vacio hd_decimal)
  then have "salta_espacios (b @ ?d @ r) = ?d @ r"
    using assms(1) by (simp add: salta_espacios_blanco salta_espacios_digito)
  moreover have "signo (?d @ r) = (1, ?d @ r)"
    using hd by (simp add: signo_digito decimal_no_vacio)
  moreover have "takeWhile es_digito (?d @ r) = ?d" "dropWhile es_digito (?d @ r) = r"
    using takeWhile_stop dropWhile_stop decimal_digitos assms(2) by blast+
  moreover have "\<not> 2 ^ LENGTH('a) \<le> unat w" by (simp add: not_le)
  ultimately show ?thesis by (simp add: lee_sin_signo_def decimal_no_vacio Let_def)
qed

text \<open>
  \<^verbatim>\<open>while (std::getline(iss, token, sep))\<close>: the tokens that the loop sees. A trailing empty piece
  is not a token.
\<close>

function trozos :: "char \<Rightarrow> string \<Rightarrow> string list" where
  "trozos sep [] = []"
| "trozos sep (c # s) =
     takeWhile (\<lambda>x. x \<noteq> sep) (c # s) # trozos sep (drop 1 (dropWhile (\<lambda>x. x \<noteq> sep) (c # s)))"
  by pat_completeness auto
termination
  by (relation "measure (length \<circ> snd)")
    (auto simp: less_Suc_eq_le intro: order.trans [OF diff_le_self] length_dropWhile_le)

lemma trozos_unico: "s \<noteq> [] \<Longrightarrow> sep \<notin> set s \<Longrightarrow> trozos sep s = [s]"
proof (cases s)
  case (Cons c r)
  assume "sep \<notin> set s"
  then have "dropWhile (\<lambda>x. x \<noteq> sep) s = []" "takeWhile (\<lambda>x. x \<noteq> sep) s = s"
    by (auto simp: takeWhile_eq_all_conv dropWhile_eq_Nil_conv)
  with Cons show ?thesis by simp
qed simp

lemma trozos_append: "sep \<notin> set s \<Longrightarrow> trozos sep (s @ sep # r) = s # trozos sep r"
proof (cases s)
  case Nil
  then show ?thesis by simp
next
  case (Cons a s')
  assume "sep \<notin> set s"
  then have "takeWhile (\<lambda>x. x \<noteq> sep) (s @ sep # r) = s"
    and "dropWhile (\<lambda>x. x \<noteq> sep) (s @ sep # r) = sep # r"
    by (auto simp: list_all_iff intro!: takeWhile_stop dropWhile_stop)
  with Cons show ?thesis by simp
qed

text \<open>\<^verbatim>\<open>s.c_str()\<close> as a C function reads it: up to the first NUL character.\<close>

definition c_str :: "string \<Rightarrow> string" where
  "c_str s = takeWhile (\<lambda>c. of_char c \<noteq> (0::nat)) s"

lemma c_str_id: "list_all (\<lambda>c. of_char c \<noteq> (0::nat)) s \<Longrightarrow> c_str s = s"
  by (simp add: c_str_def takeWhile_eq_all_conv list_all_iff)

end
