(* ===== verification/Red.thy ===== *)
theory Red
  imports Cadenas
begin

unbundle bit_operations_syntax

text \<open>
  The C library functions of \<^verbatim>\<open><arpa/inet.h>\<close> that the sources call, on a little-endian host (the
  binaries of the repository are x86-64 ones): \<^verbatim>\<open>htons\<close>/\<^verbatim>\<open>ntohs\<close>, \<^verbatim>\<open>inet_addr\<close> and
  \<^verbatim>\<open>inet_ntoa\<close>. Addresses and ports are kept at their width, in network byte order where
  the sources keep them so.
\<close>

subsection \<open>Byte order\<close>

definition htons :: "uint16 \<Rightarrow> uint16" where
  "htons x = push_bit 8 x OR drop_bit 8 x"

definition ntohs :: "uint16 \<Rightarrow> uint16" where
  "ntohs x = push_bit 8 x OR drop_bit 8 x"

lemma ntohs_htons [simp]: "ntohs (htons x) = x"
proof (rule bit_word_eqI)
  fix n assume "n < LENGTH(16)"
  then show "bit (ntohs (htons x)) n = bit x n"
    by (auto simp: ntohs_def htons_def bit_simps dest: bit_imp_le_length)
qed

lemma htons_inject: "htons x = htons y \<longleftrightarrow> x = y"
  by (metis ntohs_htons)

text \<open>The four bytes of a 32-bit value from the least significant one, and their value when read
  from the most significant one.\<close>

definition octetos :: "nat \<Rightarrow> nat \<times> nat \<times> nat \<times> nat" where
  "octetos n = (n mod 256, n div 256 mod 256, n div 65536 mod 256, n div 16777216 mod 256)"

fun desde_octetos :: "nat \<times> nat \<times> nat \<times> nat \<Rightarrow> nat" where
  "desde_octetos (a, b, c, d) = a * 16777216 + b * 65536 + c * 256 + d"

definition htonl :: "uint32 \<Rightarrow> uint32" where
  "htonl x = word_of_nat (desde_octetos (octetos (unat x)))"

lemma octetos_bound:
  "octetos n = (a, b, c, d) \<Longrightarrow> a < 256 \<and> b < 256 \<and> c < 256 \<and> d < 256"
  by (auto simp: octetos_def)

lemma octetos_desde_octetos:
  assumes "a < 256" "b < 256" "c < 256" "d < 256"
  shows "octetos (desde_octetos (a, b, c, d)) = (d, c, b, a)"
proof -
  let ?n = "a * 16777216 + b * 65536 + c * 256 + d"
  have cociente: "(m * k + r) div k = m" "(m * k + r) mod k = r" if "r < k" for m k r :: nat
    using that by simp_all
  have n: "?n = (a * 65536 + b * 256 + c) * 256 + d" "?n = (a * 256 + b) * 65536 + (c * 256 + d)"
    "?n = a * 16777216 + (b * 65536 + c * 256 + d)"
    "a * 65536 + b * 256 + c = (a * 256 + b) * 256 + c" by simp_all
  have b: "c * 256 + d < 65536" "b * 65536 + c * 256 + d < 16777216" using assms by simp_all
  have "?n mod 256 = d" by (subst n(1)) (rule cociente(2) [OF assms(4)])
  moreover have "?n div 256 = (a * 256 + b) * 256 + c"
    by (subst n(1), subst cociente(1) [OF assms(4)]) (rule n(4))
  moreover have "?n div 65536 = a * 256 + b" by (subst n(2)) (rule cociente(1) [OF b(1)])
  moreover have "?n div 16777216 = a" by (subst n(3)) (rule cociente(1) [OF b(2)])
  ultimately have "?n mod 256 = d" "?n div 256 mod 256 = c" "?n div 65536 mod 256 = b"
    "?n div 16777216 = a"
    using cociente(2) [OF assms(3), of "a * 256 + b"] cociente(2) [OF assms(2), of a] by simp_all
  then show ?thesis using assms by (simp add: octetos_def)
qed

lemma desde_octetos_bound:
  "a < 256 \<Longrightarrow> b < 256 \<Longrightarrow> c < 256 \<Longrightarrow> d < 256 \<Longrightarrow> desde_octetos (a, b, c, d) < 2 ^ 32"
  by simp

lemma octetos_inversa:
  assumes "n < 2 ^ 32" "octetos n = (a, b, c, d)"
  shows "n = desde_octetos (d, c, b, a)"
proof -
  have "n = 256 * (n div 256) + n mod 256" by simp
  moreover have "n div 256 = 256 * (n div 65536) + n div 256 mod 256"
    using div_mult2_eq [of n 256 256] by simp
  moreover have "n div 65536 = 256 * (n div 16777216) + n div 65536 mod 256"
    using div_mult2_eq [of n 65536 256] by simp
  moreover have "n div 16777216 mod 256 = n div 16777216" using assms(1) by simp
  moreover have "a = n mod 256" "b = n div 256 mod 256" "c = n div 65536 mod 256"
    "d = n div 16777216 mod 256" using assms(2) by (simp_all add: octetos_def)
  ultimately show ?thesis unfolding desde_octetos.simps by linarith
qed

lemma unat_htonl: "unat (htonl x) = desde_octetos (octetos (unat x))"
proof -
  obtain a b c d where o: "octetos (unat x) = (a, b, c, d)" by (cases "octetos (unat x)")
  then have "desde_octetos (octetos (unat x)) < 2 ^ 32"
    using octetos_bound [OF o] desde_octetos_bound by simp
  then show ?thesis by (simp add: htonl_def unat_of_nat take_bit_nat_eq_self)
qed

subsection \<open>Dotted notation\<close>

text \<open>\<^verbatim>\<open>inet_ntoa\<close> prints the bytes of the address in memory order.\<close>

definition inet_ntoa :: "uint32 \<Rightarrow> string" where
  "inet_ntoa ip =
     (case octetos (unat ip) of (a, b, c, d) \<Rightarrow>
        decimal a @ ''.'' @ decimal b @ ''.'' @ decimal c @ ''.'' @ decimal d)"

text \<open>
  \<^verbatim>\<open>inet_addr\<close> takes one to four numbers separated by dots. Each is a C integer literal: \<^verbatim>\<open>0x\<close>
  starts a hexadecimal one, \<^verbatim>\<open>0\<close> an octal one. All but the last fill one byte, the last
  one fills the bytes that are left. The text ends there or goes on with a blank; anything else
  makes the result \<^verbatim>\<open>INADDR_NONE\<close>.
\<close>

definition digito_hex :: "char \<Rightarrow> nat option" where
  "digito_hex c =
     (let n = of_char c :: nat in
      if 48 \<le> n \<and> n \<le> 57 then Some (n - 48)
      else if 97 \<le> n \<and> n \<le> 102 then Some (n - 87)
      else if 65 \<le> n \<and> n \<le> 70 then Some (n - 55)
      else None)"

definition es_hex :: "char \<Rightarrow> bool" where
  "es_hex c \<longleftrightarrow> digito_hex c \<noteq> None"

definition es_octal :: "char \<Rightarrow> bool" where
  "es_octal c \<longleftrightarrow> 48 \<le> (of_char c :: nat) \<and> of_char c \<le> (55::nat)"

definition valor_base :: "nat \<Rightarrow> string \<Rightarrow> nat" where
  "valor_base b s =
     foldl (\<lambda>n c. b * n + (case digito_hex c of None \<Rightarrow> 0 | Some k \<Rightarrow> k)) 0 s"

definition es_prefijo_hex :: "string \<Rightarrow> bool" where
  "es_prefijo_hex s \<longleftrightarrow>
     (case s of c0 # x # h # _ \<Rightarrow>
        c0 = CHR ''0'' \<and> (x = CHR ''x'' \<or> x = CHR ''X'') \<and> es_hex h
      | _ \<Rightarrow> False)"

definition strtoul0 :: "string \<Rightarrow> nat \<times> string" where
  "strtoul0 s =
     (if es_prefijo_hex s then
        (valor_base 16 (takeWhile es_hex (drop 2 s)), dropWhile es_hex (drop 2 s))
      else if s \<noteq> [] \<and> hd s = CHR ''0'' then
        (valor_base 8 (takeWhile es_octal s), dropWhile es_octal s)
      else (valor_decimal (takeWhile es_digito s), dropWhile es_digito s))"

definition inaddr_none :: uint32 where
  "inaddr_none = 0xFFFFFFFF"

function inet_partes :: "nat list \<Rightarrow> string \<Rightarrow> (nat list \<times> nat) option" where
  "inet_partes bs s =
     (if s = [] \<or> \<not> es_digito (hd s) then None
      else let (v, r) = strtoul0 s in
        if 0xFFFFFFFF < v then None
        else if r \<noteq> [] \<and> hd r = CHR ''.'' then
          (if 2 < length bs \<or> 255 < v then None else inet_partes (bs @ [v]) (tl r))
        else if (r = [] \<or> es_espacio (hd r)) \<and> v < 256 ^ (4 - length bs) then Some (bs, v)
        else None)"
  by pat_completeness auto
termination
  by (relation "measure (\<lambda>(bs, s). 3 - length bs)") auto

declare inet_partes.simps [simp del]

definition inet_addr :: "string \<Rightarrow> uint32" where
  "inet_addr s =
     (case inet_partes [] (c_str s) of
        None \<Rightarrow> inaddr_none
      | Some (bs, v) \<Rightarrow>
          htonl (word_of_nat (foldl (\<lambda>a b. 256 * a + b) 0 bs * 256 ^ (4 - length bs) + v)))"

lemma strtoul0_decimal:
  assumes "r = [] \<or> hd r = CHR ''.''"
  shows "strtoul0 (decimal n @ r) = (n, r)"
proof (cases "n = 0")
  case True
  have d: "decimal 0 = ''0''" by (simp add: decimal.simps car_digito_numerales)
  show ?thesis
  proof (cases r)
    case Nil
    then show ?thesis
      by (simp add: d True strtoul0_def es_prefijo_hex_def es_octal_def valor_base_def
          digito_hex_def)
  next
    case (Cons x xs)
    with assms have "x = CHR ''.''" by simp
    then show ?thesis
      by (simp add: d True Cons strtoul0_def es_prefijo_hex_def es_octal_def valor_base_def
          digito_hex_def split: list.split)
  qed
next
  case False
  then have "hd (decimal n) \<noteq> CHR ''0''" by (simp add: hd_decimal_nonzero)
  then have h: "hd (decimal n @ r) \<noteq> CHR ''0''" by (simp add: hd_append decimal_no_vacio)
  then have p: "\<not> es_prefijo_hex (decimal n @ r)"
    by (auto simp: es_prefijo_hex_def split: list.splits)
  have r: "r = [] \<or> \<not> es_digito (hd r)" using assms by (auto simp: es_digito_def)
  then have "takeWhile es_digito (decimal n @ r) = decimal n"
    and "dropWhile es_digito (decimal n @ r) = r"
    using takeWhile_stop dropWhile_stop decimal_digitos by blast+
  with h p show ?thesis by (simp add: strtoul0_def)
qed

lemma inet_partes_punto:
  assumes "n < 256" "length bs < 3"
  shows "inet_partes bs (decimal n @ CHR ''.'' # s) = inet_partes (bs @ [n]) s"
proof -
  have "es_digito (hd (decimal n @ CHR ''.'' # s))"
    by (simp add: hd_append decimal_no_vacio hd_decimal)
  moreover have "strtoul0 (decimal n @ CHR ''.'' # s) = (n, CHR ''.'' # s)"
    by (rule strtoul0_decimal) simp
  ultimately show ?thesis
    using assms by (subst inet_partes.simps) simp
qed

lemma inet_partes_fin:
  assumes "n < 256" "length bs = 3"
  shows "inet_partes bs (decimal n) = Some (bs, n)"
proof -
  have "strtoul0 (decimal n) = (n, [])" using strtoul0_decimal [of "[]" n] by simp
  then show ?thesis
    using assms hd_decimal [of n] by (subst inet_partes.simps) (simp add: decimal_no_vacio)
qed

lemma digito_no_nulo: "es_digito c \<Longrightarrow> of_char c \<noteq> (0::nat)"
  by (auto simp: es_digito_def)

text \<open>The printed address holds digits and dots only, and is not empty.\<close>

lemma decimal_es_digito: "c \<in> set (decimal n) \<Longrightarrow> es_digito c"
  using decimal_digitos [of n] by (simp add: list_all_iff)

lemma inet_ntoa_caracteres: "c \<in> set (inet_ntoa ip) \<Longrightarrow> es_digito c \<or> c = CHR ''.''"
  by (auto simp: inet_ntoa_def dest: decimal_es_digito split: prod.splits)

lemma inet_ntoa_sin_nulos: "c_str (inet_ntoa ip) = inet_ntoa ip"
  by (rule c_str_id) (auto simp: list_all_iff dest!: inet_ntoa_caracteres digito_no_nulo)

text \<open>Printing an address and reading it back gives the address.\<close>

lemma inet_addr_inet_ntoa: "inet_addr (inet_ntoa ip) = ip"
proof -
  obtain a b c d where o: "octetos (unat ip) = (a, b, c, d)" by (cases "octetos (unat ip)")
  have bd: "a < 256" "b < 256" "c < 256" "d < 256" using octetos_bound [OF o] by simp_all
  have "inet_partes [] (inet_ntoa ip) = Some ([a, b, c], d)"
    using bd by (simp add: inet_ntoa_def o inet_partes_punto inet_partes_fin)
  moreover have "foldl (\<lambda>a b. 256 * a + b) 0 [a, b, c] * 256 ^ (4 - length [a, b, c]) + d =
      desde_octetos (a, b, c, d)" by simp
  ultimately have "inet_addr (inet_ntoa ip) = htonl (word_of_nat (desde_octetos (a, b, c, d)))"
    by (simp add: inet_addr_def inet_ntoa_sin_nulos mult.commute)
  also have "unat \<dots> = desde_octetos (d, c, b, a)"
    using bd desde_octetos_bound [OF bd]
    by (simp add: unat_htonl unat_of_nat take_bit_nat_eq_self octetos_desde_octetos
        del: desde_octetos.simps)
  also have "\<dots> = unat ip" using octetos_inversa [OF _ o] unsigned_less [of ip, where 'a = nat] by simp
  finally show ?thesis by (simp add: word_unat_eq_iff)
qed

lemma inet_ntoa_inject: "inet_ntoa a = inet_ntoa b \<longleftrightarrow> a = b"
  by (metis inet_addr_inet_ntoa)

lemma decimal_255: "decimal 255 = ''255''"
  by (simp add: evalua_decimal)

lemma inet_ntoa_inaddr_none: "inet_ntoa inaddr_none = ''255.255.255.255''"
  by (simp add: inet_ntoa_def inaddr_none_def octetos_def decimal_255)

end
