(* ===== verification/Mapa.thy ===== *)
theory Mapa
  imports Prelude
begin

text \<open>
  \<^verbatim>\<open>std::map\<close> as the sources use it: a table whose iteration order is the order of the keys. The
  interface is the locale \<open>mapa\<close>; \<open>mapa_vectores\<close> adds the lemmas about tables of
  vectors that grow by \<^verbatim>\<open>push_back\<close>; the sorted association lists at the end of the
  theory provide it.
\<close>

subsection \<open>The interface\<close>

locale mapa =
  fixes vacio :: "'m"
    and busca_clave :: "'m \<Rightarrow> 'a::linorder \<Rightarrow> 'b option"
    and pon :: "'a \<Rightarrow> 'b \<Rightarrow> 'm \<Rightarrow> 'm"
    and pares :: "'m \<Rightarrow> ('a \<times> 'b) list"
    and invar :: "'m \<Rightarrow> bool"
  assumes invar_vacio: "invar vacio"
    and invar_pon: "invar m \<Longrightarrow> invar (pon k v m)"
    and busca_vacio: "busca_clave vacio k = None"
    and busca_pon: "invar m \<Longrightarrow> busca_clave (pon k v m) = (busca_clave m)(k \<mapsto> v)"
    and pares_busca: "invar m \<Longrightarrow> (k, v) \<in> set (pares m) \<longleftrightarrow> busca_clave m k = Some v"
    and pares_orden: "invar m \<Longrightarrow> sorted_wrt (<) (map fst (pares m))"
    and pares_pares: "invar m \<Longrightarrow> invar m' \<Longrightarrow> pares m = pares m' \<Longrightarrow> m = m'"
begin

lemma claves: "invar m \<Longrightarrow> set (map fst (pares m)) = dom (busca_clave m)"
  using pares_busca by (force simp: dom_def)

text \<open>Tables with the same lookups are the same table: the order of insertion leaves no trace.\<close>

lemma extensional:
  assumes "invar m" "invar m'" "busca_clave m = busca_clave m'"
  shows "m = m'"
proof -
  have orden: "sorted_wrt (<) (map fst (pares m))" "sorted_wrt (<) (map fst (pares m'))"
    using assms(1,2) pares_orden by simp_all
  have claves_eq: "map fst (pares m) = map fst (pares m')"
    using assms claves orden
    by (metis sorted_list_of_set.idem_if_sorted_distinct strict_sorted_iff)
  have conj: "set (pares m) = set (pares m')"
    using assms pares_busca by auto
  have dist: "distinct (map fst (pares m))"
    using orden(1) strict_sorted_iff by blast
  have "pares m = pares m'"
  proof (rule nth_equalityI)
    show "length (pares m) = length (pares m')"
      using claves_eq by (metis length_map)
    fix i assume i: "i < length (pares m)"
    have k: "fst (pares m ! i) = fst (pares m' ! i)"
      using claves_eq i by (metis length_map nth_map)
    have "pares m ! i \<in> set (pares m)" "pares m' ! i \<in> set (pares m)"
      using i conj claves_eq by (metis length_map nth_mem)+
    then show "pares m ! i = pares m' ! i"
      using dist k by (metis eq_key_imp_eq_value prod.collapse)
  qed
  with assms(1,2) show ?thesis by (rule pares_pares)
qed

lemma pon_conmuta:
  assumes "invar m" "k \<noteq> k'"
  shows "pon k v (pon k' v' m) = pon k' v' (pon k v m)"
  using assms by (intro extensional) (auto simp: invar_pon busca_pon fun_upd_twist)

end

subsection \<open>Tables of vectors\<close>

locale mapa_vectores = mapa vacio busca_clave pon pares invar
  for vacio :: "'m"
    and busca_clave :: "'m \<Rightarrow> 'a::linorder \<Rightarrow> 'c list option"
    and pon :: "'a \<Rightarrow> 'c list \<Rightarrow> 'm \<Rightarrow> 'm"
    and pares :: "'m \<Rightarrow> ('a \<times> 'c list) list"
    and invar :: "'m \<Rightarrow> bool" +
  fixes vector :: "'m \<Rightarrow> 'a \<Rightarrow> 'c list"
    and apila :: "'a \<Rightarrow> 'c \<Rightarrow> 'm \<Rightarrow> 'm"
  assumes vector: "vector m k = (case busca_clave m k of None \<Rightarrow> [] | Some v \<Rightarrow> v)"
    and apila: "apila k d m = pon k (vector m k @ [d]) m"
begin

lemma vector_vacio: "vector vacio k = []"
  by (simp add: vector busca_vacio)

lemma invar_apila: "invar m \<Longrightarrow> invar (apila k d m)"
  by (simp add: apila invar_pon)

lemma vector_apila:
  "invar m \<Longrightarrow> vector (apila k d m) k' = (if k' = k then vector m k @ [d] else vector m k')"
  by (simp add: apila busca_pon vector)

lemma dom_apila: "invar m \<Longrightarrow> dom (busca_clave (apila k d m)) = insert k (dom (busca_clave m))"
  by (simp add: apila busca_pon)

text \<open>A whole sequence of \<^verbatim>\<open>push_back\<close>s: every vector ends with its own elements in order.\<close>

lemma invar_fold_apila: "invar m \<Longrightarrow> invar (foldl (\<lambda>t (k, d). apila k d t) m ps)"
  by (induction ps arbitrary: m) (auto simp: invar_apila)

lemma vector_fold_apila:
  "invar m \<Longrightarrow> vector (foldl (\<lambda>t (k, d). apila k d t) m ps) k =
     vector m k @ map snd (filter (\<lambda>p. fst p = k) ps)"
proof (induction ps arbitrary: m)
  case Nil
  then show ?case by simp
next
  case (Cons p ps)
  then show ?case by (cases p) (auto simp: invar_apila vector_apila)
qed

lemma dom_fold_apila:
  "invar m \<Longrightarrow> dom (busca_clave (foldl (\<lambda>t (k, d). apila k d t) m ps)) =
     dom (busca_clave m) \<union> fst ` set ps"
proof (induction ps arbitrary: m)
  case Nil
  then show ?case by simp
next
  case (Cons p ps)
  then show ?case by (cases p) (auto simp: invar_apila dom_apila)
qed

text \<open>No vector of a table built by \<^verbatim>\<open>push_back\<close> is empty.\<close>

lemma no_vacios_apila:
  assumes "invar m" "\<forall>v \<in> ran (busca_clave m). v \<noteq> []"
  shows "\<forall>v \<in> ran (busca_clave (apila k d m)). v \<noteq> []"
  using assms by (auto simp: apila busca_pon ran_def split: if_splits)

lemma no_vacios_fold_apila:
  assumes "invar m" "\<forall>v \<in> ran (busca_clave m). v \<noteq> []"
  shows "\<forall>v \<in> ran (busca_clave (foldl (\<lambda>t (k, d). apila k d t) m ps)). v \<noteq> []"
  using assms
proof (induction ps arbitrary: m)
  case Nil
  then show ?case by simp
next
  case (Cons p ps)
  obtain k d where p: "p = (k, d)" by (cases p)
  have "invar (apila k d m)" "\<forall>v \<in> ran (busca_clave (apila k d m)). v \<noteq> []"
    using Cons.prems by (simp add: invar_apila, rule no_vacios_apila)
  from Cons.IH [OF this] show ?case by (simp add: p)
qed

text \<open>Where no vector is empty, the vectors determine the table.\<close>

lemma vector_extensional:
  assumes "invar m" "invar m'"
    and "\<forall>v \<in> ran (busca_clave m). v \<noteq> []" "\<forall>v \<in> ran (busca_clave m'). v \<noteq> []"
    and "\<And>k. vector m k = vector m' k"
  shows "m = m'"
proof (rule extensional [OF assms(1,2)], rule ext)
  fix k
  show "busca_clave m k = busca_clave m' k"
    using assms(3,4) assms(5) [of k]
    by (cases "busca_clave m k"; cases "busca_clave m' k") (auto simp: vector ran_def)
qed

end

subsection \<open>Sorted association lists\<close>

fun pon_par :: "'a::linorder \<Rightarrow> 'b \<Rightarrow> ('a \<times> 'b) list \<Rightarrow> ('a \<times> 'b) list" where
  "pon_par k v [] = [(k, v)]"
| "pon_par k v ((a, b) # t) =
     (if k < a then (k, v) # (a, b) # t
      else if k = a then (k, v) # t
      else (a, b) # pon_par k v t)"

definition pares_ok :: "('a::linorder \<times> 'b) list \<Rightarrow> bool" where
  "pares_ok t \<longleftrightarrow> sorted_wrt (<) (map fst t)"

definition vector_de :: "('a \<times> 'c list) list \<Rightarrow> 'a \<Rightarrow> 'c list" where
  "vector_de t k = (case map_of t k of None \<Rightarrow> [] | Some v \<Rightarrow> v)"

definition apila_par :: "'a::linorder \<Rightarrow> 'c \<Rightarrow> ('a \<times> 'c list) list \<Rightarrow> ('a \<times> 'c list) list" where
  "apila_par k d t = pon_par k (vector_de t k @ [d]) t"

lemma set_pon_par: "fst ` set (pon_par k v t) = insert k (fst ` set t)"
  by (induction k v t rule: pon_par.induct) auto

lemma pares_ok_pon_par: "pares_ok t \<Longrightarrow> pares_ok (pon_par k v t)"
proof (induction k v t rule: pon_par.induct)
  case (1 k v)
  then show ?case by (simp add: pares_ok_def)
next
  case (2 k v a b t)
  then have "pares_ok t" by (simp add: pares_ok_def)
  with 2 have IH: "\<not> k < a \<Longrightarrow> k \<noteq> a \<Longrightarrow> pares_ok (pon_par k v t)" by simp
  have "\<forall>x \<in> fst ` set t. a < x" using "2.prems" by (simp add: pares_ok_def)
  then have "\<not> k < a \<Longrightarrow> k \<noteq> a \<Longrightarrow> \<forall>x \<in> fst ` set (pon_par k v t). a < x"
    by (simp only: set_pon_par) (auto simp: not_less_iff_gr_or_eq)
  with 2 IH show ?case
    by (auto simp: pares_ok_def)
qed

lemma map_of_pon_par: "map_of (pon_par k v t) = (map_of t)(k \<mapsto> v)"
  by (induction k v t rule: pon_par.induct) (auto simp: fun_upd_twist)

lemma pares_ok_distinct: "pares_ok t \<Longrightarrow> distinct (map fst t)"
  by (simp add: pares_ok_def strict_sorted_iff)

interpretation tabla_pares: mapa "[] :: ('a::linorder \<times> 'b) list" map_of pon_par "\<lambda>t. t" pares_ok
proof unfold_locales
  show "pares_ok []" by (simp add: pares_ok_def)
qed (auto simp: pares_ok_pon_par map_of_pon_par pares_ok_distinct pares_ok_def [symmetric])

interpretation tabla_vectores: mapa_vectores "[] :: ('a::linorder \<times> 'c list) list" map_of pon_par
  "\<lambda>t. t" pares_ok vector_de apila_par
  by unfold_locales (simp_all add: vector_de_def apila_par_def)

lemmas [mapa_simps] =
  map_of_pon_par tabla_vectores.vector_apila tabla_vectores.vector_vacio
  tabla_vectores.invar_apila

end
