(* ===== verification/Almacen.thy ===== *)
theory Almacen
  imports Red Mapa
begin

text \<open>
  The address store of the server, class \<^verbatim>\<open>AlmacenDirecciones\<close> of \<^verbatim>\<open>includes/almacen.h\<close> and
  \<^verbatim>\<open>includes/almacen.cpp\<close>: a table from file names to the addresses (IP and port, both in network
  byte order) of the clients that offer the file. This theory holds the in-memory operations;
  saving and restoring are in \<open>Persistencia\<close>, the HTML page in \<open>Pagina\<close>.
\<close>

subsection \<open>State and operations\<close>

type_synonym par_ip_puerto = "uint32 \<times> uint16"
type_synonym tabla_ficheros = "(string \<times> par_ip_puerto list) list"

record almacen_direcciones =
  tabla :: tabla_ficheros

definition delimiter :: string where
  "delimiter = ''</>''"

text \<open>The \<^verbatim>\<open>while\<close> loop of \<^verbatim>\<open>separar_string\<close>: cut at every delimiter, drop what follows the last.\<close>

function tokens_de :: "string \<Rightarrow> string list" where
  "tokens_de s =
     (case busca delimiter s of
        None \<Rightarrow> []
      | Some pos \<Rightarrow> take pos s # tokens_de (drop (pos + length delimiter) s))"
  by pat_completeness auto
termination
proof (relation "measure length")
  fix s pos assume "busca delimiter s = Some pos"
  then have "pos + length delimiter \<le> length s" by (rule busca_bound)
  then show "(drop (pos + length delimiter) s, s) \<in> measure length"
    by (simp add: delimiter_def)
qed simp

declare tokens_de.simps [simp del]

definition separar_string :: "string \<Rightarrow> (string \<times> uint32 \<times> uint16) res" where
  "separar_string s =
     (let tokens = tokens_de s in
      bindE (indice tokens 0) (\<lambda>fichero.
      bindE (indice tokens 1) (\<lambda>t1.
      let ip = inet_addr t1 in
      bindE (indice tokens 2) (\<lambda>t2.
      bindE (stoi t2) (\<lambda>n.
      Inr (fichero, ip, htons (word_of_int n)))))))"

definition agregar_cliente ::
  "string \<Rightarrow> almacen_direcciones \<Rightarrow> (bool \<times> almacen_direcciones) res" where
  "agregar_cliente s alm =
     (case separar_string s of
        Inr (fichero, ip, puerto) \<Rightarrow>
          (case map_of (tabla alm) fichero of
             Some v \<Rightarrow> Inr (True, alm\<lparr>tabla := pon_par fichero (v @ [(ip, puerto)]) (tabla alm)\<rparr>)
           | None \<Rightarrow> Inr (True, alm\<lparr>tabla := pon_par fichero [(ip, puerto)] (tabla alm)\<rparr>))
      | Inl (Excepcion e) \<Rightarrow> Inr (False, alm)
      | Inl Indefinido \<Rightarrow> Inl Indefinido)"

definition ip_puerto_to_string :: "uint32 \<Rightarrow> uint16 \<Rightarrow> string \<times> string" where
  "ip_puerto_to_string ip puerto = (inet_ntoa ip, decimal (unat (ntohs puerto)))"

definition obtener_cliente :: "string \<Rightarrow> almacen_direcciones \<Rightarrow> (bool \<times> string) res" where
  "obtener_cliente fichero alm =
     (case map_of (tabla alm) fichero of
        Some v \<Rightarrow>
          bindE (indice v 0) (\<lambda>d.
          let (ip, puerto) = ip_puerto_to_string (fst d) (snd d) in
          Inr (True, ''tcp://'' @ ip @ '':'' @ puerto))
      | None \<Rightarrow> Inr (False, ''EMPTY''))"

definition to_string_direccion :: "par_ip_puerto \<Rightarrow> string" where
  "to_string_direccion d =
     (let (ip, puerto) = ip_puerto_to_string (fst d) (snd d) in
      [CHR 0x09] @ ''ip: '' @ ip @ [CHR 0x0A, CHR 0x09] @ ''puerto: '' @ puerto @ [CHR 0x0A])"

text \<open>What \<^verbatim>\<open>AlmacenDirecciones::to_string\<close> writes to the standard output.\<close>

definition to_string :: "almacen_direcciones \<Rightarrow> string" where
  "to_string alm =
     concat (map (\<lambda>f. ''Nombre fichero: '' @ fst f @ [CHR 0x0A] @
                      concat (map to_string_direccion (snd f))) (tabla alm))"

definition obtener_ficheros :: "almacen_direcciones \<Rightarrow> string" where
  "obtener_ficheros alm = concat (map (\<lambda>f. fst f @ '' '') (tabla alm))"

subsection \<open>Invariant and abstract view\<close>

text \<open>
  Invariant of the class: the table is ordered by name without repetitions (\<^verbatim>\<open>std::map\<close>) and no
  name is left without an address. The abstract view of the store is the vector of addresses of
  each name.
\<close>

definition almacen_ok :: "almacen_direcciones \<Rightarrow> bool" where
  "almacen_ok alm \<longleftrightarrow> pares_ok (tabla alm) \<and> (\<forall>v \<in> ran (map_of (tabla alm)). v \<noteq> [])"

definition direcciones :: "almacen_direcciones \<Rightarrow> string \<Rightarrow> par_ip_puerto list" where
  "direcciones alm f = vector_de (tabla alm) f"

definition almacen_vacio :: almacen_direcciones where
  "almacen_vacio = \<lparr>tabla = []\<rparr>"

text \<open>A request as the client builds it: name, IP and port, each closed by the separator.\<close>

definition peticion :: "string \<Rightarrow> string \<Rightarrow> string \<Rightarrow> string" where
  "peticion f ip p = f @ delimiter @ ip @ delimiter @ p @ delimiter"

definition sin_separador :: "string \<Rightarrow> bool" where
  "sin_separador s \<longleftrightarrow> \<not> aparece delimiter s"

subsection \<open>Cutting requests\<close>

lemma tokens_de_ninguno: "sin_separador s \<Longrightarrow> tokens_de s = []"
  by (subst tokens_de.simps) (simp add: sin_separador_def aparece_def)

lemma tokens_de_append:
  assumes "sin_separador s"
  shows "tokens_de (s @ delimiter @ r) = s # tokens_de r"
proof -
  have "busca delimiter (s @ delimiter @ r) = Some (length s)"
    using assms by (intro busca_append [where c = "CHR ''<''" and ds = "''/>''"])
      (simp_all add: delimiter_def sin_separador_def aparece_def)
  then show ?thesis by (subst tokens_de.simps) (simp add: delimiter_def)
qed

lemma tokens_de_peticion:
  assumes "sin_separador f" "sin_separador ip" "sin_separador p"
  shows "tokens_de (peticion f ip p) = [f, ip, p]"
proof -
  have "sin_separador []" by (simp add: sin_separador_def aparece_def delimiter_def)
  then show ?thesis
    using assms tokens_de_append [of p "[]"]
    by (simp add: peticion_def tokens_de_append tokens_de_ninguno)
qed

text \<open>No token contains the separator.\<close>

lemma tokens_de_sin_separador: "t \<in> set (tokens_de s) \<Longrightarrow> sin_separador t"
proof (induction s rule: tokens_de.induct)
  case (1 s)
  show ?case
  proof (cases "busca delimiter s")
    case None
    with "1.prems" show ?thesis by (subst (asm) tokens_de.simps) simp
  next
    case (Some pos)
    have b: "pos + length delimiter \<le> length s" using Some by (rule busca_bound)
    have "busca delimiter (take pos s) = None"
      unfolding busca_None_iff
    proof (intro allI impI notI)
      fix j assume "j \<le> length (take pos s)"
        and h: "take (length delimiter) (drop j (take pos s)) = delimiter"
      have len: "length delimiter \<le> pos - j"
        using arg_cong [OF h, of length] b by (simp add: delimiter_def)
      then have "j < pos" by (simp add: delimiter_def)
      moreover have "take (length delimiter) (drop j s) = delimiter"
        using h len by (simp add: drop_take min_def split: if_splits)
      ultimately show False using busca_least [OF Some] by blast
    qed
    then have "sin_separador (take pos s)" by (simp add: sin_separador_def aparece_def)
    moreover have "t = take pos s \<or> t \<in> set (tokens_de (drop (pos + length delimiter) s))"
      using "1.prems" Some by (subst (asm) tokens_de.simps) simp
    ultimately show ?thesis using "1.IH" [OF Some] by blast
  qed
qed

text \<open>Any text closed by the separator has a token: each closing gives one more, whatever the texts hold.\<close>

lemma tokens_de_append_le:
  "length (tokens_de r) < length (tokens_de (s @ delimiter @ r))"
proof (induction s rule: tokens_de.induct)
  case (1 s)
  show ?case
  proof (cases "busca delimiter s")
    case None
    then have "tokens_de (s @ delimiter @ r) = s # tokens_de r"
      by (intro tokens_de_append) (simp add: sin_separador_def aparece_def)
    then show ?thesis by simp
  next
    case (Some pos)
    let ?n = "pos + length delimiter"
    have b: "?n \<le> length s" using Some by (rule busca_bound)
    have "busca delimiter (s @ delimiter @ r) = Some pos"
    proof (rule busca_SomeI)
      show "take (length delimiter) (drop pos (s @ delimiter @ r)) = delimiter"
        using busca_match [OF Some] b by simp
      show "pos \<le> length (s @ delimiter @ r)" using b by simp
      show "take (length delimiter) (drop j (s @ delimiter @ r)) \<noteq> delimiter" if "j < pos" for j
        using busca_least [OF Some that] b that by simp
    qed
    then have "tokens_de (s @ delimiter @ r) = take pos s # tokens_de (drop ?n s @ delimiter @ r)"
      using b by (subst tokens_de.simps) simp
    then show ?thesis using "1.IH" [OF Some] by simp
  qed
qed

text \<open>A token is a text that the separator closes, and the others come from what follows.\<close>

lemma tokens_de_Cons:
  assumes "tokens_de s = t # ts"
  obtains r where "s = t @ delimiter @ r" "tokens_de r = ts"
proof (cases "busca delimiter s")
  case None
  then show ?thesis using assms by (subst (asm) tokens_de.simps) simp
next
  case (Some pos)
  then have t: "t = take pos s" "ts = tokens_de (drop (pos + length delimiter) s)"
    using assms by (subst (asm) tokens_de.simps, simp)+
  have "s = take pos s @ take (length delimiter) (drop pos s) @ drop (pos + length delimiter) s"
    by (metis append_take_drop_id drop_drop add.commute)
  then show ?thesis using that t busca_match [OF Some] by simp
qed

lemma tres_separadores:
  "3 \<le> length (tokens_de s) \<longleftrightarrow> (\<exists>a b c r. s = a @ delimiter @ b @ delimiter @ c @ delimiter @ r)"
proof
  assume "3 \<le> length (tokens_de s)"
  then obtain a b c ts where "tokens_de s = a # b # c # ts" by (metis Suc_le_length_iff numeral_3_eq_3)
  then show "\<exists>a b c r. s = a @ delimiter @ b @ delimiter @ c @ delimiter @ r"
    by (elim tokens_de_Cons) auto
next
  assume "\<exists>a b c r. s = a @ delimiter @ b @ delimiter @ c @ delimiter @ r"
  then obtain a b c r where s: "s = a @ delimiter @ b @ delimiter @ c @ delimiter @ r" by blast
  have "length (tokens_de r) < length (tokens_de (c @ delimiter @ r))" by (rule tokens_de_append_le)
  moreover have "\<dots> < length (tokens_de (b @ delimiter @ c @ delimiter @ r))" by (rule tokens_de_append_le)
  moreover have "\<dots> < length (tokens_de s)" unfolding s by (rule tokens_de_append_le)
  ultimately show "3 \<le> length (tokens_de s)" by linarith
qed

lemma separar_string_tokens:
  "tokens_de s = f # ip # p # r \<Longrightarrow>
     separar_string s = bindE (stoi p) (\<lambda>n. Inr (f, inet_addr ip, htons (word_of_int n)))"
  by (simp add: separar_string_def indice_def)

lemma tres_tokens:
  assumes "3 \<le> length ts"
  obtains f ip p r where "ts = f # ip # p # r"
  using assms by (metis Suc_le_length_iff numeral_3_eq_3)

lemma separar_string_indefinido_iff:
  "separar_string s = Inl Indefinido \<longleftrightarrow> length (tokens_de s) < 3"
proof (cases "3 \<le> length (tokens_de s)")
  case True
  then obtain f ip p r where t: "tokens_de s = f # ip # p # r" by (rule tres_tokens)
  have "separar_string s \<noteq> Inl Indefinido"
    using stoi_solo_excepciones [of p]
    by (cases "stoi p") (auto simp: separar_string_tokens [OF t])
  with True show ?thesis by simp
next
  case False
  then have "tokens_de s = [] \<or> (\<exists>a. tokens_de s = [a]) \<or> (\<exists>a b. tokens_de s = [a, b])"
    by (cases "tokens_de s"; cases "tl (tokens_de s)"; cases "tl (tl (tokens_de s))") auto
  then have "separar_string s = Inl Indefinido"
    by (auto simp: separar_string_def indice_def)
  with False show ?thesis by simp
qed

subsection \<open>The operations against the abstract view\<close>

lemma agregar_cliente_apila:
  "separar_string s = Inr (f, ip, p) \<Longrightarrow>
     agregar_cliente s alm = Inr (True, alm\<lparr>tabla := apila_par f (ip, p) (tabla alm)\<rparr>)"
  by (simp add: agregar_cliente_def apila_par_def vector_de_def split: option.split)

lemma agregar_cliente_casos:
  assumes "agregar_cliente s alm = Inr (b, alm')"
  obtains (rechazada) e where "separar_string s = Inl (Excepcion e)" "\<not> b" "alm' = alm"
  | (agregada) f ip p where "separar_string s = Inr (f, ip, p)" "b"
      "alm' = alm\<lparr>tabla := apila_par f (ip, p) (tabla alm)\<rparr>"
proof (cases "separar_string s")
  case (Inl e)
  with assms rechazada show thesis
    by (cases e) (auto simp: agregar_cliente_def)
next
  case (Inr x)
  obtain f ip p where x: "x = (f, ip, p)" by (cases x)
  with Inr assms agregada show thesis by (simp add: agregar_cliente_apila)
qed

lemma almacen_ok_vacio: "almacen_ok almacen_vacio"
  by (simp add: almacen_ok_def almacen_vacio_def pares_ok_def)

lemma almacen_ok_apila:
  assumes "almacen_ok alm"
  shows "almacen_ok (alm\<lparr>tabla := apila_par f d (tabla alm)\<rparr>)"
  using assms tabla_vectores.no_vacios_apila [of "tabla alm"]
    tabla_vectores.invar_apila [of "tabla alm"]
  by (auto simp: almacen_ok_def)

lemma direcciones_apila:
  assumes "almacen_ok alm"
  shows "direcciones (alm\<lparr>tabla := apila_par f d (tabla alm)\<rparr>) g =
    (if g = f then direcciones alm f @ [d] else direcciones alm g)"
  using assms by (simp add: direcciones_def almacen_ok_def tabla_vectores.vector_apila)

lemma agregar_cliente_invariante:
  "agregar_cliente s alm = Inr (b, alm') \<Longrightarrow> almacen_ok alm \<Longrightarrow> almacen_ok alm'"
  by (erule agregar_cliente_casos) (simp_all add: almacen_ok_apila)

lemma direcciones_vacia_iff:
  "almacen_ok alm \<Longrightarrow> direcciones alm f = [] \<longleftrightarrow> map_of (tabla alm) f = None"
  by (auto simp: almacen_ok_def direcciones_def vector_de_def ran_def split: option.splits)

lemma obtener_cliente_direcciones:
  assumes "almacen_ok alm"
  shows "obtener_cliente f alm =
    (case direcciones alm f of
       [] \<Rightarrow> Inr (False, ''EMPTY'')
     | d # _ \<Rightarrow> Inr (True, ''tcp://'' @ inet_ntoa (fst d) @ '':'' @ decimal (unat (ntohs (snd d)))))"
proof (cases "map_of (tabla alm) f")
  case None
  then show ?thesis by (simp add: obtener_cliente_def direcciones_def vector_de_def)
next
  case (Some v)
  with assms have "v \<noteq> []" by (auto simp: almacen_ok_def ran_def)
  then obtain d ds where "v = d # ds" by (cases v) auto
  with Some show ?thesis
    by (simp add: obtener_cliente_def direcciones_def vector_de_def ip_puerto_to_string_def)
qed

subsection \<open>The contract that the servers rely on\<close>

text \<open>
  Both servers (the ZeroMQ loop and the web handlers) use the store through two calls. The locale
  states what they rely on: registrations keep the invariant and only append to what the store
  knows, a lookup in a store that satisfies the invariant never runs into undefined behaviour,
  and its answer depends on the first address only.
\<close>

primrec iteraE :: "('x \<Rightarrow> 's \<Rightarrow> (bool \<times> 's) res) \<Rightarrow> 'x list \<Rightarrow> 's \<Rightarrow> 's res" where
  "iteraE paso [] st = Inr st"
| "iteraE paso (x # xs) st = bindE (paso x st) (\<lambda>r. iteraE paso xs (snd r))"

locale registro =
  fixes invar :: "'s \<Rightarrow> bool"
    and agregar :: "string \<Rightarrow> 's \<Rightarrow> (bool \<times> 's) res"
    and obtener :: "string \<Rightarrow> 's \<Rightarrow> (bool \<times> string) res"
    and vista :: "'s \<Rightarrow> string \<Rightarrow> 'd list"
  assumes invar_agregar: "agregar s st = Inr (b, st') \<Longrightarrow> invar st \<Longrightarrow> invar st'"
    and vista_agregar: "agregar s st = Inr (b, st') \<Longrightarrow> invar st \<Longrightarrow> \<exists>ds. vista st' f = vista st f @ ds"
    and rechazo: "agregar s st = Inr (False, st') \<Longrightarrow> st' = st"
    and obtener_definido: "invar st \<Longrightarrow> \<exists>r. obtener f st = Inr r"
    and obtener_primera: "invar st \<Longrightarrow> invar st' \<Longrightarrow> vista st f \<noteq> [] \<Longrightarrow> vista st' f = vista st f @ ds \<Longrightarrow>
      obtener f st' = obtener f st"
begin

lemma iteraE_invar: "iteraE agregar ss st = Inr st' \<Longrightarrow> invar st \<Longrightarrow> invar st'"
  by (induction ss arbitrary: st) (auto simp: bindE_eq_Inr_iff invar_agregar)

lemma iteraE_vista:
  "iteraE agregar ss st = Inr st' \<Longrightarrow> invar st \<Longrightarrow> \<exists>ds. vista st' f = vista st f @ ds"
proof (induction ss arbitrary: st)
  case Nil
  then show ?case by simp
next
  case (Cons s ss)
  then obtain b st1 where 1: "agregar s st = Inr (b, st1)" and 2: "iteraE agregar ss st1 = Inr st'"
    by (auto simp: bindE_eq_Inr_iff)
  from Cons.IH [OF 2 invar_agregar [OF 1 Cons.prems(2)]]
  obtain ds where "vista st' f = vista st1 f @ ds" by blast
  moreover obtain ds' where "vista st1 f = vista st f @ ds'"
    using vista_agregar [OF 1 Cons.prems(2)] by blast
  ultimately show ?case by simp
qed

text \<open>Whatever is registered later, the answer for a known file does not change.\<close>

lemma obtener_estable:
  assumes "iteraE agregar ss st = Inr st'" "invar st" "vista st f \<noteq> []"
  shows "obtener f st' = obtener f st"
  using assms iteraE_vista iteraE_invar obtener_primera by metis

end

lemma agregar_cliente_vista:
  assumes "agregar_cliente s alm = Inr (b, alm')" "almacen_ok alm"
  shows "\<exists>ds. direcciones alm' f = direcciones alm f @ ds"
  using assms by (elim agregar_cliente_casos) (auto simp: direcciones_apila)

interpretation reg: registro almacen_ok agregar_cliente obtener_cliente direcciones
proof unfold_locales
  show "agregar_cliente s st = Inr (False, st') \<Longrightarrow> st' = st" for s st st'
    by (erule agregar_cliente_casos) simp_all
  show "\<exists>r. obtener_cliente f st = Inr r" if "almacen_ok st" for f st
    using that by (auto simp: obtener_cliente_direcciones split: list.split)
  show "obtener_cliente f st' = obtener_cliente f st"
    if "almacen_ok st" "almacen_ok st'" "direcciones st f \<noteq> []"
      "direcciones st' f = direcciones st f @ ds" for f st st' ds
    using that by (cases "direcciones st f") (simp_all add: obtener_cliente_direcciones)
qed (fact agregar_cliente_invariante agregar_cliente_vista)+

lemma agregar_cliente_peticion:
  assumes "sin_separador f" "sin_separador ip" "sin_separador p" "stoi p = Inr n"
  shows "agregar_cliente (peticion f ip p) alm =
    Inr (True, alm\<lparr>tabla := apila_par f (inet_addr ip, htons (word_of_int n)) (tabla alm)\<rparr>)"
  using assms by (simp add: agregar_cliente_apila separar_string_tokens tokens_de_peticion)

lemma unat_word_of_int_16: "unat (word_of_int n :: uint16) = nat (n mod 65536)"
  by (simp add: unat_eq_nat_uint uint_word_of_int)

lemma obtener_cliente_apila:
  assumes "almacen_ok alm"
  shows "obtener_cliente f (alm\<lparr>tabla := apila_par f (ip, htons (word_of_int n)) (tabla alm)\<rparr>) =
    (if direcciones alm f = []
     then Inr (True, ''tcp://'' @ inet_ntoa ip @ '':'' @ decimal (nat (n mod 65536)))
     else obtener_cliente f alm)"
  using assms
  by (simp add: obtener_cliente_direcciones almacen_ok_apila direcciones_apila unat_word_of_int_16
      split: list.split)

subsection \<open>Properties of the store\<close>

text \<open>C3. A well-formed request whose port is an integer is accepted: exactly one address, the
  one of the request, is appended to the vector of its file, no other file changes, and the
  invariant of the store is kept.\<close>

theorem agregar_cliente_registra:
  assumes "almacen_ok alm" "sin_separador f" "sin_separador ip" "sin_separador p" "stoi p = Inr n"
  shows "\<exists>alm'. agregar_cliente (peticion f ip p) alm = Inr (True, alm') \<and> almacen_ok alm' \<and>
    (\<forall>g. direcciones alm' g =
       (if g = f then direcciones alm f @ [(inet_addr ip, htons (word_of_int n))]
        else direcciones alm g))"
  using assms by (simp add: agregar_cliente_peticion almacen_ok_apila direcciones_apila)

lemma sin_separador_ejemplos:
  "sin_separador ''f.txt''" "sin_separador ''127.0.0.1''" "sin_separador ''5050''"
  by (simp_all add: sin_separador_def aparece_def delimiter_def)

lemma stoi_5050: "stoi ''5050'' = Inr 5050"
  by code_simp

theorem agregar_cliente_registra_testigo:
  "\<exists>alm'. agregar_cliente (peticion ''f.txt'' ''127.0.0.1'' ''5050'') almacen_vacio = Inr (True, alm') \<and>
     almacen_ok alm' \<and>
     (\<forall>g. direcciones alm' g =
       (if g = ''f.txt''
        then direcciones almacen_vacio ''f.txt'' @ [(inet_addr ''127.0.0.1'', htons (word_of_int 5050))]
        else direcciones almacen_vacio g))"
  by (rule agregar_cliente_registra [OF almacen_ok_vacio sin_separador_ejemplos stoi_5050])

text \<open>C24. Undefined behaviour, exactly: \<^verbatim>\<open>agregar_cliente\<close> reads past the end of its token vector if and only if
  the separator does not occur three times in the request, one occurrence after another, whatever stands before,
  between and after them. The \<^verbatim>\<open>catch\<close> of the code does not see this case.\<close>

theorem agregar_cliente_indefinido_iff:
  "agregar_cliente s alm = Inl Indefinido \<longleftrightarrow>
     \<not> (\<exists>a b c r. s = a @ ''</>'' @ b @ ''</>'' @ c @ ''</>'' @ r)"
proof -
  have "agregar_cliente s alm = Inl Indefinido \<longleftrightarrow> separar_string s = Inl Indefinido"
    by (auto simp: agregar_cliente_def split: sum.splits fallo.splits option.splits prod.splits)
  also have "\<dots> \<longleftrightarrow> \<not> 3 \<le> length (tokens_de s)" by (simp add: separar_string_indefinido_iff not_le)
  finally show ?thesis unfolding tres_separadores delimiter_def .
qed

text \<open>\<^verbatim>\<open>agregar_cliente\<close> answers \<^verbatim>\<open>false\<close> exactly when the request has its three fields and the
  port field is not an \<^verbatim>\<open>int\<close>; the store is then unchanged. No other defect of a request is
  reported.\<close>

theorem agregar_cliente_rechaza_iff:
  "agregar_cliente s alm = Inr (False, alm') \<longleftrightarrow>
     alm' = alm \<and> (\<exists>f ip p r e. tokens_de s = f # ip # p # r \<and> stoi p = Inl (Excepcion e))"
proof
  assume h: "agregar_cliente s alm = Inr (False, alm')"
  then have "separar_string s \<noteq> Inl Indefinido" by (auto simp: agregar_cliente_def)
  then have "3 \<le> length (tokens_de s)" by (simp add: separar_string_indefinido_iff)
  then obtain f ip p r where t: "tokens_de s = f # ip # p # r" by (rule tres_tokens)
  from h show "alm' = alm \<and> (\<exists>f ip p r e. tokens_de s = f # ip # p # r \<and> stoi p = Inl (Excepcion e))"
    by (rule agregar_cliente_casos)
      (auto simp: separar_string_tokens [OF t] t bindE_eq_Inl_iff)
next
  assume "alm' = alm \<and> (\<exists>f ip p r e. tokens_de s = f # ip # p # r \<and> stoi p = Inl (Excepcion e))"
  then show "agregar_cliente s alm = Inr (False, alm')"
    by (auto simp: agregar_cliente_def separar_string_tokens)
qed

text \<open>Registering a file and asking for it: for a file the store did not know the answer holds
  the IP as \<^verbatim>\<open>inet_addr\<close> understood it and the port reduced modulo 65536; for a known file the
  answer stays the one of its first registration.\<close>

theorem obtener_tras_agregar:
  assumes "almacen_ok alm"
    and "sin_separador f" "sin_separador ip" "sin_separador p" "stoi p = Inr n"
    and "agregar_cliente (peticion f ip p) alm = Inr (b, alm')"
  shows "obtener_cliente f alm' =
    (if direcciones alm f = []
     then Inr (True, ''tcp://'' @ inet_ntoa (inet_addr ip) @ '':'' @ decimal (nat (n mod 65536)))
     else obtener_cliente f alm)"
  using assms obtener_cliente_apila by (auto simp: agregar_cliente_peticion)

lemma agregar_ejemplo:
  "agregar_cliente (peticion ''f.txt'' ''127.0.0.1'' ''5050'') almacen_vacio =
     Inr (True, \<lparr>tabla = [(''f.txt'', [(inet_addr ''127.0.0.1'', htons (word_of_int 5050))])]\<rparr>)"
  by (simp only: agregar_cliente_peticion [OF sin_separador_ejemplos stoi_5050])
    (simp add: almacen_vacio_def apila_par_def vector_de_def)

theorem obtener_tras_agregar_testigo:
  "obtener_cliente ''f.txt''
     \<lparr>tabla = [(''f.txt'', [(inet_addr ''127.0.0.1'', htons (word_of_int 5050))])]\<rparr> =
   Inr (True, ''tcp://'' @ inet_ntoa (inet_addr ''127.0.0.1'') @ '':'' @ decimal (nat (5050 mod 65536)))"
  using obtener_tras_agregar
    [OF almacen_ok_vacio sin_separador_ejemplos stoi_5050 agregar_ejemplo]
  by (simp add: direcciones_def almacen_vacio_def vector_de_def)

lemma sin_separador_sin_menor: "CHR ''<'' \<notin> set s \<Longrightarrow> sin_separador s"
  by (auto simp: sin_separador_def aparece_def delimiter_def busca_None_iff)
    (metis in_set_dropD in_set_takeD list.set_intros(1))

lemma sin_separador_impresa: "sin_separador (decimal n)" "sin_separador (inet_ntoa ip)"
  by (auto intro!: sin_separador_sin_menor dest: decimal_es_digito inet_ntoa_caracteres simp: es_digito_def)

lemma stoi_puerto: "p < 65536 \<Longrightarrow> stoi (decimal p) = Inr (int p)"
  using stoi_decimal [of p "[]"] by (simp add: int_max_def)

lemma registro_impreso:
  assumes "almacen_ok alm" "direcciones alm f = []" "sin_separador f" "n < 65536"
  shows "\<exists>alm'. agregar_cliente (peticion f (inet_ntoa a) (decimal n)) alm = Inr (True, alm') \<and>
    obtener_cliente f alm' = Inr (True, ''tcp://'' @ inet_ntoa a @ '':'' @ decimal n)"
proof -
  have "agregar_cliente (peticion f (inet_ntoa a) (decimal n)) alm =
      Inr (True, alm\<lparr>tabla := apila_par f (a, htons (word_of_int (int n))) (tabla alm)\<rparr>)"
    using agregar_cliente_peticion [OF assms(3) sin_separador_impresa(2,1) stoi_puerto [OF assms(4)]]
    by (simp add: inet_addr_inet_ntoa)
  moreover have "nat (int n mod 65536) = n" using assms(4) by simp
  ultimately show ?thesis
    using obtener_cliente_apila [OF assms(1), of f a "int n"] assms(2) by simp
qed

text \<open>C15. Round trip of an address: for every 32-bit address and every port below 65536, printing
  them, registering the printed request under a new name and looking the name up gives back
  exactly the printed IP and port.\<close>

theorem registro_ida_y_vuelta:
  assumes "almacen_ok alm" "direcciones alm f = []" "sin_separador f" "n < 65536"
  shows "\<exists>alm'. agregar_cliente (peticion f (inet_ntoa a) (decimal n)) alm = Inr (True, alm') \<and>
    obtener_cliente f alm' = Inr (True, ''tcp://'' @ inet_ntoa a @ '':'' @ decimal n)"
  using assms by (rule registro_impreso)

theorem registro_ida_y_vuelta_testigo:
  "\<exists>alm'. agregar_cliente (peticion ''f.txt'' (inet_ntoa 16777343) (decimal 5050)) almacen_vacio =
      Inr (True, alm') \<and>
    obtener_cliente ''f.txt'' alm' = Inr (True, ''tcp://'' @ inet_ntoa 16777343 @ '':'' @ decimal 5050)"
  by (rule registro_ida_y_vuelta [OF almacen_ok_vacio _ sin_separador_ejemplos(1)])
    (simp_all add: direcciones_def almacen_vacio_def vector_de_def)

text \<open>The store answers a lookup with the first address that was registered, and goes on doing
  so: no sequence of later requests, accepted or rejected, changes the answer for a known file.\<close>

theorem primera_direccion_permanece:
  assumes "iteraE agregar_cliente peticiones alm = Inr alm'" "almacen_ok alm" "direcciones alm f \<noteq> []"
  shows "obtener_cliente f alm' = obtener_cliente f alm"
  using assms by (rule reg.obtener_estable)

definition almacen_ejemplo :: almacen_direcciones where
  "almacen_ejemplo =
     \<lparr>tabla = [(''a.txt'', [(16777343, 47635)]), (''f.txt'', [(16777343, 47635)])]\<rparr>"

lemma almacen_ejemplo_ok: "almacen_ok almacen_ejemplo"
  by (auto simp: almacen_ok_def almacen_ejemplo_def pares_ok_def ran_def split: if_splits)

theorem primera_direccion_permanece_testigo:
  "obtener_cliente ''f.txt'' (almacen_ejemplo\<lparr>tabla :=
     apila_par ''f.txt'' (inet_addr ''127.0.0.1'', htons (word_of_int 5050)) (tabla almacen_ejemplo)\<rparr>) =
   obtener_cliente ''f.txt'' almacen_ejemplo"
proof (rule primera_direccion_permanece [where peticiones = "[peticion ''f.txt'' ''127.0.0.1'' ''5050'']"])
  show "iteraE agregar_cliente [peticion ''f.txt'' ''127.0.0.1'' ''5050''] almacen_ejemplo =
    Inr (almacen_ejemplo\<lparr>tabla :=
      apila_par ''f.txt'' (inet_addr ''127.0.0.1'', htons (word_of_int 5050)) (tabla almacen_ejemplo)\<rparr>)"
    by (simp add: agregar_cliente_peticion [OF sin_separador_ejemplos stoi_5050])
  show "almacen_ok almacen_ejemplo" by (rule almacen_ejemplo_ok)
  show "direcciones almacen_ejemplo ''f.txt'' \<noteq> []"
    by (simp add: direcciones_def vector_de_def almacen_ejemplo_def)
qed

text \<open>Every operation that changes the store keeps its invariant, for any request, and from a
  store that satisfies it a lookup never reads an empty vector: it returns for every name, with
  an address exactly when the name has one.\<close>

theorem almacen_invariante:
  assumes "almacen_ok alm" "iteraE agregar_cliente peticiones alm = Inr alm'"
  shows "almacen_ok alm' \<and>
    (\<exists>r. obtener_cliente f alm' = Inr r \<and> (fst r \<longleftrightarrow> direcciones alm' f \<noteq> []))"
proof -
  have "almacen_ok alm'" using assms by (blast intro: reg.iteraE_invar)
  then show ?thesis by (auto simp: obtener_cliente_direcciones split: list.split)
qed

theorem almacen_invariante_testigo:
  "almacen_ok almacen_ejemplo \<and>
    (\<exists>r. obtener_cliente ''f.txt'' almacen_ejemplo = Inr r \<and>
       (fst r \<longleftrightarrow> direcciones almacen_ejemplo ''f.txt'' \<noteq> []))"
  by (rule almacen_invariante [where peticiones = "[]", OF almacen_ejemplo_ok]) simp

text \<open>The listing that the server sends loses nothing as long as no name holds a blank: cutting
  it at the blanks gives the registered names in increasing order.\<close>

theorem obtener_ficheros_trozos:
  assumes "almacen_ok alm" "\<forall>f \<in> dom (map_of (tabla alm)). CHR '' '' \<notin> set f"
  shows "trozos (CHR '' '') (obtener_ficheros alm) = sorted_list_of_set (dom (map_of (tabla alm)))"
proof -
  have "trozos (CHR '' '') (concat (map (\<lambda>f. fst f @ '' '') t)) = map fst t"
    if "\<forall>p \<in> set t. CHR '' '' \<notin> set (fst p)" for t :: tabla_ficheros
    using that by (induction t) (auto simp: trozos_append)
  moreover have "\<forall>p \<in> set (tabla alm). CHR '' '' \<notin> set (fst p)"
    using assms(2) by (force simp: dom_map_of_conv_image_fst)
  ultimately have "trozos (CHR '' '') (obtener_ficheros alm) = map fst (tabla alm)"
    by (simp add: obtener_ficheros_def)
  also have "\<dots> = sorted_list_of_set (set (map fst (tabla alm)))"
    using assms(1) unfolding almacen_ok_def pares_ok_def
    by (metis sorted_list_of_set.idem_if_sorted_distinct strict_sorted_iff)
  finally show ?thesis by (simp add: dom_map_of_conv_image_fst)
qed

theorem obtener_ficheros_trozos_testigo:
  "trozos (CHR '' '') (obtener_ficheros almacen_ejemplo) =
     sorted_list_of_set (dom (map_of (tabla almacen_ejemplo)))"
  by (rule obtener_ficheros_trozos [OF almacen_ejemplo_ok])
    (auto simp: almacen_ejemplo_def split: if_splits)

text \<open>An IP that \<^verbatim>\<open>inet_addr\<close> cannot read is not rejected: the request is accepted and the
  server sends downloaders to 255.255.255.255.\<close>

theorem ip_invalida_aceptada:
  assumes "almacen_ok alm" "direcciones alm f = []"
    and "sin_separador f" "sin_separador ip" "sin_separador p" "stoi p = Inr n"
    and "inet_partes [] (c_str ip) = None"
  shows "\<exists>alm'. agregar_cliente (peticion f ip p) alm = Inr (True, alm') \<and>
    obtener_cliente f alm' =
      Inr (True, ''tcp://255.255.255.255:'' @ decimal (nat (n mod 65536)))"
proof -
  have "inet_ntoa (inet_addr ip) = ''255.255.255.255''"
    using assms(7) by (simp add: inet_addr_def inet_ntoa_inaddr_none)
  then show ?thesis
    using assms obtener_cliente_apila [OF assms(1), of f "inet_addr ip" n]
    by (simp add: agregar_cliente_peticion)
qed

lemma ip_invalida_ejemplo: "sin_separador ''localhost''" "inet_partes [] (c_str ''localhost'') = None"
  by (simp add: sin_separador_def aparece_def delimiter_def)
    (simp add: c_str_def inet_partes.simps es_digito_def)

theorem ip_invalida_aceptada_testigo:
  "\<exists>alm'. agregar_cliente (peticion ''f.txt'' ''localhost'' ''5050'') almacen_vacio = Inr (True, alm') \<and>
    obtener_cliente ''f.txt'' alm' =
      Inr (True, ''tcp://255.255.255.255:'' @ decimal (nat (5050 mod 65536)))"
  by (rule ip_invalida_aceptada [OF almacen_ok_vacio _ sin_separador_ejemplos(1)
        ip_invalida_ejemplo(1) sin_separador_ejemplos(3) stoi_5050 ip_invalida_ejemplo(2)])
    (simp add: direcciones_def almacen_vacio_def vector_de_def)

end
