(* ===== verification/Persistencia.thy ===== *)
theory Persistencia
  imports Almacen
begin

text \<open>
  Saving the store to a file and restoring it (\<^verbatim>\<open>salvar_datos\<close> and \<^verbatim>\<open>recuperar_datos\<close> of
  \<^verbatim>\<open>includes/almacen.cpp\<close>). The disk is a map from file names to contents. Whether a file can be
  opened for writing is an argument, since it depends on the file system; a file can be opened
  for reading when it exists. Writes to an open file are taken to succeed, as the code takes them.
\<close>

subsection \<open>The operations\<close>

type_synonym disco = "string \<rightharpoonup> string"

definition escribe_direccion :: "par_ip_puerto \<Rightarrow> string" where
  "escribe_direccion d = decimal (unat (fst d)) @ '' '' @ decimal (unat (snd d)) @ '' ''"

definition escribe_par :: "string \<times> par_ip_puerto list \<Rightarrow> string" where
  "escribe_par par = fst par @ '' '' @ concat (map escribe_direccion (snd par)) @ [CHR 0x0A]"

definition salvar_datos :: "bool \<Rightarrow> string \<Rightarrow> almacen_direcciones \<Rightarrow> disco \<Rightarrow> bool \<times> disco" where
  "salvar_datos abierto nombre_archivo alm d =
     (if \<not> abierto then (False, d)
      else (True, d(nombre_archivo \<mapsto> concat (map escribe_par (tabla alm)))))"

text \<open>\<^verbatim>\<open>while (archivo >> fichero >> ip >> puerto)\<close>: one step of the condition, then the loop.\<close>

definition lee_terna :: "string \<Rightarrow> ((string \<times> par_ip_puerto) \<times> string) option" where
  "lee_terna s =
     (case lee_palabra s of
        None \<Rightarrow> None
      | Some (fichero, r1) \<Rightarrow>
          (case lee_sin_signo r1 of
             None \<Rightarrow> None
           | Some (ip, r2) \<Rightarrow>
               (case lee_sin_signo r2 of
                  None \<Rightarrow> None
                | Some (puerto, r3) \<Rightarrow> Some ((fichero, (ip, puerto)), r3))))"

lemma lee_terna_decrece: "lee_terna s = Some (e, r) \<Longrightarrow> length r < length s"
  unfolding lee_terna_def
  by (auto split: option.splits dest!: lee_palabra_decrece lee_sin_signo_decrece)

function bucle_recuperar :: "string \<Rightarrow> tabla_ficheros \<Rightarrow> tabla_ficheros" where
  "bucle_recuperar s t =
     (case lee_terna s of
        None \<Rightarrow> t
      | Some (e, r) \<Rightarrow> bucle_recuperar r (apila_par (fst e) (snd e) t))"
  by pat_completeness auto
termination
  by (relation "measure (length \<circ> fst)") (auto dest: lee_terna_decrece)

declare bucle_recuperar.simps [simp del]

definition recuperar_datos :: "string \<Rightarrow> almacen_direcciones \<Rightarrow> disco \<Rightarrow> bool \<times> almacen_direcciones" where
  "recuperar_datos nombre_archivo alm d =
     (case d nombre_archivo of
        None \<Rightarrow> (False, alm)
      | Some contenido \<Rightarrow> (True, alm\<lparr>tabla := bucle_recuperar contenido []\<rparr>))"

subsection \<open>The entries that a file holds\<close>

function ternas :: "string \<Rightarrow> (string \<times> par_ip_puerto) list" where
  "ternas s = (case lee_terna s of None \<Rightarrow> [] | Some (e, r) \<Rightarrow> e # ternas r)"
  by pat_completeness auto
termination
  by (relation "measure length") (auto dest: lee_terna_decrece)

declare ternas.simps [simp del]

lemma bucle_recuperar_ternas:
  "bucle_recuperar s t = foldl (\<lambda>t (k, d). apila_par k d t) t (ternas s)"
proof (induction s t rule: bucle_recuperar.induct)
  case (1 s t)
  then show ?case
    by (subst bucle_recuperar.simps, subst ternas.simps)
      (auto split: option.splits)
qed

lemma recuperar_ok: "almacen_ok (alm\<lparr>tabla := bucle_recuperar s []\<rparr>)"
  using tabla_vectores.invar_fold_apila [of "[]" "ternas s"]
    tabla_vectores.no_vacios_fold_apila [of "[]" "ternas s"]
  by (auto simp: almacen_ok_def bucle_recuperar_ternas pares_ok_def)

lemma vector_bucle_recuperar:
  "vector_de (bucle_recuperar s []) f = map snd (filter (\<lambda>p. fst p = f) (ternas s))"
  using tabla_vectores.vector_fold_apila [of "[]" "ternas s" f]
  by (simp add: bucle_recuperar_ternas pares_ok_def tabla_vectores.vector_vacio)

lemma dom_bucle_recuperar: "dom (map_of (bucle_recuperar s [])) = fst ` set (ternas s)"
  using tabla_vectores.dom_fold_apila [of "[]" "ternas s"]
  by (simp add: bucle_recuperar_ternas pares_ok_def)

subsection \<open>Reading what was written\<close>

text \<open>A name that the stream can carry as one word.\<close>

definition nombre_ok :: "string \<Rightarrow> bool" where
  "nombre_ok f \<longleftrightarrow> f \<noteq> [] \<and> list_all (\<lambda>c. \<not> es_espacio c) f"

lemma es_espacio_blancos [simp]: "es_espacio (CHR '' '')" "es_espacio (CHR 0x0A)"
  by (simp_all add: es_espacio_def)

lemma lee_terna_escrita:
  assumes "list_all es_espacio b" "nombre_ok f" "r = [] \<or> es_espacio (hd r)"
  shows "lee_terna (b @ f @ '' '' @ decimal (unat ip) @ '' '' @ decimal (unat p) @ r) = Some ((f, (ip, p)), r)"
proof -
  let ?r2 = "'' '' @ decimal (unat p) @ r"
  let ?r1 = "'' '' @ decimal (unat ip) @ ?r2"
  have "lee_palabra (b @ f @ ?r1) = Some (f, ?r1)"
    using assms(1,2) by (intro lee_palabra_impresa) (simp_all add: nombre_ok_def)
  moreover have "lee_sin_signo ?r1 = Some (ip, ?r2)"
    by (rule lee_sin_signo_impreso) (simp_all add: es_digito_def)
  moreover have "lee_sin_signo ?r2 = Some (p, r)"
    using assms(3) by (intro lee_sin_signo_impreso) (auto simp: es_espacio_no_digito)
  ultimately show ?thesis by (simp add: lee_terna_def)
qed

lemma ternas_escrita:
  assumes "list_all es_espacio b" "nombre_ok f"
  shows "ternas (b @ escribe_par (f, d # ds) @ r) =
    (f, d) # ternas ('' '' @ concat (map escribe_direccion ds) @ [CHR 0x0A] @ r)"
proof -
  obtain ip p where d: "d = (ip, p)" by (cases d)
  have "lee_terna (b @ escribe_par (f, d # ds) @ r) =
      Some ((f, d), '' '' @ concat (map escribe_direccion ds) @ [CHR 0x0A] @ r)"
    using lee_terna_escrita [OF assms, of "'' '' @ concat (map escribe_direccion ds) @ [CHR 0x0A] @ r" ip p]
    by (simp add: d escribe_par_def escribe_direccion_def)
  then show ?thesis by (subst ternas.simps) simp
qed

lemma ternas_tabla_simple:
  assumes "list_all es_espacio b" "\<forall>p \<in> set t. nombre_ok (fst p) \<and> length (snd p) = 1"
  shows "ternas (b @ concat (map escribe_par t) @ r) = map (\<lambda>p. (fst p, hd (snd p))) t @
    ternas ((if t = [] then b else '' '' @ [CHR 0x0A]) @ r)"
  using assms
proof (induction t arbitrary: b)
  case Nil
  then show ?case by simp
next
  case (Cons p t)
  then obtain f d where p: "p = (f, [d])" and f: "nombre_ok f"
    by (cases p) (auto simp: length_Suc_conv)
  have "ternas (b @ concat (map escribe_par (p # t)) @ r) =
      (f, d) # ternas (('' '' @ [CHR 0x0A]) @ concat (map escribe_par t) @ r)"
    using ternas_escrita [OF Cons.prems(1) f, of d "[]"] by (simp add: p)
  also have "\<dots> = (f, d) # map (\<lambda>p. (fst p, hd (snd p))) t @
      ternas ((if t = [] then '' '' @ [CHR 0x0A] else '' '' @ [CHR 0x0A]) @ r)"
    using Cons.prems(2) by (subst Cons.IH) simp_all
  finally show ?case by (simp add: p)
qed

lemma ternas_blancos: "list_all es_espacio b \<Longrightarrow> ternas b = []"
proof -
  assume "list_all es_espacio b"
  then have "salta_espacios b = []"
    by (simp add: salta_espacios_def dropWhile_eq_Nil_conv list_all_iff)
  then show ?thesis by (subst ternas.simps) (simp add: lee_terna_def lee_palabra_def)
qed

text \<open>The first word that follows a multiple entry is the decimal text of the second address.\<close>

lemma ternas_desplazadas:
  assumes "ternas ('' '' @ escribe_direccion d @ r) = e # es"
  shows "fst e = decimal (unat (fst d))"
proof -
  let ?s = "'' '' @ escribe_direccion d @ r"
  have "lee_palabra ?s = Some (decimal (unat (fst d)), '' '' @ decimal (unat (snd d)) @ '' '' @ r)"
    using lee_palabra_impresa [of "'' ''" "decimal (unat (fst d))" "'' '' @ decimal (unat (snd d)) @ '' '' @ r"]
    by (simp add: escribe_direccion_def decimal_no_vacio decimal_sin_espacio)
  moreover have "\<exists>r'. lee_terna ?s = Some (e, r')"
    using assms by (subst (asm) ternas.simps) (auto split: option.splits)
  ultimately show ?thesis by (auto simp: lee_terna_def split: option.splits)
qed

subsection \<open>When a save can be restored\<close>

lemma recuperar_salvar:
  "snd (recuperar_datos n alm' (snd (salvar_datos True n alm d))) =
     alm'\<lparr>tabla := bucle_recuperar (concat (map escribe_par (tabla alm))) []\<rparr>"
  by (simp add: recuperar_datos_def salvar_datos_def)

lemma almacen_ok_pares:
  assumes "almacen_ok alm" "(f, v) \<in> set (tabla alm)"
  shows "map_of (tabla alm) f = Some v" "v \<noteq> []"
  using assms tabla_pares.pares_busca [of "tabla alm"] by (auto simp: almacen_ok_def ran_def)

lemma almacen_igual_iff:
  assumes "almacen_ok alm" "almacen_ok alm'"
  shows "alm = alm' \<longleftrightarrow> (\<forall>f. direcciones alm f = direcciones alm' f)"
proof
  assume "\<forall>f. direcciones alm f = direcciones alm' f"
  then have "tabla alm = tabla alm'"
    using assms unfolding almacen_ok_def direcciones_def
    by (intro tabla_vectores.vector_extensional) auto
  then show "alm = alm'" by simp
qed simp

lemma restaura_simples:
  assumes "almacen_ok alm" "\<forall>p \<in> set (tabla alm). nombre_ok (fst p) \<and> length (snd p) = 1"
  shows "alm\<lparr>tabla := bucle_recuperar (concat (map escribe_par (tabla alm))) []\<rparr> = alm"
proof -
  let ?t = "tabla alm"
  have t: "ternas (concat (map escribe_par ?t)) = map (\<lambda>p. (fst p, hd (snd p))) ?t"
    using ternas_tabla_simple [of "[]" ?t "[]"] assms(2) ternas_blancos [of "'' '' @ [CHR 0x0A]"]
      ternas_blancos [of "[]"] by simp
  have "map (hd \<circ> snd) (filter (\<lambda>p. fst p = f) t) = vector_de t f"
    if "distinct (map fst t)" "\<forall>p \<in> set t. length (snd p) = 1" for f and t :: tabla_ficheros
    using that
  proof (induction t)
    case Nil
    then show ?case by (simp add: vector_de_def)
  next
    case (Cons p t)
    then have "filter (\<lambda>q. fst q = fst p) t = []" by (auto simp: filter_empty_conv image_iff)
    moreover obtain x where "snd p = [x]" using Cons.prems(2) by (auto simp: length_Suc_conv)
    ultimately show ?case using Cons by (cases p) (auto simp: vector_de_def)
  qed
  then have "vector_de (bucle_recuperar (concat (map escribe_par ?t)) []) f = vector_de ?t f" for f
    using assms pares_ok_distinct [of ?t]
    by (auto simp: vector_bucle_recuperar t filter_map comp_def almacen_ok_def)
  then show ?thesis
    using assms(1) recuperar_ok by (simp add: almacen_igual_iff direcciones_def)
qed

text \<open>The first name with several addresses breaks the reading of everything behind it.\<close>

lemma no_restaura_multiples:
  assumes ok: "almacen_ok alm"
    and nombres: "\<forall>p \<in> set (tabla alm). nombre_ok (fst p) \<and> \<not> es_digito (hd (fst p))"
    and malo: "\<exists>p \<in> set (tabla alm). length (snd p) \<noteq> 1"
  shows "alm\<lparr>tabla := bucle_recuperar (concat (map escribe_par (tabla alm))) []\<rparr> \<noteq> alm"
proof
  let ?t = "tabla alm" and ?s = "concat (map escribe_par (tabla alm))"
  assume igual: "alm\<lparr>tabla := bucle_recuperar ?s []\<rparr> = alm"
  obtain pre p post where t: "?t = pre @ p # post" and lp: "length (snd p) \<noteq> 1"
    and pre: "\<forall>q \<in> set pre. length (snd q) = 1"
    using split_list_first_prop [of ?t "\<lambda>q. length (snd q) \<noteq> 1"] malo by blast
  obtain f v where p: "p = (f, v)" by (cases p)
  have "v \<noteq> []" using almacen_ok_pares(2) [OF ok] t p by auto
  with lp p obtain d d' ds where v: "v = d # d' # ds"
    by (cases v; cases "tl v") auto
  define r where "r = concat (map escribe_direccion ds) @ [CHR 0x0A] @ concat (map escribe_par post)"
  have "ternas ?s = map (\<lambda>p. (fst p, hd (snd p))) pre @
      ternas ((if pre = [] then [] else '' '' @ [CHR 0x0A]) @ escribe_par (f, v) @ concat (map escribe_par post))"
    using ternas_tabla_simple [of "[]" pre] pre nombres by (simp add: t p)
  also have "\<dots> = map (\<lambda>p. (fst p, hd (snd p))) pre @ (f, d) # ternas ('' '' @ escribe_direccion d' @ r)"
    using nombres by (subst ternas_escrita [of _ f d "d' # ds", folded v]) (auto simp: t p v r_def)
  finally have ts: "ternas ?s =
      map (\<lambda>p. (fst p, hd (snd p))) pre @ (f, d) # ternas ('' '' @ escribe_direccion d' @ r)" .
  show False
  proof (cases "ternas ('' '' @ escribe_direccion d' @ r)")
    case Nil
    have "distinct (map fst ?t)" using ok by (simp add: almacen_ok_def pares_ok_distinct)
    then have "filter (\<lambda>q. fst q = f) (map (\<lambda>p. (fst p, hd (snd p))) pre) = []"
      by (auto simp: t p filter_empty_conv)
    then have "vector_de (bucle_recuperar ?s []) f = [d]"
      using Nil by (simp add: vector_bucle_recuperar ts)
    moreover have "vector_de ?t f = v"
      using almacen_ok_pares(1) [OF ok, of f v] by (simp add: vector_de_def t p)
    moreover have "bucle_recuperar ?s [] = ?t"
      using arg_cong [OF igual, of tabla] by simp
    ultimately show False using v by simp
  next
    case (Cons e es)
    then have e: "fst e = decimal (unat (fst d'))" by (rule ternas_desplazadas)
    have "fst e \<in> dom (map_of ?t)"
      using arg_cong [OF igual, of tabla] dom_bucle_recuperar [of ?s] ts Cons by auto
    then have "\<not> es_digito (hd (fst e))"
      using nombres by (auto simp: dom_map_of_conv_image_fst)
    then show False by (simp add: e hd_decimal)
  qed
qed

text \<open>C7. Persistence, exactly: for a store whose names are words that do not start with a digit,
  saving it and restoring the file gives the store back if and only if no file is offered by
  more than one client. A second source for a file makes the restored store different.\<close>

theorem recuperar_salvar_iff:
  assumes "almacen_ok alm"
    and "\<forall>p \<in> set (tabla alm). nombre_ok (fst p) \<and> \<not> es_digito (hd (fst p))"
  shows "snd (recuperar_datos n alm (snd (salvar_datos True n alm d))) = alm \<longleftrightarrow>
    (\<forall>f \<in> dom (map_of (tabla alm)). length (direcciones alm f) = 1)"
proof -
  have "(\<forall>f \<in> dom (map_of (tabla alm)). length (direcciones alm f) = 1) \<longleftrightarrow>
      (\<forall>p \<in> set (tabla alm). length (snd p) = 1)"
    using almacen_ok_pares(1) [OF assms(1)]
    by (force simp: direcciones_def vector_de_def dom_map_of_conv_image_fst)
  then show ?thesis
    using assms restaura_simples [OF assms(1)] no_restaura_multiples [OF assms]
    unfolding recuperar_salvar by blast
qed

definition almacen_doble :: almacen_direcciones where
  "almacen_doble = \<lparr>tabla = [(''a.txt'', [(16777343, 47635), (16777343, 47636)])]\<rparr>"

theorem recuperar_salvar_iff_testigo:
  "snd (recuperar_datos ''b'' almacen_doble (snd (salvar_datos True ''b'' almacen_doble Map.empty))) =
     almacen_doble \<longleftrightarrow>
   (\<forall>f \<in> dom (map_of (tabla almacen_doble)). length (direcciones almacen_doble f) = 1)"
proof (rule recuperar_salvar_iff)
  show "almacen_ok almacen_doble"
    by (auto simp: almacen_ok_def almacen_doble_def pares_ok_def ran_def split: if_splits)
  show "\<forall>p \<in> set (tabla almacen_doble). nombre_ok (fst p) \<and> \<not> es_digito (hd (fst p))"
    by (simp add: almacen_doble_def nombre_ok_def es_espacio_def es_digito_def)
qed

text \<open>Round trip: a store in which every file has one source and whose names are words is
  restored exactly, whatever store the restoring process held before and whatever else is on
  disk; the result satisfies the invariant.\<close>

theorem salvar_recuperar_ida_y_vuelta:
  assumes "almacen_ok alm" "\<forall>p \<in> set (tabla alm). nombre_ok (fst p) \<and> length (snd p) = 1"
  shows "recuperar_datos n otro (snd (salvar_datos True n alm d)) = (True, alm)"
  using arg_cong [OF restaura_simples [OF assms], of tabla]
  by (simp add: recuperar_datos_def salvar_datos_def)

theorem salvar_recuperar_ida_y_vuelta_testigo:
  "recuperar_datos ''b'' almacen_vacio (snd (salvar_datos True ''b'' almacen_ejemplo Map.empty)) =
     (True, almacen_ejemplo)"
  by (rule salvar_recuperar_ida_y_vuelta [OF almacen_ejemplo_ok])
    (simp add: almacen_ejemplo_def nombre_ok_def es_espacio_def)

text \<open>Restoring is safe on any file: whatever bytes the backup holds, the loop ends and the
  store it leaves satisfies the invariant, so later lookups are defined; a missing backup leaves
  the store as it was. Each vector of the restored store lists its entries in file order.\<close>

theorem recuperar_datos_invariante:
  "(case recuperar_datos n alm d of (b, alm') \<Rightarrow>
      (b \<longleftrightarrow> d n \<noteq> None) \<and> (\<not> b \<longrightarrow> alm' = alm) \<and>
      (b \<longrightarrow> almacen_ok alm' \<and>
        (\<forall>f. direcciones alm' f = map snd (filter (\<lambda>p. fst p = f) (ternas (the (d n)))))))"
  using recuperar_ok vector_bucle_recuperar
  by (auto simp: recuperar_datos_def direcciones_def split: option.split)

theorem recuperar_datos_invariante_testigo:
  "almacen_ok (snd (recuperar_datos ''b'' almacen_vacio [''b'' \<mapsto> ''x 1 2 y 70000 3'']))"
  using recuperar_datos_invariante
    [where n = "''b''" and alm = almacen_vacio and d = "[''b'' \<mapsto> ''x 1 2 y 70000 3'']"]
  by (simp add: case_prod_beta)

end
