(* ===== verification/Zmq.thy ===== *)
theory Zmq
  imports Prelude
begin

text \<open>
  The two calls of the C++ binding \<^verbatim>\<open>includes/zmq.hpp\<close> through which the programs talk. The C library
  below them is not part of the repository: what a C call returns is an argument (\<open>Zmq_ok\<close>, or
  \<open>Zmq_errno\<close> with the error number), and the binding maps it to a value, to an empty
  optional (\<^verbatim>\<open>EAGAIN\<close>) or to a thrown \<^verbatim>\<open>zmq::error_t\<close>. The alternation of the REQ and REP
  socket types is documented behaviour of that library, stated below as predicates on
  the functions that give the C results.
\<close>

datatype 'a zmq_rc = Zmq_ok 'a | Zmq_errno nat

definition eagain :: nat where
  "eagain = 11"

definition efsm :: nat where
  "efsm = 156384763"

definition socket_recv :: "string zmq_rc \<Rightarrow> string option res" where
  "socket_recv rc =
     (case rc of
        Zmq_ok msg \<Rightarrow> Inr (Some msg)
      | Zmq_errno e \<Rightarrow> if e = eagain then Inr None else throwE (Zmq_error e))"

definition socket_send :: "nat zmq_rc \<Rightarrow> nat option res" where
  "socket_send rc =
     (case rc of
        Zmq_ok nbytes \<Rightarrow> Inr (Some nbytes)
      | Zmq_errno e \<Rightarrow> if e = eagain then Inr None else throwE (Zmq_error e))"

subsection \<open>Sockets that alternate\<close>

text \<open>
  A REP socket receives, then sends; a REQ socket sends, then receives. A call out of turn fails
  with \<^verbatim>\<open>EFSM\<close>; a call in turn delivers the message (blocking mode: the call returns
  when there is one).
\<close>

datatype turno = Debe_recibir | Debe_enviar

type_synonym lib_recv = "turno \<Rightarrow> string \<Rightarrow> string zmq_rc"
type_synonym lib_send = "turno \<Rightarrow> string \<Rightarrow> nat zmq_rc"

definition alterna_recv :: "lib_recv \<Rightarrow> bool" where
  "alterna_recv lr \<longleftrightarrow> (\<forall>m. lr Debe_recibir m = Zmq_ok m \<and> lr Debe_enviar m = Zmq_errno efsm)"

definition alterna_send :: "lib_send \<Rightarrow> bool" where
  "alterna_send ls \<longleftrightarrow> (\<forall>m. ls Debe_enviar m = Zmq_ok (length m) \<and> ls Debe_recibir m = Zmq_errno efsm)"

text \<open>A concrete library that behaves as documented.\<close>

definition recv_ejemplo :: lib_recv where
  "recv_ejemplo t m = (case t of Debe_recibir \<Rightarrow> Zmq_ok m | Debe_enviar \<Rightarrow> Zmq_errno efsm)"

definition send_ejemplo :: lib_send where
  "send_ejemplo t m = (case t of Debe_enviar \<Rightarrow> Zmq_ok (length m) | Debe_recibir \<Rightarrow> Zmq_errno efsm)"

lemma alterna_ejemplo: "alterna_recv recv_ejemplo" "alterna_send send_ejemplo"
  by (simp_all add: alterna_recv_def alterna_send_def recv_ejemplo_def send_ejemplo_def)

lemma socket_recv_en_turno [simp]:
  "alterna_recv lr \<Longrightarrow> socket_recv (lr Debe_recibir m) = Inr (Some m)"
  by (simp add: alterna_recv_def socket_recv_def)

lemma socket_recv_fuera_de_turno [simp]:
  "alterna_recv lr \<Longrightarrow> socket_recv (lr Debe_enviar m) = Inl (Excepcion (Zmq_error efsm))"
  by (simp add: alterna_recv_def socket_recv_def throwE_def efsm_def eagain_def)

lemma socket_send_en_turno [simp]:
  "alterna_send ls \<Longrightarrow> socket_send (ls Debe_enviar m) = Inr (Some (length m))"
  by (simp add: alterna_send_def socket_send_def)

lemma socket_solo_excepciones:
  "socket_recv rc = Inl e \<Longrightarrow> \<exists>n. e = Excepcion (Zmq_error n)"
  "socket_send rc' = Inl e \<Longrightarrow> \<exists>n. e = Excepcion (Zmq_error n)"
  by (auto simp: socket_recv_def socket_send_def throwE_def split: zmq_rc.splits if_splits)

end
