(* ===== verification/Servidor.thy ===== *)
theory Servidor
  imports Persistencia Zmq
begin

text \<open>
  The ZeroMQ side of \<^verbatim>\<open>servidor.cpp\<close>: start-up, the endless request loop of \<^verbatim>\<open>main\<close> over a REP
  socket, and the handler of SIGINT. One step of the model runs the loop from one \<^verbatim>\<open>recv\<close> to
  the next; the program point says which \<^verbatim>\<open>recv\<close> the process is blocked in.
\<close>

subsection \<open>State\<close>

definition SEPARADOR :: string where
  "SEPARADOR = ''</>''"

definition fichero_backup :: string where
  "fichero_backup = ''./storage/datos_almacen.txt''"

definition ack :: string where
  "ack = ''ACK''"

datatype fin_proceso =
    Exit int
  | Sin_capturar excepcion
  | Por_senal int
  | Indefinido_fin

datatype punto =
    Espera_peticion
  | Espera_datos
  | Espera_nombre
  | Espera_crow
  | Terminado fin_proceso

record servidor =
  almacen :: almacen_direcciones
  punto :: punto
  turno :: turno
  respuestas :: "string list"

subsection \<open>The loop\<close>

text \<open>A \<^verbatim>\<open>send\<close> followed by its check: an empty result is \<^verbatim>\<open>exit(-1)\<close>, an exception ends the process.\<close>

definition envia :: "lib_send \<Rightarrow> string \<Rightarrow> punto \<Rightarrow> servidor \<Rightarrow> servidor" where
  "envia ls msg sig s =
     (case socket_send (ls (turno s) msg) of
        Inl (Excepcion e) \<Rightarrow> s\<lparr>punto := Terminado (Sin_capturar e)\<rparr>
      | Inl Indefinido \<Rightarrow> s\<lparr>punto := Terminado Indefinido_fin\<rparr>
      | Inr None \<Rightarrow> s\<lparr>punto := Terminado (Exit (- 1))\<rparr>
      | Inr (Some _) \<Rightarrow>
          s\<lparr>punto := sig, turno := Debe_recibir, respuestas := respuestas s @ [msg]\<rparr>)"

definition listado :: "almacen_direcciones \<Rightarrow> string" where
  "listado alm =
     (let mi_almacen = obtener_ficheros alm in if mi_almacen = [] then ''EMPTY'' else mi_almacen)"

definition atiende_opcion :: "lib_send \<Rightarrow> string \<Rightarrow> servidor \<Rightarrow> servidor" where
  "atiende_opcion ls msg s =
     (case stoi msg of
        Inl (Excepcion e) \<Rightarrow> s\<lparr>punto := Terminado (Sin_capturar e)\<rparr>
      | Inl Indefinido \<Rightarrow> s\<lparr>punto := Terminado Indefinido_fin\<rparr>
      | Inr opcion \<Rightarrow>
          if opcion = 0 then envia ls (listado (almacen s)) Espera_peticion s
          else if opcion = 1 then envia ls ack Espera_datos s
          else if opcion = 2 then envia ls ack Espera_nombre s
          else s\<lparr>punto := Espera_peticion\<rparr>)"

definition atiende_datos :: "lib_send \<Rightarrow> string \<Rightarrow> servidor \<Rightarrow> servidor" where
  "atiende_datos ls msg s =
     (case agregar_cliente msg (almacen s) of
        Inl (Excepcion e) \<Rightarrow> s\<lparr>punto := Terminado (Sin_capturar e)\<rparr>
      | Inl Indefinido \<Rightarrow> s\<lparr>punto := Terminado Indefinido_fin\<rparr>
      | Inr (res, alm) \<Rightarrow>
          if \<not> res then s\<lparr>almacen := alm, punto := Terminado (Exit (- 1))\<rparr>
          else envia ls ack Espera_peticion (s\<lparr>almacen := alm\<rparr>))"

definition atiende_nombre :: "lib_send \<Rightarrow> string \<Rightarrow> servidor \<Rightarrow> servidor" where
  "atiende_nombre ls msg s =
     (case obtener_cliente msg (almacen s) of
        Inl (Excepcion e) \<Rightarrow> s\<lparr>punto := Terminado (Sin_capturar e)\<rparr>
      | Inl Indefinido \<Rightarrow> s\<lparr>punto := Terminado Indefinido_fin\<rparr>
      | Inr (res, cliente_con_fichero) \<Rightarrow> envia ls cliente_con_fichero Espera_peticion s)"

definition paso_servidor :: "lib_recv \<Rightarrow> lib_send \<Rightarrow> string \<Rightarrow> servidor \<Rightarrow> servidor" where
  "paso_servidor lr ls m s =
     (case punto s of
        Terminado f \<Rightarrow> s
      | Espera_crow \<Rightarrow> s
      | p \<Rightarrow>
          (case socket_recv (lr (turno s) m) of
             Inl (Excepcion e) \<Rightarrow> s\<lparr>punto := Terminado (Sin_capturar e)\<rparr>
           | Inl Indefinido \<Rightarrow> s\<lparr>punto := Terminado Indefinido_fin\<rparr>
           | Inr None \<Rightarrow> s\<lparr>punto := Terminado (Exit (- 1))\<rparr>
           | Inr (Some msg) \<Rightarrow>
               (let s' = s\<lparr>turno := Debe_enviar\<rparr> in
                case p of
                  Espera_peticion \<Rightarrow> atiende_opcion ls msg s'
                | Espera_datos \<Rightarrow> atiende_datos ls msg s'
                | Espera_nombre \<Rightarrow> atiende_nombre ls msg s'
                | _ \<Rightarrow> s)))"

definition bucle_servidor :: "lib_recv \<Rightarrow> lib_send \<Rightarrow> string list \<Rightarrow> servidor \<Rightarrow> servidor" where
  "bucle_servidor lr ls ms s = foldl (\<lambda>s m. paso_servidor lr ls m s) s ms"

text \<open>\<^verbatim>\<open>main\<close> up to the loop: the store is global and empty, the backup is read if there is one.\<close>

definition inicio_servidor :: "disco \<Rightarrow> servidor" where
  "inicio_servidor d =
     \<lparr>almacen = snd (recuperar_datos fichero_backup almacen_vacio d),
      punto = Espera_peticion, turno = Debe_recibir, respuestas = []\<rparr>"

text \<open>
  The SIGINT handler saves the store, joins the web thread and leaves with the signal number. The join throws
  when there is no thread to join yet and when the web thread itself runs the handler, and nothing catches
  that; while the web thread runs, it blocks; after its end it returns.
\<close>

datatype efecto_join = Join_lanza | Join_espera | Join_vuelve

definition sigint_handler :: "bool \<Rightarrow> efecto_join \<Rightarrow> int \<Rightarrow> servidor \<Rightarrow> disco \<Rightarrow> servidor \<times> disco" where
  "sigint_handler abierto join senal s d =
     (s\<lparr>punto := (case join of
         Join_lanza \<Rightarrow> Terminado (Sin_capturar System_error)
       | Join_espera \<Rightarrow> Espera_crow
       | Join_vuelve \<Rightarrow> Terminado (Exit senal))\<rparr>,
      snd (salvar_datos abierto fichero_backup (almacen s) d))"

subsection \<open>Facts about single steps\<close>

definition vivo :: "servidor \<Rightarrow> bool" where
  "vivo s \<longleftrightarrow> punto s \<noteq> Espera_crow \<and> (\<forall>f. punto s \<noteq> Terminado f)"

lemma vivo_simps [simp]:
  "vivo (s\<lparr>turno := t\<rparr>) = vivo s" "vivo (s\<lparr>respuestas := r\<rparr>) = vivo s"
  "vivo (s\<lparr>almacen := a\<rparr>) = vivo s" "\<not> vivo (s\<lparr>punto := Terminado f\<rparr>)"
  by (simp_all add: vivo_def)

lemma envia_en_turno [simp]:
  "alterna_send ls \<Longrightarrow> turno s = Debe_enviar \<Longrightarrow>
     envia ls msg sig s = s\<lparr>punto := sig, turno := Debe_recibir, respuestas := respuestas s @ [msg]\<rparr>"
  by (simp add: envia_def)

lemma almacen_envia [simp]: "almacen (envia ls msg sig s) = almacen s"
  by (simp add: envia_def split: sum.split option.split fallo.split)

lemma bucle_servidor_simps [simp]:
  "bucle_servidor lr ls [] s = s"
  "bucle_servidor lr ls (m # ms) s = bucle_servidor lr ls ms (paso_servidor lr ls m s)"
  by (simp_all add: bucle_servidor_def)

lemma bucle_servidor_append:
  "bucle_servidor lr ls (ms @ ns) s = bucle_servidor lr ls ns (bucle_servidor lr ls ms s)"
  by (simp add: bucle_servidor_def)

lemma paso_terminado: "\<not> vivo s \<Longrightarrow> paso_servidor lr ls m s = s"
  by (auto simp: vivo_def paso_servidor_def)

lemma bucle_terminado: "\<not> vivo s \<Longrightarrow> bucle_servidor lr ls ms s = s"
  by (induction ms) (simp_all add: paso_terminado)

lemma paso_en_turno:
  assumes "alterna_recv lr" "turno s = Debe_recibir"
  shows "punto s = Espera_peticion \<Longrightarrow> paso_servidor lr ls m s = atiende_opcion ls m (s\<lparr>turno := Debe_enviar\<rparr>)"
    and "punto s = Espera_datos \<Longrightarrow> paso_servidor lr ls m s = atiende_datos ls m (s\<lparr>turno := Debe_enviar\<rparr>)"
    and "punto s = Espera_nombre \<Longrightarrow> paso_servidor lr ls m s = atiende_nombre ls m (s\<lparr>turno := Debe_enviar\<rparr>)"
  using assms by (simp_all add: paso_servidor_def Let_def)

lemma paso_fuera_de_turno:
  assumes "alterna_recv lr" "turno s = Debe_enviar" "vivo s"
  shows "paso_servidor lr ls m s = s\<lparr>punto := Terminado (Sin_capturar (Zmq_error efsm))\<rparr>"
  using assms by (cases "punto s") (simp_all add: paso_servidor_def vivo_def)

subsection \<open>The invariant of the process\<close>

lemma paso_almacen_ok: "almacen_ok (almacen s) \<Longrightarrow> almacen_ok (almacen (paso_servidor lr ls m s))"
  by (auto simp: paso_servidor_def atiende_opcion_def atiende_datos_def atiende_nombre_def Let_def
      intro: agregar_cliente_invariante
      split: punto.split sum.split fallo.split option.split prod.split)

lemma bucle_almacen_ok: "almacen_ok (almacen s) \<Longrightarrow> almacen_ok (almacen (bucle_servidor lr ls ms s))"
  by (induction ms arbitrary: s) (simp_all add: paso_almacen_ok)

lemma inicio_almacen_ok: "almacen_ok (almacen (inicio_servidor d))"
  by (auto simp: inicio_servidor_def recuperar_datos_def almacen_ok_vacio recuperar_ok
      split: option.split)

end
