(* ===== verification/Bitacora.thy ===== *)
theory Bitacora
  imports Servidor
begin

text \<open>
  Abstract specification of the ZeroMQ server and the proof that the loop of \<open>Servidor\<close> refines
  it. The specification knows no table: its state is the log of the registrations accepted so
  far, a lookup answers with the first registration of the name, and a session is a list of
  requests answered in order. \<open>None\<close> means that the process has ended.
\<close>

subsection \<open>The specification\<close>

type_synonym bitacora = "(string \<times> par_ip_puerto) list"

definition esp_obtener :: "bitacora \<Rightarrow> string \<Rightarrow> string" where
  "esp_obtener H f =
     (case find (\<lambda>e. fst e = f) H of
        None \<Rightarrow> ''EMPTY''
      | Some (_, (ip, p)) \<Rightarrow> ''tcp://'' @ inet_ntoa ip @ '':'' @ decimal (unat (ntohs p)))"

definition esp_listado :: "bitacora \<Rightarrow> string" where
  "esp_listado H =
     (if H = [] then ''EMPTY''
      else concat (map (\<lambda>f. f @ '' '') (sorted_list_of_set (fst ` set H))))"

definition esp_entrada :: "string \<Rightarrow> (string \<times> par_ip_puerto) option" where
  "esp_entrada d =
     (case tokens_de d of
        f # ip # p # _ \<Rightarrow>
          (case stoi p of Inr n \<Rightarrow> Some (f, (inet_addr ip, htons (word_of_int n))) | Inl _ \<Rightarrow> None)
      | _ \<Rightarrow> None)"

fun esp_sesion :: "bitacora \<Rightarrow> string list \<Rightarrow> (string list \<times> bitacora) option" where
  "esp_sesion H [] = Some ([], H)"
| "esp_sesion H (m # ms) =
     (case stoi m of
        Inl _ \<Rightarrow> None
      | Inr n \<Rightarrow>
          if n = 0 then map_option (apfst (Cons (esp_listado H))) (esp_sesion H ms)
          else if n = 1 then
            (case ms of
               [] \<Rightarrow> Some ([ack], H)
             | d # ms' \<Rightarrow>
                 (case esp_entrada d of
                    None \<Rightarrow> None
                  | Some e \<Rightarrow> map_option (apfst (\<lambda>rs. ack # ack # rs)) (esp_sesion (H @ [e]) ms')))
          else if n = 2 then
            (case ms of
               [] \<Rightarrow> Some ([ack], H)
             | f # ms' \<Rightarrow> map_option (apfst (\<lambda>rs. ack # esp_obtener H f # rs)) (esp_sesion H ms'))
          else (if ms = [] then Some ([], H) else None))"

subsection \<open>Stores and logs\<close>

definition representa :: "bitacora \<Rightarrow> almacen_direcciones \<Rightarrow> bool" where
  "representa H alm \<longleftrightarrow>
     almacen_ok alm \<and> (\<forall>f. direcciones alm f = map snd (filter (\<lambda>e. fst e = f) H))"

lemma representa_vacio: "representa [] almacen_vacio"
  by (simp add: representa_def almacen_ok_vacio)
    (simp add: direcciones_def almacen_vacio_def vector_de_def)

lemma representa_dom:
  assumes "representa H alm"
  shows "dom (map_of (tabla alm)) = fst ` set H"
proof -
  have "map_of (tabla alm) f = None \<longleftrightarrow> f \<notin> fst ` set H" for f
    using assms direcciones_vacia_iff [of alm f]
    by (auto simp: representa_def filter_empty_conv)
  then show ?thesis by (auto simp: dom_def)
qed

lemma representa_obtener:
  assumes "representa H alm"
  shows "\<exists>b. obtener_cliente f alm = Inr (b, esp_obtener H f)"
proof -
  have "obtener_cliente f alm =
      (case map snd (filter (\<lambda>e. fst e = f) H) of
         [] \<Rightarrow> Inr (False, ''EMPTY'')
       | d # _ \<Rightarrow> Inr (True, ''tcp://'' @ inet_ntoa (fst d) @ '':'' @ decimal (unat (ntohs (snd d)))))"
    using assms by (simp add: representa_def obtener_cliente_direcciones)
  moreover have "find (\<lambda>e. fst e = f) H =
      (case filter (\<lambda>e. fst e = f) H of [] \<Rightarrow> None | e # _ \<Rightarrow> Some e)"
    by (induction H) auto
  ultimately show ?thesis
    by (cases "filter (\<lambda>e. fst e = f) H") (auto simp: esp_obtener_def)
qed

lemma representa_listado:
  assumes "representa H alm"
  shows "listado alm = esp_listado H"
proof -
  have "map fst (tabla alm) = sorted_list_of_set (set (map fst (tabla alm)))"
    using assms unfolding representa_def almacen_ok_def pares_ok_def
    by (metis sorted_list_of_set.idem_if_sorted_distinct strict_sorted_iff)
  also have "set (map fst (tabla alm)) = fst ` set H"
    using representa_dom [OF assms] by (simp add: dom_map_of_conv_image_fst)
  finally have claves: "map fst (tabla alm) = sorted_list_of_set (fst ` set H)" .
  have "obtener_ficheros alm = concat (map (\<lambda>f. f @ '' '') (map fst (tabla alm)))"
    by (simp add: obtener_ficheros_def comp_def)
  moreover have "tabla alm = [] \<longleftrightarrow> H = []"
    using claves by (metis empty_set finite_imageI finite_set image_is_empty list.map_disc_iff
        set_empty sorted_list_of_set.set_sorted_key_list_of_set)
  ultimately show ?thesis
    by (cases "tabla alm") (auto simp: listado_def esp_listado_def Let_def claves [symmetric])
qed

lemma representa_agregar:
  assumes "representa H alm"
  shows "(case esp_entrada d of
      None \<Rightarrow> agregar_cliente d alm = Inl Indefinido \<or> (\<exists>alm'. agregar_cliente d alm = Inr (False, alm'))
    | Some e \<Rightarrow> \<exists>alm'. agregar_cliente d alm = Inr (True, alm') \<and> representa (H @ [e]) alm')"
proof (cases "3 \<le> length (tokens_de d)")
  case False
  then have "esp_entrada d = None"
    by (auto simp: esp_entrada_def split: list.split)
  moreover have "separar_string d = Inl Indefinido"
    using False by (simp add: separar_string_indefinido_iff)
  ultimately show ?thesis by (simp add: agregar_cliente_def)
next
  case True
  then obtain f ip p r where t: "tokens_de d = f # ip # p # r" by (rule tres_tokens)
  show ?thesis
  proof (cases "stoi p")
    case (Inl e)
    then show ?thesis
      using stoi_solo_excepciones [OF Inl]
      by (auto simp: esp_entrada_def t agregar_cliente_def separar_string_tokens [OF t])
  next
    case (Inr n)
    let ?d = "(inet_addr ip, htons (word_of_int n))"
    have "agregar_cliente d alm = Inr (True, alm\<lparr>tabla := apila_par f ?d (tabla alm)\<rparr>)"
      using Inr by (simp add: agregar_cliente_apila separar_string_tokens [OF t])
    moreover have "representa (H @ [(f, ?d)]) (alm\<lparr>tabla := apila_par f ?d (tabla alm)\<rparr>)"
      using assms by (auto simp: representa_def almacen_ok_apila direcciones_apila)
    ultimately show ?thesis using Inr by (simp add: esp_entrada_def t)
  qed
qed

subsection \<open>Refinement\<close>

text \<open>The loop is at its top: it waits for a request and it is its turn to receive.\<close>

definition en_reposo :: "servidor \<Rightarrow> bool" where
  "en_reposo s \<longleftrightarrow> punto s = Espera_peticion \<and> turno s = Debe_recibir"

lemma en_reposo_vivo: "en_reposo s \<Longrightarrow> vivo s"
  by (simp add: en_reposo_def vivo_def)

lemma paso_opcion:
  assumes "alterna_recv lr" "alterna_send ls" "en_reposo s" "stoi m = Inr n"
  shows "n = 0 \<Longrightarrow> paso_servidor lr ls m s = s\<lparr>respuestas := respuestas s @ [listado (almacen s)]\<rparr>"
    and "n = 1 \<Longrightarrow> paso_servidor lr ls m s = s\<lparr>punto := Espera_datos, respuestas := respuestas s @ [ack]\<rparr>"
    and "n = 2 \<Longrightarrow> paso_servidor lr ls m s = s\<lparr>punto := Espera_nombre, respuestas := respuestas s @ [ack]\<rparr>"
    and "n \<notin> {0, 1, 2} \<Longrightarrow> paso_servidor lr ls m s = s\<lparr>turno := Debe_enviar\<rparr>"
  using assms by (cases s; simp add: paso_en_turno atiende_opcion_def en_reposo_def)+

lemma paso_opcion_error:
  assumes "alterna_recv lr" "en_reposo s" "stoi m = Inl e"
  shows "\<exists>x. e = Excepcion x \<and> paso_servidor lr ls m s =
    s\<lparr>turno := Debe_enviar, punto := Terminado (Sin_capturar x)\<rparr>"
  using assms stoi_solo_excepciones [OF assms(3)]
  by (auto simp: paso_en_turno atiende_opcion_def en_reposo_def)

lemma paso_datos:
  assumes "alterna_recv lr" "alterna_send ls" "punto s = Espera_datos" "turno s = Debe_recibir"
    and "agregar_cliente d (almacen s) = Inr (True, alm)"
  shows "paso_servidor lr ls d s =
    s\<lparr>almacen := alm, punto := Espera_peticion, respuestas := respuestas s @ [ack]\<rparr>"
  using assms by (cases s) (simp add: paso_en_turno atiende_datos_def)

lemma paso_datos_error:
  assumes "alterna_recv lr" "punto s = Espera_datos" "turno s = Debe_recibir"
    and "agregar_cliente d (almacen s) = Inl Indefinido \<or>
      (\<exists>alm. agregar_cliente d (almacen s) = Inr (False, alm))"
  shows "\<not> vivo (paso_servidor lr ls d s)"
  using assms by (auto simp: paso_en_turno atiende_datos_def)

lemma paso_nombre:
  assumes "alterna_recv lr" "alterna_send ls" "punto s = Espera_nombre" "turno s = Debe_recibir"
    and "obtener_cliente f (almacen s) = Inr (b, r)"
  shows "paso_servidor lr ls f s = s\<lparr>punto := Espera_peticion, respuestas := respuestas s @ [r]\<rparr>"
  using assms by (cases s) (simp add: paso_en_turno atiende_nombre_def)

definition resultado_sesion ::
  "(string list \<times> bitacora) option \<Rightarrow> string list \<Rightarrow> servidor \<Rightarrow> bool" where
  "resultado_sesion r previas s =
     (case r of
        None \<Rightarrow> \<not> vivo s
      | Some (rs, H) \<Rightarrow> vivo s \<and> respuestas s = previas @ rs \<and> representa H (almacen s))"

lemma resultado_sesion_antepone:
  assumes "resultado_sesion r (previas @ xs) s" "\<And>rs. f rs = xs @ rs"
  shows "resultado_sesion (map_option (apfst f) r) previas s"
  using assms by (auto simp: resultado_sesion_def split: option.splits)

lemma sesion_refina:
  assumes "alterna_recv lr" "alterna_send ls" "en_reposo s" "representa H (almacen s)"
  shows "resultado_sesion (esp_sesion H ms) (respuestas s) (bucle_servidor lr ls ms s)"
  using assms(3,4)
proof (induction H ms arbitrary: s rule: esp_sesion.induct)
  case (1 H)
  then show ?case by (simp add: resultado_sesion_def en_reposo_vivo)
next
  case (2 H m ms)
  note lib = assms(1,2) and R = "2.prems"(2) and reposo = "2.prems"(1)
  show ?case
  proof (cases "stoi m")
    case (Inl e)
    then have "\<not> vivo (paso_servidor lr ls m s)"
      using paso_opcion_error [OF lib(1) reposo, of m e ls] by auto
    then show ?thesis using Inl by (simp add: resultado_sesion_def bucle_terminado)
  next
    case (Inr n)
    note paso = paso_opcion [OF lib reposo Inr]
    consider (cero) "n = 0" | (uno) "n = 1" | (dos) "n = 2" | (otro) "n \<notin> {0, 1, 2}" by auto
    then show ?thesis
    proof cases
      case cero
      let ?s = "s\<lparr>respuestas := respuestas s @ [listado (almacen s)]\<rparr>"
      have "en_reposo ?s" "representa H (almacen ?s)" using reposo R by (simp_all add: en_reposo_def)
      from "2.IH"(1) [OF Inr cero this]
      have "resultado_sesion (map_option (apfst (Cons (esp_listado H))) (esp_sesion H ms))
          (respuestas s) (bucle_servidor lr ls ms ?s)"
        using representa_listado [OF R]
        by (intro resultado_sesion_antepone [of _ _ "[esp_listado H]"]) simp_all
      then show ?thesis using Inr cero paso(1) by simp
    next
      case uno
      let ?s = "s\<lparr>punto := Espera_datos, respuestas := respuestas s @ [ack]\<rparr>"
      have st: "punto ?s = Espera_datos" "turno ?s = Debe_recibir" using reposo by (simp_all add: en_reposo_def)
      show ?thesis
      proof (cases ms)
        case Nil
        then show ?thesis using Inr uno paso(2) R by (simp add: resultado_sesion_def vivo_def)
      next
        case (Cons d ms')
        note ag = representa_agregar [OF R, of d]
        show ?thesis
        proof (cases "esp_entrada d")
          case None
          then have "\<not> vivo (paso_servidor lr ls d ?s)"
            using ag paso_datos_error [OF lib(1) st, of d] by simp
          then show ?thesis
            using Inr uno paso(2) Cons None by (simp add: resultado_sesion_def bucle_terminado)
        next
          case (Some e)
          then obtain alm where alm: "agregar_cliente d (almacen s) = Inr (True, alm)"
            and Re: "representa (H @ [e]) alm" using ag by auto
          let ?s' = "?s\<lparr>almacen := alm, punto := Espera_peticion, respuestas := respuestas ?s @ [ack]\<rparr>"
          have p: "paso_servidor lr ls d ?s = ?s'" using paso_datos [OF lib st, of d alm] alm by simp
          have "en_reposo ?s'" "representa (H @ [e]) (almacen ?s')"
            using reposo Re by (simp_all add: en_reposo_def)
          from "2.IH"(2) [OF Inr _ uno Cons Some this]
          have "resultado_sesion (map_option (apfst (\<lambda>rs. ack # ack # rs)) (esp_sesion (H @ [e]) ms'))
              (respuestas s) (bucle_servidor lr ls ms' ?s')"
            using uno by (intro resultado_sesion_antepone [of _ _ "[ack, ack]"]) simp_all
          then show ?thesis using Inr uno paso(2) Cons Some p by simp
        qed
      qed
    next
      case dos
      let ?s = "s\<lparr>punto := Espera_nombre, respuestas := respuestas s @ [ack]\<rparr>"
      have st: "punto ?s = Espera_nombre" "turno ?s = Debe_recibir" using reposo by (simp_all add: en_reposo_def)
      show ?thesis
      proof (cases ms)
        case Nil
        then show ?thesis using Inr dos paso(3) R by (simp add: resultado_sesion_def vivo_def)
      next
        case (Cons f ms')
        obtain b where ob: "obtener_cliente f (almacen ?s) = Inr (b, esp_obtener H f)"
          using representa_obtener [OF R] by auto
        let ?s' = "?s\<lparr>punto := Espera_peticion, respuestas := respuestas ?s @ [esp_obtener H f]\<rparr>"
        have "en_reposo ?s'" "representa H (almacen ?s')"
          using reposo R by (simp_all add: en_reposo_def)
        from "2.IH"(3) [OF Inr _ _ dos Cons this]
        have "resultado_sesion (map_option (apfst (\<lambda>rs. ack # esp_obtener H f # rs)) (esp_sesion H ms'))
            (respuestas s) (bucle_servidor lr ls ms' ?s')"
          using dos by (intro resultado_sesion_antepone [of _ _ "[ack, esp_obtener H f]"]) simp_all
        then show ?thesis using Inr dos paso(3) Cons paso_nombre [OF lib st ob] by simp
      qed
    next
      case otro
      have dead: "\<not> vivo (paso_servidor lr ls m' (s\<lparr>turno := Debe_enviar\<rparr>))" for m'
        using paso_fuera_de_turno [OF lib(1), of "s\<lparr>turno := Debe_enviar\<rparr>"] en_reposo_vivo [OF reposo]
        by simp
      show ?thesis
        using Inr otro paso(4) R en_reposo_vivo [OF reposo] dead
        by (cases ms) (simp_all add: resultado_sesion_def bucle_terminado)
    qed
  qed
qed

subsection \<open>Properties of the ZeroMQ server\<close>

text \<open>C2. Refinement: over a library that alternates as documented, an idle server whose store
  represents a log runs every list of messages as the log specification does. It gives the same
  replies in the same order, ends exactly when the specification ends, and its store represents
  the resulting log.\<close>

theorem servidor_refina_bitacora:
  assumes "alterna_recv lr" "alterna_send ls" "en_reposo s" "representa H (almacen s)"
  shows "(case esp_sesion H ms of
      None \<Rightarrow> \<not> vivo (bucle_servidor lr ls ms s)
    | Some (rs, H') \<Rightarrow>
        vivo (bucle_servidor lr ls ms s) \<and>
        respuestas (bucle_servidor lr ls ms s) = respuestas s @ rs \<and>
        representa H' (almacen (bucle_servidor lr ls ms s)))"
  using sesion_refina [OF assms] by (simp add: resultado_sesion_def)

lemma inicio_vacio:
  "en_reposo (inicio_servidor Map.empty)" "almacen (inicio_servidor Map.empty) = almacen_vacio"
  "respuestas (inicio_servidor Map.empty) = []"
  by (simp_all add: en_reposo_def inicio_servidor_def recuperar_datos_def)

lemma stoi_opciones: "stoi ''0'' = Inr 0" "stoi ''1'' = Inr 1" "stoi ''2'' = Inr 2"
  by (code_simp, code_simp, code_simp)

theorem servidor_refina_bitacora_testigo:
  "vivo (bucle_servidor recv_ejemplo send_ejemplo [''2'', ''f.txt'', ''0''] (inicio_servidor Map.empty)) \<and>
   respuestas (bucle_servidor recv_ejemplo send_ejemplo [''2'', ''f.txt'', ''0''] (inicio_servidor Map.empty)) =
     [''ACK'', ''EMPTY'', ''EMPTY'']"
  using servidor_refina_bitacora [OF alterna_ejemplo inicio_vacio(1),
      of "[]" "[''2'', ''f.txt'', ''0'']"]
  by (simp add: inicio_vacio representa_vacio stoi_opciones esp_obtener_def esp_listado_def ack_def)

text \<open>The messages that keep the server running, without looking at its store.\<close>

fun sesion_bien_formada :: "string list \<Rightarrow> bool" where
  "sesion_bien_formada [] = True"
| "sesion_bien_formada (m # ms) =
     (case stoi m of
        Inl _ \<Rightarrow> False
      | Inr n \<Rightarrow>
          if n = 0 then sesion_bien_formada ms
          else if n = 1 then (case ms of [] \<Rightarrow> True | d # ms' \<Rightarrow> esp_entrada d \<noteq> None \<and> sesion_bien_formada ms')
          else if n = 2 then (case ms of [] \<Rightarrow> True | _ # ms' \<Rightarrow> sesion_bien_formada ms')
          else ms = [])"

lemma esp_sesion_None_iff: "esp_sesion H ms = None \<longleftrightarrow> \<not> sesion_bien_formada ms"
proof (induction H ms rule: esp_sesion.induct)
  case (1 H)
  then show ?case by simp
next
  case (2 H m ms)
  then show ?case by (cases "stoi m") (auto split: list.split option.split)
qed

text \<open>C13. When the server dies, exactly: an idle server is still running after a list of messages
  if and only if the list is a well-formed session. The store plays no part, so any client can
  end the process with one malformed message.\<close>

theorem servidor_vivo_iff:
  assumes "alterna_recv lr" "alterna_send ls" "en_reposo s" "almacen_ok (almacen s)"
  shows "vivo (bucle_servidor lr ls ms s) \<longleftrightarrow> sesion_bien_formada ms"
proof -
  have "map snd (filter (\<lambda>e. fst e = f) (concat (map (\<lambda>(k, v). map (Pair k) v) t))) = vector_de t f"
    if "pares_ok t" for f and t :: tabla_ficheros
    using that
  proof (induction t)
    case Nil
    then show ?case by (simp add: vector_de_def)
  next
    case (Cons p t)
    obtain k v where p: "p = (k, v)" by (cases p)
    have k: "k \<notin> fst ` set t" and t: "pares_ok t"
      using Cons.prems by (auto simp: p pares_ok_def)
    have "filter (\<lambda>e. fst e = k) (concat (map (\<lambda>(k, v). map (Pair k) v) t)) = []"
      using k by (force simp: filter_empty_conv)
    moreover have "filter (\<lambda>e. fst e = f) (map (Pair k) v) = (if f = k then map (Pair k) v else [])"
      by (induction v) auto
    moreover have "map_of t k = None" using k by (simp add: map_of_eq_None_iff)
    ultimately show ?case
      using Cons.IH [OF t] by (auto simp: p vector_de_def comp_def)
  qed
  then have "representa (concat (map (\<lambda>(k, v). map (Pair k) v) (tabla (almacen s)))) (almacen s)"
    using assms(4) by (simp add: representa_def direcciones_def almacen_ok_def)
  from sesion_refina [OF assms(1-3) this, of ms] show ?thesis
    using esp_sesion_None_iff [of "concat (map (\<lambda>(k, v). map (Pair k) v) (tabla (almacen s)))" ms]
    by (auto simp: resultado_sesion_def split: option.splits)
qed

theorem servidor_vivo_iff_testigo:
  "vivo (bucle_servidor recv_ejemplo send_ejemplo [''hola''] (inicio_servidor Map.empty)) \<longleftrightarrow>
     sesion_bien_formada [''hola'']"
  by (rule servidor_vivo_iff [OF alterna_ejemplo inicio_vacio(1) inicio_almacen_ok])

text \<open>A request that is an integer other than 0, 1 and 2 gets no reply: the REP socket stays in
  its sending phase and the \<^verbatim>\<open>recv\<close> of the next turn of the loop throws a \<^verbatim>\<open>zmq::error_t\<close> that nobody
  catches, whatever the next message is.\<close>

theorem opcion_desconocida_mata:
  assumes "alterna_recv lr" "alterna_send ls" "en_reposo s" "stoi m = Inr n" "n \<notin> {0, 1, 2}"
  shows "respuestas (bucle_servidor lr ls [m, m'] s) = respuestas s \<and>
    punto (bucle_servidor lr ls [m, m'] s) = Terminado (Sin_capturar (Zmq_error efsm))"
  using assms paso_opcion(4) [OF assms(1-4)] en_reposo_vivo [OF assms(3)]
  by (simp add: paso_fuera_de_turno)

theorem opcion_desconocida_mata_testigo:
  "respuestas (bucle_servidor recv_ejemplo send_ejemplo [''7'', ''0''] (inicio_servidor Map.empty)) = [] \<and>
   punto (bucle_servidor recv_ejemplo send_ejemplo [''7'', ''0''] (inicio_servidor Map.empty)) =
     Terminado (Sin_capturar (Zmq_error efsm))"
proof -
  have "stoi ''7'' = Inr 7" by code_simp
  from opcion_desconocida_mata [OF alterna_ejemplo inicio_vacio(1) this] show ?thesis
    by (simp add: inicio_vacio)
qed

text \<open>A registration that the store rejects ends the server: from an idle state, option 1
  followed by a request without a valid port leaves the process ended, with the store unchanged
  and no second reply; nothing is written to disk.\<close>

theorem registro_rechazado_mata:
  assumes "alterna_recv lr" "alterna_send ls" "en_reposo s" "stoi m = Inr 1"
    and "agregar_cliente d (almacen s) = Inr (False, alm)"
  shows "punto (bucle_servidor lr ls (m # d # ms) s) = Terminado (Exit (- 1)) \<and>
    almacen (bucle_servidor lr ls (m # d # ms) s) = almacen s \<and>
    respuestas (bucle_servidor lr ls (m # d # ms) s) = respuestas s @ [ack]"
proof -
  have "alm = almacen s" using assms(5) by (rule reg.rechazo)
  then have "bucle_servidor lr ls (m # d # ms) s =
      s\<lparr>punto := Terminado (Exit (- 1)), turno := Debe_enviar, respuestas := respuestas s @ [ack]\<rparr>"
    using assms paso_opcion(2) [OF assms(1-4)]
    by (cases s) (simp add: paso_en_turno atiende_datos_def en_reposo_def bucle_terminado vivo_def)
  then show ?thesis by simp
qed

lemma rechazo_ejemplo:
  "agregar_cliente (peticion ''f.txt'' ''127.0.0.1'' ''f.txt'') almacen_vacio = Inr (False, almacen_vacio)"
proof -
  have "stoi ''f.txt'' = Inl (Excepcion Invalid_argument)" by code_simp
  then show ?thesis
    by (simp add: agregar_cliente_def separar_string_tokens tokens_de_peticion sin_separador_ejemplos)
qed

theorem registro_rechazado_mata_testigo:
  "punto (bucle_servidor recv_ejemplo send_ejemplo
      [''1'', peticion ''f.txt'' ''127.0.0.1'' ''f.txt''] (inicio_servidor Map.empty)) = Terminado (Exit (- 1)) \<and>
   almacen (bucle_servidor recv_ejemplo send_ejemplo
      [''1'', peticion ''f.txt'' ''127.0.0.1'' ''f.txt''] (inicio_servidor Map.empty)) =
     almacen (inicio_servidor Map.empty) \<and>
   respuestas (bucle_servidor recv_ejemplo send_ejemplo
      [''1'', peticion ''f.txt'' ''127.0.0.1'' ''f.txt''] (inicio_servidor Map.empty)) =
     respuestas (inicio_servidor Map.empty) @ [ack]"
  by (rule registro_rechazado_mata [OF alterna_ejemplo inicio_vacio(1) stoi_opciones(2)])
    (simp add: inicio_vacio rechazo_ejemplo)

text \<open>C29. Persistence across a restart: the SIGINT handler saves the store, and a server started on
  that disk holds exactly the same store when every file has one source and every name is a word.\<close>

theorem reinicio_tras_sigint:
  assumes "almacen_ok (almacen s)"
    and "\<forall>p \<in> set (tabla (almacen s)). nombre_ok (fst p) \<and> length (snd p) = 1"
  shows "almacen (inicio_servidor (snd (sigint_handler True join senal s d))) = almacen s"
  using arg_cong [OF restaura_simples [OF assms], of tabla]
  by (simp add: inicio_servidor_def sigint_handler_def recuperar_datos_def salvar_datos_def
      almacen_vacio_def)

theorem reinicio_tras_sigint_testigo:
  "almacen (inicio_servidor (snd (sigint_handler True Join_espera 2
      \<lparr>almacen = almacen_ejemplo, punto = Espera_datos, turno = Debe_recibir, respuestas = []\<rparr>
      Map.empty))) =
    almacen \<lparr>almacen = almacen_ejemplo, punto = Espera_datos, turno = Debe_recibir, respuestas = []\<rparr>"
  by (rule reinicio_tras_sigint)
    (simp_all add: almacen_ejemplo_ok, simp add: almacen_ejemplo_def nombre_ok_def es_espacio_def)

end
