(* ===== verification/AsioIO.thy ===== *)
theory AsioIO
  imports Prelude
begin

text \<open>
  The composed operations of Asio that the file transfer uses, from the copy under
  \<^verbatim>\<open>asio-1.28.0/include/asio\<close>: completion conditions, the reading loop of \<^verbatim>\<open>async_read\<close>
  (\<^verbatim>\<open>impl/read.hpp\<close>) and the writing loop of \<^verbatim>\<open>write\<close> (\<^verbatim>\<open>impl/write.hpp\<close>). The operating system below
  decides how many bytes one system call moves; that choice is an argument of the model and
  every choice that POSIX allows is covered: at least one byte, at most what was asked for and
  what there is.
\<close>

subsection \<open>Completion conditions\<close>

datatype error_code = Sin_error | Eof | Error_es nat

definition default_max_transfer_size :: nat where
  "default_max_transfer_size = 65536"

definition transfer_all :: "error_code \<Rightarrow> nat \<Rightarrow> nat" where
  "transfer_all err n = (if err \<noteq> Sin_error then 0 else default_max_transfer_size)"

definition transfer_at_least :: "nat \<Rightarrow> error_code \<Rightarrow> nat \<Rightarrow> nat" where
  "transfer_at_least minimum err bytes_transferred =
     (if err \<noteq> Sin_error \<or> minimum \<le> bytes_transferred then 0 else default_max_transfer_size)"

subsection \<open>Streams\<close>

text \<open>
  A source is the bytes that are still to come and what a read gets behind them: the end of the
  file (\<open>None\<close>, the system call returns 0) or an error number. A sink is the bytes it took so
  far and the number of bytes that it will still take before it breaks (\<open>None\<close>: it does not
  break). A choice says for each position of the stream how many bytes the next system call
  moves; a successful call changes the position, so a choice can give every sequence of lengths.
\<close>

type_synonym fuente = "string \<times> nat option"
type_synonym sumidero = "string \<times> nat option"
type_synonym eleccion = "nat \<Rightarrow> nat"

definition cuantos :: "nat \<Rightarrow> nat \<Rightarrow> nat \<Rightarrow> nat" where
  "cuantos k pedido hay = max 1 (min k (min pedido hay))"

definition codigo_fin :: "nat option \<Rightarrow> error_code" where
  "codigo_fin fin = (case fin of None \<Rightarrow> Eof | Some n \<Rightarrow> Error_es n)"

lemma codigo_fin_error [simp]: "codigo_fin fin \<noteq> Sin_error"
  by (simp add: codigo_fin_def split: option.split)

fun read_some :: "eleccion \<Rightarrow> nat \<Rightarrow> fuente \<Rightarrow> error_code \<times> string \<times> fuente" where
  "read_some e pedido (xs, fin) =
     (if pedido = 0 then (Sin_error, [], (xs, fin))
      else if xs = [] then (codigo_fin fin, [], (xs, fin))
      else let k = cuantos (e (length xs)) pedido (length xs) in (Sin_error, take k xs, (drop k xs, fin)))"

definition epipe :: error_code where
  "epipe = Error_es 32"

fun write_some :: "eleccion \<Rightarrow> string \<Rightarrow> sumidero \<Rightarrow> error_code \<times> nat \<times> sumidero" where
  "write_some e bs (acc, None) =
     (if bs = [] then (Sin_error, 0, (acc, None))
      else let k = cuantos (e (length acc)) (length bs) (length bs) in (Sin_error, k, (acc @ take k bs, None)))"
| "write_some e bs (acc, Some n) =
     (if bs = [] then (Sin_error, 0, (acc, Some n))
      else if n = 0 then (epipe, 0, (acc, Some n))
      else let k = cuantos (e (length acc)) (length bs) n in (Sin_error, k, (acc @ take k bs, Some (n - k))))"

lemma cuantos_bounds:
  "0 < m \<Longrightarrow> 0 < a \<Longrightarrow> 1 \<le> cuantos k m a \<and> cuantos k m a \<le> m \<and> cuantos k m a \<le> a"
  by (auto simp: cuantos_def)

subsection \<open>\<^verbatim>\<open>async_read\<close> with \<^verbatim>\<open>transfer_at_least\<close>\<close>

text \<open>
  \<open>read_op e minimum cap buf src\<close> is \<^verbatim>\<open>read_op::operator()\<close> at the point where it starts the next
  \<^verbatim>\<open>async_read_some\<close>: \<open>buf\<close> is what the buffer of size \<open>cap\<close> holds. The result is what the
  completion handler gets (the error code and the bytes) and the rest of the source.
\<close>

function read_op :: "eleccion \<Rightarrow> nat \<Rightarrow> nat \<Rightarrow> string \<Rightarrow> fuente \<Rightarrow> error_code \<times> string \<times> fuente" where
  "read_op e minimum cap buf src =
     (let max_size = transfer_at_least minimum Sin_error (length buf);
          (ec, bs, src') = read_some e (min max_size (cap - length buf)) src;
          buf' = buf @ bs
      in if (ec = Sin_error \<and> bs = []) \<or> cap \<le> length buf' then (ec, buf', src')
         else if transfer_at_least minimum ec (length buf') = 0 then (ec, buf', src')
         else read_op e minimum cap buf' src')"
  by pat_completeness auto
termination
  by (relation "measure (\<lambda>(e, m, cap, buf, src). cap - length buf)")
    (auto simp: transfer_at_least_def length_greater_0_conv [symmetric]
      simp del: read_some.simps length_greater_0_conv split: if_splits)

declare read_op.simps [simp del]

subsection \<open>\<^verbatim>\<open>write\<close> with \<^verbatim>\<open>transfer_all\<close>\<close>

lemma write_some_progresa:
  assumes "write_some e bs snk = (Sin_error, k, snk')" "bs \<noteq> []"
  shows "0 < k"
  using assms by (cases snk; cases "snd snk") (auto simp: Let_def cuantos_def epipe_def split: if_splits)

function write_op :: "eleccion \<Rightarrow> error_code \<Rightarrow> string \<Rightarrow> sumidero \<Rightarrow> error_code \<times> sumidero" where
  "write_op e ec bs snk =
     (if bs = [] then (ec, snk)
      else let max_size = transfer_all ec 0 in
        if max_size = 0 then (ec, snk)
        else let (ec', k, snk') = write_some e (take max_size bs) snk in
          write_op e ec' (drop k bs) snk')"
  by pat_completeness auto
termination
proof (relation "measures [\<lambda>(e, ec, bs, snk). length bs, \<lambda>(e, ec, bs, snk). if ec = Sin_error then 1 else 0]",
    goal_cases)
  case 1
  then show ?case by simp
next
  case (2 e ec bs snk m x ec' y k snk')
  then have ec: "ec = Sin_error" and m: "take m bs \<noteq> []"
    by (auto simp: transfer_all_def split: if_splits)
  show ?case
  proof (cases "ec' = Sin_error")
    case True
    with 2 m have "0 < k" using write_some_progresa by metis
    with 2 show ?thesis by simp
  next
    case False
    then show ?thesis using ec 2(1) by (cases k) auto
  qed
qed

declare write_op.simps [simp del]

text \<open>\<^verbatim>\<open>write(stream, buffer)\<close> without an error argument throws what the loop ended with.\<close>

definition escribe :: "eleccion \<Rightarrow> string \<Rightarrow> sumidero \<Rightarrow> unit res \<times> sumidero" where
  "escribe e bs snk =
     (case write_op e Sin_error bs snk of
        (Sin_error, snk') \<Rightarrow> (Inr (), snk')
      | (_, snk') \<Rightarrow> (throwE System_error, snk'))"

subsection \<open>What the two loops do\<close>

lemma read_some_uno:
  assumes "xs \<noteq> []" "0 < pedido"
  shows "\<exists>k. read_some e pedido (xs, fin) = (Sin_error, take k xs, (drop k xs, fin)) \<and>
    1 \<le> k \<and> k \<le> pedido \<and> k \<le> length xs"
  using assms cuantos_bounds [of pedido "length xs" "e (length xs)"] by (auto simp: Let_def)

text \<open>One \<^verbatim>\<open>async_read\<close> of at least one byte: a non-empty prefix of what is to come that fits the
  buffer, or the final error code with no byte.\<close>

lemma read_op_al_menos_uno:
  assumes "xs \<noteq> []" "0 < cap"
  obtains k where "read_op e 1 cap [] (xs, fin) = (Sin_error, take k xs, (drop k xs, fin))"
    "1 \<le> k" "k \<le> cap" "k \<le> length xs"
proof -
  have "0 < min default_max_transfer_size cap"
    using assms(2) by (simp add: default_max_transfer_size_def)
  then obtain k where
    k: "read_some e (min default_max_transfer_size cap) (xs, fin) = (Sin_error, take k xs, (drop k xs, fin))"
    and "1 \<le> k" "k \<le> min default_max_transfer_size cap" "k \<le> length xs"
    using read_some_uno [OF assms(1)] by blast
  moreover from this have "read_op e 1 cap [] (xs, fin) = (Sin_error, take k xs, (drop k xs, fin))"
    by (subst read_op.simps) (simp add: transfer_at_least_def Let_def del: read_some.simps)
  ultimately show thesis using that by simp
qed

lemma read_op_fin:
  "0 < cap \<Longrightarrow> read_op e 1 cap [] ([], fin) = (codigo_fin fin, [], ([], fin))"
  by (subst read_op.simps) (auto simp: transfer_at_least_def default_max_transfer_size_def min_def)

lemma write_op_error: "ec \<noteq> Sin_error \<Longrightarrow> write_op e ec bs snk = (ec, snk)"
  by (subst write_op.simps) (simp add: transfer_all_def)

lemma write_op_sin_limite: "write_op e Sin_error bs (acc, None) = (Sin_error, (acc @ bs, None))"
proof (induction "length bs" arbitrary: bs acc rule: less_induct)
  case less
  show ?case
  proof (cases "bs = []")
    case True
    then show ?thesis by (subst write_op.simps) simp
  next
    case False
    let ?t = "take default_max_transfer_size bs"
    have t: "?t \<noteq> []" using False by (simp add: default_max_transfer_size_def)
    define k where "k = cuantos (e (length acc)) (length ?t) (length ?t)"
    have k: "1 \<le> k" "k \<le> length ?t" using cuantos_bounds [of "length ?t" "length ?t" "e (length acc)"] t by (auto simp: k_def)
    have "take k ?t = take k bs" using k(2) by (simp add: min_absorb1)
    then have w: "write_some e ?t (acc, None) = (Sin_error, k, (acc @ take k bs, None))"
      using t by (simp add: k_def Let_def)
    have "write_op e Sin_error bs (acc, None) = write_op e Sin_error (drop k bs) (acc @ take k bs, None)"
      using False w by (subst write_op.simps)
        (simp add: transfer_all_def default_max_transfer_size_def Let_def del: write_some.simps)
    also have "\<dots> = (Sin_error, ((acc @ take k bs) @ drop k bs, None))"
      using k False by (intro less) simp
    finally show ?thesis by simp
  qed
qed

lemma write_op_limite:
  "write_op e Sin_error bs (acc, Some n) =
     (if length bs \<le> n then (Sin_error, (acc @ bs, Some (n - length bs)))
      else (epipe, (acc @ take n bs, Some 0)))"
proof (induction "length bs" arbitrary: bs acc n rule: less_induct)
  case less
  show ?case
  proof (cases "bs = []")
    case True
    then show ?thesis by (subst write_op.simps) simp
  next
    case False
    let ?t = "take default_max_transfer_size bs"
    have t: "?t \<noteq> []" using False by (simp add: default_max_transfer_size_def)
    show ?thesis
    proof (cases "n = 0")
      case True
      then have "write_some e ?t (acc, Some n) = (epipe, 0, (acc, Some n))" using t by simp
      then have "write_op e Sin_error bs (acc, Some n) = write_op e epipe bs (acc, Some n)"
        using False by (subst write_op.simps)
          (simp add: transfer_all_def default_max_transfer_size_def Let_def del: write_some.simps)
      then show ?thesis using True False by (simp add: write_op_error epipe_def)
    next
      case n: False
      define k where "k = cuantos (e (length acc)) (length ?t) n"
      have k: "1 \<le> k" "k \<le> length ?t" "k \<le> n"
        using cuantos_bounds [of "length ?t" n "e (length acc)"] t n by (auto simp: k_def)
      have "take k ?t = take k bs" using k(2) by (simp add: min_absorb1)
      then have w: "write_some e ?t (acc, Some n) = (Sin_error, k, (acc @ take k bs, Some (n - k)))"
        using t n by (simp add: k_def Let_def)
      have "write_op e Sin_error bs (acc, Some n) =
          write_op e Sin_error (drop k bs) (acc @ take k bs, Some (n - k))"
        using False w by (subst write_op.simps)
          (simp add: transfer_all_def default_max_transfer_size_def Let_def del: write_some.simps)
      also have "\<dots> = (if length (drop k bs) \<le> n - k
          then (Sin_error, ((acc @ take k bs) @ drop k bs, Some (n - k - length (drop k bs))))
          else (epipe, ((acc @ take k bs) @ take (n - k) (drop k bs), Some 0)))"
        using k False by (intro less) simp
      also have "take k bs @ take (n - k) (drop k bs) = take n bs"
        using k(3) by (metis le_add_diff_inverse take_add)
      then have "(acc @ take k bs) @ take (n - k) (drop k bs) = acc @ take n bs" by simp
      finally show ?thesis using k by auto
    qed
  qed
qed

lemma escribe_resultado:
  "escribe e bs (acc, None) = (Inr (), (acc @ bs, None))"
  "escribe e bs (acc, Some n) =
     (if length bs \<le> n then (Inr (), (acc @ bs, Some (n - length bs)))
      else (Inl (Excepcion System_error), (acc @ take n bs, Some 0)))"
  by (simp_all add: escribe_def write_op_sin_limite write_op_limite epipe_def throwE_def)

end
