(* ===== verification/Maquina.thy ===== *)
theory Maquina
  imports Prelude
begin

text \<open>
  Step relations and invariants, shared by the components that are state machines: the states a
  machine can reach, and the contract of an inductive invariant as a locale.
\<close>

inductive alcanzable :: "('s \<Rightarrow> bool) \<Rightarrow> ('s \<Rightarrow> 's \<Rightarrow> bool) \<Rightarrow> 's \<Rightarrow> bool"
  for inicial :: "'s \<Rightarrow> bool" and paso :: "'s \<Rightarrow> 's \<Rightarrow> bool" where
  inicio: "inicial s \<Longrightarrow> alcanzable inicial paso s"
| avanza: "alcanzable inicial paso s \<Longrightarrow> paso s t \<Longrightarrow> alcanzable inicial paso t"

locale maquina =
  fixes inicial :: "'s \<Rightarrow> bool"
    and paso :: "'s \<Rightarrow> 's \<Rightarrow> bool"
    and inv :: "'s \<Rightarrow> bool"
  assumes inv_inicial: "inicial s \<Longrightarrow> inv s"
    and inv_paso: "paso s t \<Longrightarrow> inv s \<Longrightarrow> inv t"
begin

lemma inv_alcanzable: "alcanzable inicial paso s \<Longrightarrow> inv s"
  by (induction rule: alcanzable.induct) (blast intro: inv_inicial inv_paso)+

lemma inv_traza: "paso\<^sup>*\<^sup>* s t \<Longrightarrow> inv s \<Longrightarrow> inv t"
  by (induction rule: rtranclp_induct) (auto intro: inv_paso)

end

end
