(* ===== verification/Transferencia.thy ===== *)
theory Transferencia
  imports Persistencia AsioIO Maquina
begin

text \<open>
  The peer-to-peer transfer of \<^verbatim>\<open>cliente.cpp\<close>: \<^verbatim>\<open>FileService\<close> with its two chains of completion
  handlers, the downloading thread (\<^verbatim>\<open>hebra_cliente_ficheros\<close>, \<^verbatim>\<open>do_connect\<close>) and the serving thread
  (\<^verbatim>\<open>hebra_servidora_ficheros\<close>, \<^verbatim>\<open>do_accept\<close>) as a state machine whose steps are the completion
  handlers that \<^verbatim>\<open>io.run()\<close> calls.
\<close>

subsection \<open>\<^verbatim>\<open>FileService\<close>\<close>

definition tam_datos :: nat where
  "tam_datos = 1024"

text \<open>
  The constructor opens the file with \<^verbatim>\<open>O_CREAT | O_RDWR\<close>: a missing file is created empty. When
  \<^verbatim>\<open>open\<close> fails it returns -1 and the descriptor of Asio throws on it.
\<close>

definition FileService_create :: "bool \<Rightarrow> string \<Rightarrow> disco \<Rightarrow> disco res" where
  "FileService_create abre nombre_fichero d =
     (if \<not> abre then throwE System_error
      else Inr (case d (c_str nombre_fichero) of None \<Rightarrow> d(c_str nombre_fichero \<mapsto> []) | Some _ \<Rightarrow> d))"

text \<open>
  The handler that \<^verbatim>\<open>do_read\<close> and \<^verbatim>\<open>do_write\<close> install has one shape: on success it writes the bytes
  that arrived and installs itself again, on an error code it lets go of the service, and an
  exception of \<^verbatim>\<open>write\<close> leaves through \<^verbatim>\<open>io.run()\<close>.
\<close>

datatype continuacion = Sigue | Acaba | Lanza fallo

definition manejador ::
    "eleccion \<Rightarrow> eleccion \<Rightarrow> fuente \<Rightarrow> sumidero \<Rightarrow> continuacion \<times> fuente \<times> sumidero" where
  "manejador er ew src snk =
     (case read_op er 1 tam_datos [] src of
        (ec, datos, src') \<Rightarrow>
          if ec = Sin_error then
            (case escribe ew datos snk of
               (Inl e, snk') \<Rightarrow> (Lanza e, src', snk')
             | (Inr _, snk') \<Rightarrow> (Sigue, src', snk'))
          else (Acaba, src', snk))"

lemma manejador_vacio: "manejador er ew ([], fin) snk = (Acaba, ([], fin), snk)"
  by (simp add: manejador_def read_op_fin tam_datos_def del: One_nat_def)

lemma manejador_avanza:
  assumes "xs \<noteq> []"
  obtains k where "1 \<le> k" "k \<le> length xs" "k \<le> tam_datos"
    "manejador er ew (xs, fin) snk =
       (case escribe ew (take k xs) snk of
          (Inl e, snk') \<Rightarrow> (Lanza e, (drop k xs, fin), snk')
        | (Inr _, snk') \<Rightarrow> (Sigue, (drop k xs, fin), snk'))"
proof -
  have "0 < tam_datos" by (simp add: tam_datos_def)
  from assms this show thesis
    by (rule read_op_al_menos_uno [of xs tam_datos er fin])
      (rule that, simp_all add: manejador_def)
qed

lemma manejador_consume:
  assumes "manejador er ew src snk = (Sigue, src', snk')"
  shows "length (fst src') < length (fst src)"
proof (cases "fst src = []")
  case True
  then show ?thesis using assms by (cases src) (simp add: manejador_vacio)
next
  case False
  obtain xs fin where src: "src = (xs, fin)" by (cases src)
  with False have "xs \<noteq> []" by simp
  then obtain k where "1 \<le> k" "k \<le> length xs" "manejador er ew (xs, fin) snk =
       (case escribe ew (take k xs) snk of
          (Inl e, snk') \<Rightarrow> (Lanza e, (drop k xs, fin), snk')
        | (Inr _, snk') \<Rightarrow> (Sigue, (drop k xs, fin), snk'))"
    by (rule manejador_avanza [of xs er ew fin snk])
  then show ?thesis using assms src by (auto split: prod.splits sum.splits)
qed

text \<open>The chain of handlers, run to its end.\<close>

function bombea ::
    "eleccion \<Rightarrow> eleccion \<Rightarrow> fuente \<Rightarrow> sumidero \<Rightarrow> continuacion \<times> fuente \<times> sumidero" where
  "bombea er ew src snk =
     (case manejador er ew src snk of
        (Sigue, src', snk') \<Rightarrow> bombea er ew src' snk'
      | r \<Rightarrow> r)"
  by pat_completeness auto
termination
  by (relation "measure (\<lambda>(er, ew, src, snk). length (fst src))")
    (simp, metis case_prod_conv in_measure manejador_consume)

declare bombea.simps [simp del]

lemma bombea_sin_limite:
  "bombea er ew (xs, fin) (acc, None) = (Acaba, ([], fin), (acc @ xs, None))"
proof (induction "length xs" arbitrary: xs acc rule: less_induct)
  case less
  show ?case
  proof (cases "xs = []")
    case True
    then show ?thesis by (subst bombea.simps) (simp add: manejador_vacio)
  next
    case False
    obtain k where k: "1 \<le> k" "k \<le> length xs"
      and m: "manejador er ew (xs, fin) (acc, None) = (Sigue, (drop k xs, fin), (acc @ take k xs, None))"
      by (rule manejador_avanza [OF False, of er ew fin "(acc, None)"])
        (simp add: escribe_resultado)
    have "bombea er ew (xs, fin) (acc, None) = bombea er ew (drop k xs, fin) (acc @ take k xs, None)"
      by (subst bombea.simps) (simp add: m)
    also have "\<dots> = (Acaba, ([], fin), ((acc @ take k xs) @ drop k xs, None))"
      using k by (intro less) simp
    finally show ?thesis by simp
  qed
qed

lemma bombea_limite_basta:
  "length xs \<le> n \<Longrightarrow>
     bombea er ew (xs, fin) (acc, Some n) = (Acaba, ([], fin), (acc @ xs, Some (n - length xs)))"
proof (induction "length xs" arbitrary: xs acc n rule: less_induct)
  case less
  show ?case
  proof (cases "xs = []")
    case True
    then show ?thesis by (subst bombea.simps) (simp add: manejador_vacio)
  next
    case False
    obtain k where k: "1 \<le> k" "k \<le> length xs"
      and m: "manejador er ew (xs, fin) (acc, Some n) =
        (Sigue, (drop k xs, fin), (acc @ take k xs, Some (n - k)))"
      by (rule manejador_avanza [OF False, of er ew fin "(acc, Some n)"])
        (use less.prems in \<open>simp add: escribe_resultado\<close>)
    have "bombea er ew (xs, fin) (acc, Some n) = bombea er ew (drop k xs, fin) (acc @ take k xs, Some (n - k))"
      by (subst bombea.simps) (simp add: m)
    also have "\<dots> = (Acaba, ([], fin), ((acc @ take k xs) @ drop k xs, Some (n - k - length (drop k xs))))"
      using k less.prems by (intro less.hyps) simp_all
    finally show ?thesis using k by simp
  qed
qed

lemma bombea_limite_falta:
  "n < length xs \<Longrightarrow>
     \<exists>src'. bombea er ew (xs, fin) (acc, Some n) =
       (Lanza (Excepcion System_error), src', (acc @ take n xs, Some 0))"
proof (induction "length xs" arbitrary: xs acc n rule: less_induct)
  case less
  then have "xs \<noteq> []" by auto
  then obtain k where k: "1 \<le> k" "k \<le> length xs"
    and m: "manejador er ew (xs, fin) (acc, Some n) =
       (case escribe ew (take k xs) (acc, Some n) of
          (Inl e, snk') \<Rightarrow> (Lanza e, (drop k xs, fin), snk')
        | (Inr _, snk') \<Rightarrow> (Sigue, (drop k xs, fin), snk'))"
    by (rule manejador_avanza [of xs er ew fin "(acc, Some n)"])
  show ?case
  proof (cases "k \<le> n")
    case True
    with k m have "bombea er ew (xs, fin) (acc, Some n) =
        bombea er ew (drop k xs, fin) (acc @ take k xs, Some (n - k))"
      by (subst bombea.simps) (simp add: escribe_resultado)
    moreover have "\<exists>src'. bombea er ew (drop k xs, fin) (acc @ take k xs, Some (n - k)) =
        (Lanza (Excepcion System_error), src', ((acc @ take k xs) @ take (n - k) (drop k xs), Some 0))"
      using k True less.prems by (intro less.hyps) simp_all
    moreover have "take k xs @ take (n - k) (drop k xs) = take n xs"
      using True by (metis le_add_diff_inverse take_add)
    ultimately show ?thesis by simp
  next
    case False
    with k m show ?thesis
      by (subst bombea.simps) (simp add: escribe_resultado min_absorb1)
  qed
qed

subsection \<open>The two chains\<close>

text \<open>\<^verbatim>\<open>do_read\<close> sends the file over the connection; the file descriptor starts at its first byte.\<close>

definition do_read :: "eleccion \<Rightarrow> eleccion \<Rightarrow> string \<Rightarrow> sumidero \<Rightarrow> continuacion \<times> sumidero" where
  "do_read er ew contenido socket_conectado =
     (case bombea er ew (contenido, None) socket_conectado of (r, _, snk) \<Rightarrow> (r, snk))"

text \<open>
  \<^verbatim>\<open>do_write\<close> writes what the connection brings into the file, from its first byte on: what the file
  held past the last byte written stays. \<open>lim\<close> is the room left on the device.
\<close>

definition do_write ::
    "eleccion \<Rightarrow> eleccion \<Rightarrow> fuente \<Rightarrow> nat option \<Rightarrow> string \<Rightarrow> continuacion \<times> string" where
  "do_write er ew socket_conectado lim contenido =
     (case bombea er ew socket_conectado ([], lim) of
        (r, _, (acc, _)) \<Rightarrow> (r, acc @ drop (length acc) contenido))"

subsection \<open>The downloading thread\<close>

text \<open>
  What the thread meets outside: whether the file can be created and opened, the room on the
  device, and the network. The network gets the disk because a peer may be this very machine;
  \<open>None\<close> is a name that does not resolve or a refused connection (both throw).
\<close>

record entorno =
  crea :: bool
  abre :: bool
  sitio :: "nat option"
  red :: "disco \<Rightarrow> string \<Rightarrow> string \<Rightarrow> fuente option"
  elige_lee :: eleccion
  elige_escribe :: eleccion

definition do_connect ::
    "entorno \<Rightarrow> string \<Rightarrow> string \<Rightarrow> string \<Rightarrow> disco \<Rightarrow> fuente option res \<times> disco" where
  "do_connect w server_address server_port nombre_fichero d =
     (if \<not> crea w then (Inr None, d)
      else
        let d1 = d(c_str nombre_fichero \<mapsto> []) in
        (case FileService_create (abre w) nombre_fichero d1 of
           Inl e \<Rightarrow> (Inl e, d1)
         | Inr d2 \<Rightarrow>
             (case red w d2 server_address server_port of
                None \<Rightarrow> (throwE System_error, d2)
              | Some src \<Rightarrow> (Inr (Some src), d2))))"

text \<open>The address is taken apart with \<^verbatim>\<open>size_t\<close> positions that may be \<^verbatim>\<open>npos\<close>.\<close>

definition analiza_direccion :: "string \<Rightarrow> (string \<times> string) res" where
  "analiza_direccion dir_cliente =
     (let double_slash_pos = find_desde dir_cliente ''//'' 0;
          colon_pos = find_desde dir_cliente '':'' double_slash_pos in
      bindE (substr dir_cliente (double_slash_pos + 2) (colon_pos - double_slash_pos - 2)) (\<lambda>ip.
      bindE (substr dir_cliente (colon_pos + 1) npos) (\<lambda>port_str.
      bindE (stoi port_str) (\<lambda>port. Inr (ip, port_str)))))"

text \<open>The thread catches every \<^verbatim>\<open>std::exception\<close>; the first component is what it caught.\<close>

definition hebra_cliente_ficheros ::
    "entorno \<Rightarrow> string \<Rightarrow> string \<Rightarrow> disco \<Rightarrow> fallo option \<times> disco" where
  "hebra_cliente_ficheros w fichero dir_cliente d =
     (case analiza_direccion dir_cliente of
        Inl e \<Rightarrow> (Some e, d)
      | Inr (ip, port_str) \<Rightarrow>
          (case do_connect w ip port_str fichero d of
             (Inl e, d') \<Rightarrow> (Some e, d')
           | (Inr None, d') \<Rightarrow> (None, d')
           | (Inr (Some src), d') \<Rightarrow>
               (case do_write (elige_lee w) (elige_escribe w) src (sitio w)
                       (case d' (c_str fichero) of None \<Rightarrow> [] | Some c \<Rightarrow> c) of
                  (r, c) \<Rightarrow>
                    ((case r of Lanza e \<Rightarrow> Some e | _ \<Rightarrow> None), d'(c_str fichero \<mapsto> c)))))"

subsection \<open>Parsing the address the server gives\<close>

lemma takeWhile_hasta: "c \<notin> set xs \<Longrightarrow> takeWhile (\<lambda>x. x \<noteq> c) (xs @ c # ys) = xs"
  by (induction xs) auto

lemma find_doble_barra: "find_desde (''tcp://'' @ r) ''//'' 0 = 4"
  by (simp add: find_desde_def)

lemma find_dos_puntos:
  assumes "CHR '':'' \<notin> set ip"
  shows "find_desde (''tcp://'' @ ip @ '':'' @ r) '':'' 4 = word_of_nat (6 + length ip)"
proof -
  have "busca '':'' (''//'' @ ip @ '':'' @ r) = Some (2 + length ip)"
    using assms by (simp add: busca_char takeWhile_hasta del: busca.simps)
  then show ?thesis by (simp add: find_desde_def del: busca.simps)
qed

lemma analiza_direccion_tcp:
  assumes "CHR '':'' \<notin> set ip" "length ip < 2 ^ 32" "length p < 2 ^ 32" "stoi p = Inr v"
  shows "analiza_direccion (''tcp://'' @ ip @ '':'' @ p) = Inr (ip, p)"
proof -
  let ?s = "''tcp://'' @ ip @ '':'' @ p"
  have l: "unat (word_of_nat (length ip) :: size_t) = length ip"
    "unat (word_of_nat (7 + length ip) :: size_t) = 7 + length ip"
    using assms(2) by (simp_all add: unsigned_of_nat take_bit_nat_eq_self del: of_nat_add)
  have c: "word_of_nat (6 + length ip) - 4 - 2 = (word_of_nat (length ip) :: size_t)" by simp
  have c': "word_of_nat (6 + length ip) + 1 = (word_of_nat (7 + length ip) :: size_t)" by simp
  have a: "substr ?s (4 + 2) (word_of_nat (length ip)) = Inr ip"
    by (simp add: substr_def l)
  have dr: "drop (7 + length ip) ?s = p"
    by (simp add: eval_nat_numeral)
  have "unat npos = 2 ^ 64 - 1" by (simp add: npos_def unsigned_minus_1_eq_mask mask_eq_exp_minus_1)
  then have b: "substr ?s (word_of_nat (7 + length ip)) npos = Inr p"
    unfolding substr_def l(2) dr using assms(3) by simp
  show ?thesis
    unfolding analiza_direccion_def Let_def find_doble_barra find_dos_puntos [OF assms(1)] c c' a b
    using assms(4) by simp
qed

subsection \<open>Downloads\<close>

text \<open>
  What the downloading side reads from a peer that runs \<^verbatim>\<open>do_read\<close> on the contents \<open>c\<close>: the bytes that
  the peer could push, then the end of the connection (the peer lets go of its service).
\<close>

definition par :: "eleccion \<Rightarrow> eleccion \<Rightarrow> nat option \<Rightarrow> string \<Rightarrow> fuente" where
  "par er ew lim c = (case do_read er ew c ([], lim) of (_, (bs, _)) \<Rightarrow> (bs, None))"

lemma par_entero: "par er ew None c = (c, None)"
  by (simp add: par_def do_read_def bombea_sin_limite)

lemma do_write_vacio: "do_write er ew (bs, fin) None [] = (Acaba, bs)"
  by (simp add: do_write_def bombea_sin_limite)

definition direccion_tcp :: "string \<Rightarrow> string \<Rightarrow> string" where
  "direccion_tcp ip p = ''tcp://'' @ ip @ '':'' @ p"

definition direccion_ok :: "string \<Rightarrow> string \<Rightarrow> bool" where
  "direccion_ok ip p \<longleftrightarrow>
     CHR '':'' \<notin> set ip \<and> length ip < 2 ^ 32 \<and> length p < 2 ^ 32 \<and> (\<exists>v. stoi p = Inr v)"

lemma direccion_ok_analiza: "direccion_ok ip p \<Longrightarrow> analiza_direccion (direccion_tcp ip p) = Inr (ip, p)"
  unfolding direccion_ok_def direccion_tcp_def using analiza_direccion_tcp by blast

lemma descarga_resultado:
  assumes "crea w" "abre w" "sitio w = None" "direccion_ok ip p"
  shows "hebra_cliente_ficheros w f (direccion_tcp ip p) d =
    (case red w (d(c_str f \<mapsto> [])) ip p of
       None \<Rightarrow> (Some (Excepcion System_error), d(c_str f \<mapsto> []))
     | Some src \<Rightarrow> (None, d(c_str f \<mapsto> fst src)))"
  using assms
  by (auto simp: hebra_cliente_ficheros_def direccion_ok_analiza do_connect_def Let_def
      FileService_create_def throwE_def do_write_vacio split: option.split)

definition entorno_ejemplo :: "(disco \<Rightarrow> string \<Rightarrow> string \<Rightarrow> fuente option) \<Rightarrow> entorno" where
  "entorno_ejemplo r =
     \<lparr>crea = True, abre = True, sitio = None, red = r, elige_lee = (\<lambda>_. 3), elige_escribe = (\<lambda>_. 2)\<rparr>"

lemma entorno_ejemplo_simps [simp]:
  "crea (entorno_ejemplo r)" "abre (entorno_ejemplo r)" "sitio (entorno_ejemplo r) = None"
  "red (entorno_ejemplo r) = r"
  by (simp_all add: entorno_ejemplo_def)

lemma direccion_ok_ejemplo: "direccion_ok ''127.0.0.1'' ''8080''"
proof -
  have "stoi ''8080'' = Inr 8080" by code_simp
  then show ?thesis by (simp add: direccion_ok_def)
qed

lemma c_str_ejemplo: "c_str ''f.txt'' = ''f.txt''"
  by (simp add: c_str_def)

text \<open>C5. A download ends with the file of the peer, byte for byte: for every way in which the system
  calls of both sides cut the stream, when the peer holds \<open>c\<close> and its connection does not break, the
  downloading thread ends without an exception and the local file holds exactly \<open>c\<close>, whatever
  it held before; no other file changes.\<close>

theorem descarga_completa:
  assumes "crea w" "abre w" "sitio w = None" "direccion_ok ip p"
    and "red w (d(c_str f \<mapsto> [])) ip p = Some (par er ew None c)"
  shows "hebra_cliente_ficheros w f (direccion_tcp ip p) d = (None, d(c_str f \<mapsto> c))"
  using descarga_resultado [OF assms(1-4)] assms(5) by (simp add: par_entero)

theorem descarga_completa_testigo:
  "hebra_cliente_ficheros (entorno_ejemplo (\<lambda>_ _ _. Some (par (\<lambda>n. n mod 3) (\<lambda>n. 1) None ''hola mundo'')))
     ''f.txt'' (direccion_tcp ''127.0.0.1'' ''8080'') [''f.txt'' \<mapsto> ''viejo''] =
   (None, [''f.txt'' \<mapsto> ''viejo'', c_str ''f.txt'' \<mapsto> ''hola mundo''])"
  by (rule descarga_completa [OF _ _ _ direccion_ok_ejemplo]) simp_all

text \<open>A truncated download is not noticed: when the connection ends after a part of the file,
  in order or with any error code, the thread ends as after a complete download, without an
  exception, and the partial file stays.\<close>

theorem descarga_truncada_silenciosa:
  assumes "crea w" "abre w" "sitio w = None" "direccion_ok ip p"
    and "red w (d(c_str f \<mapsto> [])) ip p = Some (take n c, fin)"
  shows "hebra_cliente_ficheros w f (direccion_tcp ip p) d = (None, d(c_str f \<mapsto> take n c))"
  using descarga_resultado [OF assms(1-4)] assms(5) by simp

theorem descarga_truncada_silenciosa_testigo:
  "hebra_cliente_ficheros (entorno_ejemplo (\<lambda>_ _ _. Some (take 4 ''hola mundo'', Some 104)))
     ''f.txt'' (direccion_tcp ''127.0.0.1'' ''8080'') Map.empty =
   (None, [c_str ''f.txt'' \<mapsto> take 4 ''hola mundo''])"
  by (rule descarga_truncada_silenciosa [OF _ _ _ direccion_ok_ejemplo]) simp_all

text \<open>A download that cannot connect destroys the local file: the file is emptied before the address is
  resolved, so a refused connection leaves it empty, whatever it held.\<close>

theorem conexion_fallida_vacia_fichero:
  assumes "crea w" "abre w" "sitio w = None" "direccion_ok ip p"
    and "red w (d(c_str f \<mapsto> [])) ip p = None"
  shows "hebra_cliente_ficheros w f (direccion_tcp ip p) d =
    (Some (Excepcion System_error), d(c_str f \<mapsto> []))"
  using descarga_resultado [OF assms(1-4)] assms(5) by simp

theorem conexion_fallida_vacia_fichero_testigo:
  "hebra_cliente_ficheros (entorno_ejemplo (\<lambda>_ _ _. None))
     ''f.txt'' (direccion_tcp ''127.0.0.1'' ''8080'') [''f.txt'' \<mapsto> ''importante''] =
   (Some (Excepcion System_error), [''f.txt'' \<mapsto> ''importante'', c_str ''f.txt'' \<mapsto> []])"
  by (rule conexion_fallida_vacia_fichero [OF _ _ _ direccion_ok_ejemplo]) simp_all

text \<open>A client that downloads a file that it serves itself, from the same directory, loses it: the
  serving side reads the file that the downloading side has just emptied.\<close>

theorem descarga_propia_borra:
  assumes "crea w" "abre w" "sitio w = None" "direccion_ok ip p"
    and "\<And>e. red w e ip p = map_option (par er ew None) (e (c_str f))"
  shows "hebra_cliente_ficheros w f (direccion_tcp ip p) d = (None, d(c_str f \<mapsto> []))"
  using descarga_resultado [OF assms(1-4)] assms(5) by (simp add: par_entero)

theorem descarga_propia_borra_testigo:
  "hebra_cliente_ficheros (entorno_ejemplo (\<lambda>e _ _. map_option (par (\<lambda>n. n) (\<lambda>n. n) None) (e (c_str ''f.txt''))))
     ''f.txt'' (direccion_tcp ''127.0.0.1'' ''8080'') [''f.txt'' \<mapsto> ''importante''] =
   (None, [''f.txt'' \<mapsto> ''importante'', c_str ''f.txt'' \<mapsto> []])"
  by (rule descarga_propia_borra [OF _ _ _ direccion_ok_ejemplo, where er = "\<lambda>n. n" and ew = "\<lambda>n. n"])
    simp_all

end
