(* ===== verification/Servicio.thy ===== *)
theory Servicio
  imports Transferencia "HOL-Library.Sublist"
begin

text \<open>
  The serving thread of \<^verbatim>\<open>cliente.cpp\<close>: \<^verbatim>\<open>hebra_servidora_ficheros\<close> and \<^verbatim>\<open>do_accept\<close>. \<^verbatim>\<open>io.run()\<close>
  calls one completion handler at a time, in any order of the sessions; an exception that leaves a
  handler leaves \<^verbatim>\<open>io.run()\<close>, and the thread ends behind its \<^verbatim>\<open>catch\<close>.
\<close>

subsection \<open>State\<close>

text \<open>
  A session: how much of the file it has read, the bytes its client got, whether a read is pending, and the
  error code with which its last read completed.
\<close>

record sesion =
  leido :: nat
  conexion :: sumidero
  pendiente :: bool
  ec_lectura :: error_code

record hebra =
  puerto :: uint16
  nombre_fichero :: string
  ficheros :: disco
  sesiones :: "sesion list"
  activa :: bool

definition contenido :: "string \<Rightarrow> disco \<Rightarrow> string" where
  "contenido n d = (case d (c_str n) of None \<Rightarrow> [] | Some c \<Rightarrow> c)"

subsection \<open>Handlers\<close>

text \<open>\<^verbatim>\<open>do_accept\<close> creates the service of the next connection; when that throws the thread is over.\<close>

definition do_accept :: "bool \<Rightarrow> hebra \<Rightarrow> hebra" where
  "do_accept se_abre h =
     (case FileService_create se_abre (nombre_fichero h) (ficheros h) of
        Inl e \<Rightarrow> h\<lparr>activa := False\<rparr>
      | Inr d \<Rightarrow> h\<lparr>ficheros := d\<rparr>)"

text \<open>
  The handler of \<^verbatim>\<open>async_accept\<close>: without an error the session starts its reading chain; in both
  cases the next connection is waited for. \<open>Some lim\<close> is a connection that breaks after \<open>lim\<close> bytes.
\<close>

definition manejador_accept :: "nat option option \<Rightarrow> bool \<Rightarrow> hebra \<Rightarrow> hebra" where
  "manejador_accept con se_abre h =
     do_accept se_abre
       (case con of
          None \<Rightarrow> h
        | Some lim \<Rightarrow>
            h\<lparr>sesiones := sesiones h @ [\<lparr>leido = 0, conexion = ([], lim), pendiente = True, ec_lectura = Sin_error\<rparr>]\<rparr>)"

text \<open>
  The handler of the read that session \<open>i\<close> has pending, on what the file holds at that moment; the read may
  also fail with an error number (\<open>fallo\<close>), and then, as at the end of the file, the handler does nothing and
  the session is over.
\<close>

definition manejador_lectura :: "eleccion \<Rightarrow> eleccion \<Rightarrow> nat option \<Rightarrow> nat \<Rightarrow> hebra \<Rightarrow> hebra" where
  "manejador_lectura er ew fallo i h =
     (let self = sesiones h ! i;
          resto = (if fallo = None then drop (leido self) (contenido (nombre_fichero h) (ficheros h)) else [])
      in case manejador er ew (resto, fallo) (conexion self) of
           (r, src, snk) \<Rightarrow>
             h\<lparr>sesiones := (sesiones h)[i :=
                 \<lparr>leido = leido self + (length resto - length (fst src)), conexion = snk,
                  pendiente = (r = Sigue), ec_lectura = (if r = Acaba then codigo_fin fallo else Sin_error)\<rparr>],
               activa := (case r of Lanza e \<Rightarrow> False | _ \<Rightarrow> activa h)\<rparr>)"

text \<open>The thread up to \<^verbatim>\<open>io.run()\<close>: binding the port may throw, and then no service is created.\<close>

definition hebra_servidora_ficheros :: "bool \<Rightarrow> bool \<Rightarrow> uint16 \<Rightarrow> string \<Rightarrow> disco \<Rightarrow> hebra" where
  "hebra_servidora_ficheros enlaza se_abre p n d =
     (let h = \<lparr>puerto = p, nombre_fichero = n, ficheros = d, sesiones = [], activa = True\<rparr> in
      if enlaza then do_accept se_abre h else h\<lparr>activa := False\<rparr>)"

inductive paso_hebra :: "hebra \<Rightarrow> hebra \<Rightarrow> bool" where
  acepta: "activa h \<Longrightarrow> paso_hebra h (manejador_accept con se_abre h)"
| lee: "activa h \<Longrightarrow> i < length (sesiones h) \<Longrightarrow> pendiente (sesiones h ! i) \<Longrightarrow>
    paso_hebra h (manejador_lectura er ew fallo i h)"

inductive_cases paso_hebraE: "paso_hebra h h'"

definition inicial_hebra :: "string \<Rightarrow> disco \<Rightarrow> hebra \<Rightarrow> bool" where
  "inicial_hebra n d h \<longleftrightarrow> (\<exists>enlaza se_abre p. h = hebra_servidora_ficheros enlaza se_abre p n d)"

subsection \<open>The invariant\<close>

text \<open>
  Every session got a prefix of the file; one with a read pending got exactly what was read for
  it, and one whose last read came to the end of the file got all of it. While the thread runs, the last
  read of a session that is over came to the end of the file or failed.
\<close>

definition sesion_ok :: "string \<Rightarrow> sesion \<Rightarrow> bool" where
  "sesion_ok c s \<longleftrightarrow>
     prefix (fst (conexion s)) c \<and>
     (pendiente s \<longrightarrow> leido s \<le> length c \<and> fst (conexion s) = take (leido s) c) \<and>
     (ec_lectura s = Eof \<longrightarrow> fst (conexion s) = c)"

definition hebra_inv :: "string \<Rightarrow> string \<Rightarrow> hebra \<Rightarrow> bool" where
  "hebra_inv n c h \<longleftrightarrow>
     nombre_fichero h = n \<and> contenido n (ficheros h) = c \<and> (\<forall>s \<in> set (sesiones h). sesion_ok c s) \<and>
     (activa h \<longrightarrow> (\<forall>s \<in> set (sesiones h). \<not> pendiente s \<longrightarrow> ec_lectura s \<noteq> Sin_error))"

lemma contenido_create:
  "FileService_create b n d = Inr d' \<Longrightarrow> contenido n d' = contenido n d"
  by (auto simp: FileService_create_def contenido_def throwE_def split: if_splits option.splits)

lemma do_accept_inv: "hebra_inv n c h \<Longrightarrow> hebra_inv n c (do_accept b h)"
  by (auto simp: do_accept_def hebra_inv_def contenido_create split: sum.split)

lemma manejador_accept_inv: "hebra_inv n c h \<Longrightarrow> hebra_inv n c (manejador_accept con b h)"
  unfolding manejador_accept_def
  by (rule do_accept_inv) (auto simp: hebra_inv_def sesion_ok_def split: option.split)

text \<open>One reading handler: either the file is over, or a non-empty piece of it goes out.\<close>

lemma sesion_act:
  "\<lparr>leido = leido s, conexion = conexion s, pendiente = b, ec_lectura = ec\<rparr> = s\<lparr>pendiente := b, ec_lectura := ec\<rparr>"
  by (cases s) simp

lemma manejador_lectura_fin:
  assumes "fallo \<noteq> None \<or> leido (sesiones h ! i) \<ge> length (contenido (nombre_fichero h) (ficheros h))"
  shows "manejador_lectura er ew fallo i h =
    h\<lparr>sesiones := (sesiones h)[i := (sesiones h ! i)\<lparr>pendiente := False, ec_lectura := codigo_fin fallo\<rparr>]\<rparr>"
  using assms by (auto simp: manejador_lectura_def manejador_vacio Let_def sesion_act)

lemma manejador_lectura_trozo:
  assumes "leido (sesiones h ! i) < length (contenido (nombre_fichero h) (ficheros h))"
  obtains k r snk where "1 \<le> k" "leido (sesiones h ! i) + k \<le> length (contenido (nombre_fichero h) (ficheros h))"
    "escribe ew (take k (drop (leido (sesiones h ! i)) (contenido (nombre_fichero h) (ficheros h))))
       (conexion (sesiones h ! i)) = (r, snk)"
    "manejador_lectura er ew None i h =
       h\<lparr>sesiones := (sesiones h)[i :=
           \<lparr>leido = leido (sesiones h ! i) + k, conexion = snk, pendiente = (r = Inr ()), ec_lectura = Sin_error\<rparr>],
         activa := (activa h \<and> r = Inr ())\<rparr>"
proof -
  let ?self = "sesiones h ! i"
  let ?resto = "drop (leido ?self) (contenido (nombre_fichero h) (ficheros h))"
  have "?resto \<noteq> []" using assms by simp
  then obtain k where k: "1 \<le> k" "k \<le> length ?resto"
    and m: "manejador er ew (?resto, None) (conexion ?self) =
       (case escribe ew (take k ?resto) (conexion ?self) of
          (Inl e, snk') \<Rightarrow> (Lanza e, (drop k ?resto, None), snk')
        | (Inr _, snk') \<Rightarrow> (Sigue, (drop k ?resto, None), snk'))"
    by (rule manejador_avanza [of _ er ew None "conexion ?self"])
  obtain r snk where e: "escribe ew (take k ?resto) (conexion ?self) = (r, snk)"
    by (cases "escribe ew (take k ?resto) (conexion ?self)")
  have "manejador_lectura er ew None i h =
       h\<lparr>sesiones := (sesiones h)[i :=
           \<lparr>leido = leido ?self + k, conexion = snk, pendiente = (r = Inr ()), ec_lectura = Sin_error\<rparr>],
         activa := (activa h \<and> r = Inr ())\<rparr>"
    using k m e by (cases r) (simp_all add: manejador_lectura_def Let_def)
  with k e show thesis by (intro that [of k r snk]) simp_all
qed

lemma escribe_prefijo:
  assumes "escribe ew bs (acc, lim) = (r, snk)"
  shows "(\<exists>k. fst snk = acc @ take k bs) \<and> (r = Inr () \<longrightarrow> fst snk = acc @ bs)"
  using assms by (cases lim) (auto simp: escribe_resultado split: if_splits intro: exI [of _ "length bs"])

lemma hebra_inv_act:
  assumes "hebra_inv n c h" "sesion_ok c x" "a \<longrightarrow> activa h \<and> (\<not> pendiente x \<longrightarrow> ec_lectura x \<noteq> Sin_error)"
  shows "hebra_inv n c (h\<lparr>sesiones := (sesiones h)[i := x], activa := a\<rparr>)"
  using assms set_update_subset_insert [of "sesiones h" i x] unfolding hebra_inv_def by auto

lemma manejador_lectura_inv:
  assumes inv: "hebra_inv n c h" and i: "i < length (sesiones h)" and pend: "pendiente (sesiones h ! i)"
  shows "hebra_inv n c (manejador_lectura er ew fallo i h)"
proof -
  let ?s = "sesiones h ! i"
  have c: "contenido (nombre_fichero h) (ficheros h) = c" and n: "nombre_fichero h = n"
    using inv by (auto simp: hebra_inv_def)
  have s: "leido ?s \<le> length c" "fst (conexion ?s) = take (leido ?s) c"
    using inv i pend nth_mem by (fastforce simp: hebra_inv_def sesion_ok_def)+
  show ?thesis
  proof (cases "fallo = None \<and> leido ?s < length c")
    case False
    then have m: "manejador_lectura er ew fallo i h =
        h\<lparr>sesiones := (sesiones h)[i := ?s\<lparr>pendiente := False, ec_lectura := codigo_fin fallo\<rparr>], activa := activa h\<rparr>"
      using manejador_lectura_fin [of fallo h i er ew] c by auto
    have "fallo = None" if "codigo_fin fallo = Eof" using that by (cases fallo) (simp_all add: codigo_fin_def)
    then show ?thesis
      unfolding m using inv s False by (intro hebra_inv_act) (auto simp: sesion_ok_def take_is_prefix)
  next
    case True
    obtain k r snk where k: "1 \<le> k" "leido ?s + k \<le> length c"
      and e: "escribe ew (take k (drop (leido ?s) c)) (conexion ?s) = (r, snk)"
      and m: "manejador_lectura er ew None i h =
        h\<lparr>sesiones := (sesiones h)[i := \<lparr>leido = leido ?s + k, conexion = snk, pendiente = (r = Inr ()), ec_lectura = Sin_error\<rparr>],
          activa := (activa h \<and> r = Inr ())\<rparr>"
      by (rule manejador_lectura_trozo [of h i ew er]) (simp_all add: c True)
    obtain lim where con: "conexion ?s = (take (leido ?s) c, lim)" using s by (cases "conexion ?s") simp
    note p = escribe_prefijo [OF e [unfolded con], THEN conjunct1]
      escribe_prefijo [OF e [unfolded con], THEN conjunct2, rule_format]
    obtain j where "fst snk = take (leido ?s) c @ take j (take k (drop (leido ?s) c))" using p(1) by blast
    then have "fst snk = take (leido ?s + min j k) c" by (simp add: take_add)
    then have pre: "prefix (fst snk) c" by (simp add: take_is_prefix)
    have "r = Inr () \<Longrightarrow> fst snk = take (leido ?s + k) c" using p(2) by (simp add: take_add)
    with inv pre k True show ?thesis
      using m by (auto simp: sesion_ok_def intro!: hebra_inv_act)
  qed
qed

lemma paso_hebra_inv: "paso_hebra h h' \<Longrightarrow> hebra_inv n c h \<Longrightarrow> hebra_inv n c h'"
  by (erule paso_hebraE) (auto intro: manejador_accept_inv manejador_lectura_inv)

lemma hebra_inv_sin_sesiones:
  "hebra_inv n (contenido n d) \<lparr>puerto = p, nombre_fichero = n, ficheros = d, sesiones = [], activa = b\<rparr>"
  by (simp add: hebra_inv_def)

lemma inicial_hebra_inv: "inicial_hebra n d h \<Longrightarrow> hebra_inv n (contenido n d) h"
  by (auto simp: inicial_hebra_def hebra_servidora_ficheros_def Let_def
      do_accept_inv hebra_inv_sin_sesiones)

interpretation servicio: maquina "inicial_hebra n d" paso_hebra "hebra_inv n (contenido n d)" for n d
  by unfold_locales (blast intro: inicial_hebra_inv paso_hebra_inv)+


subsection \<open>What the thread delivers\<close>

definition hebra_ejemplo :: "nat option \<Rightarrow> hebra" where
  "hebra_ejemplo lim =
     manejador_accept (Some lim) True
       (hebra_servidora_ficheros True True 8080 ''f'' [''f'' \<mapsto> ''abc''])"

lemma hebra_ejemplo_valor:
  "hebra_ejemplo lim =
     \<lparr>puerto = 8080, nombre_fichero = ''f'', ficheros = [''f'' \<mapsto> ''abc''],
      sesiones = [\<lparr>leido = 0, conexion = ([], lim), pendiente = True, ec_lectura = Sin_error\<rparr>], activa = True\<rparr>"
  by (simp add: hebra_ejemplo_def manejador_accept_def do_accept_def hebra_servidora_ficheros_def
      FileService_create_def Let_def c_str_def)

lemma contenido_ejemplo: "contenido ''f'' [''f'' \<mapsto> ''abc''] = ''abc''"
  by (simp add: contenido_def c_str_def)

lemma hebra_ejemplo_alcanzable:
  "alcanzable (inicial_hebra ''f'' [''f'' \<mapsto> ''abc'']) paso_hebra (hebra_ejemplo lim)"
proof (rule alcanzable.avanza)
  let ?h = "hebra_servidora_ficheros True True 8080 ''f'' [''f'' \<mapsto> ''abc'']"
  show "alcanzable (inicial_hebra ''f'' [''f'' \<mapsto> ''abc'']) paso_hebra ?h"
    by (rule alcanzable.inicio) (auto simp: inicial_hebra_def)
  have "activa ?h"
    by (simp add: hebra_servidora_ficheros_def do_accept_def FileService_create_def Let_def)
  then show "paso_hebra ?h (hebra_ejemplo lim)"
    unfolding hebra_ejemplo_def by (rule paso_hebra.acepta)
qed

text \<open>C6. In every state that the serving thread can reach, with any number of interleaved downloads, any
  cutting of the streams and reads that fail, every client got a prefix of the file, and every client whose
  last read came to the end of the file got the whole file; while the thread runs, the last read of every
  session that is over came to the end of the file or failed with an error (and then nobody is told).\<close>

theorem servicio_entrega:
  assumes "alcanzable (inicial_hebra n d) paso_hebra h" "s \<in> set (sesiones h)"
  shows "prefix (fst (conexion s)) (contenido n d) \<and>
    (ec_lectura s = Eof \<longrightarrow> fst (conexion s) = contenido n d) \<and>
    (activa h \<and> \<not> pendiente s \<longrightarrow> ec_lectura s = Eof \<or> (\<exists>e. ec_lectura s = Error_es e))"
  using servicio.inv_alcanzable [OF assms(1)] assms(2)
  by (cases "ec_lectura s") (auto simp: hebra_inv_def sesion_ok_def)

theorem servicio_entrega_testigo:
  "prefix (fst (conexion (sesiones (manejador_lectura (\<lambda>_. 2) (\<lambda>_. 1) None 0 (hebra_ejemplo (Some 1))) ! 0)))
     (contenido ''f'' [''f'' \<mapsto> ''abc''])"
proof -
  let ?h = "manejador_lectura (\<lambda>_. 2) (\<lambda>_. 1) None 0 (hebra_ejemplo (Some 1))"
  have "alcanzable (inicial_hebra ''f'' [''f'' \<mapsto> ''abc'']) paso_hebra ?h"
    by (rule alcanzable.avanza [OF hebra_ejemplo_alcanzable paso_hebra.lee])
      (simp_all add: hebra_ejemplo_valor)
  moreover have "sesiones ?h ! 0 \<in> set (sesiones ?h)"
    by (rule nth_mem) (simp add: manejador_lectura_def Let_def hebra_ejemplo_valor split: prod.split)
  ultimately show ?thesis using servicio_entrega by blast
qed

lemma servicio_avanza_sesion:
  assumes "hebra_inv n c h" "activa h" "i < length (sesiones h)" "pendiente (sesiones h ! i)"
    and "snd (conexion (sesiones h ! i)) = None"
  shows "\<exists>h'. paso_hebra\<^sup>*\<^sup>* h h' \<and> activa h' \<and> length (sesiones h') = length (sesiones h) \<and>
    \<not> pendiente (sesiones h' ! i) \<and> ec_lectura (sesiones h' ! i) = Eof \<and>
    (\<forall>j. j \<noteq> i \<longrightarrow> sesiones h' ! j = sesiones h ! j)"
  using assms
proof (induction "length c - leido (sesiones h ! i)" arbitrary: h rule: less_induct)
  case less
  let ?s = "sesiones h ! i" and ?e = "\<lambda>_ :: nat. 1 :: nat"
  let ?h = "manejador_lectura ?e ?e None i h"
  have c: "contenido (nombre_fichero h) (ficheros h) = c" using less.prems(1) by (auto simp: hebra_inv_def)
  have paso: "paso_hebra h ?h" using less.prems by (intro paso_hebra.lee)
  show ?case
  proof (cases "leido ?s < length c")
    case False
    then have "?h = h\<lparr>sesiones := (sesiones h)[i := ?s\<lparr>pendiente := False, ec_lectura := codigo_fin None\<rparr>]\<rparr>"
      by (intro manejador_lectura_fin) (simp add: c)
    with less.prems paso show ?thesis by (intro exI [of _ ?h]) (auto simp: codigo_fin_def)
  next
    case True
    obtain k r snk where k: "1 \<le> k" "leido ?s + k \<le> length c"
      and e: "escribe ?e (take k (drop (leido ?s) c)) (conexion ?s) = (r, snk)"
      and m: "?h = h\<lparr>sesiones := (sesiones h)[i := \<lparr>leido = leido ?s + k, conexion = snk, pendiente = (r = Inr ()), ec_lectura = Sin_error\<rparr>],
          activa := (activa h \<and> r = Inr ())\<rparr>"
      by (rule manejador_lectura_trozo [of h i ?e ?e]) (simp_all add: c True)
    have "r = Inr () \<and> snd snk = None"
      using e less.prems(5) by (cases "conexion ?s") (auto simp: escribe_resultado)
    with m less.prems k True manejador_lectura_inv [OF less.prems(1,3,4), of ?e ?e None]
    have "\<exists>h'. paso_hebra\<^sup>*\<^sup>* ?h h' \<and> activa h' \<and> length (sesiones h') = length (sesiones ?h) \<and>
        \<not> pendiente (sesiones h' ! i) \<and> ec_lectura (sesiones h' ! i) = Eof \<and>
        (\<forall>j. j \<noteq> i \<longrightarrow> sesiones h' ! j = sesiones ?h ! j)"
      by (intro less.hyps) auto
    moreover have "length (sesiones ?h) = length (sesiones h)" "\<forall>j. j \<noteq> i \<longrightarrow> sesiones ?h ! j = sesiones h ! j"
      using m by auto
    ultimately show ?thesis using converse_rtranclp_into_rtranclp [of paso_hebra, OF paso] by metis
  qed
qed

text \<open>C18. A download whose connection holds can always be completed: from every reachable state in
  which the thread runs and session \<open>i\<close> waits for a read, there is a run of the thread after
  which the client of that session has the whole file, the thread still runs and no other session
  was touched.\<close>

theorem servicio_completa:
  assumes "alcanzable (inicial_hebra n d) paso_hebra h" "activa h"
    and "i < length (sesiones h)" "pendiente (sesiones h ! i)" "snd (conexion (sesiones h ! i)) = None"
  shows "\<exists>h'. paso_hebra\<^sup>*\<^sup>* h h' \<and> activa h' \<and> \<not> pendiente (sesiones h' ! i) \<and>
    fst (conexion (sesiones h' ! i)) = contenido n d \<and> (\<forall>j. j \<noteq> i \<longrightarrow> sesiones h' ! j = sesiones h ! j)"
proof -
  note inv = servicio.inv_alcanzable [OF assms(1)]
  obtain h' where h': "paso_hebra\<^sup>*\<^sup>* h h'" "activa h'" "length (sesiones h') = length (sesiones h)"
    "\<not> pendiente (sesiones h' ! i)" "ec_lectura (sesiones h' ! i) = Eof" "\<forall>j. j \<noteq> i \<longrightarrow> sesiones h' ! j = sesiones h ! j"
    using servicio_avanza_sesion [OF inv assms(2-5)] by blast
  have "hebra_inv n (contenido n d) h'" by (rule servicio.inv_traza [OF h'(1) inv])
  with h' assms(3) have "fst (conexion (sesiones h' ! i)) = contenido n d"
    by (simp add: hebra_inv_def sesion_ok_def)
  with h' show ?thesis by blast
qed

theorem servicio_completa_testigo:
  "\<exists>h'. paso_hebra\<^sup>*\<^sup>* (hebra_ejemplo None) h' \<and> fst (conexion (sesiones h' ! 0)) = ''abc''"
  using servicio_completa [OF hebra_ejemplo_alcanzable, of None 0]
  by (auto simp: hebra_ejemplo_valor contenido_ejemplo)

text \<open>C26. One client that goes away stops the service for all: when a read completes with bytes for a session
  whose client has closed the connection before the file was sent, \<^verbatim>\<open>write\<close> throws, the thread
  ends, every other session stays where it was and no handler runs any more.\<close>

theorem cliente_que_corta_para_servicio:
  assumes "activa h" "i < length (sesiones h)" "pendiente (sesiones h ! i)"
    and "snd (conexion (sesiones h ! i)) = Some 0"
    and "leido (sesiones h ! i) < length (contenido (nombre_fichero h) (ficheros h))"
  shows "\<not> activa (manejador_lectura er ew None i h) \<and>
    (\<forall>j. j \<noteq> i \<longrightarrow> sesiones (manejador_lectura er ew None i h) ! j = sesiones h ! j) \<and>
    (\<forall>h'. \<not> paso_hebra (manejador_lectura er ew None i h) h')"
proof -
  obtain k r snk where k: "1 \<le> k"
      "leido (sesiones h ! i) + k \<le> length (contenido (nombre_fichero h) (ficheros h))"
    and e: "escribe ew (take k (drop (leido (sesiones h ! i)) (contenido (nombre_fichero h) (ficheros h))))
       (conexion (sesiones h ! i)) = (r, snk)"
    and m: "manejador_lectura er ew None i h =
       h\<lparr>sesiones := (sesiones h)[i :=
           \<lparr>leido = leido (sesiones h ! i) + k, conexion = snk, pendiente = (r = Inr ()), ec_lectura = Sin_error\<rparr>],
         activa := (activa h \<and> r = Inr ())\<rparr>"
    by (rule manejador_lectura_trozo [OF assms(5)])
  have "r \<noteq> Inr ()"
    using e k assms(4) by (cases "conexion (sesiones h ! i)") (auto simp: escribe_resultado)
  then have "\<not> activa (manejador_lectura er ew None i h)" using m by simp
  moreover have "\<not> paso_hebra h1 h'" if "\<not> activa h1" for h1 h'
    using that by (auto elim: paso_hebraE)
  ultimately show ?thesis using m by auto
qed

theorem cliente_que_corta_para_servicio_testigo:
  "\<not> activa (manejador_lectura (\<lambda>_. 7) (\<lambda>_. 7) None 0 (hebra_ejemplo (Some 0)))"
  using cliente_que_corta_para_servicio [of "hebra_ejemplo (Some 0)" 0]
  by (simp add: hebra_ejemplo_valor contenido_ejemplo)

end
