(* ===== verification/Cliente.thy ===== *)
theory Cliente
  imports Servidor Servicio
begin

text \<open>
  \<^verbatim>\<open>main\<close> of \<^verbatim>\<open>cliente.cpp\<close>: the menu loop over standard input and a REQ socket. One step of the model is
  one turn of the loop. The constant prompts are not recorded; what is printed from a reply and
  the messages on standard error are. The threads that a turn starts are recorded with their
  arguments; what they do is in \<open>Servicio\<close> and \<open>Transferencia\<close>.
\<close>

subsection \<open>State\<close>

datatype salida = Muestra string | Aviso string

datatype estado_cliente =
    Menu
  | Espera_hebras
  | Bloqueado
  | Fin fin_proceso

text \<open>
  The variables of \<^verbatim>\<open>main\<close> that live across turns, standard input (what is left of it and its
  \<^verbatim>\<open>failbit\<close>) and the world behind the socket.
\<close>

record 'w cliente =
  entrada :: string
  falla :: bool
  mundo :: 'w
  reply :: string
  v_nombre :: string
  v_ip :: string
  v_puerto :: string
  servidoras_escuchando :: "(uint16 \<times> string) list"
  descargas :: "(string \<times> string) list"
  pantalla :: "salida list"
  estado :: estado_cliente

text \<open>
  The C library behind the socket: what \<^verbatim>\<open>zmq_send\<close> and \<^verbatim>\<open>zmq_msg_recv\<close> return in a world (\<open>None\<close>: the
  call never returns), and what a message holds after a receive that failed.
\<close>

record 'w red_zmq =
  zsend :: "string \<Rightarrow> 'w \<Rightarrow> (nat zmq_rc \<times> 'w) option"
  zrecv :: "'w \<Rightarrow> (string zmq_rc \<times> 'w) option"
  tras_fallo :: "string \<Rightarrow> string"

definition SERVIDOR :: string where
  "SERVIDOR = ''tcp://localhost:5555''"

subsection \<open>Standard input\<close>

text \<open>
  \<^verbatim>\<open>std::cin >> opcion\<close> with \<^verbatim>\<open>opcion\<close> initially 0: on a failed stream or at the end of the input the
  variable keeps 0, without digits it is set to 0, out of range to the nearest limit; in these cases
  the \<^verbatim>\<open>failbit\<close> is set, and nothing in the program clears it.
\<close>

definition cin_int :: "'w cliente \<Rightarrow> int \<times> 'w cliente" where
  "cin_int c =
     (if falla c then (0, c)
      else
        let (sg, r) = signo (salta_espacios (entrada c));
            ds = takeWhile es_digito r;
            v = sg * int (valor_decimal ds);
            c' = c\<lparr>entrada := dropWhile es_digito r\<rparr>
        in if ds = [] then (0, c'\<lparr>falla := True\<rparr>)
           else if int_max < v then (int_max, c'\<lparr>falla := True\<rparr>)
           else if v < int_min then (int_min, c'\<lparr>falla := True\<rparr>)
           else (v, c'))"

text \<open>\<^verbatim>\<open>std::cin >> s\<close>: a failed extraction keeps the old value of the string.\<close>

definition cin_str :: "string \<Rightarrow> 'w cliente \<Rightarrow> string \<times> 'w cliente" where
  "cin_str viejo c =
     (if falla c then (viejo, c)
      else case lee_palabra (entrada c) of
        None \<Rightarrow> (viejo, c\<lparr>entrada := [], falla := True\<rparr>)
      | Some (w, r) \<Rightarrow> (w, c\<lparr>entrada := r\<rparr>))"

subsection \<open>The socket\<close>

definition fin_de :: "fallo \<Rightarrow> estado_cliente" where
  "fin_de e = (case e of Excepcion x \<Rightarrow> Fin (Sin_capturar x) | Indefinido \<Rightarrow> Fin Indefinido_fin)"

definition envia_req ::
    "'w red_zmq \<Rightarrow> string \<Rightarrow> (bool \<Rightarrow> 'w cliente \<Rightarrow> 'w cliente) \<Rightarrow> 'w cliente \<Rightarrow> 'w cliente" where
  "envia_req z msg k c =
     (case zsend z msg (mundo c) of
        None \<Rightarrow> c\<lparr>estado := Bloqueado\<rparr>
      | Some (rc, w) \<Rightarrow>
          (case socket_send rc of
             Inl e \<Rightarrow> c\<lparr>mundo := w, estado := fin_de e\<rparr>
           | Inr ret \<Rightarrow> k (ret \<noteq> None) (c\<lparr>mundo := w\<rparr>)))"

definition recibe_rep ::
    "'w red_zmq \<Rightarrow> (bool \<Rightarrow> 'w cliente \<Rightarrow> 'w cliente) \<Rightarrow> 'w cliente \<Rightarrow> 'w cliente" where
  "recibe_rep z k c =
     (case zrecv z (mundo c) of
        None \<Rightarrow> c\<lparr>estado := Bloqueado\<rparr>
      | Some (rc, w) \<Rightarrow>
          (case socket_recv rc of
             Inl e \<Rightarrow> c\<lparr>mundo := w, estado := fin_de e\<rparr>
           | Inr None \<Rightarrow> k False (c\<lparr>mundo := w, reply := tras_fallo z (reply c)\<rparr>)
           | Inr (Some m) \<Rightarrow> k True (c\<lparr>mundo := w, reply := m\<rparr>)))"

definition di :: "salida \<Rightarrow> 'w cliente \<Rightarrow> 'w cliente" where
  "di s c = c\<lparr>pantalla := pantalla c @ [s]\<rparr>"

definition aviso_si :: "bool \<Rightarrow> string \<Rightarrow> 'w cliente \<Rightarrow> 'w cliente" where
  "aviso_si b m c = (if b then di (Aviso m) c else c)"

definition sale :: "string \<Rightarrow> 'w cliente \<Rightarrow> 'w cliente" where
  "sale m c = (di (Aviso m) c)\<lparr>estado := Fin (Exit (- 1))\<rparr>"

subsection \<open>The options\<close>

definition opcion_listado :: "'w red_zmq \<Rightarrow> 'w cliente \<Rightarrow> 'w cliente" where
  "opcion_listado z =
     envia_req z (to_string_int 0) (\<lambda>ret c.
       recibe_rep z (\<lambda>ret c.
           let c' = aviso_si (\<not> ret) ''Fallo al recibir los ficheros del servidor.'' c
           in di (Muestra (reply c')) c')
         (aviso_si (\<not> ret) ''Fallo al solicitar datos del almacen.'' c))"

definition opcion_subir :: "'w red_zmq \<Rightarrow> 'w cliente \<Rightarrow> 'w cliente" where
  "opcion_subir z =
     envia_req z (to_string_int 1) (\<lambda>ret c.
       recibe_rep z (\<lambda>ret c.
           if \<not> ret \<or> reply c \<noteq> ack then sale ''Fallo al recivir ACK'' c
           else
             let (nombre, c1) = cin_str (v_nombre c) c;
                 (ip, c2) = cin_str (v_ip c) c1;
                 (puerto, c3) = cin_str (v_puerto c) c2;
                 solicitud = nombre @ SEPARADOR @ ip @ SEPARADOR @ puerto @ SEPARADOR;
                 c4 = c3\<lparr>v_nombre := nombre, v_ip := ip, v_puerto := puerto\<rparr>
             in envia_req z solicitud (\<lambda>ret c.
                  if \<not> ret then sale ''Fallo al enviar datos del fichero.'' c
                  else recibe_rep z (\<lambda>ret c.
                    if \<not> ret \<or> reply c \<noteq> ack then sale ''Fallo al recivir ACK'' c
                    else case stoi puerto of
                        Inl e \<Rightarrow> c\<lparr>estado := fin_de e\<rparr>
                      | Inr p \<Rightarrow> c\<lparr>servidoras_escuchando :=
                          servidoras_escuchando c @ [(word_of_int p, nombre)]\<rparr>) c) c4)
         (aviso_si (\<not> ret) ''Fallo al solicitar datos del almacen.'' c))"

definition opcion_descargar :: "'w red_zmq \<Rightarrow> 'w cliente \<Rightarrow> 'w cliente" where
  "opcion_descargar z =
     envia_req z (to_string_int 2) (\<lambda>ret c.
       recibe_rep z (\<lambda>ret c.
           if \<not> ret \<or> reply c \<noteq> ack then sale ''Fallo al recivir ACK'' c
           else
             let (solicitud, c1) = cin_str [] c
             in envia_req z solicitud (\<lambda>ret c.
                  recibe_rep z (\<lambda>ret c.
                      let c' = aviso_si (\<not> ret)
                        ''Fallo al recibir los datos del cliente con fichero.'' c in
                      if reply c' = ''EMPTY'' then
                        di (Muestra ''Introduzca un fichero existente en el servidor.'') c'
                      else c'\<lparr>descargas := descargas c' @ [(solicitud, reply c')]\<rparr>)
                    (aviso_si (\<not> ret) ''Fallo al solicitar datos del fichero.'' c)) c1)
         (aviso_si (\<not> ret) ''Fallo al solicitar datos del almacen.'' c))"

definition paso_cliente :: "'w red_zmq \<Rightarrow> 'w cliente \<Rightarrow> 'w cliente" where
  "paso_cliente z c =
     (if estado c \<noteq> Menu then c
      else
        let (opcion, c1) = cin_int c in
        if opcion = 0 then opcion_listado z c1
        else if opcion = 1 then opcion_subir z c1
        else if opcion = 2 then opcion_descargar z c1
        else c1\<lparr>estado := Espera_hebras\<rparr>)"

definition inicio_cliente :: "string \<Rightarrow> 'w \<Rightarrow> 'w cliente" where
  "inicio_cliente s w =
     \<lparr>entrada = s, falla = False, mundo = w, reply = [], v_nombre = [], v_ip = [], v_puerto = [],
      servidoras_escuchando = [], descargas = [], pantalla = [], estado = Menu\<rparr>"

text \<open>Behind the loop \<^verbatim>\<open>main\<close> joins the serving threads: it returns when each of them is over.\<close>

definition termina_main :: "'w cliente \<Rightarrow> (uint16 \<times> string \<Rightarrow> hebra) \<Rightarrow> bool" where
  "termina_main c hs \<longleftrightarrow>
     estado c = Espera_hebras \<and> (\<forall>h \<in> set (servidoras_escuchando c). \<not> activa (hs h))"

subsection \<open>A server that answers\<close>

text \<open>
  A world in which the listing is answered, in terms of the alternation of a REQ socket: in a world where the
  socket is ready to send, the request is sent, after that a reply is received, and the socket is ready again.
  Nothing is asked of a call out of turn.
\<close>

definition red_responde :: "'w red_zmq \<Rightarrow> ('w \<Rightarrow> bool) \<Rightarrow> bool" where
  "red_responde z listo \<longleftrightarrow>
     (\<forall>w. listo w \<longrightarrow> (\<exists>n w1 r w2. zsend z (to_string_int 0) w = Some (Zmq_ok n, w1) \<and>
        zrecv z w1 = Some (Zmq_ok r, w2) \<and> listo w2))"

definition sin_numero :: "string \<Rightarrow> bool" where
  "sin_numero s \<longleftrightarrow> takeWhile es_digito (snd (signo (salta_espacios s))) = []"

lemma di_simps [simp]:
  "estado (di s c) = estado c" "falla (di s c) = falla c" "pantalla (di s c) = pantalla c @ [s]"
  "mundo (di s c) = mundo c" "reply (di s c) = reply c" "entrada (di s c) = entrada c"
  "descargas (di s c) = descargas c" "servidoras_escuchando (di s c) = servidoras_escuchando c"
  by (simp_all add: di_def)

lemma envia_req_ok:
  "zsend z m (mundo c) = Some (Zmq_ok n, w) \<Longrightarrow> envia_req z m k c = k True (c\<lparr>mundo := w\<rparr>)"
  by (simp add: envia_req_def socket_send_def)

lemma recibe_rep_ok:
  "zrecv z (mundo c) = Some (Zmq_ok r, w) \<Longrightarrow> recibe_rep z k c = k True (c\<lparr>mundo := w, reply := r\<rparr>)"
  by (simp add: recibe_rep_def socket_recv_def)

lemma recibe_rep_bloquea: "zrecv z (mundo c) = None \<Longrightarrow> recibe_rep z k c = c\<lparr>estado := Bloqueado\<rparr>"
  by (simp add: recibe_rep_def)

lemma aviso_si_False [simp]: "aviso_si False m c = c"
  by (simp add: aviso_si_def)

lemma opcion_listado_responde:
  assumes "red_responde z listo" "listo (mundo c)"
  obtains r where "estado (opcion_listado z c) = estado c" "falla (opcion_listado z c) = falla c"
    "pantalla (opcion_listado z c) = pantalla c @ [Muestra r]" "listo (mundo (opcion_listado z c))"
proof -
  obtain n w r w' where w: "zsend z (to_string_int 0) (mundo c) = Some (Zmq_ok n, w)"
    and r: "zrecv z (mundo (c\<lparr>mundo := w\<rparr>)) = Some (Zmq_ok r, w')" and l: "listo w'"
    using assms unfolding red_responde_def by fastforce
  show thesis
    using that l by (simp add: opcion_listado_def envia_req_ok [OF w] recibe_rep_ok [OF r])
qed

lemma cin_int_sin_numero:
  "falla c \<or> sin_numero (entrada c) \<Longrightarrow>
     \<exists>c1. cin_int c = (0, c1) \<and> falla c1 \<and> estado c1 = estado c \<and> pantalla c1 = pantalla c \<and>
       mundo c1 = mundo c"
  by (auto simp: cin_int_def sin_numero_def Let_def split: prod.split)

lemma turno_sin_numero:
  assumes "red_responde z listo" "listo (mundo c)" "estado c = Menu" "falla c \<or> sin_numero (entrada c)"
  obtains r where "estado (paso_cliente z c) = Menu" "falla (paso_cliente z c)"
    "pantalla (paso_cliente z c) = pantalla c @ [Muestra r]" "listo (mundo (paso_cliente z c))"
proof -
  obtain c1 where c1: "cin_int c = (0, c1)" "falla c1" "estado c1 = Menu" "pantalla c1 = pantalla c" "mundo c1 = mundo c"
    using cin_int_sin_numero [OF assms(4)] assms(3) by auto
  have "paso_cliente z c = opcion_listado z c1"
    using assms(3) c1(1) by (simp add: paso_cliente_def)
  with opcion_listado_responde [OF assms(1), of c1] c1 assms(2) that show thesis by metis
qed

end
