(* ===== verification/Pagina.thy ===== *)
theory Pagina
  imports Almacen
begin

text \<open>
  The page that the web server sends for \<^verbatim>\<open>/\<close>: \<^verbatim>\<open>AlmacenDirecciones::to_html\<close> of
  \<^verbatim>\<open>includes/almacen.cpp\<close>. The fixed text is kept verbatim, one list element per source line; the
  template of a row is filled in as \<^verbatim>\<open>boost::format\<close> fills \<^verbatim>\<open>%1%\<close>, \<^verbatim>\<open>%2%\<close> and \<^verbatim>\<open>%3%\<close>.
\<close>

subsection \<open>The page\<close>

definition lineas :: "string list \<Rightarrow> string" where
  "lineas ls = concat (map (\<lambda>l. l @ [CHR 0x0A]) ls)"

definition html_estilo :: string where
  \<open>html_estilo = CHR 0x0A # lineas
    [''        <!DOCTYPE html>'',
     ''        <html>'',
     ''        <head>'',
     ''        <style>'',
     ''        body {'',
     ''            background-color: #f0f0f0;'',
     ''            font-family: Arial, sans-serif;'',
     ''        }'',
     '''',
     ''        h2 {'',
     ''            color: #ff4500;'',
     ''            text-align: center;'',
     ''        }'',
     '''',
     ''        form {'',
     ''            width: 50%;'',
     ''            margin: 0 auto;'',
     ''            padding: 20px;'',
     ''            background-color: #fff;'',
     ''            border-radius: 10px;'',
     ''            box-shadow: 0 0 20px rgba(0, 0, 0, 0.1);'',
     ''        }'',
     '''',
     ''        label {'',
     ''            display: block;'',
     ''            margin-bottom: 10px;'',
     ''            color: #333;'',
     ''        }'',
     '''',
     ''        input[type="text"] {'',
     ''            width: 100%;'',
     ''            padding: 10px;'',
     ''            margin-bottom: 20px;'',
     ''            border: 1px solid #ccc;'',
     ''            border-radius: 5px;'',
     ''            box-sizing: border-box;'',
     ''            font-size: 16px;'',
     ''        }'',
     '''',
     ''        input[type="submit"] {'',
     ''            width: 100%;'',
     ''            padding: 10px;'',
     ''            background-color: #ff4500;'',
     ''            color: #fff;'',
     ''            border: none;'',
     ''            border-radius: 5px;'',
     ''            cursor: pointer;'',
     ''            font-size: 18px;'',
     ''            transition: background-color 0.3s ease;'',
     ''        }'',
     '''',
     ''        input[type="submit"]:hover {'',
     ''            background-color: #ff6347;'',
     ''        }'',
     ''        header {'',
     ''            background-color: rgba(255, 255, 255, 0.3);'',
     ''            padding: 10px 20px;'',
     ''            display: flex;'',
     ''            justify-content: space-between;'',
     ''            align-items: center;'',
     ''            box-shadow: 0 2px 4px rgba(0, 0, 0, 0.1);'',
     ''        }'',
     '''',
     ''        h1 {'',
     ''            text-align: center;'',
     ''            font-size: 3rem;'',
     ''            margin-bottom: 30px;'',
     ''            text-shadow: 2px 2px 4px rgba(0, 0, 0, 0.5);'',
     ''        }'',
     '''',
     ''        div {'',
     ''            background-color: rgba(255, 255, 255, 0.3);'',
     ''            padding: 20px;'',
     ''            border-radius: 10px;'',
     ''            box-shadow: 0 0 20px rgba(0, 0, 0, 0.2);'',
     ''            text-align: center;'',
     ''        }'',
     '''',
     ''        p {'',
     ''            font-size: 1.2rem;'',
     ''            margin-bottom: 15px;'',
     ''        }'',
     '''',
     ''        strong {'',
     ''            color: #ff6699;'',
     ''        }'',
     '''',
     ''        .botones {'',
     ''            display: flex;'',
     ''        }'',
     '''',
     ''        a.button {'',
     ''            background-color: #ff6347;;'',
     ''            color: #fff;'',
     ''            border: none;'',
     ''            padding: 10px 20px;'',
     ''            border-radius: 5px;'',
     ''            margin-left: 10px;'',
     ''            cursor: pointer;'',
     ''            transition: background-color 0.3s ease;'',
     ''        }'',
     '''',
     ''        table {'',
     ''        font-family: arial, sans-serif;'',
     ''        border-collapse: collapse;'',
     ''        width: 100%;'',
     ''        }'',
     '''',
     ''        td, th {'',
     ''        border: 1px solid #dddddd;'',
     ''        text-align: left;'',
     ''        padding: 8px;'',
     ''        }'',
     '''',
     ''        tr:nth-child(even) {'',
     ''        background-color: #dddddd;'',
     ''        }'',
     ''        </style>'',
     ''        </head>'']\<close>

definition html_cuerpo :: string where
  \<open>html_cuerpo = lineas
    [''        <body>'',
     ''            <header>'',
     ''                <h1>Inicio</h1>'',
     ''                <div class="botones">'',
     ''                    <a href="/" class="button">Inicio</a>'',
     ''                    <a href="/perfil" class="button">Perfil</a>'',
     ''                </div>'',
     ''            </header>'',
     '''',
     ''        <h2>Enviar fichero al Servidor</h2>'',
     ''        <form action="/guardar" method="POST">'',
     ''            <label for="nombre_fichero">Nombre fichero? </label>'',
     ''            <input type="text" id="nombre_fichero" name="nombre_fichero"><br>'',
     ''            <label for="ip">IP? </label>'',
     ''            <input type="text" id="ip" name="ip"><br>'',
     ''            <label for="puerto">Puerto? </label>'',
     ''            <input type="text" id="puerto" name="puerto"><br>'',
     ''            <input type="submit" value="Enviar">'',
     ''        </form>'',
     '''',
     ''        <h2>Almacen de direcciones</h2>'',
     ''        <table>'',
     ''            <tr>'',
     ''                <th>Fichero</th>'',
     ''                <th>Direccion IP</th>'',
     ''                <th>Puerto</th>'',
     ''            </tr>''] @ ''    ''\<close>

definition html_fila :: "string \<Rightarrow> string \<Rightarrow> string \<Rightarrow> string" where
  "html_fila f ip puerto =
     CHR 0x0A # lineas
      [''                <tr>'',
       ''                    <td>'' @ f @ ''</td>'',
       ''                    <td>'' @ ip @ ''</td>'',
       ''                    <td>'' @ puerto @ ''</td>'',
       ''                </tr>''] @ ''            ''"

definition html_pie :: string where
  "html_pie =
     CHR 0x0A # lineas
      [''            </table>'',
       ''            </body>'',
       ''            </html>''] @ ''        ''"

definition html_direccion :: "string \<Rightarrow> par_ip_puerto \<Rightarrow> string" where
  "html_direccion f d =
     (let (ip, puerto) = ip_puerto_to_string (fst d) (snd d) in html_fila f ip puerto)"

definition to_html :: "almacen_direcciones \<Rightarrow> string" where
  "to_html alm =
     html_estilo @ html_cuerpo @
     concat (map (\<lambda>f. ''<tr>'' @ concat (map (html_direccion (fst f)) (snd f))) (tabla alm)) @
     html_pie"

subsection \<open>Properties of the page\<close>

lemma concat_map_split:
  assumes "x \<in> set xs"
  obtains u v where "concat (map f xs) = u @ f x @ v"
  using assms by (metis append.assoc concat.simps(2) concat_append list.simps(9) map_append split_list)

text \<open>C30. The page shows every registered address: for each file and each of its addresses the page
  contains the table row of that name, IP and port.\<close>

theorem to_html_muestra_todo:
  assumes "almacen_ok alm" "d \<in> set (direcciones alm f)"
  shows "\<exists>u v. to_html alm =
    u @ html_fila f (inet_ntoa (fst d)) (decimal (unat (ntohs (snd d)))) @ v"
proof -
  from assms(2) obtain ds where m: "map_of (tabla alm) f = Some ds" and d: "d \<in> set ds"
    by (cases "map_of (tabla alm) f") (simp_all add: direcciones_def vector_de_def)
  obtain u v where 1: "concat (map (html_direccion f) ds) = u @ html_direccion f d @ v"
    using d by (rule concat_map_split)
  let ?g = "\<lambda>f. ''<tr>'' @ concat (map (html_direccion (fst f)) (snd f))"
  obtain u' v' where 2: "concat (map ?g (tabla alm)) = u' @ ?g (f, ds) @ v'"
    using map_of_SomeD [OF m] by (rule concat_map_split)
  have "to_html alm = (html_estilo @ html_cuerpo @ u' @ ''<tr>'' @ u) @ html_direccion f d @ (v @ v' @ html_pie)"
    unfolding to_html_def 2 fst_conv snd_conv 1 by (simp only: append_assoc)
  moreover have "html_direccion f d = html_fila f (inet_ntoa (fst d)) (decimal (unat (ntohs (snd d))))"
    by (simp add: html_direccion_def ip_puerto_to_string_def)
  ultimately show ?thesis by metis
qed

theorem to_html_muestra_todo_testigo:
  "\<exists>u v. to_html almacen_ejemplo =
    u @ html_fila ''f.txt'' (inet_ntoa (fst (16777343, 47635 :: uint16)))
      (decimal (unat (ntohs (snd (16777343 :: uint32, 47635))))) @ v"
  by (rule to_html_muestra_todo [OF almacen_ejemplo_ok])
    (simp add: almacen_ejemplo_def direcciones_def vector_de_def)

text \<open>A name that closes its own cell and carries a whole row of its own.\<close>

definition nombre_inyectado :: "string \<Rightarrow> par_ip_puerto \<Rightarrow> string" where
  "nombre_inyectado f d =
     f @ ''</td>'' @ [CHR 0x0A] @
     lineas [''                    <td>'' @ inet_ntoa (fst d) @ ''</td>'',
       ''                    <td>'' @ decimal (unat (ntohs (snd d))) @ ''</td>'',
       ''                </tr>''] @ ''            '' @ [CHR 0x0A] @
     lineas [''                <tr>''] @ ''                    <td>'' @ f"

text \<open>Names are not escaped: for every name and every two addresses, a store with a single file
  (whose name carries markup and needs no separator) and one address has the same page as the
  store in which the plain name is offered at both addresses. The page does not determine
  the store.\<close>

theorem to_html_no_inyectiva:
  "to_html \<lparr>tabla = [(nombre_inyectado f d, [d'])]\<rparr> = to_html \<lparr>tabla = [(f, [d, d'])]\<rparr> \<and>
   nombre_inyectado f d \<noteq> f"
  by (simp add: to_html_def html_direccion_def ip_puerto_to_string_def html_fila_def
      nombre_inyectado_def lineas_def)

end
