(* ===== verification/ServidorWeb.thy ===== *)
theory ServidorWeb
  imports Servidor Pagina
begin

text \<open>
  The web side of \<^verbatim>\<open>servidor.cpp\<close>: the form decoder \<^verbatim>\<open>formatea_solicitud\<close> and the handlers that
  \<^verbatim>\<open>servidor_crow_handler\<close> installs for \<^verbatim>\<open>/\<close>, \<^verbatim>\<open>/guardar\<close> and \<^verbatim>\<open>/agregar_fichero\<close>. They share the
  global store with the ZeroMQ loop. A handler runs as one step on the store: the code takes no
  lock, so this is the behaviour when handlers and loop do not overlap.
\<close>

subsection \<open>Form data\<close>

text \<open>One turn of the loop over the \<^verbatim>\<open>&\<close>-separated tokens: \<^verbatim>\<open>datos[clave] = valor\<close>.\<close>

definition anota_token :: "(string \<rightharpoonup> string) \<Rightarrow> string \<Rightarrow> (string \<rightharpoonup> string)" where
  "anota_token datos token =
     (case busca ''='' token of
        None \<Rightarrow> datos
      | Some pos \<Rightarrow> datos(take pos token \<mapsto> drop (pos + 1) token))"

definition datos_formulario :: "string \<Rightarrow> (string \<rightharpoonup> string)" where
  "datos_formulario body = foldl anota_token Map.empty (trozos (CHR ''&'') body)"

text \<open>\<^verbatim>\<open>datos[clave]\<close> on an \<^verbatim>\<open>unordered_map\<close>: a missing key reads as the empty string.\<close>

definition campo :: "(string \<rightharpoonup> string) \<Rightarrow> string \<Rightarrow> string" where
  "campo datos clave = (case datos clave of None \<Rightarrow> [] | Some v \<Rightarrow> v)"

definition formatea_solicitud :: "string \<Rightarrow> string" where
  "formatea_solicitud body =
     (let datos = datos_formulario body in
      campo datos ''nombre_fichero'' @ SEPARADOR @ campo datos ''ip'' @ SEPARADOR @
      campo datos ''puerto'' @ SEPARADOR)"

subsection \<open>The handlers\<close>

definition ruta_inicio :: "almacen_direcciones \<Rightarrow> string res" where
  "ruta_inicio alm = Inr (to_html alm)"

definition ruta_guardar :: "string \<Rightarrow> almacen_direcciones \<Rightarrow> (string \<times> almacen_direcciones) res" where
  "ruta_guardar body alm =
     (let resultado = formatea_solicitud body in
      bindE (agregar_cliente resultado alm) (\<lambda>r.
      if fst r then Inr (''ACK'', snd r) else Inr (resultado, snd r)))"

definition PUERTO_CROW :: nat where
  "PUERTO_CROW = 8080"

definition ruta_agregar_fichero ::
  "string \<Rightarrow> string \<Rightarrow> string \<Rightarrow> almacen_direcciones \<Rightarrow> (string \<times> almacen_direcciones) res" where
  "ruta_agregar_fichero nombre_fichero ip puerto alm =
     (let solicitud = nombre_fichero @ SEPARADOR @ ip @ SEPARADOR @ puerto @ SEPARADOR in
      bindE (agregar_cliente solicitud alm) (\<lambda>r.
      Inr (''<h2>Fichero agregado correctamente.</h2> <a href='localhost:'' @
           decimal PUERTO_CROW @ ''/'>Inicio</a>'', snd r)))"

subsection \<open>Tokens of built requests\<close>

lemma tokens_de_peticion_ge: "3 \<le> length (tokens_de (peticion f ip p))"
proof -
  have "length (tokens_de []) < length (tokens_de (p @ delimiter))"
    using tokens_de_append_le [of "[]" p] by (simp only: append_Nil2)
  moreover have "length (tokens_de (p @ delimiter)) < length (tokens_de (ip @ delimiter @ p @ delimiter))"
    by (rule tokens_de_append_le)
  moreover have "\<dots> < length (tokens_de (peticion f ip p))"
    unfolding peticion_def by (rule tokens_de_append_le)
  ultimately show ?thesis by linarith
qed

lemma formatea_solicitud_peticion:
  "formatea_solicitud body =
     peticion (campo (datos_formulario body) ''nombre_fichero'') (campo (datos_formulario body) ''ip'')
       (campo (datos_formulario body) ''puerto'')"
  by (simp add: formatea_solicitud_def peticion_def SEPARADOR_def delimiter_def Let_def)

lemma agregar_peticion_definida: "\<exists>b alm'. agregar_cliente (peticion f ip p) alm = Inr (b, alm')"
proof -
  obtain a b c r where t: "tokens_de (peticion f ip p) = a # b # c # r"
    using tres_tokens [OF tokens_de_peticion_ge] by blast
  show ?thesis
    using stoi_solo_excepciones [of c]
    by (cases "stoi c") (auto simp: agregar_cliente_def separar_string_tokens [OF t] split: option.split)
qed

subsection \<open>Properties of the web handlers\<close>

text \<open>The web handlers cannot run into undefined behaviour and let no exception escape: for every
  request body, and for every three path segments, they return a page and leave a store that
  satisfies the invariant.\<close>

theorem rutas_definidas:
  assumes "almacen_ok alm"
  shows "(\<exists>r alm'. ruta_guardar body alm = Inr (r, alm') \<and> almacen_ok alm') \<and>
    (\<exists>r alm'. ruta_agregar_fichero f ip p alm = Inr (r, alm') \<and> almacen_ok alm')"
proof
  obtain b alm' where "agregar_cliente (formatea_solicitud body) alm = Inr (b, alm')"
    unfolding formatea_solicitud_peticion using agregar_peticion_definida by blast
  then show "\<exists>r alm'. ruta_guardar body alm = Inr (r, alm') \<and> almacen_ok alm'"
    using agregar_cliente_invariante [OF _ assms] by (auto simp: ruta_guardar_def)
  obtain b alm' where "agregar_cliente (peticion f ip p) alm = Inr (b, alm')"
    using agregar_peticion_definida by blast
  then show "\<exists>r alm'. ruta_agregar_fichero f ip p alm = Inr (r, alm') \<and> almacen_ok alm'"
    using agregar_cliente_invariante [OF _ assms]
    by (auto simp: ruta_agregar_fichero_def peticion_def SEPARADOR_def delimiter_def)
qed

theorem rutas_definidas_testigo:
  "(\<exists>r alm'. ruta_guardar ''a=b&&='' almacen_ejemplo = Inr (r, alm') \<and> almacen_ok alm') \<and>
    (\<exists>r alm'. ruta_agregar_fichero ''</>'' [] ''x'' almacen_ejemplo = Inr (r, alm') \<and> almacen_ok alm')"
  by (rule rutas_definidas [OF almacen_ejemplo_ok])

lemma trozos_formulario:
  assumes "CHR ''&'' \<notin> set a" "CHR ''&'' \<notin> set b" "CHR ''&'' \<notin> set c" "c \<noteq> []"
  shows "trozos (CHR ''&'') (a @ ''&'' @ b @ ''&'' @ c) = [a, b, c]"
  using assms by (simp add: trozos_append trozos_unico)

text \<open>The form of the start page works: for field values without ampersands or separators and an
  integer port, the body that a browser posts registers exactly the address of the form and the
  handler answers \<^verbatim>\<open>ACK\<close>.\<close>

theorem guardar_registra:
  assumes "almacen_ok alm" "CHR ''&'' \<notin> set f" "CHR ''&'' \<notin> set ip" "CHR ''&'' \<notin> set p"
    and "sin_separador f" "sin_separador ip" "sin_separador p" "stoi p = Inr n"
  shows "\<exists>alm'. ruta_guardar (''nombre_fichero='' @ f @ ''&ip='' @ ip @ ''&puerto='' @ p) alm = Inr (''ACK'', alm') \<and>
    almacen_ok alm' \<and>
    direcciones alm' f = direcciones alm f @ [(inet_addr ip, htons (word_of_int n))]"
proof -
  let ?body = "''nombre_fichero='' @ f @ ''&ip='' @ ip @ ''&puerto='' @ p"
  have t: "trozos (CHR ''&'') ?body = [''nombre_fichero='' @ f, ''ip='' @ ip, ''puerto='' @ p]"
    using trozos_formulario [of "''nombre_fichero='' @ f" "''ip='' @ ip" "''puerto='' @ p"] assms(2-4)
    by simp
  have "datos_formulario ?body = [''nombre_fichero'' \<mapsto> f, ''ip'' \<mapsto> ip, ''puerto'' \<mapsto> p]"
    unfolding datos_formulario_def t by (simp add: anota_token_def)
  then have "formatea_solicitud ?body = peticion f ip p"
    by (simp add: formatea_solicitud_peticion campo_def)
  then show ?thesis
    using assms by (simp add: ruta_guardar_def agregar_cliente_peticion almacen_ok_apila direcciones_apila)
qed

theorem guardar_registra_testigo:
  "\<exists>alm'. ruta_guardar (''nombre_fichero='' @ ''f.txt'' @ ''&ip='' @ ''127.0.0.1'' @ ''&puerto='' @ ''5050'')
      almacen_vacio = Inr (''ACK'', alm') \<and> almacen_ok alm' \<and>
    direcciones alm' ''f.txt'' =
      direcciones almacen_vacio ''f.txt'' @ [(inet_addr ''127.0.0.1'', htons (word_of_int 5050))]"
  by (rule guardar_registra [OF almacen_ok_vacio _ _ _ sin_separador_ejemplos stoi_5050]) simp_all

lemma decimal_puerto_crow: "decimal PUERTO_CROW = ''8080''"
  by (simp add: PUERTO_CROW_def evalua_decimal)

text \<open>The route \<^verbatim>\<open>/agregar_fichero\<close> ignores the result of the registration: with a port that is not an
  integer the store is unchanged, and the page still says that the file was added.\<close>

theorem agregar_fichero_miente:
  assumes "sin_separador f" "sin_separador ip" "sin_separador p" "stoi p = Inl (Excepcion e)"
  shows "ruta_agregar_fichero f ip p alm =
    Inr (''<h2>Fichero agregado correctamente.</h2> <a href='localhost:8080/'>Inicio</a>'', alm)"
proof -
  have "agregar_cliente (peticion f ip p) alm = Inr (False, alm)"
    using assms by (simp add: agregar_cliente_def separar_string_tokens tokens_de_peticion)
  then have "agregar_cliente (f @ SEPARADOR @ ip @ SEPARADOR @ p @ SEPARADOR) alm = Inr (False, alm)"
    by (simp add: peticion_def SEPARADOR_def delimiter_def)
  then show ?thesis by (simp add: ruta_agregar_fichero_def decimal_puerto_crow)
qed

theorem agregar_fichero_miente_testigo:
  "ruta_agregar_fichero ''f.txt'' ''127.0.0.1'' ''f.txt'' almacen_ejemplo =
    Inr (''<h2>Fichero agregado correctamente.</h2> <a href='localhost:8080/'>Inicio</a>'', almacen_ejemplo)"
proof -
  have "stoi ''f.txt'' = Inl (Excepcion Invalid_argument)" by code_simp
  then show ?thesis
    by (rule agregar_fichero_miente [OF sin_separador_ejemplos(1,2,1)])
qed

end
