(* ===== verification/Sistema.thy ===== *)
theory Sistema
  imports Bitacora Cliente ServidorWeb
begin

text \<open>
  The two programs together: the menu loop of a client over a REQ socket whose other end is the
  request loop of the server. A message that is sent runs one step of the server, and its reply
  (if there is one) waits for the next receive; without a reply the receive never returns.
\<close>

subsection \<open>The connection\<close>

record enlace =
  srv :: servidor
  bandeja :: "string list"
  turno_req :: turno

definition con_servidor :: "servidor \<Rightarrow> enlace" where
  "con_servidor s = \<lparr>srv = s, bandeja = [], turno_req = Debe_enviar\<rparr>"

definition req_send :: "lib_recv \<Rightarrow> lib_send \<Rightarrow> string \<Rightarrow> enlace \<Rightarrow> (nat zmq_rc \<times> enlace) option" where
  "req_send lr ls m e =
     (case turno_req e of
        Debe_recibir \<Rightarrow> Some (Zmq_errno efsm, e)
      | Debe_enviar \<Rightarrow>
          let s = paso_servidor lr ls m (srv e) in
          Some (Zmq_ok (length m),
            \<lparr>srv = s, bandeja = drop (length (respuestas (srv e))) (respuestas s), turno_req = Debe_recibir\<rparr>))"

definition req_recv :: "enlace \<Rightarrow> (string zmq_rc \<times> enlace) option" where
  "req_recv e =
     (case turno_req e of
        Debe_enviar \<Rightarrow> Some (Zmq_errno efsm, e)
      | Debe_recibir \<Rightarrow>
          (case bandeja e of
             [] \<Rightarrow> None
           | r # rs \<Rightarrow> Some (Zmq_ok r, e\<lparr>bandeja := rs, turno_req := Debe_enviar\<rparr>)))"

definition red_servidor :: "lib_recv \<Rightarrow> lib_send \<Rightarrow> enlace red_zmq" where
  "red_servidor lr ls = \<lparr>zsend = req_send lr ls, zrecv = req_recv, tras_fallo = id\<rparr>"

text \<open>One exchange: the server gets the message and the client gets the reply.\<close>

lemma envia_servidor:
  assumes "mundo c = con_servidor s" "paso_servidor lr ls m s = s'" "respuestas s' = respuestas s @ [r]"
  shows "envia_req (red_servidor lr ls) m k c =
    k True (c\<lparr>mundo := \<lparr>srv = s', bandeja = [r], turno_req = Debe_recibir\<rparr>\<rparr>)"
  using assms by (simp add: envia_req_def red_servidor_def req_send_def con_servidor_def socket_send_def Let_def)

lemma recibe_bandeja:
  assumes "mundo c = \<lparr>srv = s, bandeja = [r], turno_req = Debe_recibir\<rparr>"
  shows "recibe_rep (red_servidor lr ls) k c = k True (c\<lparr>mundo := con_servidor s, reply := r\<rparr>)"
  using assms by (simp add: recibe_rep_def red_servidor_def req_recv_def con_servidor_def socket_recv_def)

lemma envia_sin_respuesta:
  assumes "mundo c = con_servidor s" "paso_servidor lr ls m s = s'" "respuestas s' = respuestas s"
  shows "envia_req (red_servidor lr ls) m k c =
    k True (c\<lparr>mundo := \<lparr>srv = s', bandeja = [], turno_req = Debe_recibir\<rparr>\<rparr>)"
  using assms by (simp add: envia_req_def red_servidor_def req_send_def con_servidor_def socket_send_def Let_def)

lemma recibe_vacia:
  assumes "mundo c = \<lparr>srv = s, bandeja = [], turno_req = Debe_recibir\<rparr>"
  shows "recibe_rep (red_servidor lr ls) k c = c\<lparr>estado := Bloqueado\<rparr>"
  using assms by (simp add: recibe_rep_def red_servidor_def req_recv_def)

lemma to_string_int_opciones: "to_string_int 0 = ''0''" "to_string_int 1 = ''1''" "to_string_int 2 = ''2''"
  by (simp_all add: to_string_int_def evalua_decimal)

subsection \<open>Standard input of a session\<close>

definition palabra :: "string \<Rightarrow> bool" where
  "palabra w \<longleftrightarrow> w \<noteq> [] \<and> list_all (\<lambda>c. \<not> es_espacio c) w"

lemma lee_palabra_de:
  assumes "palabra w"
  shows "lee_palabra (CHR '' '' # w @ CHR '' '' # r) = Some (w, CHR '' '' # r)"
  using assms lee_palabra_impresa [of "'' ''" w "'' '' @ r"]
  by (simp add: palabra_def es_espacio_def)

lemma cin_int_opcion:
  assumes "\<not> falla c" "entrada c = d # '' '' @ r" "es_digito d"
  shows "cin_int c = (int (digito d), c\<lparr>entrada := '' '' @ r\<rparr>)"
proof -
  have d: "digito d < 10" using assms(3) by (auto simp: es_digito_def digito_def)
  have "d \<noteq> CHR ''+''" "d \<noteq> CHR ''-''" using assms(3) by (auto simp: es_digito_def)
  then have "signo (salta_espacios (entrada c)) = (1, d # '' '' @ r)"
    using assms by (simp add: signo_digito salta_espacios_digito)
  moreover have "\<not> es_digito (CHR '' '')" by (simp add: es_digito_def)
  moreover have "valor_decimal [d] = digito d" by (simp add: valor_decimal_def)
  ultimately show ?thesis
    using assms d by (simp add: cin_int_def Let_def int_max_def int_min_def)
qed

subsection \<open>Turns of a client against an idle server\<close>

lemma stoi_opcion: "stoi (to_string_int 0) = Inr 0" "stoi (to_string_int 1) = Inr 1" "stoi (to_string_int 2) = Inr 2"
  by (simp_all add: stoi_to_string_int int_min_def int_max_def)

lemma digitos_opcion:
  "es_digito (CHR ''0'')" "es_digito (CHR ''1'')" "es_digito (CHR ''2'')"
  "digito (CHR ''0'') = 0" "digito (CHR ''1'') = 1" "digito (CHR ''2'') = 2"
  by (simp_all add: es_digito_def digito_def)

lemma turno_listar:
  assumes lib: "alterna_recv lr" "alterna_send ls"
    and c: "estado c = Menu" "\<not> falla c" "mundo c = con_servidor s" "entrada c = ''0 '' @ r"
    and s: "en_reposo s"
  shows "paso_cliente (red_servidor lr ls) c =
    c\<lparr>entrada := '' '' @ r, mundo := con_servidor (s\<lparr>respuestas := respuestas s @ [listado (almacen s)]\<rparr>),
      reply := listado (almacen s), pantalla := pantalla c @ [Muestra (listado (almacen s))]\<rparr>"
proof -
  have "cin_int c = (0, c\<lparr>entrada := '' '' @ r\<rparr>)"
    using cin_int_opcion [OF c(2), of "CHR ''0''" r] c(4) by (simp add: digitos_opcion)
  moreover note envia_servidor [OF _ paso_opcion(1) [OF lib s stoi_opcion(1) refl]]
  ultimately show ?thesis
    using c by (simp add: paso_cliente_def opcion_listado_def recibe_bandeja di_def)
qed

lemma turno_subir:
  assumes lib: "alterna_recv lr" "alterna_send ls"
    and c: "estado c = Menu" "\<not> falla c" "mundo c = con_servidor s"
      "entrada c = ''1 '' @ f @ '' '' @ ip @ '' '' @ p @ '' '' @ r"
    and w: "palabra f" "palabra ip" "palabra p"
    and s: "en_reposo s" and v: "stoi p = Inr v"
    and ag: "agregar_cliente (peticion f ip p) (almacen s) = Inr (True, alm)"
  shows "paso_cliente (red_servidor lr ls) c =
    c\<lparr>entrada := '' '' @ r, v_nombre := f, v_ip := ip, v_puerto := p,
      mundo := con_servidor (s\<lparr>almacen := alm, respuestas := respuestas s @ [ack, ack]\<rparr>), reply := ack,
      servidoras_escuchando := servidoras_escuchando c @ [(word_of_int v, f)]\<rparr>"
proof -
  let ?s1 = "s\<lparr>punto := Espera_datos, respuestas := respuestas s @ [ack]\<rparr>"
  let ?s2 = "?s1\<lparr>almacen := alm, punto := Espera_peticion, respuestas := respuestas ?s1 @ [ack]\<rparr>"
  have "cin_int c = (1, c\<lparr>entrada := '' '' @ f @ '' '' @ ip @ '' '' @ p @ '' '' @ r\<rparr>)"
    using cin_int_opcion [OF c(2), of "CHR ''1''" "f @ '' '' @ ip @ '' '' @ p @ '' '' @ r"] c(4)
    by (simp add: digitos_opcion)
  moreover note envia_servidor [OF _ paso_opcion(2) [OF lib s stoi_opcion(2) refl]]
  moreover have "paso_servidor lr ls (f @ SEPARADOR @ ip @ SEPARADOR @ p @ SEPARADOR) ?s1 = ?s2"
    using paso_datos [OF lib, of ?s1 "peticion f ip p" alm] ag s
    by (simp add: en_reposo_def peticion_def delimiter_def SEPARADOR_def)
  note envia_servidor [OF _ this]
  moreover have "s\<lparr>almacen := alm, punto := Espera_peticion, respuestas := x\<rparr> = s\<lparr>almacen := alm, respuestas := x\<rparr>" for x
    using s by (cases s) (simp add: en_reposo_def)
  ultimately show ?thesis
    using c w v
    by (simp add: paso_cliente_def opcion_subir_def recibe_bandeja cin_str_def lee_palabra_de)
qed

lemma turno_descargar:
  assumes lib: "alterna_recv lr" "alterna_send ls"
    and c: "estado c = Menu" "\<not> falla c" "mundo c = con_servidor s" "entrada c = ''2 '' @ f @ '' '' @ r"
    and w: "palabra f" and s: "en_reposo s"
    and ob: "obtener_cliente f (almacen s) = Inr (b, dir)"
  shows "paso_cliente (red_servidor lr ls) c =
    (if dir = ''EMPTY'' then
       c\<lparr>entrada := '' '' @ r, mundo := con_servidor (s\<lparr>respuestas := respuestas s @ [ack, dir]\<rparr>), reply := dir,
         pantalla := pantalla c @ [Muestra ''Introduzca un fichero existente en el servidor.'']\<rparr>
     else
       c\<lparr>entrada := '' '' @ r, mundo := con_servidor (s\<lparr>respuestas := respuestas s @ [ack, dir]\<rparr>), reply := dir,
         descargas := descargas c @ [(f, dir)]\<rparr>)"
proof -
  let ?s1 = "s\<lparr>punto := Espera_nombre, respuestas := respuestas s @ [ack]\<rparr>"
  have "cin_int c = (2, c\<lparr>entrada := '' '' @ f @ '' '' @ r\<rparr>)"
    using cin_int_opcion [OF c(2), of "CHR ''2''" "f @ '' '' @ r"] c(4) by (simp add: digitos_opcion)
  moreover note envia_servidor [OF _ paso_opcion(3) [OF lib s stoi_opcion(3) refl]]
  moreover have "paso_servidor lr ls f ?s1 = ?s1\<lparr>punto := Espera_peticion, respuestas := respuestas ?s1 @ [dir]\<rparr>"
    using paso_nombre [OF lib, of ?s1 f b dir] ob s by (simp add: en_reposo_def)
  note envia_servidor [OF _ this]
  moreover have "s\<lparr>punto := Espera_peticion, respuestas := x\<rparr> = s\<lparr>respuestas := x\<rparr>" for x
    using s by (cases s) (simp add: en_reposo_def)
  ultimately show ?thesis
    using c w
    by (simp add: paso_cliente_def opcion_descargar_def recibe_bandeja cin_str_def lee_palabra_de
        di_def Let_def)
qed

subsection \<open>Printed addresses\<close>

lemma length_decimal: "length (decimal n) \<le> Suc n"
proof (induction n rule: decimal.induct)
  case (1 n)
  show ?case
  proof (cases "n < 10")
    case True
    then show ?thesis by (subst decimal.simps) simp
  next
    case False
    then have "length (decimal (n div 10)) \<le> Suc (n div 10)" by (rule 1)
    moreover have "Suc (n div 10) \<le> n" using False by linarith
    ultimately show ?thesis using False by (subst decimal.simps) simp
  qed
qed

lemma length_inet_ntoa: "length (inet_ntoa ip) < 2 ^ 32"
proof -
  obtain a b c d where o: "octetos (unat ip) = (a, b, c, d)" by (cases "octetos (unat ip)")
  with octetos_bound [OF o] length_decimal [of a] length_decimal [of b] length_decimal [of c] length_decimal [of d]
  show ?thesis by (simp add: inet_ntoa_def)
qed

lemma palabra_impresa: "palabra (decimal n)" "palabra (inet_ntoa ip)"
proof -
  show "palabra (decimal n)" by (simp add: palabra_def decimal_no_vacio decimal_sin_espacio)
  have "inet_ntoa ip \<noteq> []" by (simp add: inet_ntoa_def split: prod.split)
  moreover have "\<not> es_espacio (CHR ''.'')" by (simp add: es_espacio_def)
  ultimately show "palabra (inet_ntoa ip)"
    by (auto simp: palabra_def list_all_iff dest!: inet_ntoa_caracteres es_digito_no_espacio)
qed

lemma no_digito: "\<not> es_digito (CHR ''<'')" "\<not> es_digito (CHR '':'')"
  by (simp_all add: es_digito_def)

lemma direccion_ok_impresa: "p < 65536 \<Longrightarrow> direccion_ok (inet_ntoa ip) (decimal p)"
  using no_digito length_decimal [of p] length_inet_ntoa [of ip]
  by (auto simp: direccion_ok_def stoi_puerto dest: inet_ntoa_caracteres)

subsection \<open>Uploads and downloads through the server\<close>

definition cliente_en_menu :: "string \<Rightarrow> servidor \<Rightarrow> enlace cliente \<Rightarrow> bool" where
  "cliente_en_menu texto s c \<longleftrightarrow>
     estado c = Menu \<and> \<not> falla c \<and> mundo c = con_servidor s \<and> entrada c = texto"

lemma turno_subir_impreso:
  assumes "alterna_recv lr" "alterna_send ls"
    and "cliente_en_menu (''1 '' @ f @ '' '' @ inet_ntoa ip @ '' '' @ decimal p @ '' '' @ r) s a"
    and "en_reposo s" "almacen_ok (almacen s)" "palabra f" "sin_separador f" "p < 65536"
    and "direcciones (almacen s) f = []"
  obtains alm where "srv (mundo (paso_cliente (red_servidor lr ls) a)) =
      s\<lparr>almacen := alm, respuestas := respuestas s @ [ack, ack]\<rparr>"
    "servidoras_escuchando (paso_cliente (red_servidor lr ls) a) = servidoras_escuchando a @ [(word_of_nat p, f)]"
    "estado (paso_cliente (red_servidor lr ls) a) = Menu"
    "obtener_cliente f alm = Inr (True, direccion_tcp (inet_ntoa ip) (decimal p))"
proof -
  obtain alm where "agregar_cliente (peticion f (inet_ntoa ip) (decimal p)) (almacen s) = Inr (True, alm)"
    and "obtener_cliente f alm = Inr (True, direccion_tcp (inet_ntoa ip) (decimal p))"
    using registro_impreso [OF assms(5,9,7,8), of ip] unfolding direccion_tcp_def by blast
  moreover from this(1) have "paso_cliente (red_servidor lr ls) a =
    a\<lparr>entrada := '' '' @ r, v_nombre := f, v_ip := inet_ntoa ip, v_puerto := decimal p,
      mundo := con_servidor (s\<lparr>almacen := alm, respuestas := respuestas s @ [ack, ack]\<rparr>), reply := ack,
      servidoras_escuchando := servidoras_escuchando a @ [(word_of_int (int p), f)]\<rparr>"
    using assms(3) unfolding cliente_en_menu_def
    by (intro turno_subir assms(1,2,4,6) palabra_impresa stoi_puerto [OF assms(8)]) blast+
  ultimately show thesis
    using that assms(3) by (simp add: con_servidor_def cliente_en_menu_def)
qed

text \<open>C1. End to end: client A announces a file that the server does not know, with any IP address and
  any port below 65536; then client B asks for that name. A starts a serving thread on that port for
  that file, B starts one download, and when the network leads from the announced address to a peer
  that serves the contents \<open>c\<close>, B ends up with exactly \<open>c\<close>, whatever its file held before and however the
  system calls cut the stream.\<close>

theorem sistema_descarga:
  assumes "alterna_recv lr" "alterna_send ls"
    and "cliente_en_menu (''1 '' @ f @ '' '' @ inet_ntoa ip @ '' '' @ decimal p @ '' '' @ r) s a"
    and "en_reposo s" "almacen_ok (almacen s)" "palabra f" "sin_separador f" "p < 65536"
    and "direcciones (almacen s) f = []"
    and "cliente_en_menu (''2 '' @ f @ '' '' @ r') (srv (mundo (paso_cliente (red_servidor lr ls) a))) b"
    and "crea w" "abre w" "sitio w = None"
    and "red w (d(c_str f \<mapsto> [])) (inet_ntoa ip) (decimal p) = Some (par er ew None c)"
  shows "servidoras_escuchando (paso_cliente (red_servidor lr ls) a) = servidoras_escuchando a @ [(word_of_nat p, f)] \<and>
    (\<exists>dir. descargas (paso_cliente (red_servidor lr ls) b) = descargas b @ [(f, dir)] \<and>
       hebra_cliente_ficheros w f dir d = (None, d(c_str f \<mapsto> c)))"
proof -
  obtain alm where a: "srv (mundo (paso_cliente (red_servidor lr ls) a)) =
      s\<lparr>almacen := alm, respuestas := respuestas s @ [ack, ack]\<rparr>"
    "servidoras_escuchando (paso_cliente (red_servidor lr ls) a) = servidoras_escuchando a @ [(word_of_nat p, f)]"
    and ob: "obtener_cliente f alm = Inr (True, direccion_tcp (inet_ntoa ip) (decimal p))"
    by (rule turno_subir_impreso [OF assms(1-9)])
  let ?dir = "direccion_tcp (inet_ntoa ip) (decimal p)"
  have "en_reposo (srv (mundo (paso_cliente (red_servidor lr ls) a)))"
    using assms(4) unfolding a(1) by (simp add: en_reposo_def)
  moreover have "obtener_cliente f (almacen (srv (mundo (paso_cliente (red_servidor lr ls) a)))) = Inr (True, ?dir)"
    unfolding a(1) using ob by simp
  moreover have "?dir \<noteq> ''EMPTY''" by (simp add: direccion_tcp_def)
  ultimately have "descargas (paso_cliente (red_servidor lr ls) b) = descargas b @ [(f, ?dir)]"
    using assms(10) unfolding cliente_en_menu_def
    by (subst turno_descargar [OF assms(1,2) _ _ _ _ assms(6)]) auto
  moreover have "hebra_cliente_ficheros w f ?dir d = (None, d(c_str f \<mapsto> c))"
    using descarga_resultado [OF assms(11-13) direccion_ok_impresa [OF assms(8)], of f ip d] assms(14)
    by (simp add: par_entero)
  ultimately show ?thesis using a(2) by blast
qed

definition cliente_a :: "enlace cliente" where
  "cliente_a = inicio_cliente
     (''1 '' @ ''f.txt'' @ '' '' @ inet_ntoa 16777343 @ '' '' @ decimal 8080 @ '' '' @ [])
     (con_servidor (inicio_servidor Map.empty))"

definition cliente_b :: "enlace cliente" where
  "cliente_b = inicio_cliente (''2 '' @ ''f.txt'' @ '' '' @ [])
     (con_servidor (srv (mundo (paso_cliente (red_servidor recv_ejemplo send_ejemplo) cliente_a))))"

lemma clientes_ejemplo:
  "cliente_en_menu (''1 '' @ ''f.txt'' @ '' '' @ inet_ntoa 16777343 @ '' '' @ decimal 8080 @ '' '' @ [])
     (inicio_servidor Map.empty) cliente_a"
  "cliente_en_menu (''2 '' @ ''f.txt'' @ '' '' @ [])
     (srv (mundo (paso_cliente (red_servidor recv_ejemplo send_ejemplo) cliente_a))) cliente_b"
  "palabra ''f.txt''" "direcciones (almacen (inicio_servidor Map.empty)) ''f.txt'' = []"
  by (simp_all add: cliente_en_menu_def cliente_a_def cliente_b_def inicio_cliente_def palabra_def
      es_espacio_def inicio_vacio)
    (simp add: direcciones_def almacen_vacio_def vector_de_def)

theorem sistema_descarga_testigo:
  "\<exists>dir. descargas (paso_cliente (red_servidor recv_ejemplo send_ejemplo) cliente_b) = [(''f.txt'', dir)] \<and>
     hebra_cliente_ficheros (entorno_ejemplo (\<lambda>_ _ _. Some (par (\<lambda>n. 5) (\<lambda>n. 2) None ''hola mundo'')))
       ''f.txt'' dir [''f.txt'' \<mapsto> ''viejo''] =
     (None, [''f.txt'' \<mapsto> ''viejo'', c_str ''f.txt'' \<mapsto> ''hola mundo''])"
  using sistema_descarga [OF alterna_ejemplo clientes_ejemplo(1) inicio_vacio(1) inicio_almacen_ok
      clientes_ejemplo(3) sin_separador_ejemplos(1) _ clientes_ejemplo(4) clientes_ejemplo(2),
      of "entorno_ejemplo (\<lambda>_ _ _. Some (par (\<lambda>n. 5) (\<lambda>n. 2) None ''hola mundo''))"
        "[''f.txt'' \<mapsto> ''viejo'']" "\<lambda>n. 5" "\<lambda>n. 2" "''hola mundo''"]
  by (simp add: cliente_b_def inicio_cliente_def)

text \<open>The address that the server gives for a new file carries the port on which the announcing
  client listens: both are the number typed by the user reduced to 16 bits, also when it is
  negative or greater than 65535.\<close>

theorem puerto_anunciado:
  assumes "alterna_recv lr" "alterna_send ls"
    and "cliente_en_menu (''1 '' @ f @ '' '' @ ip @ '' '' @ p @ '' '' @ r) s a"
    and "en_reposo s" "almacen_ok (almacen s)" "palabra f" "palabra ip" "palabra p"
    and "sin_separador f" "sin_separador ip" "sin_separador p" "stoi p = Inr v"
    and "direcciones (almacen s) f = []"
  shows "\<exists>puerto_local.
    servidoras_escuchando (paso_cliente (red_servidor lr ls) a) = servidoras_escuchando a @ [(puerto_local, f)] \<and>
    obtener_cliente f (almacen (srv (mundo (paso_cliente (red_servidor lr ls) a)))) =
      Inr (True, direccion_tcp (inet_ntoa (inet_addr ip)) (decimal (unat puerto_local)))"
proof -
  note ag = agregar_cliente_peticion [OF assms(9-12), of "almacen s"]
  have "paso_cliente (red_servidor lr ls) a =
    a\<lparr>entrada := '' '' @ r, v_nombre := f, v_ip := ip, v_puerto := p,
      mundo := con_servidor (s\<lparr>almacen := (almacen s)\<lparr>tabla :=
          apila_par f (inet_addr ip, htons (word_of_int v)) (tabla (almacen s))\<rparr>,
        respuestas := respuestas s @ [ack, ack]\<rparr>), reply := ack,
      servidoras_escuchando := servidoras_escuchando a @ [(word_of_int v, f)]\<rparr>"
    using assms(3) unfolding cliente_en_menu_def
    by (intro turno_subir assms(1,2,4,6-8,12) ag) blast+
  then show ?thesis
    using obtener_cliente_apila [OF assms(5), of f "inet_addr ip" v] assms(13)
    by (simp add: con_servidor_def direccion_tcp_def unat_word_of_int_16)
qed

definition cliente_negativo :: "enlace cliente" where
  "cliente_negativo = inicio_cliente
     (''1 '' @ ''f.txt'' @ '' '' @ ''127.0.0.1'' @ '' '' @ ''-1'' @ '' '' @ [])
     (con_servidor (inicio_servidor Map.empty))"

theorem puerto_anunciado_testigo:
  "\<exists>puerto_local.
    servidoras_escuchando (paso_cliente (red_servidor recv_ejemplo send_ejemplo) cliente_negativo) =
      servidoras_escuchando cliente_negativo @ [(puerto_local, ''f.txt'')] \<and>
    obtener_cliente ''f.txt'' (almacen (srv (mundo (paso_cliente (red_servidor recv_ejemplo send_ejemplo) cliente_negativo)))) =
      Inr (True, direccion_tcp (inet_ntoa (inet_addr ''127.0.0.1'')) (decimal (unat puerto_local)))"
proof -
  have "stoi ''-1'' = Inr (- 1)" by code_simp
  moreover have "palabra ''127.0.0.1''" "palabra ''-1''" by (simp_all add: palabra_def es_espacio_def)
  moreover have "sin_separador ''-1''" by (simp add: sin_separador_def aparece_def delimiter_def)
  moreover have "cliente_en_menu (''1 '' @ ''f.txt'' @ '' '' @ ''127.0.0.1'' @ '' '' @ ''-1'' @ '' '' @ [])
     (inicio_servidor Map.empty) cliente_negativo"
    by (simp add: cliente_en_menu_def cliente_negativo_def inicio_cliente_def)
  ultimately show ?thesis
    using puerto_anunciado [OF alterna_ejemplo _ inicio_vacio(1) inicio_almacen_ok clientes_ejemplo(3) _ _
        sin_separador_ejemplos(1,2) _ _ clientes_ejemplo(4)] by blast
qed

subsection \<open>What goes wrong between the programs\<close>

text \<open>An idle server answers the listing, and is idle again: the world behind the socket keeps answering.\<close>

lemma red_servidor_responde:
  assumes "alterna_recv lr" "alterna_send ls"
  shows "red_responde (red_servidor lr ls) (\<lambda>w. \<exists>s. en_reposo s \<and> w = con_servidor s)"
  unfolding red_responde_def
proof (intro allI impI, elim exE conjE)
  fix w s
  assume s: "en_reposo s" "w = con_servidor s"
  let ?s = "s\<lparr>respuestas := respuestas s @ [listado (almacen s)]\<rparr>"
  have "zsend (red_servidor lr ls) (to_string_int 0) w =
      Some (Zmq_ok (length (to_string_int 0)), \<lparr>srv = ?s, bandeja = [listado (almacen s)], turno_req = Debe_recibir\<rparr>)"
    using s paso_opcion(1) [OF assms s(1) stoi_opcion(1) refl] by (simp add: red_servidor_def req_send_def con_servidor_def Let_def)
  moreover have "zrecv (red_servidor lr ls) \<lparr>srv = ?s, bandeja = [listado (almacen s)], turno_req = Debe_recibir\<rparr> =
      Some (Zmq_ok (listado (almacen s)), con_servidor ?s)"
    by (simp add: red_servidor_def req_recv_def con_servidor_def)
  moreover have "en_reposo ?s" using s(1) by (simp add: en_reposo_def)
  ultimately show "\<exists>n w1 r w2. zsend (red_servidor lr ls) (to_string_int 0) w = Some (Zmq_ok n, w1) \<and>
      zrecv (red_servidor lr ls) w1 = Some (Zmq_ok r, w2) \<and> (\<exists>s. en_reposo s \<and> w2 = con_servidor s)" by blast
qed

text \<open>C27. A client whose input ends, or holds something that is not a number where an option is
  expected, never ends as long as the listing is answered whenever the REQ socket is ready to ask for it: the
  stream stays failed, every further turn reads option 0, and each turn asks the server for its listing and
  prints one reply, without end.\<close>

theorem cliente_sin_entrada_no_termina:
  assumes "red_responde z listo" "listo (mundo c)" "estado c = Menu" "falla c \<or> sin_numero (entrada c)"
  shows "estado ((paso_cliente z ^^ n) c) = Menu \<and>
    length (pantalla ((paso_cliente z ^^ n) c)) = length (pantalla c) + n"
  using assms(2-4)
proof (induction n arbitrary: c)
  case (Suc n)
  obtain r where "estado (paso_cliente z c) = Menu" "falla (paso_cliente z c)"
    "pantalla (paso_cliente z c) = pantalla c @ [Muestra r]" "listo (mundo (paso_cliente z c))"
    by (rule turno_sin_numero [OF assms(1) Suc.prems])
  then show ?case using Suc.IH [of "paso_cliente z c"] by (simp add: funpow_Suc_right del: funpow.simps)
qed simp

theorem cliente_sin_entrada_no_termina_testigo:
  "let c = inicio_cliente ''salir'' (con_servidor (inicio_servidor Map.empty)); z = red_servidor recv_ejemplo send_ejemplo in
    estado ((paso_cliente z ^^ 1000) c) = Menu \<and> length (pantalla ((paso_cliente z ^^ 1000) c)) = 1000"
  unfolding Let_def
  using cliente_sin_entrada_no_termina [OF red_servidor_responde [OF alterna_ejemplo],
      of "inicio_cliente ''salir'' (con_servidor (inicio_servidor Map.empty))" 1000] inicio_vacio(1)
  by (auto simp: inicio_cliente_def sin_numero_def salta_espacios_def es_espacio_def es_digito_def simp del: funpow.simps)

text \<open>A port that is not a number takes the server down and hangs the client: the server rejects the
  registration with \<^verbatim>\<open>exit(-1)\<close> and sends no reply, and the client waits for that reply without end.\<close>

theorem puerto_invalido_cuelga:
  assumes "alterna_recv lr" "alterna_send ls"
    and "cliente_en_menu (''1 '' @ f @ '' '' @ ip @ '' '' @ p @ '' '' @ r) s a"
    and "en_reposo s" "palabra f" "palabra ip" "palabra p"
    and "sin_separador f" "sin_separador ip" "sin_separador p" "stoi p = Inl e"
  shows "estado (paso_cliente (red_servidor lr ls) a) = Bloqueado \<and>
    punto (srv (mundo (paso_cliente (red_servidor lr ls) a))) = Terminado (Exit (- 1)) \<and>
    almacen (srv (mundo (paso_cliente (red_servidor lr ls) a))) = almacen s"
proof -
  let ?s1 = "s\<lparr>punto := Espera_datos, respuestas := respuestas s @ [ack]\<rparr>"
  have a: "estado a = Menu" "\<not> falla a" "mundo a = con_servidor s"
    "entrada a = ''1 '' @ f @ '' '' @ ip @ '' '' @ p @ '' '' @ r"
    using assms(3) by (simp_all add: cliente_en_menu_def)
  have "cin_int a = (1, a\<lparr>entrada := '' '' @ f @ '' '' @ ip @ '' '' @ p @ '' '' @ r\<rparr>)"
    using cin_int_opcion [OF a(2), of "CHR ''1''" "f @ '' '' @ ip @ '' '' @ p @ '' '' @ r"] a(4)
    by (simp add: digitos_opcion)
  moreover note envia_servidor [OF _ paso_opcion(2) [OF assms(1,2,4) stoi_opcion(2) refl]]
  moreover have "agregar_cliente (f @ SEPARADOR @ ip @ SEPARADOR @ p @ SEPARADOR) (almacen s) = Inr (False, almacen s)"
  proof -
    have "agregar_cliente (peticion f ip p) (almacen s) = Inr (False, almacen s)"
      using assms(8-11) stoi_solo_excepciones [OF assms(11)]
      by (auto simp: agregar_cliente_def separar_string_tokens tokens_de_peticion)
    then show ?thesis by (simp add: peticion_def delimiter_def SEPARADOR_def)
  qed
  then have "paso_servidor lr ls (f @ SEPARADOR @ ip @ SEPARADOR @ p @ SEPARADOR) ?s1 =
      ?s1\<lparr>turno := Debe_enviar, punto := Terminado (Exit (- 1))\<rparr>"
    using assms(1,4) by (cases s) (simp add: paso_en_turno atiende_datos_def en_reposo_def)
  note envia_sin_respuesta [OF _ this]
  ultimately show ?thesis
    using a assms(5-7)
    by (simp add: paso_cliente_def opcion_subir_def recibe_bandeja recibe_vacia cin_str_def lee_palabra_de)
qed

definition cliente_sin_puerto :: "enlace cliente" where
  "cliente_sin_puerto = inicio_cliente
     (''1 '' @ ''f.txt'' @ '' '' @ ''127.0.0.1'' @ '' '' @ ''f.txt'' @ '' '' @ [])
     (con_servidor (inicio_servidor Map.empty))"

theorem puerto_invalido_cuelga_testigo:
  "estado (paso_cliente (red_servidor recv_ejemplo send_ejemplo) cliente_sin_puerto) = Bloqueado"
proof -
  have "stoi ''f.txt'' = Inl (Excepcion Invalid_argument)" by code_simp
  moreover have "palabra ''127.0.0.1''" by (simp add: palabra_def es_espacio_def)
  moreover have "cliente_en_menu (''1 '' @ ''f.txt'' @ '' '' @ ''127.0.0.1'' @ '' '' @ ''f.txt'' @ '' '' @ [])
     (inicio_servidor Map.empty) cliente_sin_puerto"
    by (simp add: cliente_en_menu_def cliente_sin_puerto_def inicio_cliente_def)
  ultimately show ?thesis
    using puerto_invalido_cuelga [OF alterna_ejemplo _ inicio_vacio(1) clientes_ejemplo(3) _ clientes_ejemplo(3)
        sin_separador_ejemplos(1,2,1)] by blast
qed

text \<open>C22. The dialogues of two clients are not kept apart: while one client that chose option 1 types its
  data, the option number that another client sends is taken as that data and runs the server into
  undefined behaviour; in the same way, after option 2 the option number of another client is
  looked up as a file name and answered.\<close>

theorem dialogos_mezclados:
  assumes "alterna_recv lr" "alterna_send ls" "en_reposo s" "almacen_ok (almacen s)"
  shows "punto (bucle_servidor lr ls [to_string_int 1, to_string_int k] s) = Terminado Indefinido_fin \<and>
    (\<exists>b dir. obtener_cliente (to_string_int k) (almacen s) = Inr (b, dir) \<and>
      respuestas (bucle_servidor lr ls [to_string_int 2, to_string_int k] s) = respuestas s @ [ack, dir])"
proof
  have "CHR ''<'' \<notin> set (to_string_int k)"
    using no_digito by (auto simp: to_string_int_def dest: decimal_es_digito)
  then have "tokens_de (to_string_int k) = []" by (intro tokens_de_ninguno sin_separador_sin_menor)
  then have "agregar_cliente (to_string_int k) alm = Inl Indefinido" for alm
    by (simp add: agregar_cliente_def separar_string_def)
  then show "punto (bucle_servidor lr ls [to_string_int 1, to_string_int k] s) = Terminado Indefinido_fin"
    using assms(1,3) paso_opcion(2) [OF assms(1-3) stoi_opcion(2) refl]
    by (simp add: paso_en_turno atiende_datos_def en_reposo_def)
  obtain b dir where ob: "obtener_cliente (to_string_int k) (almacen s) = Inr (b, dir)"
    using reg.obtener_definido [OF assms(4)] by (metis surj_pair)
  moreover have "respuestas (bucle_servidor lr ls [to_string_int 2, to_string_int k] s) = respuestas s @ [ack, dir]"
    using assms(3) ob paso_opcion(3) [OF assms(1-3) stoi_opcion(3) refl]
      paso_nombre [OF assms(1,2), of "s\<lparr>punto := Espera_nombre, respuestas := respuestas s @ [ack]\<rparr>"
        "to_string_int k" b dir]
    by (simp add: en_reposo_def)
  ultimately show "\<exists>b dir. obtener_cliente (to_string_int k) (almacen s) = Inr (b, dir) \<and>
      respuestas (bucle_servidor lr ls [to_string_int 2, to_string_int k] s) = respuestas s @ [ack, dir]"
    by blast
qed

theorem dialogos_mezclados_testigo:
  "punto (bucle_servidor recv_ejemplo send_ejemplo [to_string_int 1, to_string_int 0]
     (inicio_servidor Map.empty)) = Terminado Indefinido_fin"
  using dialogos_mezclados [OF alterna_ejemplo inicio_vacio(1) inicio_almacen_ok] by blast

end
