(* ===== verification/Senales.thy ===== *)
theory Senales
  imports AsioIO
begin

text \<open>
  Signals, from \<^verbatim>\<open>asio-1.28.0/include/asio/detail/impl/signal_set_service.ipp\<close>: the process-wide table
  of registrations, the signal sets, and delivery. Crow waits for SIGINT and SIGTERM through them.
  \<open>so_ok\<close> is whether \<^verbatim>\<open>sigaction\<close> succeeds; the locks are those of one call at a time.
\<close>

subsection \<open>State\<close>

datatype manejador_senal = SIG_DFL | De_sigint_handler | Asio_signal_handler

record signal_state =
  disposicion :: "int \<Rightarrow> manejador_senal"
  registration_count :: "int \<Rightarrow> nat"
  flags_senal :: "int \<Rightarrow> int"

text \<open>A registration is a signal number with its count of undelivered signals; they are kept in order.\<close>

record signal_set =
  signals :: "(int \<times> nat) list"
  queue :: "nat list"

definition max_signal_number :: int where
  "max_signal_number = 65"

definition dont_care :: int where
  "dont_care = - 1"

definition einval :: error_code where
  "einval = Error_es 22"

definition estado_inicial_senales :: signal_state where
  "estado_inicial_senales =
     \<lparr>disposicion = (\<lambda>_. SIG_DFL), registration_count = (\<lambda>_. 0), flags_senal = (\<lambda>_. 0)\<rparr>"

definition construct_set :: signal_set where
  "construct_set = \<lparr>signals = [], queue = []\<rparr>"

subsection \<open>Registration\<close>

text \<open>The search for the insertion point; \<open>None\<close> when the signal is in the set already.\<close>

fun inserta_registro :: "int \<Rightarrow> (int \<times> nat) list \<Rightarrow> (int \<times> nat) list option" where
  "inserta_registro n [] = Some [(n, 0)]"
| "inserta_registro n (r # rs) =
     (if fst r < n then map_option (Cons r) (inserta_registro n rs)
      else if fst r = n then None
      else Some ((n, 0) # r # rs))"

fun quita_registro :: "int \<Rightarrow> (int \<times> nat) list \<Rightarrow> (int \<times> nat) list option" where
  "quita_registro n [] = None"
| "quita_registro n (r # rs) =
     (if fst r < n then map_option (Cons r) (quita_registro n rs)
      else if fst r = n then Some rs
      else None)"

definition add_senal ::
    "bool \<Rightarrow> signal_set \<Rightarrow> int \<Rightarrow> int \<Rightarrow> signal_state \<Rightarrow> error_code \<times> signal_set \<times> signal_state" where
  "add_senal so_ok impl n f st =
     (if n < 0 \<or> max_signal_number \<le> n then (einval, impl, st)
      else case inserta_registro n (signals impl) of
        None \<Rightarrow> (Sin_error, impl, st)
      | Some rs \<Rightarrow>
          let impl' = impl\<lparr>signals := rs\<rparr>;
              cuenta = st\<lparr>registration_count := (registration_count st)(n := registration_count st n + 1)\<rparr>;
              instala = cuenta\<lparr>disposicion := (disposicion st)(n := Asio_signal_handler),
                               flags_senal := (flags_senal st)(n := f)\<rparr>
          in if registration_count st n = 0 then
               (if so_ok then (Sin_error, impl', instala) else (einval, impl, st))
             else if f \<noteq> dont_care \<and> f \<noteq> flags_senal st n then
               (if flags_senal st n \<noteq> dont_care then (einval, impl, st)
                else if so_ok then (Sin_error, impl', instala) else (einval, impl, st))
             else (Sin_error, impl', cuenta))"

text \<open>Dropping one registration from the process-wide state: the last one restores the default action.\<close>

definition suelta_senal :: "int \<Rightarrow> signal_state \<Rightarrow> signal_state" where
  "suelta_senal n st =
     (let st' = (if registration_count st n = 1
                 then st\<lparr>disposicion := (disposicion st)(n := SIG_DFL), flags_senal := (flags_senal st)(n := 0)\<rparr>
                 else st)
      in st'\<lparr>registration_count := (registration_count st)(n := registration_count st n - 1)\<rparr>)"

definition remove_senal ::
    "bool \<Rightarrow> signal_set \<Rightarrow> int \<Rightarrow> signal_state \<Rightarrow> error_code \<times> signal_set \<times> signal_state" where
  "remove_senal so_ok impl n st =
     (if n < 0 \<or> max_signal_number \<le> n then (einval, impl, st)
      else case quita_registro n (signals impl) of
        None \<Rightarrow> (Sin_error, impl, st)
      | Some rs \<Rightarrow>
          if registration_count st n = 1 \<and> \<not> so_ok then (einval, impl, st)
          else (Sin_error, impl\<lparr>signals := rs\<rparr>, suelta_senal n st))"

fun clear_registros ::
    "bool \<Rightarrow> (int \<times> nat) list \<Rightarrow> signal_state \<Rightarrow> error_code \<times> (int \<times> nat) list \<times> signal_state" where
  "clear_registros so_ok [] st = (Sin_error, [], st)"
| "clear_registros so_ok (r # rs) st =
     (if registration_count st (fst r) = 1 \<and> \<not> so_ok then (einval, r # rs, st)
      else clear_registros so_ok rs (suelta_senal (fst r) st))"

definition clear_senales ::
    "bool \<Rightarrow> signal_set \<Rightarrow> signal_state \<Rightarrow> error_code \<times> signal_set \<times> signal_state" where
  "clear_senales so_ok impl st =
     (case clear_registros so_ok (signals impl) st of (ec, rs, st') \<Rightarrow> (ec, impl\<lparr>signals := rs\<rparr>, st'))"

text \<open>\<^verbatim>\<open>cancel\<close> gives the handlers that are posted with \<^verbatim>\<open>operation_aborted\<close>.\<close>

definition cancel_senales :: "signal_set \<Rightarrow> nat list \<times> signal_set" where
  "cancel_senales impl = (queue impl, impl\<lparr>queue := []\<rparr>)"

definition destroy_set :: "bool \<Rightarrow> signal_set \<Rightarrow> signal_state \<Rightarrow> nat list \<times> signal_state" where
  "destroy_set so_ok impl st =
     (case clear_senales so_ok impl st of (_, impl', st') \<Rightarrow> (fst (cancel_senales impl'), st'))"

subsection \<open>Waiting and delivery\<close>

fun toma_pendiente :: "(int \<times> nat) list \<Rightarrow> (int \<times> (int \<times> nat) list) option" where
  "toma_pendiente [] = None"
| "toma_pendiente ((n, u) # rs) =
     (if 0 < u then Some (n, (n, u - 1) # rs)
      else map_option (apsnd (Cons (n, u))) (toma_pendiente rs))"

text \<open>\<^verbatim>\<open>start_wait_op\<close>: a signal that came before completes the operation at once.\<close>

definition start_wait_op :: "signal_set \<Rightarrow> nat \<Rightarrow> (nat \<times> int) option \<times> signal_set" where
  "start_wait_op impl op =
     (case toma_pendiente (signals impl) of
        Some (n, rs) \<Rightarrow> (Some (op, n), impl\<lparr>signals := rs\<rparr>)
      | None \<Rightarrow> (None, impl\<lparr>queue := queue impl @ [op]\<rparr>))"

text \<open>\<^verbatim>\<open>deliver_signal\<close> on the sets of all services: the posted operations, with the signal number.\<close>

definition entrega_a :: "int \<Rightarrow> signal_set \<Rightarrow> (nat \<times> int) list \<times> signal_set" where
  "entrega_a n impl =
     (if n \<notin> fst ` set (signals impl) then ([], impl)
      else if queue impl = [] then
        ([], impl\<lparr>signals := map (\<lambda>r. if fst r = n then (n, snd r + 1) else r) (signals impl)\<rparr>)
      else (map (\<lambda>op. (op, n)) (queue impl), impl\<lparr>queue := []\<rparr>))"

definition deliver_signal :: "int \<Rightarrow> signal_set list \<Rightarrow> (nat \<times> int) list \<times> signal_set list" where
  "deliver_signal n sets = (concat (map (fst \<circ> entrega_a n) sets), map (snd \<circ> entrega_a n) sets)"

subsection \<open>Invariants\<close>

definition set_ok :: "signal_set \<Rightarrow> bool" where
  "set_ok impl \<longleftrightarrow> sorted_wrt (<) (map fst (signals impl))"

lemma inserta_registro_Some:
  assumes "sorted_wrt (<) (map fst rs)" "inserta_registro n rs = Some rs'"
  shows "sorted_wrt (<) (map fst rs')" "fst ` set rs' = insert n (fst ` set rs)" "n \<notin> fst ` set rs"
proof -
  have "sorted_wrt (<) (map fst rs') \<and> fst ` set rs' = insert n (fst ` set rs) \<and> n \<notin> fst ` set rs"
    using assms
  proof (induction rs arbitrary: rs')
    case (Cons r rs)
    show ?case
    proof (cases "fst r < n")
      case True
      then obtain z where z: "inserta_registro n rs = Some z" "rs' = r # z" using Cons.prems by auto
      with Cons.IH [of z] Cons.prems(1) have IH: "sorted_wrt (<) (map fst z)"
        "fst ` set z = insert n (fst ` set rs)" "n \<notin> fst ` set rs" by simp_all
      have "\<forall>x \<in> fst ` set z. fst r < x" unfolding IH(2) using Cons.prems(1) True by auto
      with IH True show ?thesis unfolding z(2) by (simp add: insert_commute)
    next
      case False
      with Cons.prems show ?thesis by (force split: if_splits)
    qed
  qed simp
  then show "sorted_wrt (<) (map fst rs')" "fst ` set rs' = insert n (fst ` set rs)" "n \<notin> fst ` set rs"
    by blast+
qed

lemma inserta_registro_None:
  assumes "sorted_wrt (<) (map fst rs)"
  shows "inserta_registro n rs = None \<longleftrightarrow> n \<in> fst ` set rs"
  using assms by (induction rs) force+

lemma quita_inserta:
  assumes "inserta_registro n rs = Some rs'"
  shows "quita_registro n rs' = Some rs"
  using assms by (induction rs arbitrary: rs') (auto split: if_splits)

text \<open>The process-wide count of a signal against the sets that hold it, and its disposition.\<close>

definition senales_ok :: "signal_set list \<Rightarrow> signal_state \<Rightarrow> bool" where
  "senales_ok sets st \<longleftrightarrow>
     (\<forall>impl \<in> set sets. set_ok impl) \<and>
     (\<forall>n. registration_count st n = length (filter (\<lambda>impl. n \<in> fst ` set (signals impl)) sets)) \<and>
     (\<forall>n. 0 < registration_count st n \<longrightarrow> disposicion st n = Asio_signal_handler)"

lemma add_senal_ok:
  assumes "senales_ok (pre @ impl # post) st" "add_senal so_ok impl n f st = (ec, impl', st')"
  shows "senales_ok (pre @ impl' # post) st'"
proof (cases "n < 0 \<or> max_signal_number \<le> n \<or> inserta_registro n (signals impl) = None")
  case True
  then have "impl' = impl \<and> st' = st" using assms(2) by (auto simp: add_senal_def split: if_splits)
  with assms(1) show ?thesis by simp
next
  case False
  then obtain rs where rs: "inserta_registro n (signals impl) = Some rs" by auto
  have ok: "sorted_wrt (<) (map fst (signals impl))" using assms(1) by (simp add: senales_ok_def set_ok_def)
  note ins = inserta_registro_Some [OF ok rs]
  from False rs assms(2) have "(impl' = impl \<and> st' = st) \<or>
      (impl' = impl\<lparr>signals := rs\<rparr> \<and>
       registration_count st' = (registration_count st)(n := registration_count st n + 1) \<and>
       (disposicion st' = (disposicion st)(n := Asio_signal_handler) \<or>
        disposicion st' = disposicion st \<and> 0 < registration_count st n))"
    by (auto simp: add_senal_def Let_def split: if_splits)
  then show ?thesis
    using assms(1) ins by (fastforce simp: senales_ok_def set_ok_def)
qed

lemma add_senal_primera:
  assumes "0 \<le> n" "n < max_signal_number" "registration_count st n = 0" "n \<notin> fst ` set (signals impl)"
    and "set_ok impl"
  shows "\<exists>impl'. add_senal True impl n f st =
      (Sin_error, impl', st\<lparr>registration_count := (registration_count st)(n := 1),
        disposicion := (disposicion st)(n := Asio_signal_handler), flags_senal := (flags_senal st)(n := f)\<rparr>) \<and>
    set_ok impl' \<and> fst ` set (signals impl') = insert n (fst ` set (signals impl)) \<and> queue impl' = queue impl"
proof -
  obtain rs where rs: "inserta_registro n (signals impl) = Some rs"
    using assms(4,5) inserta_registro_None [of "signals impl" n] by (auto simp: set_ok_def)
  with assms inserta_registro_Some [of "signals impl" n rs] show ?thesis
    by (auto simp: add_senal_def set_ok_def Let_def)
qed

end
