(* ===== verification/Proceso.thy ===== *)
theory Proceso
  imports Bitacora ServidorWeb Senales Maquina
begin

text \<open>
  The server process as a whole: \<^verbatim>\<open>main\<close> of \<^verbatim>\<open>servidor.cpp\<close> installs its SIGINT handler, restores the
  store, starts the web thread and serves requests. The web thread runs Crow
  (\<^verbatim>\<open>includes/crow_all.h\<close>), which waits for signals through Asio. The start-up, messages, web requests,
  the start of Crow, signals and the end of the join in the SIGINT handler are the steps of one state machine;
  the web thread goes on while \<^verbatim>\<open>main\<close> is in that handler.
\<close>

subsection \<open>State\<close>

text \<open>How far \<^verbatim>\<open>main\<close> has come: it has installed its handler, it has restored the store, it is in its loop.\<close>

datatype fase_main = Instalado | Restaurado | En_bucle

text \<open>The web thread, before Crow waits for signals (and before the thread exists), while it serves, and after.\<close>

datatype hilo_crow = Arrancando | Sirviendo signal_set | Acabado

record proceso =
  fase :: fase_main
  zmq_srv :: servidor
  disco_p :: disco
  senal :: signal_state
  hilo :: hilo_crow

definition SIGINT :: int where
  "SIGINT = 2"

definition SIGTERM :: int where
  "SIGTERM = 15"

definition eintr :: nat where
  "eintr = 4"

text \<open>
  \<^verbatim>\<open>main\<close> after it has installed its handler, when the global store is empty; then the backup is read; then
  the web thread is started and the loop begins.
\<close>

definition inicio_proceso :: "disco \<Rightarrow> proceso" where
  "inicio_proceso d =
     \<lparr>fase = Instalado,
      zmq_srv = \<lparr>almacen = almacen_vacio, punto = Espera_peticion, turno = Debe_recibir, respuestas = []\<rparr>, disco_p = d,
      senal = estado_inicial_senales\<lparr>disposicion := (\<lambda>_. SIG_DFL)(SIGINT := De_sigint_handler)\<rparr>,
      hilo = Arrancando\<rparr>"

definition restaura :: "proceso \<Rightarrow> proceso" where
  "restaura p = p\<lparr>fase := Restaurado, zmq_srv := inicio_servidor (disco_p p)\<rparr>"

definition lanza_hilo :: "proceso \<Rightarrow> proceso" where
  "lanza_hilo p = p\<lparr>fase := En_bucle\<rparr>"

subsection \<open>Crow\<close>

text \<open>The loop of \<^verbatim>\<open>Crow::run\<close> over \<^verbatim>\<open>signals_\<close>; \<^verbatim>\<open>signal_set::add\<close> throws what it ends with.\<close>

fun signal_add_todas :: "signal_set \<Rightarrow> int list \<Rightarrow> signal_state \<Rightarrow> (signal_set \<times> signal_state) res" where
  "signal_add_todas impl [] st = Inr (impl, st)"
| "signal_add_todas impl (n # ns) st =
     (case add_senal True impl n dont_care st of
        (ec, impl', st') \<Rightarrow> if ec = Sin_error then signal_add_todas impl' ns st' else throwE System_error)"

definition crow_signals :: "int list" where
  "crow_signals = [SIGINT, SIGTERM]"

text \<open>\<^verbatim>\<open>Server::stop\<close> lets \<^verbatim>\<open>run\<close> return, and the set of signals is destroyed with the application.\<close>

definition crow_fin :: "signal_set \<Rightarrow> proceso \<Rightarrow> proceso" where
  "crow_fin impl p = p\<lparr>senal := snd (destroy_set True impl (senal p)), hilo := Acabado\<rparr>"

definition crow_run :: "proceso \<Rightarrow> proceso" where
  "crow_run p =
     (case signal_add_todas construct_set crow_signals (senal p) of
        Inl e \<Rightarrow> p\<lparr>zmq_srv := (zmq_srv p)\<lparr>punto := Terminado (Sin_capturar System_error)\<rparr>\<rparr>
      | Inr (impl, st) \<Rightarrow>
          (case start_wait_op impl 0 of
             (None, impl') \<Rightarrow> p\<lparr>senal := st, hilo := Sirviendo impl'\<rparr>
           | (Some _, impl') \<Rightarrow> crow_fin impl' (p\<lparr>senal := st\<rparr>)))"

subsection \<open>Signals and web requests\<close>

text \<open>
  What \<^verbatim>\<open>servidor_crow.join()\<close> does in a handler that runs in the main thread or in the web thread. A second SIGINT
  does not enter the main thread while the handler runs there: it is blocked.
\<close>

definition join_crow :: "bool \<Rightarrow> proceso \<Rightarrow> efecto_join" where
  "join_crow en_main p =
     (if fase p \<noteq> En_bucle then Join_lanza
      else if hilo p = Acabado then Join_vuelve
      else if en_main \<and> punto (zmq_srv p) \<noteq> Espera_crow then Join_espera
      else Join_lanza)"

text \<open>
  A signal takes the action that is installed for it, in the main thread (\<open>en_main\<close>) or in another. The handler
  of Asio hands the signal to the waiting operation, which is Crow's \<^verbatim>\<open>stop\<close>; it is installed without
  \<^verbatim>\<open>SA_RESTART\<close>, so a signal that lands in the main thread in its loop also makes its \<^verbatim>\<open>recv\<close> fail with
  \<^verbatim>\<open>EINTR\<close>; the \<^verbatim>\<open>join\<close> of a main thread in the SIGINT handler goes on.
\<close>

definition llega_senal :: "bool \<Rightarrow> bool \<Rightarrow> int \<Rightarrow> proceso \<Rightarrow> proceso" where
  "llega_senal abierto en_main n p =
     (case disposicion (senal p) n of
        SIG_DFL \<Rightarrow> p\<lparr>zmq_srv := (zmq_srv p)\<lparr>punto := Terminado (Por_senal n)\<rparr>\<rparr>
      | De_sigint_handler \<Rightarrow>
          (case sigint_handler abierto (join_crow en_main p) n (zmq_srv p) (disco_p p) of
             (s, d) \<Rightarrow> p\<lparr>zmq_srv := s, disco_p := d\<rparr>)
      | Asio_signal_handler \<Rightarrow>
          let p' = (if en_main \<and> vivo (zmq_srv p)
                    then p\<lparr>zmq_srv := (zmq_srv p)\<lparr>punto := Terminado (Sin_capturar (Zmq_error eintr))\<rparr>\<rparr>
                    else p)
          in case hilo p of
               Sirviendo impl \<Rightarrow>
                 (case deliver_signal n [impl] of
                    ([], impls) \<Rightarrow> p'\<lparr>hilo := Sirviendo (hd impls)\<rparr>
                  | (_, impls) \<Rightarrow> crow_fin (hd impls) p')
             | _ \<Rightarrow> p')"

text \<open>The join of the handler returns once the web thread has ended; only SIGINT has this handler.\<close>

definition vuelve_join :: "proceso \<Rightarrow> proceso" where
  "vuelve_join p = p\<lparr>zmq_srv := (zmq_srv p)\<lparr>punto := Terminado (Exit SIGINT)\<rparr>\<rparr>"

text \<open>The process is there until it terminates; while \<^verbatim>\<open>main\<close> is blocked in the join, it no longer serves messages.\<close>

definition existe :: "proceso \<Rightarrow> bool" where
  "existe p \<longleftrightarrow> (case punto (zmq_srv p) of Terminado f \<Rightarrow> False | _ \<Rightarrow> True)"

definition peticion_web :: "(almacen_direcciones \<Rightarrow> (string \<times> almacen_direcciones) res) \<Rightarrow> proceso \<Rightarrow> proceso" where
  "peticion_web ruta p =
     (case ruta (almacen (zmq_srv p)) of
        Inl _ \<Rightarrow> p
      | Inr (_, alm) \<Rightarrow> p\<lparr>zmq_srv := (zmq_srv p)\<lparr>almacen := alm\<rparr>\<rparr>)"

inductive paso_proceso :: "lib_recv \<Rightarrow> lib_send \<Rightarrow> proceso \<Rightarrow> proceso \<Rightarrow> bool" for lr ls where
  restaurar: "existe p \<Longrightarrow> fase p = Instalado \<Longrightarrow> paso_proceso lr ls p (restaura p)"
| lanzar: "existe p \<Longrightarrow> fase p = Restaurado \<Longrightarrow> paso_proceso lr ls p (lanza_hilo p)"
| mensaje: "vivo (zmq_srv p) \<Longrightarrow> fase p = En_bucle \<Longrightarrow>
    paso_proceso lr ls p (p\<lparr>zmq_srv := paso_servidor lr ls m (zmq_srv p)\<rparr>)"
| arranca: "existe p \<Longrightarrow> fase p = En_bucle \<Longrightarrow> hilo p = Arrancando \<Longrightarrow> paso_proceso lr ls p (crow_run p)"
| guardar: "existe p \<Longrightarrow> hilo p = Sirviendo c \<Longrightarrow>
    paso_proceso lr ls p (peticion_web (ruta_guardar body) p)"
| agregar: "existe p \<Longrightarrow> hilo p = Sirviendo c \<Longrightarrow>
    paso_proceso lr ls p (peticion_web (ruta_agregar_fichero f ip puerto) p)"
| senal: "existe p \<Longrightarrow> paso_proceso lr ls p (llega_senal abierto en_main n p)"
| sale: "punto (zmq_srv p) = Espera_crow \<Longrightarrow> hilo p = Acabado \<Longrightarrow> paso_proceso lr ls p (vuelve_join p)"

inductive_cases paso_procesoE: "paso_proceso lr ls p q"

subsection \<open>The set that Crow waits on\<close>

definition esperando :: "signal_set \<Rightarrow> bool" where
  "esperando c \<longleftrightarrow> map fst (signals c) = crow_signals \<and> queue c = [0]"

text \<open>The shape of the signal table in each phase of the web thread.\<close>

definition senal_inv :: "proceso \<Rightarrow> bool" where
  "senal_inv p \<longleftrightarrow>
     (case hilo p of
        Arrancando \<Rightarrow> registration_count (senal p) = (\<lambda>_. 0) \<and>
          disposicion (senal p) = (\<lambda>_. SIG_DFL)(SIGINT := De_sigint_handler)
      | Sirviendo c \<Rightarrow> esperando c \<and>
          registration_count (senal p) = (\<lambda>_. 0)(SIGINT := 1, SIGTERM := 1) \<and>
          disposicion (senal p) = (\<lambda>_. SIG_DFL)(SIGINT := Asio_signal_handler, SIGTERM := Asio_signal_handler)
      | Acabado \<Rightarrow> disposicion (senal p) = (\<lambda>_. SIG_DFL))"

definition proceso_inv :: "proceso \<Rightarrow> bool" where
  "proceso_inv p \<longleftrightarrow> almacen_ok (almacen (zmq_srv p)) \<and> senal_inv p"

lemmas senal_const = SIGINT_def SIGTERM_def crow_signals_def max_signal_number_def

lemma signal_add_crow:
  assumes "registration_count st = (\<lambda>_. 0)"
  shows "signal_add_todas construct_set crow_signals st =
    Inr (\<lparr>signals = [(SIGINT, 0), (SIGTERM, 0)], queue = []\<rparr>,
      st\<lparr>registration_count := (\<lambda>_. 0)(SIGINT := 1, SIGTERM := 1),
        disposicion := (disposicion st)(SIGINT := Asio_signal_handler, SIGTERM := Asio_signal_handler),
        flags_senal := (flags_senal st)(SIGINT := dont_care, SIGTERM := dont_care)\<rparr>)"
  using assms by (cases st) (simp add: senal_const construct_set_def add_senal_def Let_def)

lemma crow_run_sirve:
  assumes "senal_inv p" "hilo p = Arrancando"
  shows "\<exists>st. crow_run p =
      p\<lparr>senal := st, hilo := Sirviendo \<lparr>signals = [(SIGINT, 0), (SIGTERM, 0)], queue = [0]\<rparr>\<rparr> \<and>
    senal_inv (crow_run p)"
proof -
  have st: "registration_count (senal p) = (\<lambda>_. 0)"
    "disposicion (senal p) = (\<lambda>_. SIG_DFL)(SIGINT := De_sigint_handler)"
    using assms by (simp_all add: senal_inv_def)
  have "crow_run p = p\<lparr>senal := (senal p)\<lparr>registration_count := (\<lambda>_. 0)(SIGINT := 1, SIGTERM := 1),
        disposicion := (disposicion (senal p))(SIGINT := Asio_signal_handler, SIGTERM := Asio_signal_handler),
        flags_senal := (flags_senal (senal p))(SIGINT := dont_care, SIGTERM := dont_care)\<rparr>,
      hilo := Sirviendo \<lparr>signals = [(SIGINT, 0), (SIGTERM, 0)], queue = [0]\<rparr>\<rparr>"
    by (simp add: crow_run_def signal_add_crow [OF st(1)] start_wait_op_def)
  then show ?thesis
    by (intro exI conjI) (assumption, simp add: senal_inv_def esperando_def crow_signals_def st(2))
qed

lemma destruye_crow:
  assumes "esperando c" "registration_count st = (\<lambda>_. 0)(SIGINT := 1, SIGTERM := 1)"
    "disposicion st = (\<lambda>_. SIG_DFL)(SIGINT := Asio_signal_handler, SIGTERM := Asio_signal_handler)"
  shows "disposicion (snd (destroy_set True (c\<lparr>queue := q\<rparr>) st)) = (\<lambda>_. SIG_DFL)"
proof -
  obtain u v where "signals c = [(SIGINT, u), (SIGTERM, v)]"
    using assms(1) by (auto simp: esperando_def crow_signals_def)
  then show ?thesis
    using assms(2,3)
    by (auto simp: destroy_set_def clear_senales_def suelta_senal_def Let_def SIGINT_def SIGTERM_def)
qed

lemma crow_fin_inv:
  assumes "senal_inv p" "hilo p = Sirviendo c"
  shows "senal_inv (crow_fin (c\<lparr>queue := q\<rparr>) p)"
  using assms destruye_crow [of c "senal p" q] by (simp add: senal_inv_def crow_fin_def)

text \<open>Once Crow has started, a signal never reaches \<^verbatim>\<open>sigint_handler\<close>, and one of Crow's signals stops it.\<close>

lemma llega_senal_crow:
  assumes "senal_inv p" "hilo p = Sirviendo c" "n \<in> set crow_signals"
  shows "llega_senal abierto en_main n p =
    crow_fin (c\<lparr>queue := []\<rparr>)
      (if en_main \<and> vivo (zmq_srv p) then p\<lparr>zmq_srv := (zmq_srv p)\<lparr>punto := Terminado (Sin_capturar (Zmq_error eintr))\<rparr>\<rparr> else p)"
proof -
  have "esperando c" and "disposicion (senal p) n = Asio_signal_handler"
    using assms by (auto simp: senal_inv_def crow_signals_def)
  moreover from this have "fst ` set (signals c) = set crow_signals" "queue c = [0]"
    by (auto simp: esperando_def simp flip: set_map)
  ultimately show ?thesis
    using assms(2,3) by (simp add: llega_senal_def deliver_signal_def entrega_a_def Let_def)
qed

lemma llega_senal_otra:
  assumes "senal_inv p" "hilo p = Sirviendo c" "n \<notin> set crow_signals"
  shows "llega_senal abierto en_main n p = p\<lparr>zmq_srv := (zmq_srv p)\<lparr>punto := Terminado (Por_senal n)\<rparr>\<rparr>"
  using assms by (auto simp: senal_inv_def llega_senal_def crow_signals_def)

lemma senal_inv_zmq [simp]: "senal_inv (p\<lparr>zmq_srv := s\<rparr>) = senal_inv p" "senal_inv (p\<lparr>disco_p := d\<rparr>) = senal_inv p"
  "senal_inv (p\<lparr>fase := f\<rparr>) = senal_inv p"
  by (simp_all add: senal_inv_def split: hilo_crow.split)

lemma llega_senal_inv: "senal_inv p \<Longrightarrow> senal_inv (llega_senal abierto en_main n p)"
proof (cases "hilo p")
  case (Sirviendo c)
  assume "senal_inv p"
  with Sirviendo show ?thesis
    by (cases "n \<in> set crow_signals")
      (simp_all add: llega_senal_crow llega_senal_otra crow_fin_inv)
qed (auto simp: senal_inv_def llega_senal_def Let_def sigint_handler_def)

lemma almacen_llega_senal: "almacen (zmq_srv (llega_senal abierto en_main n p)) = almacen (zmq_srv p)"
  by (auto simp: llega_senal_def sigint_handler_def crow_fin_def Let_def
      split: manejador_senal.split hilo_crow.split list.split prod.split)

lemma peticion_web_simps [simp]:
  "hilo (peticion_web ruta p) = hilo p" "senal (peticion_web ruta p) = senal p"
  "disco_p (peticion_web ruta p) = disco_p p"
  by (auto simp: peticion_web_def split: sum.split prod.split)

lemma senal_inv_peticion_web [simp]: "senal_inv (peticion_web ruta p) = senal_inv p"
  by (simp add: senal_inv_def split: hilo_crow.split)

lemma peticion_web_inv:
  assumes "proceso_inv p" "\<And>alm r alm'. almacen_ok alm \<Longrightarrow> ruta alm = Inr (r, alm') \<Longrightarrow> almacen_ok alm'"
  shows "proceso_inv (peticion_web ruta p)"
proof -
  have "almacen_ok (almacen (zmq_srv (peticion_web ruta p)))"
    using assms unfolding proceso_inv_def peticion_web_def by (auto split: sum.split prod.split)
  with assms(1) show ?thesis by (simp add: proceso_inv_def)
qed

lemma rutas_inv:
  "almacen_ok alm \<Longrightarrow> ruta_guardar body alm = Inr (r, alm') \<Longrightarrow> almacen_ok alm'"
  "almacen_ok alm \<Longrightarrow> ruta_agregar_fichero f ip p alm = Inr (r', alm') \<Longrightarrow> almacen_ok alm'"
  by (auto simp: ruta_guardar_def ruta_agregar_fichero_def Let_def bindE_eq_Inr_iff
      split: if_splits intro: agregar_cliente_invariante)

lemma paso_proceso_inv:
  assumes "paso_proceso lr ls p q" "proceso_inv p"
  shows "proceso_inv q"
  using assms
proof cases
  case (mensaje m)
  with assms(2) show ?thesis by (simp add: proceso_inv_def paso_almacen_ok)
next
  case restaurar
  with assms(2) show ?thesis by (simp add: proceso_inv_def restaura_def inicio_almacen_ok)
next
  case lanzar
  with assms(2) show ?thesis by (simp add: proceso_inv_def lanza_hilo_def)
next
  case sale
  with assms(2) show ?thesis by (simp add: proceso_inv_def vuelve_join_def)
next
  case arranca
  with assms(2) crow_run_sirve [of p] show ?thesis by (auto simp: proceso_inv_def)
next
  case (guardar c body)
  with assms(2) show ?thesis by (auto intro: peticion_web_inv rutas_inv(1))
next
  case (agregar c f ip puerto)
  with assms(2) show ?thesis by (auto intro: peticion_web_inv rutas_inv(2))
next
  case (senal abierto en_main n)
  with assms(2) show ?thesis by (simp add: proceso_inv_def llega_senal_inv almacen_llega_senal)
qed

lemma inicio_proceso_inv: "proceso_inv (inicio_proceso d)"
  by (simp add: proceso_inv_def inicio_proceso_def senal_inv_def almacen_ok_vacio estado_inicial_senales_def)

interpretation proc: maquina "\<lambda>p. \<exists>d. p = inicio_proceso d" "paso_proceso lr ls" proceso_inv for lr ls
  by unfold_locales (auto intro: inicio_proceso_inv paso_proceso_inv)

subsection \<open>Properties of the process\<close>

text \<open>C25. Whatever the order of the start-up, requests, web forms, signals in any thread and the start and end of
  the web server, also while \<^verbatim>\<open>main\<close> waits in its SIGINT handler, the store of the process satisfies its
  invariant in every reachable state.\<close>

theorem proceso_almacen_ok:
  assumes "alcanzable (\<lambda>p. \<exists>d. p = inicio_proceso d) (paso_proceso lr ls) p"
  shows "almacen_ok (almacen (zmq_srv p))"
  using proc.inv_alcanzable [OF assms] by (simp add: proceso_inv_def)

lemma inicio_alcanzable: "alcanzable (\<lambda>p. \<exists>d. p = inicio_proceso d) (paso_proceso lr ls) (inicio_proceso d)"
  by (rule alcanzable.inicio) blast

lemmas fases_simps = inicio_proceso_def restaura_def lanza_hilo_def inicio_servidor_def existe_def vivo_def

text \<open>Some steps as rules of reachability.\<close>

lemma alcanza_crow:
  assumes "alcanzable I (paso_proceso lr ls) p" "existe p" "fase p = En_bucle" "hilo p = Arrancando"
  shows "alcanzable I (paso_proceso lr ls) (crow_run p)"
  by (rule alcanzable.avanza [of I "paso_proceso lr ls" p, OF assms(1)]) (rule paso_proceso.arranca, fact+)

lemma alcanza_guardar:
  assumes "alcanzable I (paso_proceso lr ls) p" "existe p" "hilo p = Sirviendo c"
  shows "alcanzable I (paso_proceso lr ls) (peticion_web (ruta_guardar b) p)"
  by (rule alcanzable.avanza [of I "paso_proceso lr ls" p, OF assms(1)]) (rule paso_proceso.guardar, fact+)

lemma alcanza_senal:
  assumes "alcanzable I (paso_proceso lr ls) p" "existe p"
  shows "alcanzable I (paso_proceso lr ls) (llega_senal ab m n p)"
  by (rule alcanzable.avanza [of I "paso_proceso lr ls" p, OF assms(1)]) (rule paso_proceso.senal, fact)

text \<open>The process at the beginning of the loop.\<close>

abbreviation en_marcha :: "disco \<Rightarrow> proceso" where
  "en_marcha d \<equiv> lanza_hilo (restaura (inicio_proceso d))"

lemma en_marcha_alcanzable: "alcanzable (\<lambda>p. \<exists>d. p = inicio_proceso d) (paso_proceso lr ls) (en_marcha d)"
  by (rule alcanzable.avanza [OF alcanzable.avanza [OF inicio_alcanzable paso_proceso.restaurar] paso_proceso.lanzar])
    (simp_all add: fases_simps)

lemma crow_alcanzable: "alcanzable (\<lambda>p. \<exists>d. p = inicio_proceso d) (paso_proceso lr ls) (crow_run (en_marcha d))"
  by (rule alcanza_crow [OF en_marcha_alcanzable]) (simp_all add: fases_simps)

lemma en_marcha_simps: "senal_inv (en_marcha d)" "hilo (en_marcha d) = Arrancando" "fase (en_marcha d) = En_bucle"
  "punto (zmq_srv (en_marcha d)) = Espera_peticion"
  by (simp_all add: fases_simps senal_inv_def estado_inicial_senales_def)

text \<open>SIGINT before Crow has started: the store is saved, the web server starts all the same and takes forms.\<close>

abbreviation tras_sigint :: "disco \<Rightarrow> proceso" where
  "tras_sigint d \<equiv> llega_senal True True SIGINT (en_marcha d)"

lemma tras_sigint_simps:
  "senal_inv (tras_sigint d)" "hilo (tras_sigint d) = Arrancando" "fase (tras_sigint d) = En_bucle"
  "punto (zmq_srv (tras_sigint d)) = Espera_crow"
  using llega_senal_inv [OF en_marcha_simps(1), of True True SIGINT d]
  by (simp_all add: fases_simps llega_senal_def sigint_handler_def join_crow_def)

lemma sirve_tras_sigint: "\<exists>c. hilo (crow_run (tras_sigint d)) = Sirviendo c" "existe (crow_run (tras_sigint d))"
proof -
  obtain st where "crow_run (tras_sigint d) =
      (tras_sigint d)\<lparr>senal := st, hilo := Sirviendo \<lparr>signals = [(SIGINT, 0), (SIGTERM, 0)], queue = [0]\<rparr>\<rparr>"
    using crow_run_sirve [OF tras_sigint_simps(1,2), of d] by blast
  then show "\<exists>c. hilo (crow_run (tras_sigint d)) = Sirviendo c" "existe (crow_run (tras_sigint d))"
    by (simp_all add: existe_def tras_sigint_simps)
qed

theorem proceso_almacen_ok_testigo:
  "almacen_ok (almacen (zmq_srv (peticion_web (ruta_guardar ''nombre_fichero=f&ip=1.2.3.4&puerto=80'')
     (crow_run (tras_sigint [fichero_backup \<mapsto> ''a 1 2''])))))"
proof (rule proceso_almacen_ok [of recv_ejemplo send_ejemplo])
  let ?d = "[fichero_backup \<mapsto> ''a 1 2'']"
  obtain c where c: "hilo (crow_run (tras_sigint ?d)) = Sirviendo c" using sirve_tras_sigint(1) by blast
  have "alcanzable (\<lambda>p. \<exists>d. p = inicio_proceso d) (paso_proceso recv_ejemplo send_ejemplo) (tras_sigint ?d)"
    by (rule alcanza_senal [OF en_marcha_alcanzable]) (simp add: existe_def en_marcha_simps)
  from alcanza_crow [OF this]
  have "alcanzable (\<lambda>p. \<exists>d. p = inicio_proceso d) (paso_proceso recv_ejemplo send_ejemplo) (crow_run (tras_sigint ?d))"
    by (simp add: existe_def tras_sigint_simps)
  from alcanza_guardar [OF this sirve_tras_sigint(2) c] show "alcanzable (\<lambda>p. \<exists>d. p = inicio_proceso d) (paso_proceso recv_ejemplo send_ejemplo)
      (peticion_web (ruta_guardar ''nombre_fichero=f&ip=1.2.3.4&puerto=80'') (crow_run (tras_sigint ?d)))" .
qed

lemma disco_llega_senal:
  assumes "senal_inv p" "hilo p \<noteq> Arrancando"
  shows "disco_p (llega_senal abierto en_main n p) = disco_p p"
  using assms by (cases "hilo p")
    (auto simp: senal_inv_def llega_senal_def crow_fin_def Let_def split: manejador_senal.split list.split prod.split)

lemma hilo_llega_senal:
  assumes "senal_inv p" "hilo p \<noteq> Arrancando"
  shows "hilo (llega_senal abierto en_main n p) \<noteq> Arrancando"
  using assms by (cases "hilo p")
    (auto simp: senal_inv_def llega_senal_def crow_fin_def Let_def split: manejador_senal.split list.split prod.split)

lemma paso_tras_crow:
  assumes "paso_proceso lr ls p q" "proceso_inv p" "hilo p \<noteq> Arrancando"
  shows "disco_p q = disco_p p \<and> hilo q \<noteq> Arrancando"
  using assms(1)
proof cases
  case (senal abierto en_main n)
  with assms(2,3) show ?thesis by (simp add: proceso_inv_def disco_llega_senal hilo_llega_senal)
qed (use assms(3) in \<open>auto simp: restaura_def lanza_hilo_def vuelve_join_def\<close>)

text \<open>C8. Once the web server has started, nothing saves the store any more: Crow replaces the handler that
  \<^verbatim>\<open>main\<close> installed for SIGINT, so from every reachable state in which Crow has started no sequence
  of requests and signals changes the disk.\<close>

theorem nada_se_guarda_tras_crow:
  assumes "alcanzable (\<lambda>p. \<exists>d. p = inicio_proceso d) (paso_proceso lr ls) p" "hilo p \<noteq> Arrancando"
    and "(paso_proceso lr ls)\<^sup>*\<^sup>* p q"
  shows "disco_p q = disco_p p"
proof -
  have inv: "proceso_inv p" by (rule proc.inv_alcanzable [OF assms(1)])
  have "disco_p q = disco_p p \<and> hilo q \<noteq> Arrancando \<and> proceso_inv q"
    using assms(3)
  proof (induction rule: rtranclp_induct)
    case base
    with inv assms(2) show ?case by blast
  next
    case (step y z)
    then show ?case using paso_tras_crow [of lr ls y z] paso_proceso_inv [of lr ls y z] by simp
  qed
  then show ?thesis by blast
qed

theorem nada_se_guarda_tras_crow_testigo:
  "disco_p (llega_senal True False SIGINT (crow_run (tras_sigint Map.empty))) = disco_p (crow_run (tras_sigint Map.empty))"
proof (rule nada_se_guarda_tras_crow)
  let ?p = "tras_sigint Map.empty"
  have "alcanzable (\<lambda>p. \<exists>d. p = inicio_proceso d) (paso_proceso recv_ejemplo send_ejemplo) ?p"
    by (rule alcanza_senal [OF en_marcha_alcanzable]) (simp add: existe_def en_marcha_simps)
  from alcanza_crow [OF this]
  show "alcanzable (\<lambda>p. \<exists>d. p = inicio_proceso d) (paso_proceso recv_ejemplo send_ejemplo) (crow_run ?p)"
    by (simp add: existe_def tras_sigint_simps)
  show "hilo (crow_run ?p) \<noteq> Arrancando" using sirve_tras_sigint(1) [of Map.empty] by force
  show "(paso_proceso recv_ejemplo send_ejemplo)\<^sup>*\<^sup>* (crow_run ?p) (llega_senal True False SIGINT (crow_run ?p))"
    by (intro r_into_rtranclp paso_proceso.senal sirve_tras_sigint(2))
qed

text \<open>Before the web server has started SIGINT does save: the handler of \<^verbatim>\<open>main\<close> writes the store to the
  backup file. In the main thread in its loop it then waits for the web thread instead of leaving; in the web
  thread, in a main thread that waits already and before the thread is started, the join ends the process.\<close>

lemma sigint_antes_de_crow_guarda:
  assumes "alcanzable (\<lambda>p. \<exists>d. p = inicio_proceso d) (paso_proceso lr ls) p" "hilo p = Arrancando"
  shows "disco_p (llega_senal True en_main SIGINT p) =
      snd (salvar_datos True fichero_backup (almacen (zmq_srv p)) (disco_p p)) \<and>
    punto (zmq_srv (llega_senal True en_main SIGINT p)) =
      (if fase p = En_bucle \<and> en_main \<and> punto (zmq_srv p) \<noteq> Espera_crow then Espera_crow
       else Terminado (Sin_capturar System_error))"
  using proc.inv_alcanzable [OF assms(1)] assms(2)
  by (simp add: proceso_inv_def senal_inv_def llega_senal_def sigint_handler_def join_crow_def)

text \<open>A SIGINT before the backup has been read overwrites it with the empty store.\<close>

lemma sigint_antes_de_restaurar_borra:
  "disco_p (llega_senal True en_main SIGINT (inicio_proceso d)) = d(fichero_backup \<mapsto> [])"
  by (simp add: inicio_proceso_def llega_senal_def sigint_handler_def salvar_datos_def almacen_vacio_def)

end
