(* ===== verification/Trie.thy ===== *)
theory Trie
  imports Cadenas
begin

text \<open>
  The search tree of Crow's router, class \<^verbatim>\<open>Trie\<close> of \<^verbatim>\<open>includes/crow_all.h\<close>: insertion of URL patterns,
  the compression of chains, and the search with its parameters. \<^verbatim>\<open>strtod\<close> is an argument of the
  search (the routes of the program have no floating-point parameter); it gives the value and the
  number of characters, \<open>None\<close> for no conversion or a range error.
\<close>

subsection \<open>Nodes\<close>

datatype ParamType = P_INT | P_UINT | P_DOUBLE | P_STRING | P_PATH | P_MAX

definition INVALID_BP_ID :: uint16 where
  "INVALID_BP_ID = - 1"

datatype Node = Node (rule_index: uint16) (blueprint_index: uint16) (key: string) (param: ParamType) (children: "Node list")

definition nodo_nuevo :: Node where
  "nodo_nuevo = Node 0 INVALID_BP_ID [] P_MAX []"

definition IsSimpleNode :: "Node \<Rightarrow> bool" where
  "IsSimpleNode n \<longleftrightarrow>
     rule_index n = 0 \<and> blueprint_index n = INVALID_BP_ID \<and> length (children n) < 2 \<and>
     param n = P_MAX \<and> list_all (\<lambda>x. param x = P_MAX) (children n)"

fun nodos :: "Node \<Rightarrow> nat" where
  "nodos (Node ri bi k pa cs) = Suc (sum_list (map nodos cs))"

subsection \<open>Insertion\<close>

definition paramTraits :: "(ParamType \<times> string) list" where
  "paramTraits =
     [(P_INT, ''<int>''), (P_UINT, ''<uint>''), (P_DOUBLE, ''<float>''), (P_DOUBLE, ''<double>''),
      (P_STRING, ''<str>''), (P_STRING, ''<string>''), (P_PATH, ''<path>'')]"

text \<open>\<^verbatim>\<open>url.compare(i, n, name) == 0\<close> on what is left of the URL.\<close>

definition empieza :: "string \<Rightarrow> string \<Rightarrow> bool" where
  "empieza w s \<longleftrightarrow> take (length w) s = w"

definition traza_param :: "string \<Rightarrow> (ParamType \<times> string) option" where
  "traza_param resto = find (\<lambda>x. empieza (snd x) resto) paramTraits"

fun primero :: "('a \<Rightarrow> bool) \<Rightarrow> 'a list \<Rightarrow> nat option" where
  "primero P [] = None"
| "primero P (x # xs) = (if P x then Some 0 else map_option Suc (primero P xs))"

text \<open>\<^verbatim>\<open>key[0]\<close>: on an empty string the terminating null character.\<close>

definition car0 :: "string \<Rightarrow> char" where
  "car0 k = (case k of [] \<Rightarrow> CHR 0x00 | c # _ \<Rightarrow> c)"

text \<open>
  The loop of \<^verbatim>\<open>add\<close> follows a pointer down the tree. \<open>No_termina\<close>: at a \<^verbatim>\<open><\<close> that starts none of the known
  parameters the index is decremented and incremented for ever.
\<close>

datatype add_fallo = Ya_existe | No_termina

lemma traza_param_no_vacia: "traza_param resto = Some (ty, name) \<Longrightarrow> name \<noteq> []"
  unfolding traza_param_def paramTraits_def by (auto split: if_splits)

lemma traza_param_decrece:
  "traza_param (c # s) = Some (ty, name) \<Longrightarrow> Suc (length s) - length name < Suc (length s)"
  using traza_param_no_vacia [of "c # s" ty name] by (cases name) auto

function add_desde :: "uint16 \<Rightarrow> bool \<Rightarrow> nat \<Rightarrow> uint16 \<Rightarrow> nat \<Rightarrow> string \<Rightarrow> Node \<Rightarrow> add_fallo + Node" where
  "add_desde ri con_bp largo_bp bp i [] (Node r b k pa cs) =
     (if r \<noteq> 0 then Inl Ya_existe else Inr (Node ri b k pa cs))"
| "add_desde ri con_bp largo_bp bp i (c # s) (Node r b k pa cs) =
     (if c = CHR ''<'' then
        (case traza_param (c # s) of
           None \<Rightarrow> Inl No_termina
         | Some (ty, name) \<Rightarrow>
             let resto = drop (length name) (c # s); i' = i + length name in
             (case primero (\<lambda>h. param h = ty) cs of
                Some j \<Rightarrow>
                  map_sum id (\<lambda>h. Node r b k pa (cs[j := h])) (add_desde ri con_bp largo_bp bp i' resto (cs ! j))
              | None \<Rightarrow>
                  map_sum id (\<lambda>h. Node r b k pa (cs @ [h]))
                    (add_desde ri con_bp largo_bp bp i' resto (Node 0 INVALID_BP_ID [] ty []))))
      else
        (case primero (\<lambda>h. car0 (key h) = c) cs of
           Some j \<Rightarrow> map_sum id (\<lambda>h. Node r b k pa (cs[j := h])) (add_desde ri con_bp largo_bp bp (i + 1) s (cs ! j))
         | None \<Rightarrow>
             map_sum id (\<lambda>h. Node r b k pa (cs @ [h]))
               (add_desde ri con_bp largo_bp bp (i + 1) s
                 (Node 0 (if con_bp \<and> i = largo_bp then bp else INVALID_BP_ID) [c] P_MAX []))))"
  by pat_completeness auto
termination
  by (relation "measure (\<lambda>(ri, cb, l, bp, i, s, n). length s)") (auto dest: traza_param_decrece)

definition add_url :: "string \<Rightarrow> uint16 \<Rightarrow> nat \<Rightarrow> uint16 \<Rightarrow> Node \<Rightarrow> add_fallo + Node" where
  "add_url url ri bp_prefix_length bp head =
     add_desde ri (bp_prefix_length \<noteq> 0 \<and> bp \<noteq> INVALID_BP_ID) bp_prefix_length bp 0 url head"

subsection \<open>Compression\<close>

lemma nodos_pos: "0 < nodos n"
  by (cases n) simp

lemma nodos_hijo: "c \<in> set cs \<Longrightarrow> nodos c \<le> sum_list (map nodos cs)"
  by (simp add: member_le_sum_list)

function optimizeNode :: "Node \<Rightarrow> Node" where
  "optimizeNode (Node ri bi k pa cs) =
     (if cs = [] then Node ri bi k pa cs
      else if IsSimpleNode (Node ri bi k pa cs) then
        (case hd cs of Node ri' bi' k' pa' cs' \<Rightarrow> optimizeNode (Node ri' bi' (k @ k') pa cs'))
      else Node ri bi k pa (map optimizeNode cs))"
  by pat_completeness auto
termination
proof (relation "measure nodos", goal_cases)
  case (2 ri bi k pa cs ri' bi' k' pa' cs')
  have "nodos (hd cs) \<le> sum_list (map nodos cs)" using 2(1) by (intro nodos_hijo hd_in_set)
  with 2 show ?case by simp
next
  case (3 ri bi k pa cs c)
  then show ?case using nodos_hijo [of c cs] by simp
qed simp

declare optimizeNode.simps [simp del]

definition optimize :: "Node \<Rightarrow> Node" where
  "optimize head = Node (rule_index head) (blueprint_index head) (key head) (param head) (map optimizeNode (children head))"

definition is_empty :: "Node \<Rightarrow> bool" where
  "is_empty head \<longleftrightarrow> children head = []"

text \<open>\<^verbatim>\<open>validate\<close> throws when the root is not simple (\<open>None\<close>).\<close>

definition validate :: "Node \<Rightarrow> Node option" where
  "validate head = (if IsSimpleNode head then Some (optimize head) else None)"

subsection \<open>Search\<close>

record 'd routing_params =
  int_params :: "int list"
  uint_params :: "nat list"
  double_params :: "'d list"
  string_params :: "string list"

definition sin_params :: "'d routing_params" where
  "sin_params = \<lparr>int_params = [], uint_params = [], double_params = [], string_params = []\<rparr>"

text \<open>
  \<^verbatim>\<open>strtoll\<close> and \<^verbatim>\<open>strtoull\<close> in base 10: the value and the number of characters read, \<open>None\<close> when nothing was
  read or the value is out of range (the callers look at \<^verbatim>\<open>errno\<close> and at the end pointer).
\<close>

definition strtoll :: "string \<Rightarrow> (int \<times> nat) option" where
  "strtoll s =
     (let (sg, r) = signo (salta_espacios s);
          ds = takeWhile es_digito r;
          v = sg * int (valor_decimal ds)
      in if ds = [] \<or> v < - (2 ^ 63) \<or> 2 ^ 63 - 1 < v then None
         else Some (v, length s - length r + length ds))"

definition strtoull :: "string \<Rightarrow> (nat \<times> nat) option" where
  "strtoull s =
     (let (sg, r) = signo (salta_espacios s);
          ds = takeWhile es_digito r;
          v = valor_decimal ds
      in if ds = [] \<or> 2 ^ 64 - 1 < v then None
         else Some (if sg = 1 then v else (2 ^ 64 - v) mod 2 ^ 64, length s - length r + length ds))"

text \<open>
  What one child takes from the URL at \<open>pos\<close>: the position behind it and the parameters with the new
  one pushed, or nothing.
\<close>

definition consume_param ::
    "(string \<Rightarrow> ('d \<times> nat) option) \<Rightarrow> string \<Rightarrow> nat \<Rightarrow> Node \<Rightarrow> 'd routing_params \<Rightarrow> (nat \<times> 'd routing_params) option" where
  "consume_param strtod req_url pos hijo ps =
     (let resto = drop pos req_url; c = hd resto in
      case param hijo of
        P_INT \<Rightarrow>
          if es_digito c \<or> c = CHR ''+'' \<or> c = CHR ''-'' then
            map_option (\<lambda>(v, n). (pos + n, ps\<lparr>int_params := int_params ps @ [v]\<rparr>)) (strtoll resto)
          else None
      | P_UINT \<Rightarrow>
          if es_digito c \<or> c = CHR ''+'' then
            map_option (\<lambda>(v, n). (pos + n, ps\<lparr>uint_params := uint_params ps @ [v]\<rparr>)) (strtoull resto)
          else None
      | P_DOUBLE \<Rightarrow>
          if es_digito c \<or> c = CHR ''+'' \<or> c = CHR ''-'' \<or> c = CHR ''.'' then
            map_option (\<lambda>(v, n). (pos + n, ps\<lparr>double_params := double_params ps @ [v]\<rparr>)) (strtod resto)
          else None
      | P_STRING \<Rightarrow>
          let w = takeWhile (\<lambda>c. c \<noteq> CHR ''/'') resto in
          if w \<noteq> [] then Some (pos + length w, ps\<lparr>string_params := string_params ps @ [w]\<rparr>) else None
      | P_PATH \<Rightarrow>
          if resto \<noteq> [] then Some (length req_url, ps\<lparr>string_params := string_params ps @ [resto]\<rparr>) else None
      | P_MAX \<Rightarrow>
          if empieza (key hijo) resto then Some (pos + length (key hijo), ps) else None)"

text \<open>
  The search. The vector of blueprints is shared by all recursive calls and threaded here; at the
  end of the URL it is moved out before it is copied into the result, so the result gets an empty
  one. The accumulator of the loop over the children is the index, the blueprints and the parameters
  found so far, and whether some child matched.
\<close>

type_synonym 'd hallado = "uint16 \<times> uint16 list \<times> 'd routing_params"

definition update_found :: "'d hallado \<Rightarrow> 'd hallado \<Rightarrow> 'd hallado" where
  "update_found ret acc =
     (case ret of (ri, bps, ps) \<Rightarrow> case acc of (found, found_BP, match_params) \<Rightarrow>
        if ri \<noteq> 0 \<and> (found = 0 \<or> ri < found) then (ri, bps, ps) else (found, bps, match_params))"

fun find_nodo ::
      "(string \<Rightarrow> ('d \<times> nat) option) \<Rightarrow> string \<Rightarrow> Node \<Rightarrow> nat \<Rightarrow> 'd routing_params \<Rightarrow> uint16 list \<Rightarrow> 'd hallado \<times> uint16 list"
  and find_hijos ::
      "(string \<Rightarrow> ('d \<times> nat) option) \<Rightarrow> string \<Rightarrow> Node list \<Rightarrow> nat \<Rightarrow> 'd routing_params \<Rightarrow> uint16 list \<Rightarrow>
       'd hallado \<Rightarrow> bool \<Rightarrow> ('d hallado \<times> bool) \<times> uint16 list" where
  "find_nodo sd req_url (Node ri bi k pa cs) pos ps bps =
     (if pos = length req_url then ((ri, [], ps), [])
      else case find_hijos sd req_url cs pos ps bps (0, [], sin_params) False of
        (((found, found_BP, match_params), found_fragment), bps') \<Rightarrow>
          if found_fragment then ((found, found_BP, match_params), bps')
          else ((found, bps', match_params), []))"
| "find_hijos sd req_url [] pos ps bps acc frag = ((acc, frag), bps)"
| "find_hijos sd req_url (c # cs) pos ps bps acc frag =
     (case consume_param sd req_url pos c ps of
        None \<Rightarrow> find_hijos sd req_url cs pos ps bps acc frag
      | Some (epos, ps') \<Rightarrow>
          let bps1 = (if blueprint_index c \<noteq> INVALID_BP_ID then bps @ [blueprint_index c] else bps) in
          (case find_nodo sd req_url c epos ps' bps1 of
             (ret, bps2) \<Rightarrow> find_hijos sd req_url cs pos ps (butlast bps2) (update_found ret acc) True))"

definition find_url :: "(string \<Rightarrow> ('d \<times> nat) option) \<Rightarrow> string \<Rightarrow> Node \<Rightarrow> 'd hallado" where
  "find_url sd req_url head = fst (find_nodo sd req_url head 0 sin_params [])"

subsection \<open>Reference: matching one pattern at a time\<close>

type_synonym elem = "ParamType \<times> string"

definition elem_de :: "Node \<Rightarrow> elem" where
  "elem_de n = (param n, if param n = P_MAX then key n else [])"

text \<open>The patterns of a tree with their rules, and the matching of one pattern.\<close>

fun rutas :: "Node \<Rightarrow> (elem list \<times> uint16) list" where
  "rutas (Node ri bi k pa cs) = ([], ri) # concat (map (\<lambda>c. map (apfst (Cons (elem_de c))) (rutas c)) cs)"

definition consume_elem ::
    "(string \<Rightarrow> ('d \<times> nat) option) \<Rightarrow> string \<Rightarrow> nat \<Rightarrow> elem \<Rightarrow> 'd routing_params \<Rightarrow> (nat \<times> 'd routing_params) option" where
  "consume_elem sd url pos e ps = consume_param sd url pos (Node 0 INVALID_BP_ID (snd e) (fst e) []) ps"

fun casa :: "(string \<Rightarrow> ('d \<times> nat) option) \<Rightarrow> string \<Rightarrow> nat \<Rightarrow> 'd routing_params \<Rightarrow> elem list \<Rightarrow> 'd routing_params option" where
  "casa sd url pos ps [] = (if pos = length url then Some ps else None)"
| "casa sd url pos ps (e # es) =
     (if pos = length url then None
      else case consume_elem sd url pos e ps of
        None \<Rightarrow> None
      | Some (pos', ps') \<Rightarrow> casa sd url pos' ps' es)"

lemma consume_elem_de: "consume_param sd url pos c ps = consume_elem sd url pos (elem_de c) ps"
  by (simp add: consume_elem_def consume_param_def elem_de_def Let_def split: ParamType.split)

text \<open>The rules of the patterns that match, each with its parameters; the search gives one of least index.\<close>

definition casan ::
    "(string \<Rightarrow> ('d \<times> nat) option) \<Rightarrow> string \<Rightarrow> nat \<Rightarrow> 'd routing_params \<Rightarrow> (elem list \<times> uint16) set \<Rightarrow> (uint16 \<times> 'd routing_params) set" where
  "casan sd url pos ps R = {(r, ps'). r \<noteq> 0 \<and> (\<exists>es. (es, r) \<in> R \<and> casa sd url pos ps es = Some ps')}"

definition es_menor :: "(uint16 \<times> 'a) set \<Rightarrow> uint16 \<Rightarrow> 'a \<Rightarrow> bool" where
  "es_menor S r ps \<longleftrightarrow> (if r = 0 then S = {} else (r, ps) \<in> S \<and> (\<forall>(r', ps') \<in> S. r \<le> r'))"

fun sin_bp :: "Node \<Rightarrow> bool" where
  "sin_bp (Node ri bi k pa cs) = (bi = INVALID_BP_ID \<and> list_all sin_bp cs)"

lemma es_menor_union:
  assumes "es_menor S r ps" "es_menor S' r' ps'"
  shows "es_menor (S \<union> S') (if r \<noteq> 0 \<and> (r' = 0 \<or> r < r') then r else r')
    (if r \<noteq> 0 \<and> (r' = 0 \<or> r < r') then ps else ps')"
  using assms unfolding es_menor_def by (auto split: if_splits prod.splits)

lemma casan_Un: "casan sd url pos ps (A \<union> B) = casan sd url pos ps A \<union> casan sd url pos ps B"
  by (auto simp: casan_def)

lemma casan_UN: "casan sd url pos ps (\<Union>c \<in> C. F c) = (\<Union>c \<in> C. casan sd url pos ps (F c))"
  by (auto simp: casan_def)

lemma casan_raiz:
  "casan sd url pos ps {([], ri)} = (if pos = length url \<and> ri \<noteq> 0 then {(ri, ps)} else {})"
  by (auto simp: casan_def)

text \<open>The rules below one child.\<close>

definition casan_hijo ::
    "(string \<Rightarrow> ('d \<times> nat) option) \<Rightarrow> string \<Rightarrow> nat \<Rightarrow> 'd routing_params \<Rightarrow> Node \<Rightarrow> (uint16 \<times> 'd routing_params) set" where
  "casan_hijo sd url pos ps c =
     (case consume_param sd url pos c ps of
        None \<Rightarrow> {}
      | Some (pos', ps') \<Rightarrow> casan sd url pos' ps' (set (rutas c)))"

lemma casan_Cons:
  "casan sd url pos ps (apfst (Cons (elem_de c)) ` set (rutas c)) =
     (if pos = length url then {} else casan_hijo sd url pos ps c)"
proof -
  have "(es, r) \<in> apfst (Cons (elem_de c)) ` R \<longleftrightarrow> (\<exists>es'. es = elem_de c # es' \<and> (es', r) \<in> R)"
    for es r and R :: "(elem list \<times> uint16) set" by force
  then show ?thesis
    unfolding casan_def casan_hijo_def consume_elem_de
    by (cases "consume_elem sd url pos (elem_de c) ps") (auto split: prod.splits)
qed

lemma casan_nodo:
  "casan sd url pos ps (set (rutas (Node ri bi k pa cs))) =
     (if pos = length url then (if ri = 0 then {} else {(ri, ps)})
      else \<Union>c \<in> set cs. casan_hijo sd url pos ps c)"
proof -
  have "set (rutas (Node ri bi k pa cs)) =
      {([], ri)} \<union> (\<Union>c \<in> set cs. apfst (Cons (elem_de c)) ` set (rutas c))" by auto
  then show ?thesis
    by (simp only: casan_Un casan_UN casan_Cons casan_raiz) auto
qed

lemma update_found_menor:
  assumes "es_menor S r ps" "es_menor S' r' ps'"
  shows "\<exists>r'' ps''. update_found (r, [], ps) (r', [], ps') = (r'', [], ps'') \<and> es_menor (S' \<union> S) r'' ps''"
  using es_menor_union [OF assms] by (auto simp: update_found_def Un_commute)

lemma find_menor:
  "bps = [] \<Longrightarrow> sin_bp n \<Longrightarrow> \<exists>r ps'. find_nodo sd url n pos ps bps = ((r, [], ps'), []) \<and>
     es_menor (casan sd url pos ps (set (rutas n))) r ps'"
  "bps = [] \<Longrightarrow> list_all sin_bp cs \<Longrightarrow> acc = (r0, [], ps0) \<Longrightarrow> es_menor S r0 ps0 \<Longrightarrow>
     \<exists>r ps' frag'. find_hijos sd url cs pos ps bps acc frag = (((r, [], ps'), frag'), []) \<and>
       es_menor (S \<union> (\<Union>c \<in> set cs. casan_hijo sd url pos ps c)) r ps'"
proof (induction sd url n pos ps bps and sd url cs pos ps bps acc frag arbitrary: and r0 ps0 S rule: find_nodo_find_hijos.induct)
  case (1 sd req_url ri bi k pa cs pos ps bps)
  show ?case
  proof (cases "pos = length req_url")
    case True
    then show ?thesis using "1.prems" unfolding casan_nodo by (auto simp: es_menor_def)
  next
    case False
    have "es_menor {} 0 sin_params" by (simp add: es_menor_def)
    from "1.IH" [OF False "1.prems"(1) _ refl this] "1.prems"(2) obtain r ps' frag' where
      "find_hijos sd req_url cs pos ps bps (0, [], sin_params) False = (((r, [], ps'), frag'), [])"
      "es_menor (\<Union>c \<in> set cs. casan_hijo sd req_url pos ps c) r ps'" by auto
    with False show ?thesis unfolding casan_nodo by simp
  qed
next
  case (2 sd req_url pos ps bps acc frag)
  then show ?case by simp
next
  case (3 sd req_url c cs pos ps bps acc frag)
  show ?case
  proof (cases "consume_param sd req_url pos c ps")
    case None
    with "3.IH"(1) [OF None "3.prems"(1) _ "3.prems"(3,4)] "3.prems"(2) show ?thesis
      by (simp add: casan_hijo_def)
  next
    case (Some q)
    obtain epos ps1 where q: "q = (epos, ps1)" by (cases q)
    have bp: "blueprint_index c = INVALID_BP_ID" "sin_bp c" "list_all sin_bp cs"
      using "3.prems"(2) by (cases c; simp)+
    obtain r ps' where f: "find_nodo sd req_url c epos ps1 [] = ((r, [], ps'), [])"
      and m: "es_menor (casan sd req_url epos ps1 (set (rutas c))) r ps'"
      using "3.IH"(2) [OF Some q [symmetric] refl] bp "3.prems"(1) by auto
    have "es_menor (casan_hijo sd req_url pos ps c) r ps'" using m Some q by (simp add: casan_hijo_def)
    from update_found_menor [OF this "3.prems"(4)] obtain r2 ps2 where
      u: "update_found (r, [], ps') (r0, [], ps0) = (r2, [], ps2)"
      and m2: "es_menor (S \<union> casan_hijo sd req_url pos ps c) r2 ps2" by blast
    have "\<exists>r ps' frag'. find_hijos sd req_url cs pos ps [] (r2, [], ps2) True = (((r, [], ps'), frag'), []) \<and>
       es_menor ((S \<union> casan_hijo sd req_url pos ps c) \<union> (\<Union>c \<in> set cs. casan_hijo sd req_url pos ps c)) r ps'"
      using "3.IH"(3) [OF Some q [symmetric] refl, of "(r, [], ps')" "[]" r2 ps2 "S \<union> casan_hijo sd req_url pos ps c"] f bp "3.prems"(1,3) u m2
      by simp
    then show ?thesis
      using Some q f u bp "3.prems" by (simp add: Un_assoc)
  qed
qed

text \<open>C33. The search refines matching the patterns one by one: in a tree without blueprints \<^verbatim>\<open>find\<close> returns
  rule 0 exactly when no pattern of the tree matches the URL, and otherwise the least index among
  the patterns that match, with the parameters of a pattern of that index.\<close>

theorem find_refina_patrones:
  assumes "sin_bp t"
  shows "\<exists>r ps. find_url sd url t = (r, [], ps) \<and> es_menor (casan sd url 0 sin_params (set (rutas t))) r ps"
  using find_menor(1) [OF refl assms, of sd url 0 sin_params] by (auto simp: find_url_def)

subsection \<open>Compression keeps the patterns\<close>

definition desglosa :: "elem \<Rightarrow> elem list" where
  "desglosa e = (if fst e = P_MAX then map (\<lambda>c. (P_MAX, [c])) (snd e) else [e])"

definition patrones :: "Node \<Rightarrow> (elem list \<times> uint16) set" where
  "patrones n = apfst (\<lambda>es. concat (map desglosa es)) ` {x \<in> set (rutas n). snd x \<noteq> 0}"

text \<open>Every node without a parameter has a text.\<close>

fun textos_ok :: "Node \<Rightarrow> bool" where
  "textos_ok (Node ri bi k pa cs) = list_all (\<lambda>c. (param c = P_MAX \<longrightarrow> key c \<noteq> []) \<and> textos_ok c) cs"

lemma consume_texto:
  "consume_elem sd url pos (P_MAX, k) ps = (if empieza k (drop pos url) then Some (pos + length k, ps) else None)"
  by (simp add: consume_elem_def consume_param_def Let_def)

lemma empieza_Cons: "empieza (c # w) s \<longleftrightarrow> (\<exists>t. s = c # t \<and> empieza w t)"
  by (cases s) (auto simp: empieza_def)

lemma casa_texto:
  assumes "k \<noteq> []"
  shows "casa sd url pos ps ((P_MAX, k) # es) = casa sd url pos ps (map (\<lambda>c. (P_MAX, [c])) k @ es)"
  using assms
proof (induction k arbitrary: pos rule: induct_list012)
  case (3 c d k)
  show ?case
  proof (cases "drop pos url")
    case Nil
    then show ?thesis by (simp add: consume_texto empieza_Cons)
  next
    case (Cons x t)
    then have pos: "pos \<noteq> length url" by auto
    have t: "drop (Suc pos) url = t" using Cons by (metis drop_Suc drop_tl list.sel(3))
    have "casa sd url pos ps (map (\<lambda>c. (P_MAX, [c])) (c # d # k) @ es) =
        (if x = c then casa sd url (Suc pos) ps ((P_MAX, d # k) # es) else None)"
      using 3(2) [of "Suc pos"] pos Cons by (simp add: consume_texto empieza_Cons empieza_def)
    moreover have "Suc pos = length url \<Longrightarrow> t = []" using t by auto
    ultimately show ?thesis
      using pos Cons t by (auto simp: consume_texto empieza_Cons)
  qed
qed simp_all

lemma casa_desglosa:
  assumes "\<forall>e \<in> set es. fst e = P_MAX \<longrightarrow> snd e \<noteq> []"
  shows "casa sd url pos ps (concat (map desglosa es)) = casa sd url pos ps es"
  using assms
proof (induction es arbitrary: pos ps)
  case (Cons e es)
  show ?case
  proof (cases "fst e = P_MAX")
    case True
    then obtain k where e: "e = (P_MAX, k)" "k \<noteq> []" using Cons.prems by (cases e) auto
    have "casa sd url pos ps (concat (map desglosa (e # es))) =
        casa sd url pos ps ((P_MAX, k) # concat (map desglosa es))"
      using casa_texto [OF e(2), of sd url pos ps "concat (map desglosa es)"] e(1) by (simp add: desglosa_def)
    then show ?thesis using Cons e(1) by (simp split: option.split)
  next
    case False
    then show ?thesis using Cons by (simp add: desglosa_def split: option.split)
  qed
qed simp

lemma rutas_textos: "textos_ok n \<Longrightarrow> (es, r) \<in> set (rutas n) \<Longrightarrow> e \<in> set es \<Longrightarrow> fst e = P_MAX \<Longrightarrow> snd e \<noteq> []"
proof (induction n arbitrary: es r)
  case (Node ri bi k pa cs)
  then obtain c es' where "c \<in> set cs" "es = elem_de c # es'" "(es', r) \<in> set (rutas c)" by auto
  with Node show ?case by (auto simp: elem_de_def list_all_iff split: if_splits)
qed

lemma casan_patrones:
  assumes "textos_ok n"
  shows "casan sd url pos ps (set (rutas n)) = casan sd url pos ps (patrones n)"
proof -
  have c: "casa sd url pos ps (concat (map desglosa es)) = casa sd url pos ps es"
    if "(es, r) \<in> set (rutas n)" for es r
    using rutas_textos [OF assms that] by (intro casa_desglosa) blast
  have "(es', r) \<in> patrones n \<longleftrightarrow> r \<noteq> 0 \<and> (\<exists>es. (es, r) \<in> set (rutas n) \<and> es' = concat (map desglosa es))" for es' r
    by (force simp: patrones_def)
  with c show ?thesis unfolding casan_def by fastforce
qed

text \<open>The patterns of a tree are those that start with one of its children, and the root's own rule.\<close>

definition patrones_hijo :: "Node \<Rightarrow> (elem list \<times> uint16) set" where
  "patrones_hijo c = apfst (append (desglosa (elem_de c))) ` patrones c"

lemma patrones_nodo:
  "patrones (Node ri bi k pa cs) = (if ri = 0 then {} else {([], ri)}) \<union> (\<Union>c \<in> set cs. patrones_hijo c)"
proof -
  let ?F = "apfst (\<lambda>es. concat (map desglosa es)) :: elem list \<times> uint16 \<Rightarrow> _"
  have "?F ` {x \<in> apfst (Cons e) ` A. snd x \<noteq> 0} = apfst (append (desglosa e)) ` ?F ` {x \<in> A. snd x \<noteq> 0}" for e A
    unfolding Compr_image_eq image_image by (simp add: apfst_def map_prod_def case_prod_unfold)
  moreover have "{x \<in> set (rutas (Node ri bi k pa cs)). snd x \<noteq> 0} =
      {x. x = ([], ri) \<and> ri \<noteq> 0} \<union> (\<Union>c \<in> set cs. {x \<in> apfst (Cons (elem_de c)) ` set (rutas c). snd x \<noteq> 0})"
    by auto
  ultimately show ?thesis
    unfolding patrones_def patrones_hijo_def by (simp only: image_Un image_UN) auto
qed

lemma patrones_hijo_optimizeNode: "patrones_hijo (optimizeNode c) = patrones_hijo c"
proof (induction c rule: optimizeNode.induct)
  case (1 ri bi k pa cs)
  let ?n = "Node ri bi k pa cs"
  consider (hoja) "cs = []" | (cadena) "cs \<noteq> []" "IsSimpleNode ?n" | (rama) "cs \<noteq> []" "\<not> IsSimpleNode ?n" by blast
  then show ?case
  proof cases
    case hoja
    then show ?thesis by (simp add: optimizeNode.simps)
  next
    case cadena
    then obtain ri' bi' k' cs' where cs: "cs = [Node ri' bi' k' P_MAX cs']" and z: "ri = 0" "pa = P_MAX"
      by (cases cs; cases "hd cs") (auto simp: IsSimpleNode_def)
    have "optimizeNode ?n = optimizeNode (Node ri' bi' (k @ k') pa cs')"
      using cadena cs by (subst optimizeNode.simps) simp
    also have "patrones_hijo \<dots> = patrones_hijo (Node ri' bi' (k @ k') pa cs')"
      using "1.IH"(1) [OF cadena] cs by simp
    also have "\<dots> = apfst (append (map (\<lambda>c. (P_MAX, [c])) (k @ k'))) ` patrones (Node ri' bi' k' P_MAX cs')"
      unfolding z by (simp add: patrones_hijo_def elem_de_def desglosa_def patrones_nodo)
    also have "\<dots> = patrones_hijo ?n"
      unfolding cs z patrones_hijo_def
      by (subst patrones_nodo [where ri = 0])
        (simp add: patrones_hijo_def elem_de_def desglosa_def image_image apfst_def map_prod_def case_prod_unfold)
    finally show ?thesis .
  next
    case rama
    then have o: "optimizeNode ?n = Node ri bi k pa (map optimizeNode cs)" by (subst optimizeNode.simps) simp
    have "patrones (Node ri bi k pa (map optimizeNode cs)) = patrones ?n"
      using "1.IH"(2) [OF rama] by (simp add: patrones_nodo)
    then show ?thesis by (simp add: o patrones_hijo_def elem_de_def)
  qed
qed

lemma patrones_optimize: "patrones (optimize t) = patrones t"
  by (cases t) (simp add: optimize_def patrones_nodo patrones_hijo_optimizeNode)

lemma sin_bp_optimizeNode: "sin_bp n \<Longrightarrow> sin_bp (optimizeNode n)"
proof (induction n rule: optimizeNode.induct)
  case (1 ri bi k pa cs)
  then show ?case
    by (subst optimizeNode.simps) (cases "hd cs", cases cs, auto simp: list_all_iff)
qed

lemma optimizeNode_elem:
  assumes "param n = P_MAX \<longrightarrow> key n \<noteq> []"
  shows "param (optimizeNode n) = P_MAX \<longrightarrow> key (optimizeNode n) \<noteq> []"
  using assms
proof (induction n rule: optimizeNode.induct)
  case (1 ri bi k pa cs)
  then show ?case
    by (cases "hd cs") (auto simp: optimizeNode.simps [of ri bi k pa cs])
qed

lemma textos_ok_optimizeNode: "textos_ok n \<Longrightarrow> textos_ok (optimizeNode n)"
proof (induction n rule: optimizeNode.induct)
  case (1 ri bi k pa cs)
  show ?case
  proof (cases "cs \<noteq> [] \<and> IsSimpleNode (Node ri bi k pa cs)")
    case True
    with "1.IH"(1) "1.prems" show ?thesis
      by (subst optimizeNode.simps) (cases "hd cs"; cases cs; auto)
  next
    case False
    with "1.IH"(2) "1.prems" optimizeNode_elem show ?thesis
      by (subst optimizeNode.simps) (auto simp: list_all_iff)
  qed
qed

lemma optimize_ok: "sin_bp t \<Longrightarrow> sin_bp (optimize t)" "textos_ok t \<Longrightarrow> textos_ok (optimize t)"
  by (cases t; auto simp: optimize_def list_all_iff sin_bp_optimizeNode optimizeNode_elem textos_ok_optimizeNode)+

lemma es_menor_unico:
  assumes "es_menor S r ps" "es_menor S r' ps'"
  shows "r = r'"
  using assms by (fastforce simp: es_menor_def split: if_splits)

definition indices_unicos :: "Node \<Rightarrow> bool" where
  "indices_unicos t \<longleftrightarrow> (\<forall>es es' r. (es, r) \<in> patrones t \<longrightarrow> (es', r) \<in> patrones t \<longrightarrow> es = es')"

lemma find_patrones:
  assumes "sin_bp t" "textos_ok t"
  shows "\<exists>r ps. find_url sd url t = (r, [], ps) \<and> es_menor (casan sd url 0 sin_params (patrones t)) r ps"
  using find_menor(1) [OF refl assms(1), of sd url 0 sin_params] unfolding casan_patrones [OF assms(2)]
  by (auto simp: find_url_def)

lemma menor_params_unicos:
  assumes "indices_unicos t" "es_menor (casan sd url 0 q (patrones t)) r ps" "es_menor (casan sd url 0 q (patrones t)) r ps'"
    and "r \<noteq> 0"
  shows "ps = ps'"
  using assms unfolding es_menor_def casan_def indices_unicos_def by (auto split: if_splits) (metis option.inject)

text \<open>C34. The compressed tree answers as the plain one: for every URL, \<^verbatim>\<open>optimize\<close> changes neither the rule that
  \<^verbatim>\<open>find\<close> returns nor, when there is one, its parameters (trees without blueprints whose
  nodes carry a text or a parameter, and whose patterns have different indices).\<close>

theorem optimize_equivalente:
  assumes "sin_bp t" "textos_ok t" "indices_unicos t"
  shows "fst (find_url sd url (optimize t)) = fst (find_url sd url t) \<and>
    (fst (find_url sd url t) \<noteq> 0 \<longrightarrow> find_url sd url (optimize t) = find_url sd url t)"
proof -
  obtain r ps where 1: "find_url sd url t = (r, [], ps)" "es_menor (casan sd url 0 sin_params (patrones t)) r ps"
    using find_patrones [OF assms(1,2)] by blast
  obtain r' ps' where 2: "find_url sd url (optimize t) = (r', [], ps')"
    "es_menor (casan sd url 0 sin_params (patrones t)) r' ps'"
    using find_patrones [OF optimize_ok(1) [OF assms(1)] optimize_ok(2) [OF assms(2)]] by (metis patrones_optimize)
  have "r' = r" by (rule es_menor_unico [OF 2(2) 1(2)])
  moreover have "r \<noteq> 0 \<Longrightarrow> ps' = ps"
    using menor_params_unicos [OF assms(3) 2(2)] 1(2) \<open>r' = r\<close> by blast
  ultimately show ?thesis using 1(1) 2(1) by simp
qed

subsection \<open>Insertion adds one pattern\<close>

text \<open>The pattern that a URL of a route spells; \<open>None\<close> at a \<^verbatim>\<open><\<close> that starts no known parameter.\<close>

function elems_url :: "string \<Rightarrow> elem list option" where
  "elems_url [] = Some []"
| "elems_url (c # s) =
     (if c = CHR ''<'' then
        (case traza_param (c # s) of
           None \<Rightarrow> None
         | Some (ty, name) \<Rightarrow> map_option (Cons (ty, [])) (elems_url (drop (length name) (c # s))))
      else map_option (Cons (P_MAX, [c])) (elems_url s))"
  by pat_completeness auto
termination
  by (relation "measure length") (auto dest: traza_param_decrece)

text \<open>A tree that has not been compressed: one character or one parameter per node.\<close>

definition un_elem :: "Node \<Rightarrow> bool" where
  "un_elem c \<longleftrightarrow> length (key c) = (if param c = P_MAX then 1 else 0)"

fun sin_comprimir :: "Node \<Rightarrow> bool" where
  "sin_comprimir (Node ri bi k pa cs) =
     (bi = INVALID_BP_ID \<and> list_all (\<lambda>c. un_elem c \<and> sin_comprimir c) cs)"

lemma sin_comprimir_ok: "sin_comprimir n \<Longrightarrow> sin_bp n" "sin_comprimir n \<Longrightarrow> textos_ok n"
proof -
  show "sin_comprimir n \<Longrightarrow> sin_bp n" by (induction n) (auto simp: list_all_iff)
  show "sin_comprimir n \<Longrightarrow> textos_ok n" by (induction n) (auto simp: list_all_iff un_elem_def)
qed

lemma primero_Some: "primero P xs = Some j \<Longrightarrow> j < length xs \<and> P (xs ! j)"
  by (induction xs arbitrary: j) (auto split: if_splits)

lemma traza_param_tipo: "traza_param s = Some (ty, name) \<Longrightarrow> ty \<noteq> P_MAX"
  unfolding traza_param_def paramTraits_def by (auto split: if_splits)

lemma UN_update:
  assumes "j < length cs" "F (cs ! j) \<subseteq> F h"
  shows "(\<Union>c \<in> set (cs[j := h]). F c) = (\<Union>c \<in> set cs. F c) \<union> F h"
proof
  show "(\<Union>c \<in> set (cs[j := h]). F c) \<subseteq> (\<Union>c \<in> set cs. F c) \<union> F h"
    using set_update_subset_insert [of cs j h] by blast
  have "F c \<subseteq> (\<Union>c \<in> set (cs[j := h]). F c)" if c: "c \<in> set cs" for c
  proof -
    from c obtain i where i: "i < length cs" "c = cs ! i" by (auto simp: in_set_conv_nth)
    show ?thesis
    proof (cases "i = j")
      case True
      then have "F c \<subseteq> F h" using assms(2) i by simp
      also have "F h \<subseteq> (\<Union>c \<in> set (cs[j := h]). F c)" using assms(1) by (intro UN_upper set_update_memI)
      finally show ?thesis .
    next
      case False
      then have "c \<in> set (cs[j := h])" using i by (metis length_list_update nth_list_update_neq nth_mem)
      then show ?thesis by blast
    qed
  qed
  moreover have "F h \<subseteq> (\<Union>c \<in> set (cs[j := h]). F c)" using assms(1) by (intro UN_upper set_update_memI)
  ultimately show "(\<Union>c \<in> set cs. F c) \<union> F h \<subseteq> (\<Union>c \<in> set (cs[j := h]). F c)" by blast
qed

lemma patrones_hijo_insert:
  assumes "patrones h' = insert (es, ri) (patrones h)" "elem_de h' = elem_de h" "desglosa (elem_de h) = [e]"
  shows "patrones_hijo h' = insert (e # es, ri) (patrones_hijo h)"
  using assms by (simp add: patrones_hijo_def)

lemma desglosa_un_elem: "un_elem c \<Longrightarrow> desglosa (elem_de c) = [(param c, key c)]"
  by (auto simp: un_elem_def desglosa_def elem_de_def length_Suc_conv split: if_splits)

lemma hijo_existente:
  assumes "sin_comprimir (Node r b k pa cs)" "j < length cs" "param h = param (cs ! j)" "key h = key (cs ! j)"
    and "patrones h = insert (es, ri) (patrones (cs ! j))" "sin_comprimir h"
  shows "patrones (Node r b k pa (cs[j := h])) =
      insert ((param (cs ! j), key (cs ! j)) # es, ri) (patrones (Node r b k pa cs)) \<and>
    sin_comprimir (Node r b k pa (cs[j := h]))"
proof
  have u: "un_elem (cs ! j)" using assms(1,2) by (simp add: list_all_length)
  have e: "elem_de h = elem_de (cs ! j)" using assms(3,4) by (simp add: elem_de_def)
  have ph: "patrones_hijo h = insert ((param (cs ! j), key (cs ! j)) # es, ri) (patrones_hijo (cs ! j))"
    by (rule patrones_hijo_insert [OF assms(5) e desglosa_un_elem [OF u]])
  then have "(\<Union>c \<in> set (cs[j := h]). patrones_hijo c) = (\<Union>c \<in> set cs. patrones_hijo c) \<union> patrones_hijo h"
    by (intro UN_update [OF assms(2)]) blast
  moreover have "patrones_hijo (cs ! j) \<subseteq> (\<Union>c \<in> set cs. patrones_hijo c)" using assms(2) by (intro UN_upper nth_mem)
  ultimately show "patrones (Node r b k pa (cs[j := h])) =
      insert ((param (cs ! j), key (cs ! j)) # es, ri) (patrones (Node r b k pa cs))"
    unfolding patrones_nodo ph by blast
  have "un_elem h" using u assms(3,4) by (simp add: un_elem_def)
  then show "sin_comprimir (Node r b k pa (cs[j := h]))"
    using assms(1,6) set_update_subset_insert [of cs j h] by (auto simp: list_all_iff)
qed

lemma hijo_nuevo:
  assumes "sin_comprimir (Node r b k pa cs)" "un_elem h" "patrones h = {(es, ri)}" "sin_comprimir h"
  shows "patrones (Node r b k pa (cs @ [h])) = insert ((param h, key h) # es, ri) (patrones (Node r b k pa cs)) \<and>
    sin_comprimir (Node r b k pa (cs @ [h]))"
  using assms by (auto simp: patrones_nodo patrones_hijo_def desglosa_un_elem)

lemma add_desde_raiz: "add_desde ri con_bp l bp i s n = Inr n' \<Longrightarrow> param n' = param n \<and> key n' = key n"
proof -
  have "map_sum id f x = Inr n' \<Longrightarrow> \<exists>h. n' = f h" for f :: "Node \<Rightarrow> Node" and x :: "add_fallo + Node"
    by (cases x) auto
  then show "add_desde ri con_bp l bp i s n = Inr n' \<Longrightarrow> param n' = param n \<and> key n' = key n"
    by (cases n; cases s) (fastforce split: if_splits option.splits prod.splits simp: Let_def)+
qed

lemma map_sum_Inr: "map_sum id f x = Inr y \<longleftrightarrow> (\<exists>h. x = Inr h \<and> y = f h)"
  by (cases x) auto

subsection \<open>A tree as a table of patterns\<close>

text \<open>No two children of a node start with the same text or parameter.\<close>

fun distintos :: "Node \<Rightarrow> bool" where
  "distintos (Node ri bi k pa cs) = (distinct (map elem_de cs) \<and> list_all distintos cs)"

lemma primero_None: "primero P xs = None \<longleftrightarrow> (\<forall>x \<in> set xs. \<not> P x)"
  by (induction xs) auto

lemma patrones_hijo_un_elem:
  "un_elem c \<Longrightarrow> (es, r) \<in> patrones_hijo c \<longleftrightarrow> (\<exists>es'. es = (param c, key c) # es' \<and> (es', r) \<in> patrones c)"
  by (force simp: patrones_hijo_def desglosa_un_elem)

lemma patrones_Cons:
  assumes "sin_comprimir (Node ri bi k pa cs)"
  shows "(e # es, r) \<in> patrones (Node ri bi k pa cs) \<longleftrightarrow>
    (\<exists>c \<in> set cs. (param c, key c) = e \<and> (es, r) \<in> patrones c)"
proof -
  have "(e # es, r) \<in> patrones_hijo c \<longleftrightarrow> (param c, key c) = e \<and> (es, r) \<in> patrones c" if "c \<in> set cs" for c
    using that assms by (auto simp: patrones_hijo_un_elem list_all_iff)
  then show ?thesis by (auto simp: patrones_nodo)
qed

lemma elem_de_un_elem: "un_elem c \<Longrightarrow> elem_de c = (param c, key c)"
  by (auto simp: un_elem_def elem_de_def)

lemma distintos_elegido:
  assumes "sin_comprimir (Node ri bi k pa cs)" "distintos (Node ri bi k pa cs)" "j < length cs"
    and "c \<in> set cs" "(param c, key c) = (param (cs ! j), key (cs ! j))"
  shows "c = cs ! j"
proof -
  from assms(4) obtain i where i: "i < length cs" "c = cs ! i" by (auto simp: in_set_conv_nth)
  have "un_elem c" "un_elem (cs ! j)" using assms(1,3,4) by (auto simp: list_all_iff)
  then have "map elem_de cs ! i = map elem_de cs ! j" using i assms(3,5) by (simp add: elem_de_un_elem)
  moreover have "distinct (map elem_de cs)" using assms(2) by simp
  ultimately have "i = j" using i(1) assms(3) by (metis length_map nth_eq_iff_index_eq)
  then show ?thesis using i(2) by simp
qed

lemma patrones_elegido:
  assumes "sin_comprimir (Node ri bi k pa cs)" "distintos (Node ri bi k pa cs)" "j < length cs"
  shows "((param (cs ! j), key (cs ! j)) # es, r) \<in> patrones (Node ri bi k pa cs) \<longleftrightarrow> (es, r) \<in> patrones (cs ! j)"
  using assms distintos_elegido [OF assms] nth_mem [OF assms(3)] unfolding patrones_Cons [OF assms(1)] by metis

text \<open>What the search for a child finds, in a tree that has not been compressed.\<close>

lemma hijo_param:
  assumes "sin_comprimir (Node r b k pa cs)" "ty \<noteq> P_MAX"
  shows "(case primero (\<lambda>h. param h = ty) cs of
      None \<Rightarrow> \<forall>c \<in> set cs. (param c, key c) \<noteq> (ty, [])
    | Some j \<Rightarrow> j < length cs \<and> (param (cs ! j), key (cs ! j)) = (ty, []))"
  using assms primero_Some [of "\<lambda>h. param h = ty" cs]
  by (auto simp: primero_None un_elem_def list_all_length split: option.split)

lemma hijo_texto:
  assumes "sin_comprimir (Node r b k pa cs)" "c \<noteq> CHR 0x00"
  shows "(case primero (\<lambda>h. car0 (key h) = c) cs of
      None \<Rightarrow> \<forall>h \<in> set cs. (param h, key h) \<noteq> (P_MAX, [c])
    | Some j \<Rightarrow> j < length cs \<and> (param (cs ! j), key (cs ! j)) = (P_MAX, [c]))"
proof (cases "primero (\<lambda>h. car0 (key h) = c) cs")
  case None
  then have "\<forall>h \<in> set cs. car0 (key h) \<noteq> c" by (simp add: primero_None)
  then show ?thesis unfolding None by (auto simp: car0_def)
next
  case (Some j)
  note j = primero_Some [OF Some]
  then have "un_elem (cs ! j)" using assms(1) by (simp add: list_all_length)
  then show ?thesis
    using Some j assms(2) by (auto simp: un_elem_def car0_def length_Suc_conv split: if_splits list.splits)
qed

lemma elem_de_add:
  "add_desde ri con_bp l bp i s n = Inr n' \<Longrightarrow> elem_de n' = elem_de n"
  by (simp add: elem_de_def add_desde_raiz)

lemma distintos_existente:
  assumes "distintos (Node r b k pa cs)" "j < length cs" "elem_de h = elem_de (cs ! j)" "distintos h"
  shows "distintos (Node r b k pa (cs[j := h]))"
proof -
  have "map elem_de (cs[j := h]) = map elem_de cs"
    using assms(2,3) by (simp add: map_update list_update_same_conv)
  then show ?thesis
    using assms(1,4) set_update_subset_insert [of cs j h] by (auto simp: list_all_iff)
qed


lemma add_desde_no_termina: "add_desde ri cb l bp i s n = Inl No_termina \<longleftrightarrow> elems_url s = None"
proof -
  have m: "map_sum id f x = Inl e \<longleftrightarrow> x = Inl e" for f :: "Node \<Rightarrow> Node" and x and e :: add_fallo
    by (cases x) auto
  show ?thesis
    by (induction ri cb l bp i s n rule: add_desde.induct) (auto simp: m Let_def split: option.split)
qed

lemma distintos_nuevo:
  assumes "distintos (Node r b k pa cs)" "elem_de h \<notin> elem_de ` set cs" "distintos h"
  shows "distintos (Node r b k pa (cs @ [h]))"
  using assms by auto

lemma elem_de_ausente:
  assumes "sin_comprimir (Node r b k pa cs)" "elem_de h = (param h, key h)" "\<forall>c \<in> set cs. (param c, key c) \<noteq> (param h, key h)"
  shows "elem_de h \<notin> elem_de ` set cs"
  using assms by (auto simp: list_all_iff elem_de_un_elem)


text \<open>
  One turn of the loop of \<^verbatim>\<open>add\<close> on such a tree: it takes one element of the pattern and goes down into
  the child of that element, or into a new one.
\<close>

lemma un_elem_elems: "elems_url s = Some es \<Longrightarrow> (ty, k) \<in> set es \<Longrightarrow> un_elem (Node r b k ty cs)"
  by (induction s arbitrary: es rule: elems_url.induct)
    (auto simp: un_elem_def dest: traza_param_tipo split: if_splits option.splits)

lemma add_desde_paso:
  assumes "sin_comprimir (Node r b k pa cs)" "elems_url (c # s) = Some es" "CHR 0x00 \<notin> set (c # s)"
  obtains (nuevo) e resto es' i' where "es = e # es'" "elems_url resto = Some es'" "CHR 0x00 \<notin> set resto"
      "length resto \<le> length s" "\<forall>h \<in> set cs. (param h, key h) \<noteq> e"
      "add_desde ri False l bp i (c # s) (Node r b k pa cs) = map_sum id (\<lambda>h. Node r b k pa (cs @ [h]))
         (add_desde ri False l bp i' resto (Node 0 INVALID_BP_ID (snd e) (fst e) []))"
  | (viejo) j resto es' i' where "es = (param (cs ! j), key (cs ! j)) # es'" "elems_url resto = Some es'"
      "CHR 0x00 \<notin> set resto" "length resto \<le> length s" "j < length cs"
      "add_desde ri False l bp i (c # s) (Node r b k pa cs) = map_sum id (\<lambda>h. Node r b k pa (cs[j := h]))
         (add_desde ri False l bp i' resto (cs ! j))"
proof (cases "c = CHR ''<''")
  case True
  then obtain ty name where t: "traza_param (c # s) = Some (ty, name)" using assms(2) by (auto split: option.splits)
  define resto where "resto = drop (length name) (c # s)"
  obtain es' where es': "elems_url resto = Some es'" "es = (ty, []) # es'"
    using assms(2) True t unfolding resto_def by auto
  have nul: "CHR 0x00 \<notin> set resto" using assms(3) unfolding resto_def by (meson in_set_dropD)
  have largo: "length resto \<le> length s" using traza_param_decrece [OF t] by (simp add: resto_def)
  have h: "case primero (\<lambda>h. param h = ty) cs of
      None \<Rightarrow> \<forall>c \<in> set cs. (param c, key c) \<noteq> (ty, [])
    | Some j \<Rightarrow> j < length cs \<and> (param (cs ! j), key (cs ! j)) = (ty, [])"
    by (rule hijo_param [OF assms(1) traza_param_tipo [OF t]])
  show ?thesis
  proof (cases "primero (\<lambda>h. param h = ty) cs")
    case None
    with nuevo [OF es'(2,1) nul largo, of "i + length name"] h True t show ?thesis
      by (simp add: Let_def resto_def)
  next
    case (Some j)
    with viejo [of j es' resto "i + length name"] h es' nul largo True t show ?thesis
      by (simp add: Let_def resto_def)
  qed
next
  case False
  obtain es' where es': "elems_url s = Some es'" "es = (P_MAX, [c]) # es'" using assms(2) False by auto
  have nul: "CHR 0x00 \<notin> set s" "c \<noteq> CHR 0x00" using assms(3) by auto
  note h = hijo_texto [OF assms(1) nul(2)]
  show ?thesis
  proof (cases "primero (\<lambda>h. car0 (key h) = c) cs")
    case None
    with nuevo [OF es'(2,1) nul(1), of "i + 1"] h False show ?thesis by simp
  next
    case (Some j)
    with viejo [of j es' s "i + 1"] h es' nul False show ?thesis by simp
  qed
qed

declare add_desde.simps(2) [simp del]

lemma map_sum_Inl: "map_sum id f x = Inl e \<longleftrightarrow> x = Inl e"
  by (cases x) auto

lemma nodo_vacio:
  "patrones (Node 0 INVALID_BP_ID k ty []) = {}" "sin_comprimir (Node 0 INVALID_BP_ID k ty [])"
  "distintos (Node 0 INVALID_BP_ID k ty [])"
  by (simp_all add: patrones_nodo)

lemma add_desde_patrones:
  assumes "sin_comprimir n" "elems_url s = Some es" "CHR 0x00 \<notin> set s" "ri \<noteq> 0"
    and "add_desde ri False l bp i s n = Inr n'"
  shows "patrones n' = insert (es, ri) (patrones n) \<and> sin_comprimir n'"
  using assms
proof (induction s arbitrary: es i n n' rule: length_induct)
  case (1 s)
  obtain r b k pa cs where n: "n = Node r b k pa cs" by (cases n)
  note p = "1.prems"
  show ?case
  proof (cases s)
    case Nil
    then show ?thesis using p n by (auto simp: patrones_nodo split: if_splits)
  next
    case (Cons c s')
    from p n Cons have "sin_comprimir (Node r b k pa cs)" "elems_url (c # s') = Some es" "CHR 0x00 \<notin> set (c # s')"
      by auto
    then show ?thesis
    proof (cases rule: add_desde_paso [where ri = ri and l = l and bp = bp and i = i])
      case (nuevo e resto es' i')
      obtain h where h: "add_desde ri False l bp i' resto (Node 0 INVALID_BP_ID (snd e) (fst e) []) = Inr h"
        "n' = Node r b k pa (cs @ [h])"
        using p(5) unfolding n Cons nuevo(6) map_sum_Inr by blast
      have "patrones h = {(es', ri)} \<and> sin_comprimir h"
        using "1.IH" nuevo(2-4) Cons p(4) h(1) nodo_vacio by (metis le_imp_less_Suc length_Cons)
      moreover have "param h = fst e" "key h = snd e" using add_desde_raiz [OF h(1)] by simp_all
      moreover have "un_elem h"
        using un_elem_elems [OF p(2), of "fst e" "snd e"] nuevo(1) \<open>param h = fst e\<close> \<open>key h = snd e\<close> by (simp add: un_elem_def)
      ultimately show ?thesis using hijo_nuevo [of r b k pa cs h es' ri] p(1) n h(2) nuevo(1) by simp
    next
      case (viejo j resto es' i')
      obtain h where h: "add_desde ri False l bp i' resto (cs ! j) = Inr h" "n' = Node r b k pa (cs[j := h])"
        using p(5) unfolding n Cons viejo(6) map_sum_Inr by blast
      have "sin_comprimir (cs ! j)" using p(1) n viejo(5) by (simp add: list_all_length)
      then have "patrones h = insert (es', ri) (patrones (cs ! j)) \<and> sin_comprimir h"
        using "1.IH" viejo(2-4) Cons p(4) h(1) by (metis le_imp_less_Suc length_Cons)
      then show ?thesis
        using hijo_existente [of r b k pa cs j h es' ri] p(1) n viejo(1,5) add_desde_raiz [OF h(1)] h(2) by simp
    qed
  qed
qed

lemma add_desde_ya_existe:
  assumes "sin_comprimir n" "distintos n" "elems_url s = Some es" "CHR 0x00 \<notin> set s"
  shows "add_desde ri False l bp i s n = Inl Ya_existe \<longleftrightarrow> (\<exists>r. (es, r) \<in> patrones n)"
  using assms
proof (induction s arbitrary: es i n rule: length_induct)
  case (1 s)
  obtain r b k pa cs where n: "n = Node r b k pa cs" by (cases n)
  note p = "1.prems"
  show ?case
  proof (cases s)
    case Nil
    have "([], q) \<notin> patrones_hijo c" if "c \<in> set cs" for c q
      using that p(1) n by (auto simp: patrones_hijo_un_elem list_all_iff)
    then show ?thesis using p n Nil by (auto simp: patrones_nodo)
  next
    case (Cons c s')
    from p n Cons have sc: "sin_comprimir (Node r b k pa cs)" "elems_url (c # s') = Some es" "CHR 0x00 \<notin> set (c # s')"
      by auto
    then show ?thesis
    proof (cases rule: add_desde_paso [where ri = ri and l = l and bp = bp and i = i])
      case (nuevo e resto es' i')
      have "add_desde ri False l bp i' resto (Node 0 INVALID_BP_ID (snd e) (fst e) []) \<noteq> Inl Ya_existe"
        using "1.IH" nuevo(2-4) Cons nodo_vacio by (metis empty_iff le_imp_less_Suc length_Cons)
      moreover have "\<not> (\<exists>r'. (es, r') \<in> patrones (Node r b k pa cs))"
        unfolding nuevo(1) patrones_Cons [OF sc(1)] using nuevo(5) by blast
      ultimately show ?thesis using n Cons nuevo(6) by (simp add: map_sum_Inl)
    next
      case (viejo j resto es' i')
      have "sin_comprimir (cs ! j)" "distintos (cs ! j)" using p(1,2) n viejo(5) by (simp_all add: list_all_length)
      then have "add_desde ri False l bp i' resto (cs ! j) = Inl Ya_existe \<longleftrightarrow> (\<exists>r. (es', r) \<in> patrones (cs ! j))"
        using "1.IH" viejo(2-4) Cons by (metis le_imp_less_Suc length_Cons)
      then show ?thesis
        using n Cons viejo(1,6) patrones_elegido [OF sc(1) _ viejo(5)] p(2) by (simp add: map_sum_Inl)
    qed
  qed
qed

lemma add_desde_distintos:
  assumes "sin_comprimir n" "distintos n" "elems_url s = Some es" "CHR 0x00 \<notin> set s"
    and "add_desde ri False l bp i s n = Inr n'"
  shows "distintos n'"
  using assms
proof (induction s arbitrary: es i n n' rule: length_induct)
  case (1 s)
  obtain r b k pa cs where n: "n = Node r b k pa cs" by (cases n)
  note p = "1.prems"
  show ?case
  proof (cases s)
    case Nil
    then show ?thesis using p n by (auto split: if_splits)
  next
    case (Cons c s')
    from p n Cons have sc: "sin_comprimir (Node r b k pa cs)" "elems_url (c # s') = Some es" "CHR 0x00 \<notin> set (c # s')"
      by auto
    then show ?thesis
    proof (cases rule: add_desde_paso [where ri = ri and l = l and bp = bp and i = i])
      case (nuevo e resto es' i')
      obtain h where h: "add_desde ri False l bp i' resto (Node 0 INVALID_BP_ID (snd e) (fst e) []) = Inr h"
        "n' = Node r b k pa (cs @ [h])"
        using p(5) unfolding n Cons nuevo(6) map_sum_Inr by blast
      have d: "distintos h" using "1.IH" nuevo(2-4) Cons h(1) nodo_vacio by (metis le_imp_less_Suc length_Cons)
      have e: "param h = fst e" "key h = snd e" using add_desde_raiz [OF h(1)] by simp_all
      have "un_elem h" using un_elem_elems [OF p(3), of "fst e" "snd e"] nuevo(1) e by (simp add: un_elem_def)
      then have "elem_de h \<notin> elem_de ` set cs"
        using nuevo(5) e by (intro elem_de_ausente [OF sc(1)]) (auto simp: elem_de_un_elem)
      with distintos_nuevo [of r b k pa cs h] d p(2) n h(2) show ?thesis by simp
    next
      case (viejo j resto es' i')
      obtain h where h: "add_desde ri False l bp i' resto (cs ! j) = Inr h" "n' = Node r b k pa (cs[j := h])"
        using p(5) unfolding n Cons viejo(6) map_sum_Inr by blast
      have "sin_comprimir (cs ! j)" "distintos (cs ! j)" using p(1,2) n viejo(5) by (simp_all add: list_all_length)
      then have "distintos h" using "1.IH" viejo(2-4) Cons h(1) by (metis le_imp_less_Suc length_Cons)
      then show ?thesis using distintos_existente [OF _ viejo(5) elem_de_add [OF h(1)]] p(2) n h(2) by simp
    qed
  qed
qed


text \<open>The three outcomes of an insertion, over the table of patterns.\<close>

lemma add_desde_tabla:
  assumes "sin_comprimir t" "distintos t" "CHR 0x00 \<notin> set url" "ri \<noteq> 0"
  shows "(case elems_url url of
      None \<Rightarrow> add_desde ri False l bp i url t = Inl No_termina
    | Some es \<Rightarrow>
        if \<exists>r. (es, r) \<in> patrones t then add_desde ri False l bp i url t = Inl Ya_existe
        else \<exists>t'. add_desde ri False l bp i url t = Inr t' \<and> patrones t' = insert (es, ri) (patrones t) \<and>
          sin_comprimir t' \<and> distintos t')"
proof (cases "elems_url url")
  case None
  then show ?thesis by (simp add: add_desde_no_termina)
next
  case (Some es)
  show ?thesis
  proof (cases "add_desde ri False l bp i url t")
    case (Inl e)
    then have "e = Ya_existe" using Some add_desde_no_termina [of ri False l bp i url t] by (cases e) auto
    then show ?thesis using Inl Some add_desde_ya_existe [OF assms(1,2) Some assms(3), of ri l bp i] by simp
  next
    case (Inr t')
    then show ?thesis
      using Some add_desde_ya_existe [OF assms(1,2) Some assms(3), of ri l bp i]
        add_desde_patrones [OF assms(1) Some assms(3,4) Inr] add_desde_distintos [OF assms(1,2) Some assms(3) Inr]
      by simp
  qed
qed

subsection \<open>The interface of the router\<close>

text \<open>
  What the router uses of the tree while it registers its routes: insertion adds one entry to a table
  from patterns to rules, and fails on a pattern that is there already.
\<close>

primrec agrega_todas :: "(string \<Rightarrow> uint16 \<Rightarrow> 't \<Rightarrow> add_fallo + 't) \<Rightarrow> (string \<times> uint16) list \<Rightarrow> 't \<Rightarrow> add_fallo + 't" where
  "agrega_todas agrega [] t = Inr t"
| "agrega_todas agrega (x # xs) t =
     (case agrega (fst x) (snd x) t of Inl e \<Rightarrow> Inl e | Inr t' \<Rightarrow> agrega_todas agrega xs t')"

locale tabla_rutas =
  fixes vacia :: 't
    and agrega :: "string \<Rightarrow> uint16 \<Rightarrow> 't \<Rightarrow> add_fallo + 't"
    and tabla :: "'t \<Rightarrow> (elem list \<times> uint16) set"
    and inv :: "'t \<Rightarrow> bool"
  assumes inv_vacia: "inv vacia"
    and tabla_vacia: "tabla vacia = {}"
    and agrega_nueva: "inv t \<Longrightarrow> elems_url url = Some es \<Longrightarrow> CHR 0x00 \<notin> set url \<Longrightarrow> ri \<noteq> 0 \<Longrightarrow>
      \<nexists>r. (es, r) \<in> tabla t \<Longrightarrow>
      \<exists>t'. agrega url ri t = Inr t' \<and> inv t' \<and> tabla t' = insert (es, ri) (tabla t)"
    and agrega_repetida: "inv t \<Longrightarrow> elems_url url = Some es \<Longrightarrow> CHR 0x00 \<notin> set url \<Longrightarrow> (es, r) \<in> tabla t \<Longrightarrow>
      agrega url ri t = Inl Ya_existe"
begin

lemma agrega_todas_tabla:
  assumes "inv t" "\<forall>x \<in> set xs. CHR 0x00 \<notin> set (fst x) \<and> snd x \<noteq> 0"
    and "map (\<lambda>x. elems_url (fst x)) xs = map Some ess" "distinct ess" "\<forall>es \<in> set ess. \<nexists>r. (es, r) \<in> tabla t"
  shows "\<exists>t'. agrega_todas agrega xs t = Inr t' \<and> inv t' \<and> tabla t' = tabla t \<union> set (zip ess (map snd xs))"
  using assms
proof (induction xs arbitrary: t ess)
  case (Cons x xs)
  then obtain es ess' where ess: "ess = es # ess'" "elems_url (fst x) = Some es" "map (\<lambda>x. elems_url (fst x)) xs = map Some ess'"
    by (cases ess) auto
  from Cons.prems ess(1) have "\<nexists>r. (es, r) \<in> tabla t" "CHR 0x00 \<notin> set (fst x)" "snd x \<noteq> 0" by auto
  then obtain t' where t': "agrega (fst x) (snd x) t = Inr t'" "inv t'"
      "tabla t' = insert (es, snd x) (tabla t)"
    using agrega_nueva [OF Cons.prems(1) ess(2)] by blast
  have "\<exists>t''. agrega_todas agrega xs t' = Inr t'' \<and> inv t'' \<and> tabla t'' = tabla t' \<union> set (zip ess' (map snd xs))"
    using Cons.prems ess t'(2,3) by (intro Cons.IH) auto
  with t' ess(1) show ?case by auto
qed simp

lemma agrega_repetida_falla:
  assumes "inv t" "elems_url url = Some es" "CHR 0x00 \<notin> set url" "ri \<noteq> 0" "\<nexists>r. (es, r) \<in> tabla t"
    and "elems_url url' = Some es" "CHR 0x00 \<notin> set url'"
  shows "agrega_todas agrega [(url, ri), (url', ri')] t = Inl Ya_existe"
  using agrega_nueva [OF assms(1-5)] agrega_repetida [OF _ assms(6,7)] by fastforce

end

interpretation trie: tabla_rutas nodo_nuevo "\<lambda>url ri. add_url url ri 0 INVALID_BP_ID" patrones
  "\<lambda>t. sin_comprimir t \<and> distintos t"
proof (unfold_locales, goal_cases)
  case (3 t url es ri)
  then show ?case using add_desde_tabla [of t url ri 0 INVALID_BP_ID 0] by (auto simp: add_url_def)
next
  case (4 t url es r ri)
  then show ?case using add_desde_ya_existe [of t url es ri 0 INVALID_BP_ID 0] by (auto simp: add_url_def)
qed (simp_all add: nodo_nuevo_def patrones_nodo)

text \<open>Inserting a URL pattern: a \<^verbatim>\<open><\<close> that starts none of the known parameters makes \<^verbatim>\<open>add\<close> loop for ever;
  a pattern that the tree holds already is refused; any other one is added with its rule, and nothing else
  changes in the table of patterns.\<close>

theorem add_patron:
  assumes "sin_comprimir t" "distintos t" "CHR 0x00 \<notin> set url" "ri \<noteq> 0"
  shows "(case elems_url url of
      None \<Rightarrow> add_url url ri 0 bp t = Inl No_termina
    | Some es \<Rightarrow>
        if \<exists>r. (es, r) \<in> patrones t then add_url url ri 0 bp t = Inl Ya_existe
        else \<exists>t'. add_url url ri 0 bp t = Inr t' \<and> patrones t' = insert (es, ri) (patrones t) \<and>
          sin_comprimir t' \<and> distintos t')"
proof -
  have "add_url url ri 0 bp t = add_desde ri False 0 bp 0 url t" by (simp add: add_url_def)
  then show ?thesis by (simp only: add_desde_tabla [OF assms])
qed

lemmas evalua_trie = add_url_def add_desde.simps(2) nodo_nuevo_def traza_param_def paramTraits_def empieza_def
  elems_url.simps optimize_def optimizeNode.simps IsSimpleNode_def

definition arbol_ejemplo :: Node where
  "arbol_ejemplo = Node 0 INVALID_BP_ID [] P_MAX
     [Node 2 INVALID_BP_ID ''/'' P_MAX
       [Node 0 INVALID_BP_ID ''a'' P_MAX [Node 3 INVALID_BP_ID [] P_INT []]]]"

theorem add_patron_testigo:
  "add_url ''/b'' 4 0 INVALID_BP_ID arbol_ejemplo \<noteq> Inl Ya_existe \<and>
   add_url ''/'' 4 0 INVALID_BP_ID arbol_ejemplo = Inl Ya_existe \<and>
   add_url ''/<x>'' 4 0 INVALID_BP_ID arbol_ejemplo = Inl No_termina"
proof -
  have ok: "sin_comprimir arbol_ejemplo" "distintos arbol_ejemplo"
    by (simp_all add: arbol_ejemplo_def un_elem_def elem_de_def)
  have b: "elems_url ''/b'' = Some [(P_MAX, ''/''), (P_MAX, ''b'')]" "elems_url ''/'' = Some [(P_MAX, ''/'')]"
    "elems_url ''/<x>'' = None"
    by (simp_all add: evalua_trie)
  have p: "\<nexists>r. ([(P_MAX, ''/''), (P_MAX, ''b'')], r) \<in> patrones arbol_ejemplo"
    "\<exists>r. ([(P_MAX, ''/'')], r) \<in> patrones arbol_ejemplo"
    by (auto simp: arbol_ejemplo_def patrones_nodo patrones_hijo_def elem_de_def desglosa_def)
  show ?thesis
    using add_patron [OF ok, of "''/b''" 4 INVALID_BP_ID] add_patron [OF ok, of "''/''" 4 INVALID_BP_ID]
      add_patron [OF ok, of "''/<x>''" 4 INVALID_BP_ID] b p by auto
qed

theorem find_refina_patrones_testigo:
  "sin_bp arbol_ejemplo \<and>
   (\<exists>r ps. find_url (\<lambda>_. None :: (nat \<times> nat) option) ''/a-7'' arbol_ejemplo = (r, [], ps) \<and>
     es_menor (casan (\<lambda>_. None :: (nat \<times> nat) option) ''/a-7'' 0 sin_params (set (rutas arbol_ejemplo))) r ps) \<and>
   find_url (\<lambda>_. None :: (nat \<times> nat) option) ''/a-7'' arbol_ejemplo =
     (3, [], sin_params\<lparr>int_params := [-7]\<rparr>)"
proof -
  have ok: "sin_bp arbol_ejemplo" by (simp add: arbol_ejemplo_def)
  have "find_url (\<lambda>_. None :: (nat \<times> nat) option) ''/a-7'' arbol_ejemplo =
     (3, [], sin_params\<lparr>int_params := [-7]\<rparr>)"
    by (simp add: arbol_ejemplo_def find_url_def consume_param_def update_found_def empieza_def sin_params_def
        strtoll_def salta_espacios_def es_espacio_def es_digito_def valor_decimal_def digito_def)
  with ok find_refina_patrones [OF ok] show ?thesis by blast
qed

definition arbol_cadena :: Node where
  "arbol_cadena = Node 0 INVALID_BP_ID [] P_MAX
     [Node 0 INVALID_BP_ID ''/'' P_MAX [Node 0 INVALID_BP_ID ''a'' P_MAX [Node 2 INVALID_BP_ID ''b'' P_MAX []]]]"

theorem optimize_equivalente_testigo:
  "optimize arbol_cadena = Node 0 INVALID_BP_ID [] P_MAX [Node 2 INVALID_BP_ID ''/ab'' P_MAX []] \<and>
   fst (find_url (\<lambda>_. None :: (nat \<times> nat) option) ''/ab'' (optimize arbol_cadena)) = 2"
proof -
  have "sin_bp arbol_cadena" "textos_ok arbol_cadena" by (simp_all add: arbol_cadena_def)
  moreover have "indices_unicos arbol_cadena"
    by (auto simp: indices_unicos_def arbol_cadena_def patrones_nodo patrones_hijo_def elem_de_def desglosa_def)
  ultimately have "fst (find_url (\<lambda>_. None :: (nat \<times> nat) option) ''/ab'' (optimize arbol_cadena)) =
      fst (find_url (\<lambda>_. None :: (nat \<times> nat) option) ''/ab'' arbol_cadena)"
    using optimize_equivalente by blast
  also have "\<dots> = 2"
    by (simp add: arbol_cadena_def find_url_def consume_param_def update_found_def empieza_def)
  finally show ?thesis by (simp add: arbol_cadena_def evalua_trie)
qed

end
