(* ===== verification/Etiquetas.thy ===== *)
theory Etiquetas
  imports Trie "HOL-Library.Sublist"
begin

text \<open>
  The parameters of a route, namespace \<^verbatim>\<open>black_magic\<close> of \<^verbatim>\<open>includes/crow_all.h\<close>: the tag that
  \<^verbatim>\<open>CROW_ROUTE\<close> computes from the URL, the argument types that it gives the handler, the check of handlers
  of dynamic routes, and the call of a handler with the parameters that the search found.
\<close>

subsection \<open>Tags\<close>

datatype etiqueta_fallo = OutOfRange | Tipo_invalido | Sin_cierre

definition is_int :: "string \<Rightarrow> bool" where "is_int s = empieza ''<int>'' s"

definition is_uint :: "string \<Rightarrow> bool" where "is_uint s = empieza ''<uint>'' s"

definition is_float :: "string \<Rightarrow> bool" where "is_float s \<longleftrightarrow> empieza ''<float>'' s \<or> empieza ''<double>'' s"

definition is_str :: "string \<Rightarrow> bool" where "is_str s \<longleftrightarrow> empieza ''<str>'' s \<or> empieza ''<string>'' s"

definition is_path :: "string \<Rightarrow> bool" where "is_path s = empieza ''<path>'' s"

text \<open>The string and the position are the rest of the string from that position on.\<close>

fun find_closing_tag :: "string \<Rightarrow> etiqueta_fallo + string" where
  "find_closing_tag [] = Inl OutOfRange"
| "find_closing_tag (c # s) = (if c = CHR ''>'' then Inr (c # s) else find_closing_tag s)"

fun find_closing_tag_runtime :: "string \<Rightarrow> etiqueta_fallo + string" where
  "find_closing_tag_runtime [] = Inl Sin_cierre"
| "find_closing_tag_runtime (c # s) = (if c = CHR ''>'' then Inr (c # s) else find_closing_tag_runtime s)"

fun is_valid :: "string \<Rightarrow> int \<Rightarrow> bool" where
  "is_valid [] f = (f = 0)"
| "is_valid (c # s) f =
     (if f < 0 \<or> 2 \<le> f then False
      else if c = CHR ''<'' then is_valid s (f + 1)
      else if c = CHR ''>'' then is_valid s (f - 1)
      else is_valid s f)"

lemma find_closing_tag_decrece: "find_closing_tag s = Inr r \<Longrightarrow> length r \<le> length s"
  by (induction s) (auto split: if_splits)

lemma find_closing_tag_runtime_decrece: "find_closing_tag_runtime s = Inr r \<Longrightarrow> length r \<le> length s"
  by (induction s) (auto split: if_splits)

text \<open>The digit of a parameter in the tag.\<close>

definition digito_etiqueta :: "string \<Rightarrow> nat option" where
  "digito_etiqueta s =
     (if is_int s then Some 1 else if is_uint s then Some 2 else if is_float s then Some 3
      else if is_str s then Some 4 else if is_path s then Some 5 else None)"

function get_parameter_tag :: "string \<Rightarrow> etiqueta_fallo + 64 word" where
  "get_parameter_tag [] = Inr 0"
| "get_parameter_tag (c # s) =
     (if c = CHR ''<'' then
        (case digito_etiqueta (c # s) of
           None \<Rightarrow> Inl Tipo_invalido
         | Some d \<Rightarrow>
             (case find_closing_tag (c # s) of
                Inl e \<Rightarrow> Inl e
              | Inr r \<Rightarrow> map_sum id (\<lambda>t. t * 6 + of_nat d) (get_parameter_tag r)))
      else get_parameter_tag s)"
  by pat_completeness auto
termination
  by (relation "measure length") (auto split: if_splits dest: find_closing_tag_decrece)

function get_parameter_tag_runtime :: "string \<Rightarrow> etiqueta_fallo + 64 word" where
  "get_parameter_tag_runtime [] = Inr 0"
| "get_parameter_tag_runtime (c # s) =
     (if c = CHR ''<'' then
        (case digito_etiqueta (c # s) of
           None \<Rightarrow> Inl Tipo_invalido
         | Some d \<Rightarrow>
             (case find_closing_tag_runtime (c # s) of
                Inl e \<Rightarrow> Inl e
              | Inr r \<Rightarrow> map_sum id (\<lambda>t. t * 6 + of_nat d) (get_parameter_tag_runtime r)))
      else get_parameter_tag_runtime s)"
  by pat_completeness auto
termination
  by (relation "measure length") (auto split: if_splits dest: find_closing_tag_runtime_decrece)

subsection \<open>Argument types\<close>

datatype tipo_arg = A_int64 | A_uint64 | A_double | A_string

definition single_tag_to_type :: "64 word \<Rightarrow> tipo_arg option" where
  "single_tag_to_type n =
     (if n = 1 then Some A_int64 else if n = 2 then Some A_uint64 else if n = 3 then Some A_double
      else if n = 4 then Some A_string else if n = 5 then Some A_string else None)"

text \<open>\<open>None\<close>: the program does not compile.\<close>

function arguments :: "64 word \<Rightarrow> tipo_arg list option" where
  "arguments tag =
     (if tag = 0 then Some []
      else case single_tag_to_type (tag mod 6) of
        None \<Rightarrow> None
      | Some ty \<Rightarrow> map_option (Cons ty) (arguments (tag div 6)))"
  by pat_completeness auto
termination
proof (relation "measure unat", goal_cases)
  case (2 tag ty)
  then have "0 < unat tag" by (simp add: unat_gt_0)
  then show ?case by (simp add: unat_div)
qed simp

declare arguments.simps [simp del]

text \<open>
  The check of a handler for a dynamic route. The source reads both digits from the first tag.
\<close>

function is_parameter_tag_compatible :: "64 word \<Rightarrow> 64 word \<Rightarrow> bool" where
  "is_parameter_tag_compatible a b =
     (if a = 0 then b = 0
      else if b = 0 then a = 0
      else
        let sa = a mod 6; sb = a mod 6;
            sa' = (if sa = 5 then 4 else sa); sb' = (if sb = 5 then 4 else sb)
        in if sa' \<noteq> sb' then False else is_parameter_tag_compatible (a div 6) (b div 6))"
  by pat_completeness auto
termination
proof (relation "measure (\<lambda>(a, b). unat a)", goal_cases)
  case (2 a b sa sb sa' sb')
  then have "0 < unat a" by (simp add: unat_gt_0)
  then show ?case by (simp add: unat_div)
qed simp

declare is_parameter_tag_compatible.simps [simp del]

text \<open>The tag of the handler's own argument types; \<open>0\<close> is a type that takes no parameter.\<close>

primrec compute_parameter_tag_from_args_list :: "nat list \<Rightarrow> nat" where
  "compute_parameter_tag_from_args_list [] = 0"
| "compute_parameter_tag_from_args_list (parameter_tag # args) =
     (let sub_value = compute_parameter_tag_from_args_list args in
      if parameter_tag \<noteq> 0 then sub_value * 6 + parameter_tag else sub_value)"

subsection \<open>Calling a handler\<close>

datatype 'd valor = V_int int | V_uint nat | V_double 'd | V_string string

text \<open>
  \<^verbatim>\<open>call\<close> numbers the arguments of each type from the left and reads the parameters at these positions,
  unchecked.
\<close>

fun llama_args :: "nat \<Rightarrow> nat \<Rightarrow> nat \<Rightarrow> nat \<Rightarrow> tipo_arg list \<Rightarrow> 'd routing_params \<Rightarrow> 'd valor list res" where
  "llama_args NInt NUint NDouble NString [] ps = Inr []"
| "llama_args NInt NUint NDouble NString (A_int64 # ts) ps =
     bindE (indice (int_params ps) NInt) (\<lambda>v.
     bindE (llama_args (NInt + 1) NUint NDouble NString ts ps) (\<lambda>vs. Inr (V_int v # vs)))"
| "llama_args NInt NUint NDouble NString (A_uint64 # ts) ps =
     bindE (indice (uint_params ps) NUint) (\<lambda>v.
     bindE (llama_args NInt (NUint + 1) NDouble NString ts ps) (\<lambda>vs. Inr (V_uint v # vs)))"
| "llama_args NInt NUint NDouble NString (A_double # ts) ps =
     bindE (indice (double_params ps) NDouble) (\<lambda>v.
     bindE (llama_args NInt NUint (NDouble + 1) NString ts ps) (\<lambda>vs. Inr (V_double v # vs)))"
| "llama_args NInt NUint NDouble NString (A_string # ts) ps =
     bindE (indice (string_params ps) NString) (\<lambda>v.
     bindE (llama_args NInt NUint NDouble (NString + 1) ts ps) (\<lambda>vs. Inr (V_string v # vs)))"

subsection \<open>Tags and patterns\<close>

text \<open>The argument type and the digit of an element of a pattern.\<close>

fun tipo_de :: "ParamType \<Rightarrow> tipo_arg option" where
  "tipo_de P_INT = Some A_int64"
| "tipo_de P_UINT = Some A_uint64"
| "tipo_de P_DOUBLE = Some A_double"
| "tipo_de P_STRING = Some A_string"
| "tipo_de P_PATH = Some A_string"
| "tipo_de P_MAX = None"

fun codigo :: "ParamType \<Rightarrow> nat" where
  "codigo P_INT = 1"
| "codigo P_UINT = 2"
| "codigo P_DOUBLE = 3"
| "codigo P_STRING = 4"
| "codigo P_PATH = 5"
| "codigo P_MAX = 0"

definition params_de :: "elem list \<Rightarrow> ParamType list" where
  "params_de es = filter (\<lambda>ty. ty \<noteq> P_MAX) (map fst es)"

definition tipos :: "elem list \<Rightarrow> tipo_arg list" where
  "tipos es = List.map_filter tipo_de (map fst es)"

definition etiqueta :: "ParamType list \<Rightarrow> nat" where
  "etiqueta ps = foldr (\<lambda>ty t. t * 6 + codigo ty) ps 0"

lemma params_de_simps [simp]:
  "params_de [] = []"
  "params_de ((ty, k) # es) = (if ty = P_MAX then params_de es else ty # params_de es)"
  by (simp_all add: params_de_def)

lemma tipos_simps [simp]:
  "tipos [] = []"
  "tipos ((ty, k) # es) = (case tipo_de ty of None \<Rightarrow> tipos es | Some t \<Rightarrow> t # tipos es)"
  by (simp_all add: tipos_def List.map_filter_simps split: option.split)

lemma etiqueta_simps [simp]: "etiqueta [] = 0" "etiqueta (ty # ps) = etiqueta ps * 6 + codigo ty"
  by (simp_all add: etiqueta_def)

text \<open>A parameter at the head of the rest: its digit, its pattern element and what follows.\<close>

lemma empieza_append: "empieza w s \<longleftrightarrow> (\<exists>r. s = w @ r)"
  unfolding empieza_def by (metis append_eq_conv_conj append_take_drop_id)

lemma digito_traza:
  "digito_etiqueta s = map_option (\<lambda>x. codigo (fst x)) (traza_param s)"
  by (auto simp: digito_etiqueta_def is_int_def is_uint_def is_float_def is_str_def is_path_def traza_param_def
      paramTraits_def)

lemma find_closing_tag_append: "CHR ''>'' \<notin> set w \<Longrightarrow> find_closing_tag (w @ CHR ''>'' # r) = Inr (CHR ''>'' # r)"
  by (induction w) auto

lemma find_closing_tag_runtime_append:
  "CHR ''>'' \<notin> set w \<Longrightarrow> find_closing_tag_runtime (w @ CHR ''>'' # r) = Inr (CHR ''>'' # r)"
  by (induction w) auto

lemma traza_forma:
  assumes "traza_param s = Some (ty, name)"
  shows "\<exists>w r. name = w @ ''>'' \<and> CHR ''>'' \<notin> set w \<and> s = w @ CHR ''>'' # r \<and> drop (length name) s = r \<and> ty \<noteq> P_MAX"
proof -
  have e: "empieza name s" and m: "(ty, name) \<in> set paramTraits"
    using assms unfolding traza_param_def find_Some_iff by (metis snd_conv, metis nth_mem)
  from m have "\<exists>w. name = w @ ''>'' \<and> CHR ''>'' \<notin> set w"
    unfolding paramTraits_def
    by (auto intro: exI [of _ "''<int''"] exI [of _ "''<uint''"] exI [of _ "''<float''"] exI [of _ "''<double''"]
        exI [of _ "''<str''"] exI [of _ "''<string''"] exI [of _ "''<path''"])
  moreover from e obtain r where "s = name @ r" by (auto simp: empieza_append)
  ultimately show ?thesis using traza_param_tipo [OF assms] by fastforce
qed


text \<open>
  The tag of a URL is the number with the parameters of its pattern as digits, and it is defined exactly
  when the URL spells a pattern; both versions agree.
\<close>

lemma get_parameter_tag_elems:
  "get_parameter_tag s =
     (case elems_url s of None \<Rightarrow> Inl Tipo_invalido | Some es \<Rightarrow> Inr (of_nat (etiqueta (params_de es))))"
proof (induction s rule: elems_url.induct)
  case (2 c s)
  show ?case
  proof (cases "c = CHR ''<''")
    case True
    show ?thesis
    proof (cases "traza_param (c # s)")
      case None
      then show ?thesis using True by (simp add: digito_traza)
    next
      case (Some x)
      then obtain ty name where t: "traza_param (c # s) = Some (ty, name)" by (cases x) auto
      then obtain w r where w: "CHR ''>'' \<notin> set w" "c # s = w @ CHR ''>'' # r" "drop (length name) (c # s) = r" "ty \<noteq> P_MAX"
        using traza_forma by blast
      have "find_closing_tag (c # s) = Inr (CHR ''>'' # r)" unfolding w(2) by (rule find_closing_tag_append [OF w(1)])
      then have g: "get_parameter_tag (c # s) = map_sum id (\<lambda>t. t * 6 + of_nat (codigo ty)) (get_parameter_tag r)"
        using True t by (simp add: digito_traza)
      have e: "elems_url (c # s) = map_option (Cons (ty, [])) (elems_url r)" using True t w(3) by simp
      have "get_parameter_tag r =
          (case elems_url r of None \<Rightarrow> Inl Tipo_invalido | Some es \<Rightarrow> Inr (of_nat (etiqueta (params_de es))))"
        using 2(1) [OF True t refl] w(3) by simp
      then show ?thesis unfolding g e using w(4) by (simp split: option.split)
    qed
  next
    case False
    then show ?thesis using 2(2) by (simp split: option.split)
  qed
qed simp

lemma get_parameter_tag_runtime_eq: "get_parameter_tag_runtime s = get_parameter_tag s"
proof (induction s rule: get_parameter_tag.induct)
  case (2 c s)
  show ?case
  proof (cases "c = CHR ''<'' \<and> traza_param (c # s) \<noteq> None")
    case True
    then obtain ty name where t: "traza_param (c # s) = Some (ty, name)" by auto
    then obtain w r where w: "CHR ''>'' \<notin> set w" "c # s = w @ CHR ''>'' # r"
      using traza_forma by blast
    have "find_closing_tag (c # s) = Inr (CHR ''>'' # r)" "find_closing_tag_runtime (c # s) = Inr (CHR ''>'' # r)"
      unfolding w(2) using find_closing_tag_append [OF w(1)] find_closing_tag_runtime_append [OF w(1)] by auto
    then show ?thesis using 2(1) [of "codigo ty" "CHR ''>'' # r"] True t by (simp add: digito_traza)
  next
    case False
    then show ?thesis using 2(2) by (cases "traza_param (c # s)") (auto simp: digito_traza)
  qed
qed simp

lemma etiqueta_cota: "etiqueta ps < 6 ^ length ps"
proof (induction ps)
  case (Cons ty ps)
  have "codigo ty < 6" by (cases ty) auto
  then show ?case using Cons by simp
qed simp

lemma arguments_etiqueta:
  assumes "length ps \<le> 24" "P_MAX \<notin> set ps"
  shows "arguments (of_nat (etiqueta ps)) = Some (List.map_filter tipo_de ps)"
  using assms
proof (induction ps)
  case Nil
  then show ?case by (simp add: arguments.simps List.map_filter_simps)
next
  case (Cons ty ps)
  define n where "n = etiqueta ps * 6 + codigo ty"
  have "n < 2 ^ 64"
  proof -
    have "n < 6 ^ length (ty # ps)" using etiqueta_cota [of "ty # ps"] by (simp add: n_def)
    also have "\<dots> \<le> 6 ^ 24" using Cons.prems(1) by (intro power_increasing) auto
    also have "\<dots> < (2 :: nat) ^ 64" by simp
    finally show ?thesis .
  qed
  then have u: "unat (of_nat n :: 64 word) = n" by (simp add: unat_of_nat)
  have c: "0 < codigo ty" "codigo ty < 6" using Cons.prems(2) by (cases ty; simp)+
  have "(of_nat n :: 64 word) mod 6 = of_nat (n mod 6)" "(of_nat n :: 64 word) div 6 = of_nat (n div 6)"
    by (simp_all add: word_arith_nat_mod word_arith_nat_div u)
  then have "(of_nat n :: 64 word) mod 6 = of_nat (codigo ty)" "(of_nat n :: 64 word) div 6 = of_nat (etiqueta ps)"
    using c(2) by (simp_all add: n_def)
  moreover have "(of_nat n :: 64 word) \<noteq> 0" using u c(1) n_def by (metis add_is_0 less_not_refl unat_0)
  moreover have "etiqueta (ty # ps) = n" by (simp add: n_def)
  ultimately show ?case
    using Cons by (subst arguments.simps) (cases ty; simp add: single_tag_to_type_def List.map_filter_simps)
qed

lemma map_filter_params_de: "List.map_filter tipo_de (params_de es) = tipos es"
proof (induction es)
  case (Cons e es)
  then show ?case by (cases e; cases "fst e") (auto simp: List.map_filter_simps)
qed (simp add: List.map_filter_simps)

text \<open>The argument types of a route's handler: a URL with at most 24 parameters that passes the check of
  \<^verbatim>\<open>CROW_ROUTE\<close> has a tag from which \<^verbatim>\<open>arguments\<close> reads back exactly the types of its parameters, in their
  order, in 64 bits.\<close>

theorem etiqueta_tipos:
  assumes "elems_url url = Some es" "length (params_de es) \<le> 24"
  shows "\<exists>t. get_parameter_tag url = Inr t \<and> arguments t = Some (tipos es)"
proof -
  have "P_MAX \<notin> set (params_de es)" by (simp add: params_de_def)
  then show ?thesis
    using arguments_etiqueta [OF assms(2)] assms(1)
    by (simp add: get_parameter_tag_elems map_filter_params_de)
qed


text \<open>C35. Termination of insertion: \<^verbatim>\<open>Trie::add\<close> ends on a URL, in any tree, exactly when the tag of the URL
  exists, which \<^verbatim>\<open>CROW_ROUTE\<close> needs to compile; only a URL that was not checked makes it loop.\<close>

theorem add_termina_iff_etiqueta:
  "add_url url ri l bp n \<noteq> Inl No_termina \<longleftrightarrow> (\<exists>t. get_parameter_tag url = Inr t)"
  by (simp add: add_url_def add_desde_no_termina get_parameter_tag_elems split: option.split)

subsection \<open>The arguments of a handler are the parameters of its pattern\<close>

text \<open>The values of the parameters of a pattern in the order of the URL: each the one just pushed.\<close>

fun ultimo_valor :: "ParamType \<Rightarrow> 'd routing_params \<Rightarrow> 'd valor option" where
  "ultimo_valor P_INT ps = Some (V_int (last (int_params ps)))"
| "ultimo_valor P_UINT ps = Some (V_uint (last (uint_params ps)))"
| "ultimo_valor P_DOUBLE ps = Some (V_double (last (double_params ps)))"
| "ultimo_valor P_STRING ps = Some (V_string (last (string_params ps)))"
| "ultimo_valor P_PATH ps = Some (V_string (last (string_params ps)))"
| "ultimo_valor P_MAX ps = None"

fun casa_valores ::
    "(string \<Rightarrow> ('d \<times> nat) option) \<Rightarrow> string \<Rightarrow> nat \<Rightarrow> 'd routing_params \<Rightarrow> elem list \<Rightarrow> 'd valor list option" where
  "casa_valores sd url pos ps [] = (if pos = length url then Some [] else None)"
| "casa_valores sd url pos ps (e # es) =
     (if pos = length url then None
      else case consume_elem sd url pos e ps of
        None \<Rightarrow> None
      | Some (pos', ps') \<Rightarrow>
          map_option (\<lambda>vs. (case ultimo_valor (fst e) ps' of None \<Rightarrow> vs | Some v \<Rightarrow> v # vs)) (casa_valores sd url pos' ps' es))"

definition extiende :: "'d routing_params \<Rightarrow> 'd routing_params \<Rightarrow> bool" where
  "extiende ps ps' \<longleftrightarrow>
     prefix (int_params ps) (int_params ps') \<and> prefix (uint_params ps) (uint_params ps') \<and>
     prefix (double_params ps) (double_params ps') \<and> prefix (string_params ps) (string_params ps')"

lemma extiende_refl: "extiende ps ps"
  by (simp add: extiende_def)

lemma extiende_trans: "extiende a b \<Longrightarrow> extiende b c \<Longrightarrow> extiende a c"
  by (auto simp: extiende_def intro: prefix_order.trans)

text \<open>One element pushes at most one value, on the vector of its type.\<close>

lemma consume_elem_empuja:
  assumes "consume_elem sd url pos (ty, k) ps = Some (pos', ps')"
  shows "(case ty of
      P_INT \<Rightarrow> \<exists>v. ps' = ps\<lparr>int_params := int_params ps @ [v]\<rparr>
    | P_UINT \<Rightarrow> \<exists>v. ps' = ps\<lparr>uint_params := uint_params ps @ [v]\<rparr>
    | P_DOUBLE \<Rightarrow> \<exists>v. ps' = ps\<lparr>double_params := double_params ps @ [v]\<rparr>
    | P_STRING \<Rightarrow> \<exists>v. ps' = ps\<lparr>string_params := string_params ps @ [v]\<rparr>
    | P_PATH \<Rightarrow> \<exists>v. ps' = ps\<lparr>string_params := string_params ps @ [v]\<rparr>
    | P_MAX \<Rightarrow> ps' = ps)"
  using assms
  by (cases ty) (auto simp: consume_elem_def consume_param_def Let_def split: if_splits)

lemma consume_elem_extiende: "consume_elem sd url pos e ps = Some (pos', ps') \<Longrightarrow> extiende ps ps'"
  by (cases e; cases "fst e") (auto dest!: consume_elem_empuja simp: extiende_def)

lemma casa_extiende: "casa sd url pos ps es = Some ps' \<Longrightarrow> extiende ps ps'"
  by (induction es arbitrary: pos ps)
    (auto simp: extiende_refl split: if_splits option.splits intro: extiende_trans consume_elem_extiende)

lemma indice_prefix: "prefix (xs @ [v]) ys \<Longrightarrow> indice ys (length xs) = Inr v"
  by (auto simp: prefix_def indice_def nth_append)

lemma llama_args_valores:
  assumes "casa sd url pos ps es = Some ps'"
  shows "\<exists>vs. casa_valores sd url pos ps es = Some vs \<and>
    llama_args (length (int_params ps)) (length (uint_params ps)) (length (double_params ps)) (length (string_params ps))
      (tipos es) ps' = Inr vs"
  using assms
proof (induction es arbitrary: pos ps)
  case (Cons e es)
  obtain ty k where e: "e = (ty, k)" by (cases e)
  from Cons.prems obtain pos1 ps1 where c: "pos \<noteq> length url" "consume_elem sd url pos (ty, k) ps = Some (pos1, ps1)"
      "casa sd url pos1 ps1 es = Some ps'"
    unfolding e by (auto split: if_splits option.splits)
  from Cons.IH [OF c(3)] obtain vs where vs: "casa_valores sd url pos1 ps1 es = Some vs"
      "llama_args (length (int_params ps1)) (length (uint_params ps1)) (length (double_params ps1))
        (length (string_params ps1)) (tipos es) ps' = Inr vs" by blast
  have "extiende ps1 ps'" by (rule casa_extiende [OF c(3)])
  then show ?case
    using consume_elem_empuja [OF c(2)] vs c(1,2) unfolding e
    by (cases ty) (auto simp: extiende_def dest!: indice_prefix)
qed (auto split: if_splits)

text \<open>The call of a handler is defined and gets the right arguments: when a pattern matches a URL, every
  vector of parameters is long enough for the positions that \<^verbatim>\<open>call\<close> reads, and the arguments are the values
  of the pattern's parameters in the order in which they stand in the URL, whatever their types.\<close>

theorem argumentos_de_la_ruta:
  assumes "casa sd url 0 sin_params es = Some ps"
  shows "\<exists>vs. casa_valores sd url 0 sin_params es = Some vs \<and> llama_args 0 0 0 0 (tipos es) ps = Inr vs"
  using llama_args_valores [OF assms] by (simp add: sin_params_def)

subsection \<open>The check of dynamic routes\<close>

text \<open>The number of base 6 digits of a tag.\<close>

function digitos :: "64 word \<Rightarrow> nat" where
  "digitos t = (if t = 0 then 0 else Suc (digitos (t div 6)))"
  by pat_completeness auto
termination
proof (relation "measure unat", goal_cases)
  case (2 t)
  then have "0 < unat t" by (simp add: unat_gt_0)
  then show ?case by (simp add: unat_div)
qed simp

declare digitos.simps [simp del]

text \<open>The check of a dynamic route compares the first tag with itself: it accepts a handler exactly when it
  takes as many parameters as the URL has, whatever their types.\<close>

theorem compatible_solo_cuenta: "is_parameter_tag_compatible a b \<longleftrightarrow> digitos a = digitos b"
proof (induction a b rule: is_parameter_tag_compatible.induct)
  case (1 a b)
  have d: "digitos t = (if t = 0 then 0 else Suc (digitos (t div 6)))" for t by (rule digitos.simps)
  show ?case
    using 1 by (subst is_parameter_tag_compatible.simps, subst (1 2) d) (auto simp: Let_def)
qed


subsection \<open>Examples\<close>

lemma elems_ejemplo:
  "elems_url ''/a/<string>/<int>'' =
     Some [(P_MAX, ''/''), (P_MAX, ''a''), (P_MAX, ''/''), (P_STRING, []), (P_MAX, ''/''), (P_INT, [])]"
  by (simp add: evalua_trie)

theorem etiqueta_tipos_testigo:
  "\<exists>t. get_parameter_tag ''/a/<string>/<int>'' = Inr t \<and> arguments t = Some [A_string, A_int64]"
  using etiqueta_tipos [OF elems_ejemplo] by simp

theorem argumentos_de_la_ruta_testigo:
  "\<exists>vs. casa_valores (\<lambda>_. None :: (nat \<times> nat) option) ''/-7'' 0 sin_params [(P_MAX, ''/''), (P_INT, [])] = Some vs \<and>
     llama_args 0 0 0 0 [A_int64] (sin_params\<lparr>int_params := [-7]\<rparr>) = Inr vs"
proof -
  have "casa (\<lambda>_. None :: (nat \<times> nat) option) ''/-7'' 0 sin_params [(P_MAX, ''/''), (P_INT, [])] =
      Some (sin_params\<lparr>int_params := [-7]\<rparr>)"
    by (simp add: consume_elem_def consume_param_def empieza_def sin_params_def
        strtoll_def salta_espacios_def es_espacio_def es_digito_def valor_decimal_def digito_def)
  from argumentos_de_la_ruta [OF this] show ?thesis by simp
qed

end
