(* ===== verification/Http.thy ===== *)
theory Http
  imports Cadenas
begin

text \<open>
  Requests and responses of Crow (\<^verbatim>\<open>includes/crow_all.h\<close>): the methods and their names, the headers with
  keys compared without case, and the operations of the structs \<^verbatim>\<open>request\<close> and \<^verbatim>\<open>response\<close>. Of the
  request the parsed query string and the pointers for middleware are left out; of a static file the
  path. The handler that completes a response belongs to the connection: here it is whether one is set,
  and \<^verbatim>\<open>end\<close> tells whether it calls it.
\<close>

subsection \<open>Methods\<close>

datatype (plugins only: code size) HTTPMethod =
    Delete | Get | Head | Post | Put | Connect | Options | Trace | Patch | Purge | Copy | Lock | MkCol | Move
  | Propfind | Proppatch | Search | Unlock | Bind | Rebind | Unbind | Acl | Report | MkActivity | Checkout
  | Merge | MSearch | Notify | Subscribe | Unsubscribe | MkCalendar | Link | Unlink | Source
  | InternalMethodCount

text \<open>The methods in the order of the enumeration; a method's number is its position.\<close>

definition metodos :: "HTTPMethod list" where
  "metodos =
     [Delete, Get, Head, Post, Put, Connect, Options, Trace, Patch, Purge, Copy, Lock, MkCol, Move,
      Propfind, Proppatch, Search, Unlock, Bind, Rebind, Unbind, Acl, Report, MkActivity, Checkout,
      Merge, MSearch, Notify, Subscribe, Unsubscribe, MkCalendar, Link, Unlink, Source]"

definition method_strings :: "string list" where
  "method_strings =
     [''DELETE'', ''GET'', ''HEAD'', ''POST'', ''PUT'', ''CONNECT'', ''OPTIONS'', ''TRACE'', ''PATCH'', ''PURGE'',
      ''COPY'', ''LOCK'', ''MKCOL'', ''MOVE'', ''PROPFIND'', ''PROPPATCH'', ''SEARCH'', ''UNLOCK'', ''BIND'',
      ''REBIND'', ''UNBIND'', ''ACL'', ''REPORT'', ''MKACTIVITY'', ''CHECKOUT'', ''MERGE'', ''M-SEARCH'',
      ''NOTIFY'', ''SUBSCRIBE'', ''UNSUBSCRIBE'', ''MKCALENDAR'', ''LINK'', ''UNLINK'', ''SOURCE'']"

definition method_name :: "HTTPMethod \<Rightarrow> string" where
  "method_name m = (case map_of (zip metodos method_strings) m of Some s \<Rightarrow> s | None \<Rightarrow> ''invalid'')"

text \<open>Comparison of C strings: the end of the list is the terminating null character.\<close>

fun is_equ_p :: "string \<Rightarrow> string \<Rightarrow> nat \<Rightarrow> bool" where
  "is_equ_p [] [] n = (n = 0)"
| "is_equ_p [] (b # bs) n = False"
| "is_equ_p (a # as) [] n = False"
| "is_equ_p (a # as) (b # bs) n = (if n = 0 then True else if a \<noteq> b then False else is_equ_p as bs (n - 1))"

definition metodos_por_nombre :: "(string \<times> nat \<times> HTTPMethod) list" where
  "metodos_por_nombre =
     [(''GET'', 3, Get), (''DELETE'', 6, Delete), (''HEAD'', 4, Head), (''POST'', 4, Post), (''PUT'', 3, Put),
      (''OPTIONS'', 7, Options), (''CONNECT'', 7, Connect), (''TRACE'', 5, Trace),
      (''PATCH'', 5, Patch), (''PURGE'', 5, Purge), (''COPY'', 4, Copy), (''LOCK'', 4, Lock), (''MKCOL'', 5, MkCol),
      (''MOVE'', 4, Move), (''PROPFIND'', 8, Propfind), (''PROPPATCH'', 9, Proppatch), (''SEARCH'', 6, Search),
      (''UNLOCK'', 6, Unlock), (''BIND'', 4, Bind), (''REBIND'', 6, Rebind), (''UNBIND'', 6, Unbind), (''ACL'', 3, Acl),
      (''REPORT'', 6, Report), (''MKACTIVITY'', 10, MkActivity), (''CHECKOUT'', 8, Checkout), (''MERGE'', 5, Merge),
      (''MSEARCH'', 7, MSearch), (''NOTIFY'', 6, Notify), (''SUBSCRIBE'', 9, Subscribe),
      (''UNSUBSCRIBE'', 11, Unsubscribe), (''MKCALENDAR'', 10, MkCalendar), (''LINK'', 4, Link),
      (''UNLINK'', 6, Unlink), (''SOURCE'', 6, Source)]"

text \<open>\<open>None\<close>: \<^verbatim>\<open>runtime_error("invalid http method")\<close>.\<close>

definition method_from_string :: "string \<Rightarrow> HTTPMethod option" where
  "method_from_string str =
     map_option (\<lambda>x. snd (snd x)) (find (\<lambda>x. is_equ_p str (fst x) (fst (snd x))) metodos_por_nombre)"

lemma is_equ_p_iff: "is_equ_p a b (length b) \<longleftrightarrow> a = b"
  by (induction a b "length b" rule: is_equ_p.induct) auto

lemma metodos_por_nombre_largo: "x \<in> set metodos_por_nombre \<Longrightarrow> fst (snd x) = length (fst x)"
  by (auto simp: metodos_por_nombre_def)

text \<open>The number a method has in the enumeration.\<close>

definition numero :: "HTTPMethod \<Rightarrow> nat" where
  "numero m = length (takeWhile (\<lambda>x. x \<noteq> m) metodos)"

lemma length_metodos: "length metodos = 34"
  by (simp add: metodos_def)

lemma metodos_todos: "m \<noteq> InternalMethodCount \<Longrightarrow> m \<in> set metodos"
  by (cases m) (simp_all add: metodos_def)

lemma metodos_distintos: "distinct metodos"
  by (simp add: metodos_def)

text \<open>The name of a method, read back, is the method, except for \<^verbatim>\<open>M-SEARCH\<close>, which \<^verbatim>\<open>method_from_string\<close>
  spells \<^verbatim>\<open>MSEARCH\<close> and refuses under its name.\<close>

theorem metodo_ida_y_vuelta:
  "method_from_string (method_name m) = (if m = MSearch \<or> m = InternalMethodCount then None else Some m)"
proof (cases "m \<in> set metodos")
  case True
  then show ?thesis
    unfolding metodos_def
    by (auto simp: method_name_def metodos_def method_strings_def method_from_string_def metodos_por_nombre_def)
next
  case False
  then have "m = InternalMethodCount" using metodos_todos by blast
  then show ?thesis
    by (simp add: method_name_def metodos_def method_strings_def method_from_string_def metodos_por_nombre_def)
qed


subsection \<open>Headers\<close>

definition toupper :: "char \<Rightarrow> char" where
  "toupper c = (if CHR ''a'' \<le> c \<and> c \<le> CHR ''z'' then char_of (of_char c - 32 :: nat) else c)"

definition string_equals :: "string \<Rightarrow> string \<Rightarrow> bool \<Rightarrow> bool" where
  "string_equals l r case_sensitive \<longleftrightarrow>
     length l = length r \<and>
     list_all2 (\<lambda>a b. if case_sensitive then a = b else toupper a = toupper b) l r"

definition ci_key_eq :: "string \<Rightarrow> string \<Rightarrow> bool" where
  "ci_key_eq l r = string_equals l r False"

text \<open>
  \<^verbatim>\<open>ci_map\<close>, an \<^verbatim>\<open>unordered_multimap\<close>: the list of its entries. The library leaves open which of several
  entries with equal keys \<^verbatim>\<open>find\<close> returns; here it is the first.
\<close>

type_synonym ci_map = "(string \<times> string) list"

definition ci_count :: "ci_map \<Rightarrow> string \<Rightarrow> nat" where
  "ci_count hs k = length (filter (\<lambda>x. ci_key_eq (fst x) k) hs)"

definition ci_emplace :: "string \<Rightarrow> string \<Rightarrow> ci_map \<Rightarrow> ci_map" where
  "ci_emplace k v hs = hs @ [(k, v)]"

definition ci_erase :: "string \<Rightarrow> ci_map \<Rightarrow> ci_map" where
  "ci_erase k hs = filter (\<lambda>x. \<not> ci_key_eq (fst x) k) hs"

definition get_header_value :: "ci_map \<Rightarrow> string \<Rightarrow> string" where
  "get_header_value hs key =
     (if ci_count hs key \<noteq> 0 then (case find (\<lambda>x. ci_key_eq (fst x) key) hs of Some x \<Rightarrow> snd x | None \<Rightarrow> [])
      else [])"

lemma string_equals_sin_caja: "string_equals l r False \<longleftrightarrow> map toupper l = map toupper r"
  by (auto simp: string_equals_def list_all2_conv_all_nth list_eq_iff_nth_eq)

lemma ci_key_eq_iff: "ci_key_eq l r \<longleftrightarrow> map toupper l = map toupper r"
  by (simp add: ci_key_eq_def string_equals_sin_caja)

lemma get_header_value_find:
  "get_header_value hs key = (case find (\<lambda>x. ci_key_eq (fst x) key) hs of Some x \<Rightarrow> snd x | None \<Rightarrow> [])"
  by (auto simp: get_header_value_def ci_count_def find_None_iff find_Some_iff filter_empty_conv split: option.split)

lemma find_append: "find P (xs @ ys) = (case find P xs of Some x \<Rightarrow> Some x | None \<Rightarrow> find P ys)"
  by (induction xs) auto

lemma find_filter_no: "find P (filter (\<lambda>x. \<not> P x) xs) = None"
  by (simp add: find_None_iff)

lemma find_filter_otros: "(\<And>x. P x \<Longrightarrow> Q x) \<Longrightarrow> find P (filter Q xs) = find P xs"
  by (induction xs) auto

subsection \<open>Requests and responses\<close>

record request =
  req_method :: HTTPMethod
  raw_url :: string
  url :: string
  req_headers :: ci_map
  req_body :: string
  remote_ip_address :: string
  http_ver_major :: nat
  http_ver_minor :: nat
  keep_alive :: bool
  close_connection :: bool
  req_upgrade :: bool

definition request_vacia :: request where
  "request_vacia =
     \<lparr>req_method = Get, raw_url = [], url = [], req_headers = [], req_body = [], remote_ip_address = [],
      http_ver_major = 0, http_ver_minor = 0, keep_alive = False, close_connection = False, req_upgrade = False\<rparr>"

definition check_version :: "request \<Rightarrow> nat \<Rightarrow> nat \<Rightarrow> bool" where
  "check_version req major minor \<longleftrightarrow> http_ver_major req = major \<and> http_ver_minor req = minor"

record response =
  code :: int
  body :: string
  headers :: ci_map
  skip_body :: bool
  manual_length_header :: bool
  completed :: bool
  con_manejador :: bool
  file_path :: string

definition response_code :: "int \<Rightarrow> response" where
  "response_code c =
     \<lparr>code = c, body = [], headers = [], skip_body = False, manual_length_header = False, completed = False,
      con_manejador = False, file_path = []\<rparr>"

definition response_body :: "string \<Rightarrow> response" where
  "response_body b = (response_code 200)\<lparr>body := b\<rparr>"

definition set_header :: "string \<Rightarrow> string \<Rightarrow> response \<Rightarrow> response" where
  "set_header k v res = res\<lparr>headers := ci_emplace k v (ci_erase k (headers res))\<rparr>"

definition add_header :: "string \<Rightarrow> string \<Rightarrow> response \<Rightarrow> response" where
  "add_header k v res = res\<lparr>headers := ci_emplace k v (headers res)\<rparr>"

text \<open>\<^verbatim>\<open>response(returnable&)\<close>: the dump of the value and its content type.\<close>

definition response_returnable :: "string \<Rightarrow> string \<Rightarrow> response" where
  "response_returnable content_type dump = set_header ''Content-Type'' content_type (response_body dump)"

text \<open>Move assignment keeps the handlers and the flags of the length header of its target.\<close>

definition asigna :: "response \<Rightarrow> response \<Rightarrow> response" where
  "asigna res r =
     res\<lparr>body := body r, code := code r, headers := headers r, completed := completed r, file_path := file_path r\<rparr>"

definition clear_res :: "response \<Rightarrow> response" where
  "clear_res res = res\<lparr>body := [], code := 200, headers := [], completed := False, file_path := []\<rparr>"

definition redirect :: "string \<Rightarrow> response \<Rightarrow> response" where
  "redirect location res = set_header ''Location'' location (res\<lparr>code := 307\<rparr>)"

definition redirect_perm :: "string \<Rightarrow> response \<Rightarrow> response" where
  "redirect_perm location res = set_header ''Location'' location (res\<lparr>code := 308\<rparr>)"

definition moved :: "string \<Rightarrow> response \<Rightarrow> response" where
  "moved location res = set_header ''Location'' location (res\<lparr>code := 302\<rparr>)"

definition moved_perm :: "string \<Rightarrow> response \<Rightarrow> response" where
  "moved_perm location res = set_header ''Location'' location (res\<lparr>code := 301\<rparr>)"

definition write_res :: "string \<Rightarrow> response \<Rightarrow> response" where
  "write_res part res = res\<lparr>body := body res @ part\<rparr>"

text \<open>\<^verbatim>\<open>end()\<close>: the response, and whether the completion handler is called.\<close>

definition end_res :: "response \<Rightarrow> response \<times> bool" where
  "end_res res =
     (if completed res then (res, False)
      else
        let r1 = res\<lparr>completed := True\<rparr>;
            r2 = (if skip_body r1
                  then (set_header ''Content-Length'' (decimal (length (body r1))) r1)\<lparr>body := [], manual_length_header := True\<rparr>
                  else r1)
        in (r2, con_manejador r2))"

definition is_completed :: "response \<Rightarrow> bool" where
  "is_completed res = completed res"

text \<open>The check of MIME types; the table of extensions is an argument.\<close>

definition valid_parent_types :: "string list" where
  "valid_parent_types =
     [''application/'', ''audio/'', ''font/'', ''example/'', ''image/'', ''message/'', ''model/'', ''multipart/'',
      ''text/'', ''video/'']"

definition validate_mime_type :: "string \<Rightarrow> bool" where
  "validate_mime_type candidate =
     list_ex (\<lambda>parent. \<not> length candidate \<le> length parent \<and> take (length parent) candidate = parent) valid_parent_types"

definition get_mime_type :: "(string \<rightharpoonup> string) \<Rightarrow> string \<Rightarrow> string" where
  "get_mime_type mime_types contentType =
     (case mime_types contentType of
        Some t \<Rightarrow> t
      | None \<Rightarrow> if validate_mime_type contentType then contentType else ''text/plain'')"

subsection \<open>Laws of headers\<close>

text \<open>
  The interface of a header table: what a lookup gives after each operation. It is stated for any
  comparison of keys and holds of \<^verbatim>\<open>ci_map\<close>.
\<close>

locale tabla_cabeceras =
  fixes igual :: "string \<Rightarrow> string \<Rightarrow> bool"
    and busca_c :: "'t \<Rightarrow> string \<Rightarrow> string"
    and pon :: "string \<Rightarrow> string \<Rightarrow> 't \<Rightarrow> 't"
    and quita :: "string \<Rightarrow> 't \<Rightarrow> 't"
  assumes igual_refl: "igual k k"
    and igual_trans: "igual a b \<Longrightarrow> igual a c \<Longrightarrow> igual b c"
    and busca_quita: "igual k k' \<Longrightarrow> busca_c (quita k t) k' = []"
    and busca_quita_otro: "\<not> igual k k' \<Longrightarrow> busca_c (quita k t) k' = busca_c t k'"
    and busca_pon: "igual k k' \<Longrightarrow> busca_c (pon k v (quita k t)) k' = v"
    and busca_pon_otro: "\<not> igual k k' \<Longrightarrow> busca_c (pon k v t) k' = busca_c t k'"
begin

lemma busca_sustituye:
  "busca_c (pon k v (quita k t)) k' = (if igual k k' then v else busca_c t k')"
  using busca_pon [of k k' v t] busca_pon_otro [of k k' v] busca_quita_otro [of k k'] by auto

lemma busca_sustituye_dos:
  "\<not> igual k l \<Longrightarrow> busca_c (pon l w (quita l (pon k v (quita k t)))) k = v"
  using igual_refl igual_trans by (metis busca_sustituye)

end

lemma ci_key_eq_trans: "ci_key_eq a b \<Longrightarrow> ci_key_eq a c \<Longrightarrow> ci_key_eq b c"
  by (simp add: ci_key_eq_iff)

lemma ci_busca_erase:
  "get_header_value (ci_erase k hs) k' = (if ci_key_eq k k' then [] else get_header_value hs k')"
proof (cases "ci_key_eq k k'")
  case True
  then have "find (\<lambda>x. ci_key_eq (fst x) k') (ci_erase k hs) = None"
    by (auto simp: find_None_iff ci_erase_def ci_key_eq_iff)
  then show ?thesis using True by (simp add: get_header_value_find)
next
  case False
  then have "find (\<lambda>x. ci_key_eq (fst x) k') (ci_erase k hs) = find (\<lambda>x. ci_key_eq (fst x) k') hs"
    unfolding ci_erase_def by (intro find_filter_otros) (auto simp: ci_key_eq_iff)
  then show ?thesis using False by (simp add: get_header_value_find)
qed

lemma ci_busca_emplace_otro: "\<not> ci_key_eq k k' \<Longrightarrow> get_header_value (ci_emplace k v hs) k' = get_header_value hs k'"
  by (simp add: get_header_value_find ci_emplace_def find_append split: option.split)

lemma ci_busca_emplace: "ci_key_eq k k' \<Longrightarrow> get_header_value (ci_emplace k v (ci_erase k hs)) k' = v"
proof -
  assume k: "ci_key_eq k k'"
  then have "find (\<lambda>x. ci_key_eq (fst x) k') (ci_erase k hs) = None"
    by (auto simp: find_None_iff ci_erase_def ci_key_eq_iff)
  then show ?thesis using k by (simp add: get_header_value_find ci_emplace_def find_append)
qed

interpretation ci: tabla_cabeceras ci_key_eq get_header_value ci_emplace ci_erase
  by unfold_locales (auto simp: ci_busca_erase ci_busca_emplace_otro ci_busca_emplace ci_key_eq_iff)

lemma get_header_set_header:
  "get_header_value (headers (set_header k v res)) k' =
     (if ci_key_eq k k' then v else get_header_value (headers res) k')"
  using ci.busca_sustituye [of k v "headers res" k'] by (simp add: set_header_def)

lemma end_res_una_vez: "end_res (fst (end_res res)) = (fst (end_res res), False)"
  by (simp add: end_res_def Let_def set_header_def)

end
