(* ===== verification/Router.thy ===== *)
theory Router
  imports Etiquetas Http
begin

text \<open>
  The router of Crow, class \<^verbatim>\<open>Router\<close> of \<^verbatim>\<open>includes/crow_all.h\<close>: rules with their methods and handlers, their
  registration in one search tree per method, the choice of a rule for a request, and the call of its
  handler. The program has neither blueprints nor middleware; both are left out. A handler works on a
  state of the application, which is a parameter.
\<close>

unbundle bit_operations_syntax

subsection \<open>Rules\<close>

text \<open>
  A handler gets the request, the response and its arguments; it gives the response it leaves and whether
  it called the completion handler, or fails, and the new state.
\<close>

type_synonym ('d, 's) manejador_ruta = "request \<Rightarrow> response \<Rightarrow> 'd valor list \<Rightarrow> 's \<Rightarrow> (response \<times> bool) res \<times> 's"

record ('d, 's) regla =
  rule_url :: string
  metodos_mascara :: uint32
  rule_name :: string
  args_tipos :: "tipo_arg list"
  rule_handler :: "('d, 's) manejador_ruta option"

text \<open>\<^verbatim>\<open>wrapped_handler_call\<close> for a function that returns its response.\<close>

definition wrapped_handler_call ::
    "(request \<Rightarrow> 'd valor list \<Rightarrow> 's \<Rightarrow> response res \<times> 's) \<Rightarrow> ('d, 's) manejador_ruta" where
  "wrapped_handler_call f req res args s =
     (case f req args s of
        (Inl e, s') \<Rightarrow> (Inl e, s')
      | (Inr r, s') \<Rightarrow> (Inr (end_res (asigna res r)), s'))"

text \<open>
  \<^verbatim>\<open>new_rule_tagged\<close> and \<^verbatim>\<open>methods\<close>. The shift of an \<^verbatim>\<open>int\<close> by 32 or more is undefined.
\<close>

definition nueva_regla :: "string \<Rightarrow> tipo_arg list \<Rightarrow> ('d, 's) regla" where
  "nueva_regla u ts = \<lparr>rule_url = u, metodos_mascara = push_bit (numero Get) 1, rule_name = [], args_tipos = ts, rule_handler = None\<rparr>"

definition con_metodo :: "HTTPMethod \<Rightarrow> ('d, 's) regla \<Rightarrow> ('d, 's) regla res" where
  "con_metodo m r = (if 32 \<le> numero m then Inl Indefinido else Inr (r\<lparr>metodos_mascara := push_bit (numero m) 1\<rparr>))"

definition foreach_method :: "('d, 's) regla \<Rightarrow> nat list" where
  "foreach_method r = filter (\<lambda>i. metodos_mascara r AND push_bit i 1 \<noteq> 0) [0..<length metodos]"

datatype validate_fallo = Add add_fallo | Sin_barra | Sin_manejador | Raiz_no_simple | Fuera_de_rango

text \<open>\<^verbatim>\<open>TaggedRule::validate\<close>.\<close>

definition validate_rule :: "('d, 's) regla \<Rightarrow> validate_fallo + unit" where
  "validate_rule r =
     (if rule_url r = [] then Inl Fuera_de_rango
      else if hd (rule_url r) \<noteq> CHR ''/'' then Inl Sin_barra
      else if rule_handler r = None then Inl Sin_manejador
      else Inr ())"

subsection \<open>Registration\<close>

record ('d, 's) PerMethod =
  rules :: "('d, 's) regla option list"
  trie :: Node

definition per_method_nuevo :: "('d, 's) PerMethod" where
  "per_method_nuevo = \<lparr>rules = [None, None], trie = nodo_nuevo\<rparr>"

record ('d, 's) router =
  per_methods :: "('d, 's) PerMethod list"
  all_rules :: "('d, 's) regla list"
  catchall :: "(request \<Rightarrow> response \<Rightarrow> response \<times> bool) option"

definition router_nuevo :: "('d, 's) router" where
  "router_nuevo = \<lparr>per_methods = replicate (length metodos) per_method_nuevo, all_rules = [], catchall = None\<rparr>"

definition RULE_SPECIAL_REDIRECT_SLASH :: uint16 where
  "RULE_SPECIAL_REDIRECT_SLASH = 1"

definition barra_final :: "string \<Rightarrow> bool" where
  "barra_final rule \<longleftrightarrow> 1 < length rule \<and> last rule = CHR ''/''"

text \<open>The body of \<^verbatim>\<open>internal_add_rule_object\<close> for one method; the rule index is cut to 16 bits.\<close>

definition add_a_metodo :: "('d, 's) regla \<Rightarrow> ('d, 's) PerMethod \<Rightarrow> validate_fallo + ('d, 's) PerMethod" where
  "add_a_metodo r pm =
     (let rs = rules pm @ [Some r] in
      case add_url (rule_url r) (of_nat (length rs - 1)) 0 INVALID_BP_ID (trie pm) of
        Inl e \<Rightarrow> Inl (Add e)
      | Inr t \<Rightarrow>
          if barra_final (rule_url r) then
            (case add_url (butlast (rule_url r)) RULE_SPECIAL_REDIRECT_SLASH 0 INVALID_BP_ID t of
               Inl e \<Rightarrow> Inl (Add e)
             | Inr t' \<Rightarrow> Inr \<lparr>rules = rs, trie = t'\<rparr>)
          else Inr \<lparr>rules = rs, trie = t\<rparr>)"

fun para_metodos ::
    "(('d, 's) PerMethod \<Rightarrow> validate_fallo + ('d, 's) PerMethod) \<Rightarrow> nat list \<Rightarrow> ('d, 's) PerMethod list \<Rightarrow>
     validate_fallo + ('d, 's) PerMethod list" where
  "para_metodos f [] pms = Inr pms"
| "para_metodos f (i # is) pms =
     (case f (pms ! i) of Inl e \<Rightarrow> Inl e | Inr pm \<Rightarrow> para_metodos f is (pms[i := pm]))"

definition internal_add_rule_object ::
    "('d, 's) regla \<Rightarrow> ('d, 's) PerMethod list \<Rightarrow> validate_fallo + ('d, 's) PerMethod list" where
  "internal_add_rule_object r pms = para_metodos (add_a_metodo r) (foreach_method r) pms"

fun add_reglas :: "('d, 's) regla list \<Rightarrow> ('d, 's) PerMethod list \<Rightarrow> validate_fallo + ('d, 's) PerMethod list" where
  "add_reglas [] pms = Inr pms"
| "add_reglas (r # rs) pms =
     (case validate_rule r of
        Inl e \<Rightarrow> Inl e
      | Inr _ \<Rightarrow> (case internal_add_rule_object r pms of Inl e \<Rightarrow> Inl e | Inr pms' \<Rightarrow> add_reglas rs pms'))"

fun valida_arboles :: "('d, 's) PerMethod list \<Rightarrow> validate_fallo + ('d, 's) PerMethod list" where
  "valida_arboles [] = Inr []"
| "valida_arboles (pm # pms) =
     (case validate (trie pm) of
        None \<Rightarrow> Inl Raiz_no_simple
      | Some t \<Rightarrow> map_sum id (Cons (pm\<lparr>trie := t\<rparr>)) (valida_arboles pms))"

text \<open>\<^verbatim>\<open>Router::validate\<close>; the program has no websocket rules, so no rule is upgraded.\<close>

definition validate_router :: "('d, 's) router \<Rightarrow> validate_fallo + ('d, 's) router" where
  "validate_router rt =
     (case add_reglas (all_rules rt) (per_methods rt) of
        Inl e \<Rightarrow> Inl e
      | Inr pms \<Rightarrow> map_sum id (\<lambda>pms'. rt\<lparr>per_methods := pms'\<rparr>) (valida_arboles pms))"

subsection \<open>Choice of a rule\<close>

text \<open>The method of the result is set last; it is indeterminate (\<open>None\<close>) before.\<close>

record 'd routing_handle_result =
  found_index :: uint16
  blueprint_indices :: "uint16 list"
  r_params :: "'d routing_params"
  found_method :: "HTTPMethod option"

definition resultado :: "'d hallado \<Rightarrow> 'd routing_handle_result" where
  "resultado h = (case h of (i, bps, ps) \<Rightarrow>
     \<lparr>found_index = i, blueprint_indices = bps, r_params = ps, found_method = None\<rparr>)"

definition find_metodo ::
    "(string \<Rightarrow> ('d \<times> nat) option) \<Rightarrow> ('d, 's) router \<Rightarrow> HTTPMethod \<Rightarrow> string \<Rightarrow> 'd hallado" where
  "find_metodo sd rt m u = find_url sd u (trie (per_methods rt ! numero m))"

definition encuentra :: "(string \<Rightarrow> ('d \<times> nat) option) \<Rightarrow> string \<Rightarrow> ('d, 's) PerMethod \<Rightarrow> bool" where
  "encuentra sd u pm \<longleftrightarrow> fst (find_url sd u (trie pm)) \<noteq> 0"

text \<open>\<^verbatim>\<open>get_error\<close> without blueprints: the catch-all rule if there is one.\<close>

definition get_error :: "('d, 's) router \<Rightarrow> int \<Rightarrow> request \<Rightarrow> response \<Rightarrow> response \<times> bool" where
  "get_error rt c req res =
     (case catchall rt of None \<Rightarrow> (res\<lparr>code := c\<rparr>, False) | Some f \<Rightarrow> f req (res\<lparr>code := c\<rparr>))"

definition allow_de :: "('d, 's) router \<Rightarrow> (('d, 's) PerMethod \<Rightarrow> bool) \<Rightarrow> string" where
  "allow_de rt P =
     (let allow = ''OPTIONS, HEAD, '' @
        concat (map (\<lambda>(m, pm). if m \<noteq> Head \<and> P pm then method_name m @ '', '' else []) (zip metodos (per_methods rt)))
      in take (length allow - 2) allow)"

text \<open>A response that is assigned and ended at once.\<close>

definition termina_con :: "response \<Rightarrow> response \<Rightarrow> response \<times> bool" where
  "termina_con r res = end_res (asigna res r)"

definition handle_initial ::
    "(string \<Rightarrow> ('d \<times> nat) option) \<Rightarrow> ('d, 's) router \<Rightarrow> request \<Rightarrow> response \<Rightarrow>
     'd routing_handle_result \<times> response \<times> bool" where
  "handle_initial sd rt req res =
     (let found0 = \<lparr>found_index = 0, blueprint_indices = [], r_params = sin_params, found_method = Some InternalMethodCount\<rparr>;
          m = req_method req;
          u = url req
      in
      if m = InternalMethodCount then (found0, res, False)
      else if m = Head then
        (let f1 = resultado (find_metodo sd rt Head u) in
         if found_index f1 \<noteq> 0 then (f1\<lparr>found_method := Some Head\<rparr>, res\<lparr>skip_body := True\<rparr>, False)
         else
           let f2 = resultado (find_metodo sd rt Get u) in
           if found_index f2 = 0 then (f2, termina_con (response_code 404) res)
           else (f2\<lparr>found_method := Some Get\<rparr>, res\<lparr>skip_body := True\<rparr>, False))
      else if m = Options then
        (if u = ''/*'' then
           (found0\<lparr>found_method := Some Options\<rparr>,
            termina_con (set_header ''Allow'' (allow_de rt (\<lambda>pm. \<not> is_empty (trie pm))) (response_code 204)) res)
         else if list_ex (encuentra sd u) (per_methods rt) then
           (found0\<lparr>found_method := Some Options\<rparr>,
            termina_con (set_header ''Allow'' (allow_de rt (encuentra sd u)) (response_code 204)) res)
         else (found0, termina_con (response_code 404) res))
      else
        (let f = resultado (find_metodo sd rt m u) in
         if found_index f = 0 then
           (let (res', b) = get_error rt (if list_ex (encuentra sd u) (per_methods rt) then 405 else 404) req res;
                (res'', b') = end_res res'
            in (f, res'', b \<or> b'))
         else (f\<lparr>found_method := Some m\<rparr>, res, False)))"

subsection \<open>Call of the handler\<close>

definition rule_handle ::
    "('d, 's) regla \<Rightarrow> request \<Rightarrow> response \<Rightarrow> 'd routing_params \<Rightarrow> 's \<Rightarrow> (response \<times> bool) res \<times> 's" where
  "rule_handle r req res ps s =
     (case llama_args 0 0 0 0 (args_tipos r) ps of
        Inl e \<Rightarrow> (Inl e, s)
      | Inr vs \<Rightarrow> (case rule_handler r of None \<Rightarrow> (Inl (Excepcion Runtime_error), s) | Some h \<Rightarrow> h req res vs s))"

definition redirige_barra :: "request \<Rightarrow> response \<Rightarrow> response \<times> bool" where
  "redirige_barra req res =
     (let host = get_header_value (req_headers req) ''Host'';
          r = asigna res (response_code 301);
          location = (if host = [] then url req @ ''/'' else ''http://'' @ host @ url req @ ''/'')
      in end_res (add_header ''Location'' location r))"

text \<open>\<^verbatim>\<open>Router::handle\<close>: every exception of the handler becomes a 500.\<close>

definition handle_router ::
    "('d, 's) router \<Rightarrow> request \<Rightarrow> response \<Rightarrow> 'd routing_handle_result \<Rightarrow> 's \<Rightarrow> (response \<times> bool) res \<times> 's" where
  "handle_router rt req res found s =
     (case found_method found of
        None \<Rightarrow> (Inl Indefinido, s)
      | Some m \<Rightarrow>
          let rs = rules (per_methods rt ! numero m); i = unat (found_index found) in
          if length rs \<le> i then (Inl (Excepcion Runtime_error), s)
          else if found_index found = RULE_SPECIAL_REDIRECT_SLASH then (Inr (redirige_barra req res), s)
          else
            (case rs ! i of
               None \<Rightarrow> (Inl Indefinido, s)
             | Some r \<Rightarrow>
                 (case rule_handle r req res (r_params found) s of
                    (Inl (Excepcion _), s') \<Rightarrow> (Inr (termina_con (response_code 500) res), s')
                  | x \<Rightarrow> x)))"

text \<open>\<^verbatim>\<open>Router::handle_upgrade\<close>; a rule that is no websocket answers 404.\<close>

definition handle_upgrade ::
    "(string \<Rightarrow> ('d \<times> nat) option) \<Rightarrow> ('d, 's) router \<Rightarrow> request \<Rightarrow> response \<Rightarrow> (response \<times> bool) res" where
  "handle_upgrade sd rt req res =
     (if req_method req = InternalMethodCount then Inr (res, False)
      else
        let pm = per_methods rt ! numero (req_method req);
            i = fst (find_url sd (url req) (trie pm))
        in
        if i = 0 then
          Inr (termina_con (response_code (if list_ex (encuentra sd (url req)) (per_methods rt) then 405 else 404)) res)
        else if length (rules pm) \<le> unat i then Inl (Excepcion Runtime_error)
        else if i = RULE_SPECIAL_REDIRECT_SLASH then Inr (redirige_barra req res)
        else
          (case rules pm ! unat i of
             None \<Rightarrow> Inl Indefinido
           | Some r \<Rightarrow> Inr (termina_con (response_code 404) res)))"

text \<open>\<^verbatim>\<open>Crow::handle_full\<close>: the whole way of a request.\<close>

definition handle_full ::
    "(string \<Rightarrow> ('d \<times> nat) option) \<Rightarrow> ('d, 's) router \<Rightarrow> request \<Rightarrow> response \<Rightarrow> 's \<Rightarrow> (response \<times> bool) res \<times> 's" where
  "handle_full sd rt req res s =
     (case handle_initial sd rt req res of
        (found, res', b) \<Rightarrow> if found_index found \<noteq> 0 then handle_router rt req res' found s else (Inr (res', b), s))"


subsection \<open>Registration gives one table per method\<close>

text \<open>The rules of one method, and the table of patterns that its tree should hold.\<close>

definition de_metodo :: "nat \<Rightarrow> ('d, 's) regla list \<Rightarrow> ('d, 's) regla list" where
  "de_metodo i rs = filter (\<lambda>r. i \<in> set (foreach_method r)) rs"

definition patron_de :: "('d, 's) regla \<Rightarrow> elem list" where
  "patron_de r = the (elems_url (rule_url r))"

definition tabla_de :: "('d, 's) regla list \<Rightarrow> (elem list \<times> uint16) set" where
  "tabla_de rs = (\<lambda>k. (patron_de (rs ! k), of_nat (k + 2))) ` {..<length rs}"

definition regla_ok :: "('d, 's) regla \<Rightarrow> bool" where
  "regla_ok r \<longleftrightarrow>
     validate_rule r = Inr () \<and> elems_url (rule_url r) \<noteq> None \<and> CHR 0x00 \<notin> set (rule_url r) \<and> \<not> barra_final (rule_url r)"

definition reglas_ok :: "('d, 's) regla list \<Rightarrow> bool" where
  "reglas_ok rs \<longleftrightarrow>
     list_all regla_ok rs \<and> length rs + 2 < 2 ^ 16 \<and>
     (\<forall>i < length metodos. distinct (map patron_de (de_metodo i rs)))"

text \<open>A tree whose root has nothing but the slash below it.\<close>

definition raiz_barra :: "Node \<Rightarrow> bool" where
  "raiz_barra t \<longleftrightarrow>
     rule_index t = 0 \<and> blueprint_index t = INVALID_BP_ID \<and> param t = P_MAX \<and>
     list_all (\<lambda>c. param c = P_MAX \<and> key c = ''/'') (children t)"

definition metodo_ok :: "('d, 's) regla list \<Rightarrow> ('d, 's) PerMethod \<Rightarrow> bool" where
  "metodo_ok rs pm \<longleftrightarrow>
     rules pm = [None, None] @ map Some rs \<and> sin_comprimir (trie pm) \<and> distintos (trie pm) \<and>
     patrones (trie pm) = tabla_de rs \<and> raiz_barra (trie pm) \<and> (rs = [] \<longrightarrow> children (trie pm) = [])"

lemma tabla_de_snoc: "tabla_de (rs @ [r]) = insert (patron_de r, of_nat (length rs + 2)) (tabla_de rs)"
proof -
  have "(\<lambda>k. (patron_de ((rs @ [r]) ! k), of_nat (k + 2) :: uint16)) ` {..<length rs} = tabla_de rs"
    unfolding tabla_de_def by (rule image_cong) (simp_all add: nth_append)
  then show ?thesis
    by (simp add: tabla_de_def [of "rs @ [r]"] lessThan_Suc del: of_nat_add of_nat_Suc)
qed

lemma tabla_de_patron: "(es, i) \<in> tabla_de rs \<Longrightarrow> es \<in> patron_de ` set rs"
  by (auto simp: tabla_de_def)

lemma list_all_update: "list_all P xs \<Longrightarrow> P x \<Longrightarrow> list_all P (xs[i := x])"
  using set_update_subset_insert [of xs i x] by (auto simp: list_all_iff)

lemma add_raiz_barra:
  assumes "raiz_barra t" "sin_comprimir t" "add_url (CHR ''/'' # u) ri 0 INVALID_BP_ID t = Inr t'"
  shows "raiz_barra t'"
proof -
  obtain r b k pa cs where t: "t = Node r b k pa cs" by (cases t)
  have "CHR ''/'' \<noteq> CHR 0x00" "CHR ''/'' \<noteq> CHR ''<''" by simp_all
  then show ?thesis
    using assms primero_Some [of "\<lambda>h. car0 (key h) = CHR ''/''" cs] unfolding t add_url_def
    by (auto simp: add_desde.simps(2) raiz_barra_def list_all_length [of _ cs] map_sum_Inr list_all_update dest!: add_desde_raiz
        split: option.splits)
qed

lemma add_a_metodo_ok:
  assumes "metodo_ok rs pm" "regla_ok r" "length rs + 2 < 2 ^ 16" "patron_de r \<notin> patron_de ` set rs"
  shows "\<exists>pm'. add_a_metodo r pm = Inr pm' \<and> metodo_ok (rs @ [r]) pm'"
proof -
  define n where "n = length rs + 2"
  let ?i = "of_nat n :: uint16"
  have e: "elems_url (rule_url r) = Some (patron_de r)" using assms(2) by (auto simp: regla_ok_def patron_de_def)
  obtain u where u: "rule_url r = CHR ''/'' # u"
    using assms(2) by (cases "rule_url r") (auto simp: regla_ok_def validate_rule_def split: if_splits)
  have "n < 2 ^ 16" "n \<noteq> 0" using assms(3) by (simp_all add: n_def)
  then have "unat ?i = n" by (simp add: unat_of_nat)
  with \<open>n \<noteq> 0\<close> have i: "?i \<noteq> 0" by (metis unat_0)
  have inv: "sin_comprimir (trie pm) \<and> distintos (trie pm)" using assms(1) by (simp add: metodo_ok_def)
  have n: "CHR 0x00 \<notin> set (rule_url r)" using assms(2) by (simp add: regla_ok_def)
  have nueva: "\<nexists>q. (patron_de r, q) \<in> patrones (trie pm)"
    using assms(1,4) tabla_de_patron by (auto simp: metodo_ok_def)
  from trie.agrega_nueva [OF inv e n i nueva] obtain t' where t':
      "add_url (rule_url r) ?i 0 INVALID_BP_ID (trie pm) = Inr t'" "sin_comprimir t' \<and> distintos t'"
      "patrones t' = insert (patron_de r, ?i) (patrones (trie pm))" by blast
  have "raiz_barra t'" using add_raiz_barra t'(1) inv assms(1) unfolding u by (auto simp: metodo_ok_def)
  moreover have "length (rules pm @ [Some r]) - 1 = n" using assms(1) by (simp add: metodo_ok_def n_def)
  moreover have "\<not> barra_final (rule_url r)" using assms(2) by (simp add: regla_ok_def)
  ultimately show ?thesis
    using t' assms(1) unfolding add_a_metodo_def Let_def by (simp add: metodo_ok_def tabla_de_snoc n_def [symmetric] del: of_nat_add)
qed

lemma para_metodos_ok:
  assumes "distinct is" "set is \<subseteq> {..<length pms}" "\<And>i. i \<in> set is \<Longrightarrow> f (pms ! i) = Inr (g i)"
  shows "\<exists>pms'. para_metodos f is pms = Inr pms' \<and> length pms' = length pms \<and>
    (\<forall>j < length pms. pms' ! j = (if j \<in> set is then g j else pms ! j))"
  using assms
proof (induction "is" arbitrary: pms)
  case (Cons i "is")
  let ?p = "pms[i := g i]"
  have "\<exists>pms'. para_metodos f is ?p = Inr pms' \<and> length pms' = length ?p \<and>
      (\<forall>j < length ?p. pms' ! j = (if j \<in> set is then g j else ?p ! j))"
    using Cons.prems by (intro Cons.IH) (auto simp: nth_list_update)
  then obtain pms' where "para_metodos f is ?p = Inr pms'" "length pms' = length ?p"
      "\<forall>j < length ?p. pms' ! j = (if j \<in> set is then g j else ?p ! j)" by blast
  then show ?case using Cons.prems by (auto simp: nth_list_update)
qed simp

lemma foreach_method_ok: "distinct (foreach_method r)" "set (foreach_method r) \<subseteq> {..<length metodos}"
  by (auto simp: foreach_method_def)

text \<open>All methods at once, one rule after another.\<close>

definition tablas_ok :: "('d, 's) regla list \<Rightarrow> ('d, 's) PerMethod list \<Rightarrow> bool" where
  "tablas_ok rs pms \<longleftrightarrow> length pms = length metodos \<and> (\<forall>i < length metodos. metodo_ok (de_metodo i rs) (pms ! i))"

lemma internal_add_ok:
  assumes "tablas_ok rs pms" "reglas_ok (rs @ [r])"
  shows "\<exists>pms'. internal_add_rule_object r pms = Inr pms' \<and> tablas_ok (rs @ [r]) pms'"
proof -
  have l: "length pms = length metodos" using assms(1) by (simp add: tablas_ok_def)
  have uno: "\<exists>pm'. add_a_metodo r (pms ! i) = Inr pm' \<and> metodo_ok (de_metodo i rs @ [r]) pm'"
    if i: "i \<in> set (foreach_method r)" for i
  proof (rule add_a_metodo_ok)
    have im: "i < length metodos" using foreach_method_ok(2) i by blast
    then show "metodo_ok (de_metodo i rs) (pms ! i)" using assms(1) by (simp add: tablas_ok_def)
    show "regla_ok r" using assms(2) by (simp add: reglas_ok_def)
    have "length (de_metodo i rs) \<le> length rs" by (simp add: de_metodo_def)
    then show "length (de_metodo i rs) + 2 < 2 ^ 16" using assms(2) by (simp add: reglas_ok_def)
    have "distinct (map patron_de (de_metodo i (rs @ [r])))" using assms(2) im unfolding reglas_ok_def by blast
    then show "patron_de r \<notin> patron_de ` set (de_metodo i rs)" using i by (simp add: de_metodo_def)
  qed
  define g where "g i = (SOME pm'. add_a_metodo r (pms ! i) = Inr pm' \<and> metodo_ok (de_metodo i rs @ [r]) pm')" for i
  have g: "add_a_metodo r (pms ! i) = Inr (g i) \<and> metodo_ok (de_metodo i rs @ [r]) (g i)"
    if "i \<in> set (foreach_method r)" for i
    unfolding g_def by (rule someI_ex [OF uno [OF that]])
  obtain pms' where pms': "para_metodos (add_a_metodo r) (foreach_method r) pms = Inr pms'" "length pms' = length pms"
      "\<forall>j < length pms. pms' ! j = (if j \<in> set (foreach_method r) then g j else pms ! j)"
    using para_metodos_ok [of "foreach_method r" pms "add_a_metodo r" g] foreach_method_ok [of r] g l by auto
  have "metodo_ok (de_metodo i (rs @ [r])) (pms' ! i)" if "i < length metodos" for i
    using that pms'(3) l g assms(1) by (auto simp: de_metodo_def tablas_ok_def)
  then show ?thesis using pms'(1,2) l by (simp add: internal_add_rule_object_def tablas_ok_def)
qed

lemma reglas_ok_append: "reglas_ok (rs @ rs') \<Longrightarrow> reglas_ok rs"
  by (auto simp: reglas_ok_def de_metodo_def)

lemma add_reglas_ok:
  assumes "tablas_ok rs pms" "reglas_ok (rs @ rs')"
  shows "\<exists>pms'. add_reglas rs' pms = Inr pms' \<and> tablas_ok (rs @ rs') pms'"
  using assms
proof (induction rs' arbitrary: rs pms)
  case (Cons r rs')
  have "reglas_ok (rs @ [r])" using Cons.prems(2) reglas_ok_append [of "rs @ [r]" rs'] by simp
  from internal_add_ok [OF Cons.prems(1) this] obtain pms1 where
    1: "internal_add_rule_object r pms = Inr pms1" "tablas_ok (rs @ [r]) pms1" by blast
  from Cons.IH [OF 1(2)] Cons.prems(2) obtain pms' where
    2: "add_reglas rs' pms1 = Inr pms'" "tablas_ok (rs @ r # rs') pms'" by auto
  have "validate_rule r = Inr ()" using Cons.prems(2) by (simp add: reglas_ok_def regla_ok_def)
  then show ?case using 1(1) 2 by simp
qed simp

lemma metodo_ok_nuevo: "metodo_ok [] per_method_nuevo"
  by (simp add: metodo_ok_def per_method_nuevo_def tabla_de_def nodo_nuevo_def raiz_barra_def patrones_nodo)

lemma raiz_simple:
  assumes "raiz_barra t" "distintos t"
  shows "IsSimpleNode t"
proof -
  have "elem_de c = (P_MAX, ''/'')" if "c \<in> set (children t)" for c
    using that assms(1) by (auto simp: raiz_barra_def list_all_iff elem_de_def)
  moreover have "distinct (map elem_de (children t))" using assms(2) by (cases t) simp
  ultimately have "length (children t) < 2"
    by (cases "children t"; cases "tl (children t)") auto
  then show ?thesis using assms(1) by (auto simp: IsSimpleNode_def raiz_barra_def list_all_iff)
qed

lemma valida_arboles_ok:
  assumes "list_all (\<lambda>pm. IsSimpleNode (trie pm)) pms"
  shows "valida_arboles pms = Inr (map (\<lambda>pm. pm\<lparr>trie := optimize (trie pm)\<rparr>) pms)"
  using assms by (induction pms) (simp_all add: validate_def)


lemma metodo_vacio:
  assumes "metodo_ok rs pm"
  shows "is_empty (optimize (trie pm)) \<longleftrightarrow> rs = []"
proof -
  have "rs = []" if "children (trie pm) = []"
  proof -
    have "patrones (trie pm) = {}"
      using assms that by (cases "trie pm") (simp add: metodo_ok_def raiz_barra_def patrones_nodo)
    then have "tabla_de rs = {}" using assms by (simp add: metodo_ok_def)
    then have "{..<length rs} = {}" unfolding tabla_de_def image_is_empty .
    then show ?thesis by (simp only: lessThan_empty_iff bot_nat_def length_0_conv)
  qed
  moreover have "children (trie pm) = []" if "rs = []" using assms that by (simp add: metodo_ok_def)
  moreover have "is_empty (optimize (trie pm)) \<longleftrightarrow> children (trie pm) = []" by (simp add: is_empty_def optimize_def)
  ultimately show ?thesis by blast
qed

lemma validate_router_ok:
  assumes "reglas_ok rs"
  shows "\<exists>rt. validate_router (router_nuevo\<lparr>all_rules := rs\<rparr>) = Inr rt \<and> all_rules rt = rs \<and> catchall rt = None \<and>
    length (per_methods rt) = length metodos \<and>
    (\<forall>i < length metodos. rules (per_methods rt ! i) = [None, None] @ map Some (de_metodo i rs) \<and>
       (is_empty (trie (per_methods rt ! i)) \<longleftrightarrow> de_metodo i rs = []) \<and>
       (\<exists>t. trie (per_methods rt ! i) = optimize t \<and> sin_comprimir t \<and> patrones t = tabla_de (de_metodo i rs)))"
proof -
  have "tablas_ok [] (replicate (length metodos) per_method_nuevo)"
    by (simp add: tablas_ok_def de_metodo_def metodo_ok_nuevo)
  from add_reglas_ok [OF this, of rs] assms obtain pms where
    pms: "add_reglas rs (replicate (length metodos) per_method_nuevo) = Inr pms" "tablas_ok rs pms" by auto
  have "list_all (\<lambda>pm. IsSimpleNode (trie pm)) pms"
    using pms(2) raiz_simple by (auto simp: tablas_ok_def metodo_ok_def list_all_length)
  moreover have "is_empty (optimize (trie (pms ! i))) \<longleftrightarrow> de_metodo i rs = []" if "i < length metodos" for i
    using metodo_vacio pms(2) that unfolding tablas_ok_def by blast
  ultimately show ?thesis
    using valida_arboles_ok [of pms] pms by (auto simp: validate_router_def router_nuevo_def tablas_ok_def metodo_ok_def)
qed

subsection \<open>The first rule that matches\<close>

text \<open>
  The specification of the router: among the rules of the method, in the order of registration, the
  first one whose pattern matches the URL.
\<close>

definition casa_regla ::
    "(string \<Rightarrow> ('d \<times> nat) option) \<Rightarrow> string \<Rightarrow> ('d, 's) regla \<Rightarrow> 'd routing_params option" where
  "casa_regla sd u r = casa sd u 0 sin_params (patron_de r)"

fun primera_regla ::
    "(string \<Rightarrow> ('d \<times> nat) option) \<Rightarrow> string \<Rightarrow> ('d, 's) regla list \<Rightarrow> (('d, 's) regla \<times> 'd routing_params) option" where
  "primera_regla sd u [] = None"
| "primera_regla sd u (r # rs) = (case casa_regla sd u r of Some ps \<Rightarrow> Some (r, ps) | None \<Rightarrow> primera_regla sd u rs)"

lemma primera_regla_None: "primera_regla sd u rs = None \<longleftrightarrow> (\<forall>r \<in> set rs. casa_regla sd u r = None)"
  by (induction rs) (auto split: option.split)

lemma primera_reglaI:
  assumes "k < length rs" "casa_regla sd u (rs ! k) = Some ps" "\<forall>j < k. casa_regla sd u (rs ! j) = None"
  shows "primera_regla sd u rs = Some (rs ! k, ps)"
  using assms
proof (induction rs arbitrary: k)
  case (Cons r rs)
  show ?case
  proof (cases k)
    case 0
    then show ?thesis using Cons.prems by simp
  next
    case (Suc k')
    then have "casa_regla sd u r = None" using Cons.prems(3) by force
    moreover have "\<forall>j < k'. casa_regla sd u (rs ! j) = None" using Cons.prems(3) Suc by force
    ultimately show ?thesis using Cons.IH [of k'] Cons.prems(1,2) Suc by simp
  qed
qed simp

lemma casan_tabla:
  assumes "length rs + 2 < 2 ^ 16"
  shows "casan sd u 0 sin_params (tabla_de rs) =
    {(of_nat (k + 2), ps) |k ps. k < length rs \<and> casa_regla sd u (rs ! k) = Some ps}"
proof -
  have "(of_nat (k + 2) :: uint16) \<noteq> 0" if "k < length rs" for k
  proof -
    define n where "n = k + 2"
    have "n < 2 ^ 16" "n \<noteq> 0" using that assms by (simp_all add: n_def)
    then have "unat (of_nat n :: uint16) = n" by (simp add: unat_of_nat)
    with \<open>n \<noteq> 0\<close> show ?thesis unfolding n_def [symmetric] by (metis unat_0)
  qed
  then show ?thesis
    by (auto simp: casan_def tabla_de_def casa_regla_def simp del: of_nat_add)
qed

lemma unat_indice:
  assumes "length rs + 2 < 2 ^ 16" "k < length rs"
  shows "unat (of_nat (k + 2) :: uint16) = k + 2"
proof -
  define n where "n = k + 2"
  have "n < 2 ^ 16" using assms by (simp add: n_def)
  then have "unat (of_nat n :: uint16) = n" by (simp add: unat_of_nat)
  then show ?thesis by (simp add: n_def del: of_nat_add)
qed

lemma es_menor_primera:
  assumes "length rs + 2 < 2 ^ 16" "es_menor (casan sd u 0 sin_params (tabla_de rs)) i ps"
  shows "(case primera_regla sd u rs of
      None \<Rightarrow> i = 0
    | Some (r, ps') \<Rightarrow> \<exists>k. unat i = k + 2 \<and> k < length rs \<and> rs ! k = r \<and> ps' = ps)"
proof (cases "i = 0")
  case True
  then have "\<forall>k < length rs. casa_regla sd u (rs ! k) = None"
    using assms(2) unfolding casan_tabla [OF assms(1)] by (auto simp: es_menor_def simp flip: not_Some_eq)
  then have "primera_regla sd u rs = None" unfolding primera_regla_None by (auto simp: in_set_conv_nth)
  then show ?thesis using True by simp
next
  case False
  with assms(2) obtain k where k: "k < length rs" "casa_regla sd u (rs ! k) = Some ps" "i = of_nat (k + 2)"
    unfolding casan_tabla [OF assms(1)] es_menor_def by (auto simp del: of_nat_add)
  have "casa_regla sd u (rs ! j) = None" if j: "j < k" for j
  proof (rule ccontr)
    assume "casa_regla sd u (rs ! j) \<noteq> None"
    then obtain ps' where "casa_regla sd u (rs ! j) = Some ps'" by blast
    then have "(of_nat (j + 2), ps') \<in> casan sd u 0 sin_params (tabla_de rs)"
      using j k(1) unfolding casan_tabla [OF assms(1)] by (auto simp del: of_nat_add)
    then have "i \<le> of_nat (j + 2)" using assms(2) False unfolding es_menor_def by (auto simp del: of_nat_add)
    then have "unat i \<le> j + 2" using unat_indice [OF assms(1), of j] j k(1) by (simp add: word_le_nat_alt del: of_nat_add)
    then show False using unat_indice [OF assms(1) k(1)] k(3) j by (simp del: of_nat_add)
  qed
  from primera_reglaI [OF k(1,2)] this have "primera_regla sd u rs = Some (rs ! k, ps)" by blast
  then show ?thesis using unat_indice [OF assms(1) k(1)] k(1,3) by (simp del: of_nat_add)
qed


lemma numero_menor: "m \<noteq> InternalMethodCount \<Longrightarrow> numero m < length metodos"
proof -
  assume "m \<noteq> InternalMethodCount"
  then have "takeWhile (\<lambda>x. x \<noteq> m) metodos \<noteq> metodos"
    using metodos_todos by (auto simp: takeWhile_eq_all_conv)
  then show ?thesis
    unfolding numero_def by (metis length_takeWhile_le nat_less_le take_all takeWhile_eq_take)
qed

lemma find_router:
  assumes "reglas_ok rs" "validate_router (router_nuevo\<lparr>all_rules := rs\<rparr>) = Inr rt" "m \<noteq> InternalMethodCount"
  shows "\<exists>i ps. find_metodo sd rt m u = (i, [], ps) \<and>
    (case primera_regla sd u (de_metodo (numero m) rs) of
       None \<Rightarrow> i = 0
     | Some (r, ps') \<Rightarrow> ps' = ps \<and> 1 < unat i \<and> unat i < length (rules (per_methods rt ! numero m)) \<and>
         rules (per_methods rt ! numero m) ! unat i = Some r)"
proof -
  have n: "numero m < length metodos"
    by (rule numero_menor [OF assms(3)])
  from validate_router_ok [OF assms(1)] assms(2) n obtain t where
    rt: "rules (per_methods rt ! numero m) = [None, None] @ map Some (de_metodo (numero m) rs)"
    and t: "trie (per_methods rt ! numero m) = optimize t" "sin_comprimir t" "patrones t = tabla_de (de_metodo (numero m) rs)"
    by auto
  have "length (de_metodo (numero m) rs) \<le> length rs" by (simp add: de_metodo_def)
  then have l: "length (de_metodo (numero m) rs) + 2 < 2 ^ 16" using assms(1) by (simp add: reglas_ok_def)
  obtain i ps where f: "find_metodo sd rt m u = (i, [], ps)"
    "es_menor (casan sd u 0 sin_params (tabla_de (de_metodo (numero m) rs))) i ps"
    using find_patrones [of "optimize t" sd u] optimize_ok sin_comprimir_ok [OF t(2)]
    unfolding find_metodo_def t(1) patrones_optimize t(3) by blast
  from es_menor_primera [OF l f(2)] f(1) rt show ?thesis by (auto split: option.splits)
qed

lemma numero_metodos: "i < length metodos \<Longrightarrow> numero (metodos ! i) = i"
  using metodos_distintos unfolding numero_def
  by (subst takeWhile_eq_take_P_nth [of i]) (auto simp: nth_eq_iff_index_eq)

lemma encuentra_metodo:
  assumes "reglas_ok rs" "validate_router (router_nuevo\<lparr>all_rules := rs\<rparr>) = Inr rt" "m \<in> set metodos"
  shows "encuentra sd u (per_methods rt ! numero m) \<longleftrightarrow> primera_regla sd u (de_metodo (numero m) rs) \<noteq> None"
proof -
  have "m \<noteq> InternalMethodCount" using assms(3) by (auto simp: metodos_def)
  from find_router [OF assms(1,2) this, of sd u] show ?thesis
    by (auto simp: encuentra_def find_metodo_def split: option.splits)
qed

lemma encuentra_router:
  assumes "reglas_ok rs" "validate_router (router_nuevo\<lparr>all_rules := rs\<rparr>) = Inr rt"
  shows "list_ex (encuentra sd u) (per_methods rt) \<longleftrightarrow> (\<exists>m \<in> set metodos. primera_regla sd u (de_metodo (numero m) rs) \<noteq> None)"
proof -
  have l: "length (per_methods rt) = length metodos" using validate_router_ok [OF assms(1)] assms(2) by auto
  show ?thesis
    unfolding list_ex_length l using encuentra_metodo [OF assms] numero_metodos by (metis in_set_conv_nth nth_mem)
qed

text \<open>What the router should do with a rule and with a URL that no rule of the method matches.\<close>

definition ejecuta_regla ::
    "('d, 's) regla \<Rightarrow> request \<Rightarrow> response \<Rightarrow> 'd routing_params \<Rightarrow> 's \<Rightarrow> (response \<times> bool) res \<times> 's" where
  "ejecuta_regla r req res ps s =
     (case rule_handle r req res ps s of
        (Inl (Excepcion _), s') \<Rightarrow> (Inr (termina_con (response_code 500) res), s')
      | x \<Rightarrow> x)"

definition codigo_ausente ::
    "(string \<Rightarrow> ('d \<times> nat) option) \<Rightarrow> string \<Rightarrow> ('d, 's) regla list \<Rightarrow> int" where
  "codigo_ausente sd u rs =
     (if \<exists>m \<in> set metodos. primera_regla sd u (de_metodo (numero m) rs) \<noteq> None then 405 else 404)"

lemma inicial_halla:
  assumes "reglas_ok rs" "validate_router (router_nuevo\<lparr>all_rules := rs\<rparr>) = Inr rt"
    and "m \<noteq> InternalMethodCount" "m \<noteq> Head" "m \<noteq> Options" "primera_regla sd u (de_metodo (numero m) rs) = Some (r, ps)"
  obtains found where "found_index found \<noteq> 0"
    "\<And>req res. req_method req = m \<Longrightarrow> url req = u \<Longrightarrow> handle_initial sd rt req res = (found, res, False)"
    "\<And>req res s. handle_router rt req res found s = ejecuta_regla r req res ps s"
proof -
  obtain i where f: "find_metodo sd rt m u = (i, [], ps)" "1 < unat i" "unat i < length (rules (per_methods rt ! numero m))"
      "rules (per_methods rt ! numero m) ! unat i = Some r"
    using find_router [OF assms(1-3), of sd u] assms(6) by auto
  have i: "i \<noteq> 0" "i \<noteq> RULE_SPECIAL_REDIRECT_SLASH" using f(2) by (auto simp: RULE_SPECIAL_REDIRECT_SLASH_def)
  show thesis
  proof (rule that [of "(resultado (i, [], ps))\<lparr>found_method := Some m\<rparr>"])
    show "found_index ((resultado (i, [], ps))\<lparr>found_method := Some m\<rparr>) \<noteq> 0" using i by (simp add: resultado_def)
    show "handle_initial sd rt req res = ((resultado (i, [], ps))\<lparr>found_method := Some m\<rparr>, res, False)"
      if "req_method req = m" "url req = u" for req res
      using that f i assms(3-5) by (simp add: handle_initial_def resultado_def Let_def)
    show "handle_router rt req res ((resultado (i, [], ps))\<lparr>found_method := Some m\<rparr>) s = ejecuta_regla r req res ps s" for req res s
      using f i by (simp add: handle_router_def ejecuta_regla_def resultado_def Let_def)
  qed
qed

lemma despacho:
  assumes "reglas_ok rs" "validate_router (router_nuevo\<lparr>all_rules := rs\<rparr>) = Inr rt"
    and "m \<noteq> InternalMethodCount" "m \<noteq> Head" "m \<noteq> Options" "req_method req = m"
  shows "handle_full sd rt req res s =
      (case primera_regla sd (url req) (de_metodo (numero m) rs) of
         Some (r, ps) \<Rightarrow> ejecuta_regla r req res ps s
       | None \<Rightarrow> (Inr (end_res (res\<lparr>code := codigo_ausente sd (url req) rs\<rparr>)), s))"
proof -
  have c: "catchall rt = None" using validate_router_ok [OF assms(1)] assms(2) by auto
  obtain i ps where f: "find_metodo sd rt m (url req) = (i, [], ps)"
    "case primera_regla sd (url req) (de_metodo (numero m) rs) of
       None \<Rightarrow> i = 0
     | Some (r, ps') \<Rightarrow> ps' = ps \<and> 1 < unat i \<and> unat i < length (rules (per_methods rt ! numero m)) \<and>
         rules (per_methods rt ! numero m) ! unat i = Some r"
    using find_router [OF assms(1-3)] by blast
  show ?thesis
  proof (cases "primera_regla sd (url req) (de_metodo (numero m) rs)")
    case None
    then show ?thesis
      using f assms c encuentra_router [OF assms(1,2), of sd "url req"]
      by (simp add: handle_full_def handle_initial_def resultado_def get_error_def codigo_ausente_def Let_def split: prod.split)
  next
    case (Some a)
    obtain r ps' where a: "a = (r, ps')" by (cases a)
    obtain found where "found_index found \<noteq> 0" "handle_initial sd rt req res = (found, res, False)"
        "handle_router rt req res found s = ejecuta_regla r req res ps' s"
      by (rule inicial_halla [OF assms(1-5) Some [unfolded a]]) (use assms(6) in blast)
    then show ?thesis using Some a by (simp add: handle_full_def)
  qed
qed

text \<open>The list of methods that an answer to OPTIONS carries.\<close>

definition allow_texto :: "HTTPMethod list \<Rightarrow> string" where
  "allow_texto ms = ''OPTIONS, HEAD'' @ concat (map (\<lambda>m. '', '' @ method_name m) ms)"

lemma comas: "x @ '', '' @ concat (map (\<lambda>m. f m @ '', '') ms) = (x @ concat (map (\<lambda>m. '', '' @ f m) ms)) @ '', ''"
proof (induction ms arbitrary: x)
  case (Cons m ms)
  show ?case using Cons.IH [of "x @ '', '' @ f m"] by simp
qed simp

lemma allow_de_texto:
  assumes "length (per_methods rt) = length metodos" "\<And>m. m \<in> set metodos \<Longrightarrow> P (per_methods rt ! numero m) = Q m"
  shows "allow_de rt P = allow_texto (filter (\<lambda>m. m \<noteq> Head \<and> Q m) metodos)"
proof -
  have "zip metodos (per_methods rt) = map (\<lambda>m. (m, per_methods rt ! numero m)) metodos"
    using assms(1) numero_metodos by (intro nth_equalityI) simp_all
  moreover have "concat (map (\<lambda>m. if m \<noteq> Head \<and> P (per_methods rt ! numero m) then method_name m @ '', '' else []) ms) =
      concat (map (\<lambda>m. method_name m @ '', '') (filter (\<lambda>m. m \<noteq> Head \<and> Q m) ms))" if "set ms \<subseteq> set metodos" for ms
    using that assms(2) by (induction ms) auto
  ultimately have "''OPTIONS, HEAD, '' @ concat (map (\<lambda>(m, pm). if m \<noteq> Head \<and> P pm then method_name m @ '', '' else [])
      (zip metodos (per_methods rt))) =
      ''OPTIONS, HEAD'' @ '', '' @ concat (map (\<lambda>m. method_name m @ '', '') (filter (\<lambda>m. m \<noteq> Head \<and> Q m) metodos))"
    by (simp add: comp_def)
  also have "\<dots> = allow_texto (filter (\<lambda>m. m \<noteq> Head \<and> Q m) metodos) @ '', ''"
    unfolding comas allow_texto_def ..
  finally show ?thesis unfolding allow_de_def Let_def by simp
qed

text \<open>
  What the router should answer. A rule of the method runs; HEAD falls back on the rules for GET and asks for no
  body; OPTIONS runs no rule and tells the methods, those that have a rule for the URL \<^verbatim>\<open>/*\<close> and those that have
  one that matches for any other.
\<close>

definition despacho_espec ::
    "(string \<Rightarrow> ('d \<times> nat) option) \<Rightarrow> ('d, 's) regla list \<Rightarrow> request \<Rightarrow> response \<Rightarrow> 's \<Rightarrow> (response \<times> bool) res \<times> 's" where
  "despacho_espec sd rs req res s =
     (let regla = (\<lambda>m. primera_regla sd (url req) (de_metodo (numero m) rs));
          corre = (\<lambda>m res sino. case regla m of Some (r, ps) \<Rightarrow> ejecuta_regla r req res ps s | None \<Rightarrow> sino);
          permite = (\<lambda>Q. (Inr (termina_con (set_header ''Allow'' (allow_texto (filter (\<lambda>m. m \<noteq> Head \<and> Q m) metodos))
            (response_code 204)) res), s));
          no_hay = (Inr (termina_con (response_code 404) res), s)
      in
      if req_method req = Head then
        corre Head (res\<lparr>skip_body := True\<rparr>) (corre Get (res\<lparr>skip_body := True\<rparr>) no_hay)
      else if req_method req = Options then
        (if url req = ''/*'' then permite (\<lambda>m. de_metodo (numero m) rs \<noteq> [])
         else if \<exists>m \<in> set metodos. regla m \<noteq> None then permite (\<lambda>m. regla m \<noteq> None)
         else no_hay)
      else
        corre (req_method req) res (Inr (end_res (res\<lparr>code := codigo_ausente sd (url req) rs\<rparr>)), s))"

lemma despacho_head:
  assumes "reglas_ok rs" "validate_router (router_nuevo\<lparr>all_rules := rs\<rparr>) = Inr rt" "req_method req = Head"
  shows "handle_full sd rt req res s = despacho_espec sd rs req res s"
proof -
  let ?regla = "\<lambda>m. primera_regla sd (url req) (de_metodo (numero m) rs)"
  note f = find_router [OF assms(1,2)]
  obtain j ps0 where h: "find_metodo sd rt Head (url req) = (j, [], ps0)" "case ?regla Head of None \<Rightarrow> j = 0
     | Some (r, ps') \<Rightarrow> ps' = ps0 \<and> 1 < unat j \<and> unat j < length (rules (per_methods rt ! numero Head)) \<and>
         rules (per_methods rt ! numero Head) ! unat j = Some r"
    using f [of Head sd "url req"] by auto
  obtain i ps where g: "find_metodo sd rt Get (url req) = (i, [], ps)" "case ?regla Get of None \<Rightarrow> i = 0
     | Some (r, ps') \<Rightarrow> ps' = ps \<and> 1 < unat i \<and> unat i < length (rules (per_methods rt ! numero Get)) \<and>
         rules (per_methods rt ! numero Get) ! unat i = Some r"
    using f [of Get sd "url req"] by auto
  have i: "i \<noteq> RULE_SPECIAL_REDIRECT_SLASH \<and> \<not> length (rules (per_methods rt ! numero Get)) \<le> unat i"
    if "i \<noteq> 0" using g(2) that by (auto simp: RULE_SPECIAL_REDIRECT_SLASH_def split: option.splits)
  have j: "j \<noteq> RULE_SPECIAL_REDIRECT_SLASH \<and> \<not> length (rules (per_methods rt ! numero Head)) \<le> unat j"
    if "j \<noteq> 0" using h(2) that by (auto simp: RULE_SPECIAL_REDIRECT_SLASH_def split: option.splits)
  have l: "handle_full sd rt req res s =
      (if j \<noteq> 0 then handle_router rt req (res\<lparr>skip_body := True\<rparr>) ((resultado (j, [], ps0))\<lparr>found_method := Some Head\<rparr>) s
       else if i \<noteq> 0 then handle_router rt req (res\<lparr>skip_body := True\<rparr>) ((resultado (i, [], ps))\<lparr>found_method := Some Get\<rparr>) s
       else (Inr (termina_con (response_code 404) res), s))"
    using h(1) g(1) assms(3) by (simp add: handle_full_def handle_initial_def resultado_def Let_def split: prod.split)
  have cj: "handle_router rt req rs' ((resultado (j, [], ps0))\<lparr>found_method := Some Head\<rparr>) s = ejecuta_regla r req rs' ps' s"
    if "?regla Head = Some (r, ps')" for r ps' rs'
    using that h(2) j by (auto simp: handle_router_def ejecuta_regla_def resultado_def Let_def RULE_SPECIAL_REDIRECT_SLASH_def)
  have ci: "handle_router rt req rs' ((resultado (i, [], ps))\<lparr>found_method := Some Get\<rparr>) s = ejecuta_regla r req rs' ps' s"
    if "?regla Get = Some (r, ps')" for r ps' rs'
    using that g(2) i by (auto simp: handle_router_def ejecuta_regla_def resultado_def Let_def RULE_SPECIAL_REDIRECT_SLASH_def)
  show ?thesis
  proof (cases "?regla Head")
    case (Some x)
    then have "j \<noteq> 0" using h(2) by (auto split: prod.splits)
    then show ?thesis using Some cj assms(3) by (cases x) (simp add: l despacho_espec_def Let_def)
  next
    case None
    then have j0: "j = 0" using h(2) by simp
    show ?thesis
    proof (cases "?regla Get")
      case (Some x)
      then have "i \<noteq> 0" using g(2) by (auto split: prod.splits)
      then show ?thesis using None Some ci assms(3) j0 by (cases x) (simp add: l despacho_espec_def Let_def)
    next
      case n: None
      then show ?thesis using None g(2) assms(3) j0 by (simp add: l despacho_espec_def Let_def)
    qed
  qed
qed

lemma despacho_options:
  assumes "reglas_ok rs" "validate_router (router_nuevo\<lparr>all_rules := rs\<rparr>) = Inr rt" "req_method req = Options"
  shows "handle_full sd rt req res s = despacho_espec sd rs req res s"
proof -
  from validate_router_ok [OF assms(1)] assms(2) have l: "length (per_methods rt) = length metodos"
    and v: "\<And>i. i < length metodos \<Longrightarrow> is_empty (trie (per_methods rt ! i)) \<longleftrightarrow> de_metodo i rs = []" by auto
  have "\<not> is_empty (trie (per_methods rt ! numero m)) \<longleftrightarrow> de_metodo (numero m) rs \<noteq> []" if "m \<in> set metodos" for m
    using v numero_menor [of m] that by (auto simp: metodos_def)
  note a = allow_de_texto [OF l, of "\<lambda>pm. \<not> is_empty (trie pm)", OF this]
    allow_de_texto [OF l, of "encuentra sd (url req)", OF encuentra_metodo [OF assms(1,2)]]
  show ?thesis
    using assms(3) encuentra_router [OF assms(1,2), of sd "url req"] a
    by (simp add: handle_full_def handle_initial_def despacho_espec_def Let_def split: prod.split)
qed

text \<open>C11. The router refines its specification for every method: after the registration of a list of rules whose
  URLs parse, do not end in a slash and are different patterns in each method, a request runs the handler of
  the first registered rule of its method whose pattern matches the URL, with the parameters of that match; if
  there is none it gets 405 when a rule of some method matches and 404 otherwise, and no handler runs. A HEAD
  request without a rule of its own runs the first rule for GET, with the body left out, and gets 404 if there
  is none; OPTIONS runs no handler: it gets 204 with the methods that have a rule (URL \<^verbatim>\<open>/*\<close>) or a rule that
  matches, or 404.\<close>

theorem despacho_primera_regla:
  assumes "reglas_ok rs" "req_method req \<noteq> InternalMethodCount"
  shows "\<exists>rt. validate_router (router_nuevo\<lparr>all_rules := rs\<rparr>) = Inr rt \<and>
    handle_full sd rt req res s = despacho_espec sd rs req res s"
proof -
  obtain rt where rt: "validate_router (router_nuevo\<lparr>all_rules := rs\<rparr>) = Inr rt" using validate_router_ok [OF assms(1)] by auto
  have "handle_full sd rt req res s = despacho_espec sd rs req res s"
    if "req_method req \<noteq> Head" "req_method req \<noteq> Options"
    using despacho [OF assms(1) rt assms(2) that refl] that by (simp add: despacho_espec_def Let_def)
  then show ?thesis using rt despacho_head [OF assms(1) rt] despacho_options [OF assms(1) rt] by blast
qed

text \<open>Two methods cannot have routes: the mask of a rule has 32 bits, so no rule is ever registered for
  UNLINK or SOURCE, whatever its mask, and asking for one of them when the rule is made is undefined.\<close>

theorem metodos_sin_ruta:
  "(\<forall>r :: ('d, 's) regla. numero Unlink \<notin> set (foreach_method r) \<and> numero Source \<notin> set (foreach_method r)) \<and>
   con_metodo Unlink r0 = Inl Indefinido \<and> con_metodo Source r0 = Inl Indefinido"
proof -
  have n: "numero Unlink = 32" "numero Source = 33" by (simp_all add: numero_def metodos_def)
  have z: "(4294967296 :: uint32) = 0" "(8589934592 :: uint32) = 0" by code_simp+
  have "x AND 4294967296 = 0" "x AND 8589934592 = 0" for x :: uint32
    unfolding z by (rule and_zero_eq)+
  then show ?thesis unfolding n con_metodo_def foreach_method_def by simp
qed


definition regla_ejemplo :: "(nat, nat) regla" where
  "regla_ejemplo = (nueva_regla ''/'' [])\<lparr>rule_handler := Some (wrapped_handler_call (\<lambda>req vs s. (Inr (response_body ''x''), s + 1)))\<rparr>"

theorem despacho_primera_regla_testigo:
  "\<exists>rt. validate_router (router_nuevo\<lparr>all_rules := [regla_ejemplo]\<rparr>) = Inr rt \<and>
    handle_full (\<lambda>_. None) rt (request_vacia\<lparr>url := ''/''\<rparr>) (response_code 200) 7 =
      (Inr ((response_code 200)\<lparr>body := ''x'', completed := True\<rparr>, False), 8)"
proof -
  have e: "elems_url ''/'' = Some [(P_MAX, ''/'')]" by (simp add: evalua_trie)
  have p: "patron_de regla_ejemplo = [(P_MAX, ''/'')]" by (simp add: patron_de_def regla_ejemplo_def nueva_regla_def e)
  have "distinct (map patron_de (de_metodo i [regla_ejemplo]))" for i by (simp add: de_metodo_def)
  then have ok: "reglas_ok [regla_ejemplo]"
    by (simp add: reglas_ok_def regla_ok_def regla_ejemplo_def nueva_regla_def validate_rule_def barra_final_def e)
  have "numero Get \<in> set (foreach_method regla_ejemplo)"
    by (simp add: foreach_method_def regla_ejemplo_def nueva_regla_def numero_def metodos_def)
  then have d: "de_metodo (numero Get) [regla_ejemplo] = [regla_ejemplo]" by (simp add: de_metodo_def)
  have c: "primera_regla (\<lambda>_. None :: (nat \<times> nat) option) ''/'' [regla_ejemplo] = Some (regla_ejemplo, sin_params)"
    by (simp add: casa_regla_def p consume_texto empieza_def)
  define req where "req = request_vacia\<lparr>url := ''/''\<rparr>"
  have q: "req_method req = Get" "url req = ''/''" by (simp_all add: req_def request_vacia_def)
  have x: "ejecuta_regla regla_ejemplo req (response_code 200) (sin_params :: nat routing_params) 7 =
      (Inr ((response_code 200)\<lparr>body := ''x'', completed := True\<rparr>, False), 8)"
    by (simp add: ejecuta_regla_def rule_handle_def regla_ejemplo_def nueva_regla_def
        wrapped_handler_call_def asigna_def end_res_def response_code_def response_body_def)
  from despacho_primera_regla [OF ok, of req "\<lambda>_. None" "response_code 200" 7] q c d x
  show ?thesis unfolding req_def [symmetric] by (simp add: despacho_espec_def Let_def)
qed

end
