(* ===== verification/HttpParser.thy ===== *)
theory HttpParser
  imports Http
begin

text \<open>
  The HTTP parser of Crow (\<^verbatim>\<open>includes/crow_all.h\<close>, derived from \<^verbatim>\<open>nodejs/http-parser\<close>): the struct
  \<^verbatim>\<open>http_parser\<close> with the wrapper \<^verbatim>\<open>HTTPParser\<close>, the character tables, \<^verbatim>\<open>parse_url_char\<close> and
  \<^verbatim>\<open>http_parser_execute\<close>, one definition per group of states of its switch.

  Pointers into the buffer are positions in the list of its characters; a null mark is \<open>None\<close>. The
  address of the buffer is an argument: the source subtracts a null mark from a pointer into it. The
  connection behind the parser is a parameter, reached by three handlers. A buffer is not longer
  than \<^verbatim>\<open>max_header_size\<close> (Crow reads 4096 bytes at a time). Assertions are active: a failed one
  ends the process.
\<close>

subsection \<open>Data\<close>

datatype (plugins only: code size) state =
    s_dead | s_start_req | s_req_method | s_req_spaces_before_url | s_req_schema | s_req_schema_slash
  | s_req_schema_slash_slash | s_req_server_start | s_req_server | s_req_server_with_at | s_req_path
  | s_req_query_string_start | s_req_query_string | s_req_http_start | s_req_http_H | s_req_http_HT
  | s_req_http_HTT | s_req_http_HTTP | s_req_http_I | s_req_http_IC | s_req_http_major | s_req_http_dot
  | s_req_http_minor | s_req_http_end | s_req_line_almost_done | s_header_field_start | s_header_field
  | s_header_value_discard_ws | s_header_value_discard_ws_almost_done | s_header_value_discard_lws
  | s_header_value_start | s_header_value | s_header_value_lws | s_header_almost_done
  | s_chunk_size_start | s_chunk_size | s_chunk_parameters | s_chunk_size_almost_done
  | s_headers_almost_done | s_headers_done | s_chunk_data | s_chunk_data_almost_done | s_chunk_data_done
  | s_body_identity | s_body_identity_eof | s_message_done

datatype (plugins only: code size) header_states =
    h_general | h_C | h_CO | h_CON | h_matching_connection | h_matching_proxy_connection
  | h_matching_content_length | h_matching_transfer_encoding | h_matching_upgrade | h_connection
  | h_content_length | h_content_length_num | h_content_length_ws | h_transfer_encoding | h_upgrade
  | h_matching_transfer_encoding_token_start | h_matching_transfer_encoding_chunked
  | h_matching_transfer_encoding_token | h_matching_connection_keep_alive | h_matching_connection_close
  | h_transfer_encoding_chunked | h_connection_keep_alive | h_connection_close

datatype flag =
    F_CHUNKED | F_CONNECTION_KEEP_ALIVE | F_CONNECTION_CLOSE | F_TRAILING | F_UPGRADE | F_SKIPBODY | F_CONTENTLENGTH

datatype (plugins only: code size) http_errno =
    CHPE_OK | CHPE_INVALID_EOF_STATE | CHPE_HEADER_OVERFLOW | CHPE_CLOSED_CONNECTION | CHPE_INVALID_VERSION
  | CHPE_INVALID_METHOD | CHPE_INVALID_URL | CHPE_LF_EXPECTED | CHPE_INVALID_HEADER_TOKEN
  | CHPE_INVALID_CONTENT_LENGTH | CHPE_UNEXPECTED_CONTENT_LENGTH | CHPE_INVALID_CHUNK_SIZE
  | CHPE_INVALID_CONSTANT | CHPE_STRICT | CHPE_UNKNOWN | CHPE_INVALID_TRANSFER_ENCODING

text \<open>States of the header of a message.\<close>

definition estados_cuerpo :: "state set" where
  "estados_cuerpo =
     {s_chunk_data, s_chunk_data_almost_done, s_chunk_data_done, s_body_identity, s_body_identity_eof, s_message_done}"

definition CROW_PARSING_HEADER :: "state \<Rightarrow> bool" where
  "CROW_PARSING_HEADER s \<longleftrightarrow> s \<notin> estados_cuerpo"

text \<open>\<^verbatim>\<open>http_parser\<close> and the members of \<^verbatim>\<open>HTTPParser\<close>, with the connection behind it.\<close>

record 'c parser =
  flags :: "flag set"
  pstate :: state
  header_state :: header_states
  index :: nat
  uses_transfer_encoding :: bool
  allow_chunked_length :: bool
  lenient_http_headers :: bool
  nread :: nat
  content_length :: "64 word"
  qs_point :: "64 word"
  http_major :: nat
  http_minor :: nat
  p_method :: HTTPMethod
  p_errno :: http_errno
  upgrade :: bool
  req :: request
  header_building_state :: bool
  message_complete :: bool
  header_field :: string
  header_value :: string
  conexion :: 'c

definition CROW_ULLONG_MAX :: "64 word" where
  "CROW_ULLONG_MAX = - 1"

definition max_header_size :: nat where
  "max_header_size = 80 * 1024"

text \<open>\<^verbatim>\<open>http_parser_init\<close> on a new \<^verbatim>\<open>HTTPParser\<close>.\<close>

definition http_parser_init :: "'c \<Rightarrow> 'c parser" where
  "http_parser_init c =
     \<lparr>flags = {}, pstate = s_start_req, header_state = h_general, index = 0, uses_transfer_encoding = False,
      allow_chunked_length = False, lenient_http_headers = False, nread = 0, content_length = 0, qs_point = 0,
      http_major = 0, http_minor = 0, p_method = Delete, p_errno = CHPE_OK, upgrade = False,
      req = request_vacia, header_building_state = False, message_complete = False, header_field = [],
      header_value = [], conexion = c\<rparr>"

text \<open>The wrapper's \<^verbatim>\<open>clear\<close>.\<close>

definition clear_parser :: "'c parser \<Rightarrow> 'c parser" where
  "clear_parser p =
     p\<lparr>req := request_vacia, header_field := [], header_value := [], header_building_state := False,
       qs_point := 0, message_complete := False, pstate := s_start_req\<rparr>"

subsection \<open>Characters\<close>

abbreviation cr :: char where "cr \<equiv> CHR 0x0D"
abbreviation lf :: char where "lf \<equiv> CHR 0x0A"
abbreviation ht :: char where "ht \<equiv> CHR 0x09"
abbreviation nul :: char where "nul \<equiv> CHR 0x00"

definition CROW_LOWER :: "char \<Rightarrow> char" where
  "CROW_LOWER c = char_of (or (of_char c) 32 :: nat)"

definition CROW_IS_ALPHA :: "char \<Rightarrow> bool" where
  "CROW_IS_ALPHA c \<longleftrightarrow> CHR ''a'' \<le> CROW_LOWER c \<and> CROW_LOWER c \<le> CHR ''z''"

definition CROW_IS_NUM :: "char \<Rightarrow> bool" where
  "CROW_IS_NUM c \<longleftrightarrow> CHR ''0'' \<le> c \<and> c \<le> CHR ''9''"

definition CROW_IS_MARK :: "char \<Rightarrow> bool" where
  "CROW_IS_MARK c \<longleftrightarrow> c \<in> set [CHR ''-'', CHR ''_'', CHR ''.'', CHR ''!'', CHR ''~'', CHR ''*'', CHR 0x27, CHR ''('', CHR '')'']"

definition CROW_IS_USERINFO_CHAR :: "char \<Rightarrow> bool" where
  "CROW_IS_USERINFO_CHAR c \<longleftrightarrow>
     CROW_IS_ALPHA c \<or> CROW_IS_NUM c \<or> CROW_IS_MARK c \<or>
     c \<in> set [CHR ''%'', CHR '';'', CHR '':'', CHR ''&'', CHR ''='', CHR ''+'', CHR ''$'', CHR '','']"

definition CROW_IS_HEADER_CHAR :: "char \<Rightarrow> bool" where
  "CROW_IS_HEADER_CHAR ch \<longleftrightarrow> ch = cr \<or> ch = lf \<or> ch = ht \<or> (CHR 0x1F < ch \<and> ch \<noteq> CHR 0x7F)"

text \<open>One byte for eight characters, from the least bit; the second half of the table is zero.\<close>

definition normal_url_char :: "nat list" where
  "normal_url_char =
     [0, 0, 0, 0, 246, 255, 255, 127, 255, 255, 255, 255, 255, 255, 255, 127] @ replicate 16 0"

definition CROW_IS_URL_CHAR :: "char \<Rightarrow> bool" where
  "CROW_IS_URL_CHAR ch = (let i = of_char ch :: nat in bit (normal_url_char ! (i div 8)) (i mod 8))"

text \<open>The characters of tokens in lower case; the second half of the table is zero.\<close>

definition tokens :: "char list" where
  "tokens =
     replicate 32 nul @
     [nul, CHR ''!'', nul, CHR ''#'', CHR ''$'', CHR ''%'', CHR ''&'', CHR 0x27,
      nul, nul, CHR ''*'', CHR ''+'', nul, CHR ''-'', CHR ''.'', nul] @
     ''0123456789'' @ replicate 7 nul @
     ''abcdefghijklmnopqrstuvwxyz'' @ [nul, nul, nul, CHR ''^'', CHR ''_'', CHR 0x60] @
     ''abcdefghijklmnopqrstuvwxyz'' @ [nul, CHR ''|'', nul, CHR ''~'', nul]"

definition CROW_TOKEN :: "char \<Rightarrow> char" where
  "CROW_TOKEN c = (let i = of_char c :: nat in if i < 128 then tokens ! i else nul)"

text \<open>Only the first half of the table is written down in the source: the rest is 0, not -1.\<close>

definition unhex :: "char \<Rightarrow> int" where
  "unhex c =
     (let i = of_char c :: nat in
      if 128 \<le> i then 0
      else if 48 \<le> i \<and> i \<le> 57 then int i - 48
      else if 65 \<le> i \<and> i \<le> 70 then int i - 55
      else if 97 \<le> i \<and> i \<le> 102 then int i - 87
      else -1)"

subsection \<open>Callbacks of the wrapper\<close>

text \<open>What the connection does at the end of the URL, of the headers and of the message.\<close>

record 'c manejadores =
  handle_url :: "'c parser \<Rightarrow> 'c parser"
  handle_header :: "'c parser \<Rightarrow> 'c parser"
  handle :: "'c parser \<Rightarrow> 'c parser"

definition on_method :: "'c parser \<Rightarrow> 'c parser" where
  "on_method p = p\<lparr>req := (req p)\<lparr>req_method := p_method p\<rparr>\<rparr>"

definition on_url :: "'c manejadores \<Rightarrow> string \<Rightarrow> 'c parser \<Rightarrow> 'c parser" where
  "on_url m s p =
     (let raw = raw_url (req p) @ s;
          u = (if qs_point p \<noteq> 0 then take (unat (qs_point p)) raw else raw)
      in handle_url m (p\<lparr>req := (req p)\<lparr>raw_url := raw, url := u\<rparr>\<rparr>))"

definition on_header_field :: "string \<Rightarrow> 'c parser \<Rightarrow> 'c parser" where
  "on_header_field s p =
     (if header_building_state p then p\<lparr>header_field := header_field p @ s\<rparr>
      else
        let p1 = (if header_value p \<noteq> []
                  then p\<lparr>req := (req p)\<lparr>req_headers := ci_emplace (header_field p) (header_value p) (req_headers (req p))\<rparr>,
                         header_field := [], header_value := []\<rparr>
                  else p)
        in p1\<lparr>header_field := s, header_building_state := True\<rparr>)"

definition on_header_value :: "string \<Rightarrow> 'c parser \<Rightarrow> 'c parser" where
  "on_header_value s p =
     (if header_building_state p then p\<lparr>header_building_state := False, header_value := s\<rparr>
      else p\<lparr>header_value := header_value p @ s\<rparr>)"

definition set_connection_parameters :: "'c parser \<Rightarrow> 'c parser" where
  "set_connection_parameters p =
     (let v10 = (http_major p = 1 \<and> http_minor p = 0);
          v11 = (http_major p = 1 \<and> http_minor p = 1);
          ka = (F_CONNECTION_KEEP_ALIVE \<in> flags p)
      in p\<lparr>req := (req p)
           \<lparr>http_ver_major := http_major p, http_ver_minor := http_minor p,
            keep_alive := (if v10 then ka else v11),
            close_connection := (if v10 then \<not> ka else v11 \<and> F_CONNECTION_CLOSE \<in> flags p),
            req_upgrade := upgrade p\<rparr>\<rparr>)"

definition on_headers_complete :: "'c manejadores \<Rightarrow> 'c parser \<Rightarrow> 'c parser" where
  "on_headers_complete m p =
     (let p1 = (if header_field p \<noteq> []
                then p\<lparr>req := (req p)\<lparr>req_headers := ci_emplace (header_field p) (header_value p) (req_headers (req p))\<rparr>,
                       header_field := [], header_value := []\<rparr>
                else p)
      in handle_header m (set_connection_parameters p1))"

definition on_body :: "string \<Rightarrow> 'c parser \<Rightarrow> 'c parser" where
  "on_body s p = p\<lparr>req := (req p)\<lparr>req_body := req_body (req p) @ s\<rparr>\<rparr>"

definition on_message_complete :: "('c parser \<Rightarrow> 'c parser) \<Rightarrow> 'c parser \<Rightarrow> 'c parser" where
  "on_message_complete process_message p = process_message (p\<lparr>message_complete := True\<rparr>)"

subsection \<open>One call of the parser\<close>

datatype marca = header_field_mark | header_value_mark | url_mark | url_start_mark | body_mark

text \<open>The local variables of \<^verbatim>\<open>http_parser_execute\<close> beside the parser.\<close>

record 'c ejec =
  par :: "'c parser"
  pos :: nat
  nread_l :: nat
  marks :: "marca \<Rightarrow> nat option"

text \<open>
  How a piece of the switch ends: by going on (or \<^verbatim>\<open>break\<close>), by \<^verbatim>\<open>goto reexecute\<close>, by \<^verbatim>\<open>goto error\<close>,
  by a \<^verbatim>\<open>return\<close>, or in a failed \<^verbatim>\<open>assert\<close> (the program is compiled without \<^verbatim>\<open>NDEBUG\<close>).
\<close>

datatype control = Sigue | Reejecuta | Goto_error | Retorna nat | Aborta

type_synonym 'c pasos = "control \<times> 'c ejec"

definition luego :: "'c pasos \<Rightarrow> ('c ejec \<Rightarrow> 'c pasos) \<Rightarrow> 'c pasos" where
  "luego r f = (if fst r = Sigue then f (snd r) else r)"

definition en_parser :: "('c parser \<Rightarrow> 'c parser) \<Rightarrow> 'c ejec \<Rightarrow> 'c ejec" where
  "en_parser f e = e\<lparr>par := f (par e)\<rparr>"

definition a_estado :: "state \<Rightarrow> 'c ejec \<Rightarrow> 'c ejec" where
  "a_estado s = en_parser (\<lambda>p. p\<lparr>pstate := s\<rparr>)"

definition a_cabecera :: "header_states \<Rightarrow> 'c ejec \<Rightarrow> 'c ejec" where
  "a_cabecera h = en_parser (\<lambda>p. p\<lparr>header_state := h\<rparr>)"

definition afirma :: "bool \<Rightarrow> 'c ejec \<Rightarrow> 'c pasos" where
  "afirma b e = (if b then Sigue else Aborta, e)"

definition CROW_SET_ERRNO :: "http_errno \<Rightarrow> 'c ejec \<Rightarrow> 'c ejec" where
  "CROW_SET_ERRNO er e = en_parser (\<lambda>p. p\<lparr>nread := nread_l e, p_errno := er\<rparr>) e"

definition falla :: "http_errno \<Rightarrow> 'c ejec \<Rightarrow> 'c pasos" where
  "falla er e = (Goto_error, CROW_SET_ERRNO er e)"

definition CROW_CALLBACK_NOTIFY_ER :: "('c parser \<Rightarrow> 'c parser) \<Rightarrow> nat \<Rightarrow> 'c ejec \<Rightarrow> 'c pasos" where
  "CROW_CALLBACK_NOTIFY_ER cb er e =
     luego (afirma (p_errno (par e) = CHPE_OK) e) (\<lambda>e.
       let e1 = en_parser cb e
       in (if p_errno (par e1) \<noteq> CHPE_OK then Retorna er else Sigue, e1))"

definition on_dato :: "'c manejadores \<Rightarrow> marca \<Rightarrow> string \<Rightarrow> 'c parser \<Rightarrow> 'c parser" where
  "on_dato m k s =
     (case k of
        header_field_mark \<Rightarrow> on_header_field s
      | header_value_mark \<Rightarrow> on_header_value s
      | url_mark \<Rightarrow> on_url m s
      | url_start_mark \<Rightarrow> id
      | body_mark \<Rightarrow> on_body s)"

text \<open>The data runs from the mark to the position \<open>z\<close>.\<close>

definition CROW_CALLBACK_DATA_ER :: "'c manejadores \<Rightarrow> string \<Rightarrow> marca \<Rightarrow> nat \<Rightarrow> nat \<Rightarrow> 'c ejec \<Rightarrow> 'c pasos" where
  "CROW_CALLBACK_DATA_ER m data k z er e =
     luego (afirma (p_errno (par e) = CHPE_OK) e) (\<lambda>e.
       case marks e k of
         None \<Rightarrow> (Sigue, e)
       | Some a \<Rightarrow>
           let e1 = en_parser (on_dato m k (take (z - a) (drop a data))) e
           in if p_errno (par e1) \<noteq> CHPE_OK then (Retorna er, e1)
              else (Sigue, e1\<lparr>marks := (marks e1)(k := None)\<rparr>))"

definition CROW_CALLBACK_DATA :: "'c manejadores \<Rightarrow> string \<Rightarrow> marca \<Rightarrow> 'c ejec \<Rightarrow> 'c pasos" where
  "CROW_CALLBACK_DATA m data k e = CROW_CALLBACK_DATA_ER m data k (pos e) (pos e + 1) e"

definition CROW_CALLBACK_DATA_NOADVANCE :: "'c manejadores \<Rightarrow> string \<Rightarrow> marca \<Rightarrow> 'c ejec \<Rightarrow> 'c pasos" where
  "CROW_CALLBACK_DATA_NOADVANCE m data k e = CROW_CALLBACK_DATA_ER m data k (pos e) (pos e) e"

definition CROW_MARK :: "marca \<Rightarrow> 'c ejec \<Rightarrow> 'c ejec" where
  "CROW_MARK k e = (if marks e k = None then e\<lparr>marks := (marks e)(k := Some (pos e))\<rparr> else e)"

definition CROW_COUNT_HEADER_SIZE :: "nat \<Rightarrow> 'c ejec \<Rightarrow> 'c pasos" where
  "CROW_COUNT_HEADER_SIZE v e =
     (let e1 = e\<lparr>nread_l := (nread_l e + v) mod 2 ^ 32\<rparr>
      in if nread_l e1 > max_header_size then falla CHPE_HEADER_OVERFLOW e1 else (Sigue, e1))"

definition CROW_STRICT_CHECK :: "bool \<Rightarrow> 'c ejec \<Rightarrow> 'c pasos" where
  "CROW_STRICT_CHECK b e = (if b then falla CHPE_STRICT e else (Sigue, e))"

text \<open>\<^verbatim>\<open>p - url_mark\<close>, where \<^verbatim>\<open>p\<close> is the address of a character and \<^verbatim>\<open>url_mark\<close> may be null.\<close>

definition dif_punteros :: "64 word \<Rightarrow> nat \<Rightarrow> nat option \<Rightarrow> 64 word" where
  "dif_punteros dir i k = (dir + of_nat i) - (case k of None \<Rightarrow> 0 | Some j \<Rightarrow> dir + of_nat j)"

definition url_servidor :: "char \<Rightarrow> 64 word \<Rightarrow> 'c parser \<Rightarrow> state \<times> 'c parser" where
  "url_servidor ch d p =
     (if ch = CHR ''/'' then (s_req_path, p)
      else if ch = CHR ''?'' then (s_req_query_string_start, p\<lparr>qs_point := d\<rparr>)
      else if ch = CHR ''@'' then (s_req_server_with_at, p)
      else if CROW_IS_USERINFO_CHAR ch \<or> ch = CHR ''['' \<or> ch = CHR '']'' then (s_req_server, p)
      else (s_dead, p))"

definition parse_url_char :: "state \<Rightarrow> char \<Rightarrow> 64 word \<Rightarrow> 'c parser \<Rightarrow> state \<times> 'c parser" where
  "parse_url_char s ch d p =
     (if ch = CHR '' '' \<or> ch = cr \<or> ch = lf \<or> ch = ht \<or> ch = CHR 0x0C then (s_dead, p)
      else case s of
        s_req_spaces_before_url \<Rightarrow>
          (if ch = CHR ''/'' \<or> ch = CHR ''*'' then s_req_path else if CROW_IS_ALPHA ch then s_req_schema else s_dead, p)
      | s_req_schema \<Rightarrow>
          (if CROW_IS_ALPHA ch then s_req_schema else if ch = CHR '':'' then s_req_schema_slash else s_dead, p)
      | s_req_schema_slash \<Rightarrow> (if ch = CHR ''/'' then s_req_schema_slash_slash else s_dead, p)
      | s_req_schema_slash_slash \<Rightarrow> (if ch = CHR ''/'' then s_req_server_start else s_dead, p)
      | s_req_server_with_at \<Rightarrow> (if ch = CHR ''@'' then (s_dead, p) else url_servidor ch d p)
      | s_req_server_start \<Rightarrow> url_servidor ch d p
      | s_req_server \<Rightarrow> url_servidor ch d p
      | s_req_path \<Rightarrow>
          (if CROW_IS_URL_CHAR ch then (s_req_path, p)
           else if ch = CHR ''?'' then (s_req_query_string_start, p\<lparr>qs_point := d\<rparr>)
           else (s_dead, p))
      | s_req_query_string_start \<Rightarrow> (if CROW_IS_URL_CHAR ch \<or> ch = CHR ''?'' then s_req_query_string else s_dead, p)
      | s_req_query_string \<Rightarrow> (if CROW_IS_URL_CHAR ch \<or> ch = CHR ''?'' then s_req_query_string else s_dead, p)
      | _ \<Rightarrow> (s_dead, p))"

subsection \<open>The states of the request line\<close>

definition paso_dead :: "char \<Rightarrow> 'c ejec \<Rightarrow> 'c pasos" where
  "paso_dead ch e = (if ch = cr \<or> ch = lf then (Sigue, e) else falla CHPE_CLOSED_CONNECTION e)"

definition metodo_inicial :: "char \<Rightarrow> HTTPMethod option" where
  "metodo_inicial ch =
     map_of [(CHR ''A'', Acl), (CHR ''B'', Bind), (CHR ''C'', Connect), (CHR ''D'', Delete), (CHR ''G'', Get),
             (CHR ''H'', Head), (CHR ''L'', Lock), (CHR ''M'', MkCol), (CHR ''N'', Notify), (CHR ''O'', Options),
             (CHR ''P'', Post), (CHR ''R'', Report), (CHR ''S'', Subscribe), (CHR ''T'', Trace),
             (CHR ''U'', Unlock)] ch"

text \<open>The callback \<^verbatim>\<open>on_message_begin\<close> returns 0 and does nothing else.\<close>

definition paso_start_req :: "char \<Rightarrow> 'c ejec \<Rightarrow> 'c pasos" where
  "paso_start_req ch e =
     (if ch = cr \<or> ch = lf then (Sigue, e)
      else
        let e1 = en_parser (\<lambda>p. p\<lparr>flags := {}, uses_transfer_encoding := False, content_length := CROW_ULLONG_MAX\<rparr>) e
        in if \<not> CROW_IS_ALPHA ch then falla CHPE_INVALID_METHOD e1
           else
             let e2 = en_parser (\<lambda>p. p\<lparr>p_method := Delete, index := 1\<rparr>) e1
             in case metodo_inicial ch of
                  None \<Rightarrow> falla CHPE_INVALID_METHOD e2
                | Some mt \<Rightarrow>
                    CROW_CALLBACK_NOTIFY_ER id (pos e + 1)
                      (en_parser (\<lambda>p. p\<lparr>p_method := mt, pstate := s_req_method\<rparr>) e2))"

text \<open>The table of the switch: method, position and character give another method.\<close>

definition metodo_cambia :: "HTTPMethod \<Rightarrow> nat \<Rightarrow> char \<Rightarrow> HTTPMethod option" where
  "metodo_cambia mt i ch =
     map_of
       [((Post, 1, CHR ''U''), Put), ((Post, 1, CHR ''A''), Patch), ((Post, 1, CHR ''R''), Propfind),
        ((Put, 2, CHR ''R''), Purge), ((Connect, 1, CHR ''H''), Checkout), ((Connect, 2, CHR ''P''), Copy),
        ((MkCol, 1, CHR ''O''), Move), ((MkCol, 1, CHR ''E''), Merge), ((MkCol, 1, CHR ''-''), MSearch),
        ((MkCol, 2, CHR ''A''), MkActivity), ((MkCol, 3, CHR ''A''), MkCalendar),
        ((Subscribe, 1, CHR ''E''), Search), ((Subscribe, 1, CHR ''O''), Source),
        ((Report, 2, CHR ''B''), Rebind), ((Propfind, 4, CHR ''P''), Proppatch),
        ((Lock, 1, CHR ''I''), Link), ((Unlock, 2, CHR ''S''), Unsubscribe),
        ((Unlock, 2, CHR ''B''), Unbind), ((Unlock, 3, CHR ''I''), Unlink)] (mt, i, ch)"

text \<open>A character of a C string: its terminator is at its length.\<close>

definition car_c :: "string \<Rightarrow> nat \<Rightarrow> char" where
  "car_c s i = (s @ [nul]) ! i"

definition paso_req_method :: "char \<Rightarrow> 'c ejec \<Rightarrow> 'c pasos" where
  "paso_req_method ch e =
     (if ch = nul then falla CHPE_INVALID_METHOD e
      else
        luego
          (let mt = p_method (par e); i = index (par e); mi = car_c (method_name mt) i
           in if ch = CHR '' '' \<and> mi = nul then (Sigue, a_estado s_req_spaces_before_url e)
              else if ch = mi then (Sigue, e)
              else if CHR ''A'' \<le> ch \<and> ch \<le> CHR ''Z'' \<or> ch = CHR ''-'' then
                (case metodo_cambia mt i ch of
                   None \<Rightarrow> falla CHPE_INVALID_METHOD e
                 | Some mt' \<Rightarrow> (Sigue, en_parser (\<lambda>p. p\<lparr>p_method := mt'\<rparr>) e))
              else falla CHPE_INVALID_METHOD e)
          (\<lambda>e. luego (CROW_CALLBACK_NOTIFY_ER on_method (pos e) e)
             (\<lambda>e. (Sigue, en_parser (\<lambda>p. p\<lparr>index := (index p + 1) mod 32\<rparr>) e))))"

definition url_char :: "64 word \<Rightarrow> char \<Rightarrow> 'c ejec \<Rightarrow> 'c pasos" where
  "url_char dir ch e =
     (let d = dif_punteros dir (pos e) (marks e url_start_mark);
          (s, p) = parse_url_char (pstate (par e)) ch d (par e);
          e1 = e\<lparr>par := p\<lparr>pstate := s\<rparr>\<rparr>
      in if s = s_dead then falla CHPE_INVALID_URL e1 else (Sigue, e1))"

definition paso_spaces_before_url :: "64 word \<Rightarrow> char \<Rightarrow> 'c ejec \<Rightarrow> 'c pasos" where
  "paso_spaces_before_url dir ch e =
     (if ch = CHR '' '' then (Sigue, e)
      else
        let e1 = CROW_MARK url_start_mark (CROW_MARK url_mark e)
        in url_char dir ch (if p_method (par e1) = Connect then a_estado s_req_server_start e1 else e1))"

definition paso_schema :: "64 word \<Rightarrow> char \<Rightarrow> 'c ejec \<Rightarrow> 'c pasos" where
  "paso_schema dir ch e =
     (if ch = CHR '' '' \<or> ch = cr \<or> ch = lf then falla CHPE_INVALID_URL e else url_char dir ch e)"

definition paso_url :: "'c manejadores \<Rightarrow> 64 word \<Rightarrow> string \<Rightarrow> char \<Rightarrow> 'c ejec \<Rightarrow> 'c pasos" where
  "paso_url m dir data ch e =
     (if ch = CHR '' '' then CROW_CALLBACK_DATA m data url_mark (a_estado s_req_http_start e)
      else if ch = cr \<or> ch = lf then
        (if p_method (par e) \<noteq> Get then falla CHPE_INVALID_VERSION (a_estado s_dead e)
         else CROW_CALLBACK_DATA m data url_mark
                (a_estado (if ch = cr then s_req_line_almost_done else s_header_field_start)
                   (en_parser (\<lambda>p. p\<lparr>http_major := 0, http_minor := 9\<rparr>) e)))
      else url_char dir ch e)"

definition paso_http_start :: "char \<Rightarrow> 'c ejec \<Rightarrow> 'c pasos" where
  "paso_http_start ch e =
     (if ch = CHR '' '' then (Sigue, e)
      else if ch = CHR ''H'' then (Sigue, a_estado s_req_http_H e)
      else if ch = CHR ''I'' \<and> p_method (par e) = Source then (Sigue, a_estado s_req_http_I e)
      else falla CHPE_INVALID_CONSTANT e)"

text \<open>The states that wait for one character.\<close>

definition paso_estricto :: "char \<Rightarrow> state \<Rightarrow> char \<Rightarrow> 'c ejec \<Rightarrow> 'c pasos" where
  "paso_estricto quiere s ch e = luego (CROW_STRICT_CHECK (ch \<noteq> quiere) e) (\<lambda>e. (Sigue, a_estado s e))"

definition paso_http_major :: "char \<Rightarrow> 'c ejec \<Rightarrow> 'c pasos" where
  "paso_http_major ch e =
     (if \<not> CROW_IS_NUM ch then falla CHPE_INVALID_VERSION e
      else (Sigue, a_estado s_req_http_dot (en_parser (\<lambda>p. p\<lparr>http_major := of_char ch - 48\<rparr>) e)))"

definition paso_http_dot :: "char \<Rightarrow> 'c ejec \<Rightarrow> 'c pasos" where
  "paso_http_dot ch e =
     (if ch \<noteq> CHR ''.'' then falla CHPE_INVALID_VERSION e else (Sigue, a_estado s_req_http_minor e))"

definition paso_http_minor :: "char \<Rightarrow> 'c ejec \<Rightarrow> 'c pasos" where
  "paso_http_minor ch e =
     (if \<not> CROW_IS_NUM ch then falla CHPE_INVALID_VERSION e
      else (Sigue, a_estado s_req_http_end (en_parser (\<lambda>p. p\<lparr>http_minor := of_char ch - 48\<rparr>) e)))"

definition paso_http_end :: "char \<Rightarrow> 'c ejec \<Rightarrow> 'c pasos" where
  "paso_http_end ch e =
     (if ch = cr then (Sigue, a_estado s_req_line_almost_done e)
      else if ch = lf then (Sigue, a_estado s_header_field_start e)
      else falla CHPE_INVALID_VERSION e)"

definition paso_espera_lf :: "state \<Rightarrow> char \<Rightarrow> 'c ejec \<Rightarrow> 'c pasos" where
  "paso_espera_lf s ch e = (if ch \<noteq> lf then falla CHPE_LF_EXPECTED e else (Sigue, a_estado s e))"

subsection \<open>The states of the headers\<close>

definition cabecera_inicial :: "char \<Rightarrow> header_states" where
  "cabecera_inicial c =
     (if c = CHR ''c'' then h_C
      else if c = CHR ''p'' then h_matching_proxy_connection
      else if c = CHR ''t'' then h_matching_transfer_encoding
      else if c = CHR ''u'' then h_matching_upgrade
      else h_general)"

definition paso_header_field_start :: "char \<Rightarrow> 'c ejec \<Rightarrow> 'c pasos" where
  "paso_header_field_start ch e =
     (if ch = cr then (Sigue, a_estado s_headers_almost_done e)
      else if ch = lf then (Reejecuta, a_estado s_headers_almost_done e)
      else if CROW_TOKEN ch = nul then falla CHPE_INVALID_HEADER_TOKEN e
      else (Sigue, a_cabecera (cabecera_inicial (CROW_TOKEN ch))
                     (a_estado s_header_field (en_parser (\<lambda>p. p\<lparr>index := 0\<rparr>) (CROW_MARK header_field_mark e)))))"

text \<open>One more character of a literal: its state if it goes on, if it is complete and if it differs.\<close>

definition coincide :: "string \<Rightarrow> nat \<Rightarrow> char \<Rightarrow> header_states \<Rightarrow> header_states \<Rightarrow> header_states \<Rightarrow> header_states" where
  "coincide lit i c sigue fin no =
     (if length lit < i \<or> c \<noteq> car_c lit i then no else if i = length lit - 1 then fin else sigue)"

definition avanza :: "(nat \<Rightarrow> header_states) \<Rightarrow> 'c parser \<Rightarrow> 'c parser" where
  "avanza f p = (let i = (index p + 1) mod 32 in p\<lparr>index := i, header_state := f i\<rparr>)"

text \<open>A character of a field name; \<open>None\<close> is the failed assertion of the last branch.\<close>

definition campo_char :: "char \<Rightarrow> 'c parser \<Rightarrow> 'c parser option" where
  "campo_char ch p =
     (let c = CROW_TOKEN ch in
      case header_state p of
        h_general \<Rightarrow> Some p
      | h_C \<Rightarrow> Some (avanza (\<lambda>_. if c = CHR ''o'' then h_CO else h_general) p)
      | h_CO \<Rightarrow> Some (avanza (\<lambda>_. if c = CHR ''n'' then h_CON else h_general) p)
      | h_CON \<Rightarrow>
          Some (avanza (\<lambda>_. if c = CHR ''n'' then h_matching_connection
                            else if c = CHR ''t'' then h_matching_content_length else h_general) p)
      | h_matching_connection \<Rightarrow>
          Some (avanza (\<lambda>i. coincide ''connection'' i c h_matching_connection h_connection h_general) p)
      | h_matching_proxy_connection \<Rightarrow>
          Some (avanza (\<lambda>i. coincide ''proxy-connection'' i c h_matching_proxy_connection h_connection h_general) p)
      | h_matching_content_length \<Rightarrow>
          Some (avanza (\<lambda>i. coincide ''content-length'' i c h_matching_content_length h_content_length h_general) p)
      | h_matching_transfer_encoding \<Rightarrow>
          (let p1 = avanza (\<lambda>i. coincide ''transfer-encoding'' i c h_matching_transfer_encoding
                                  h_transfer_encoding h_general) p
           in Some (if header_state p1 = h_transfer_encoding then p1\<lparr>uses_transfer_encoding := True\<rparr> else p1))
      | h_matching_upgrade \<Rightarrow>
          Some (avanza (\<lambda>i. coincide ''upgrade'' i c h_matching_upgrade h_upgrade h_general) p)
      | h_connection \<Rightarrow> Some (if ch \<noteq> CHR '' '' then p\<lparr>header_state := h_general\<rparr> else p)
      | h_content_length \<Rightarrow> Some (if ch \<noteq> CHR '' '' then p\<lparr>header_state := h_general\<rparr> else p)
      | h_transfer_encoding \<Rightarrow> Some (if ch \<noteq> CHR '' '' then p\<lparr>header_state := h_general\<rparr> else p)
      | h_upgrade \<Rightarrow> Some (if ch \<noteq> CHR '' '' then p\<lparr>header_state := h_general\<rparr> else p)
      | _ \<Rightarrow> None)"

text \<open>
  The loop over the characters of the name: whether the assertion held, where it stopped, and the
  parser. The inner loop of \<^verbatim>\<open>h_general\<close> skips characters for which this one does nothing.
\<close>

fun lee_campo :: "string \<Rightarrow> nat \<Rightarrow> 'c parser \<Rightarrow> bool \<times> nat \<times> 'c parser" where
  "lee_campo [] i p = (True, i, p)"
| "lee_campo (ch # cs) i p =
     (if CROW_TOKEN ch = nul then (True, i, p)
      else case campo_char ch p of
             None \<Rightarrow> (False, i, p)
           | Some p1 \<Rightarrow> lee_campo cs (Suc i) p1)"

definition paso_header_field :: "'c manejadores \<Rightarrow> string \<Rightarrow> 'c ejec \<Rightarrow> 'c pasos" where
  "paso_header_field m data e =
     (let (ok, i, p) = lee_campo (drop (pos e) data) (pos e) (par e)
      in luego (afirma ok (e\<lparr>par := p, pos := i\<rparr>)) (\<lambda>e1.
           if i = length data
           then CROW_COUNT_HEADER_SIZE (i - 1 - pos e) (e1\<lparr>pos := i - 1\<rparr>)
           else luego (CROW_COUNT_HEADER_SIZE (i - pos e) e1) (\<lambda>e2.
             if data ! i = CHR '':''
             then CROW_CALLBACK_DATA m data header_field_mark (a_estado s_header_value_discard_ws e2)
             else falla CHPE_INVALID_HEADER_TOKEN e2)))"

definition paso_header_value_start :: "char \<Rightarrow> 'c ejec \<Rightarrow> 'c pasos" where
  "paso_header_value_start ch e =
     (let e1 = en_parser (\<lambda>p. p\<lparr>pstate := s_header_value, index := 0\<rparr>) (CROW_MARK header_value_mark e);
          c = CROW_LOWER ch
      in case header_state (par e1) of
           h_upgrade \<Rightarrow> (Sigue, a_cabecera h_general (en_parser (\<lambda>p. p\<lparr>flags := insert F_UPGRADE (flags p)\<rparr>) e1))
         | h_transfer_encoding \<Rightarrow>
             (Sigue, a_cabecera (if c = CHR ''c'' then h_matching_transfer_encoding_chunked
                                 else h_matching_transfer_encoding_token) e1)
         | h_matching_transfer_encoding_token_start \<Rightarrow> (Sigue, e1)
         | h_content_length \<Rightarrow>
             (if \<not> CROW_IS_NUM ch then falla CHPE_INVALID_CONTENT_LENGTH e1
              else if F_CONTENTLENGTH \<in> flags (par e1) then falla CHPE_UNEXPECTED_CONTENT_LENGTH e1
              else (Sigue, a_cabecera h_content_length_num
                      (en_parser (\<lambda>p. p\<lparr>flags := insert F_CONTENTLENGTH (flags p),
                                        content_length := of_nat (of_char ch - 48)\<rparr>) e1)))
         | h_content_length_ws \<Rightarrow> (Sigue, e1)
         | h_connection \<Rightarrow>
             (Sigue,
              if c = CHR ''k'' then a_cabecera h_matching_connection_keep_alive e1
              else if c = CHR ''c'' then a_cabecera h_matching_connection_close e1
              else if c = CHR '' '' \<or> c = ht then e1
              else a_cabecera h_general e1)
         | _ \<Rightarrow> (Sigue, a_cabecera h_general e1))"

definition paso_header_value_discard_ws :: "char \<Rightarrow> 'c ejec \<Rightarrow> 'c pasos" where
  "paso_header_value_discard_ws ch e =
     (if ch = CHR '' '' \<or> ch = ht then (Sigue, e)
      else if ch = cr then (Sigue, a_estado s_header_value_discard_ws_almost_done e)
      else if ch = lf then (Sigue, a_estado s_header_value_discard_lws e)
      else paso_header_value_start ch e)"

text \<open>A character of a value: the new \<^verbatim>\<open>h_state\<close> and parser, an error, or the failed assertion.\<close>

datatype 'c valor_res = V_sigue header_states "'c parser" | V_mal http_errno | V_aborta

definition valor_digito :: "char \<Rightarrow> 'c parser \<Rightarrow> 'c valor_res" where
  "valor_digito ch p =
     (if ch = CHR '' '' then V_sigue h_content_length_ws p
      else if \<not> CROW_IS_NUM ch then V_mal CHPE_INVALID_CONTENT_LENGTH
      else
        let t = content_length p * 10 + of_nat (of_char ch - 48)
        in if (CROW_ULLONG_MAX - 10) div 10 < content_length p then V_mal CHPE_INVALID_CONTENT_LENGTH
           else V_sigue h_content_length_num (p\<lparr>content_length := t\<rparr>))"

definition valor_literal :: "string \<Rightarrow> char \<Rightarrow> header_states \<Rightarrow> header_states \<Rightarrow> header_states \<Rightarrow> 'c parser \<Rightarrow> 'c valor_res" where
  "valor_literal lit c sigue fin no p =
     (let i = (index p + 1) mod 32 in V_sigue (coincide lit i c sigue fin no) (p\<lparr>index := i\<rparr>))"

definition valor_char :: "char \<Rightarrow> header_states \<Rightarrow> 'c parser \<Rightarrow> 'c valor_res" where
  "valor_char ch h p =
     (let c = CROW_LOWER ch in
      case h of
        h_general \<Rightarrow> V_sigue h p
      | h_connection \<Rightarrow> V_aborta
      | h_transfer_encoding \<Rightarrow> V_aborta
      | h_content_length \<Rightarrow> (if ch = CHR '' '' then V_sigue h p else valor_digito ch p)
      | h_content_length_num \<Rightarrow> valor_digito ch p
      | h_content_length_ws \<Rightarrow> (if ch = CHR '' '' then V_sigue h p else V_mal CHPE_INVALID_CONTENT_LENGTH)
      | h_matching_transfer_encoding_token_start \<Rightarrow>
          V_sigue (if c = CHR ''c'' then h_matching_transfer_encoding_chunked
                   else if CROW_TOKEN c \<noteq> nul then h_matching_transfer_encoding_token
                   else if c = CHR '' '' \<or> c = ht then h
                   else h_general) p
      | h_matching_transfer_encoding_chunked \<Rightarrow>
          valor_literal ''chunked'' c h h_transfer_encoding_chunked h_matching_transfer_encoding_token p
      | h_matching_transfer_encoding_token \<Rightarrow>
          (if ch = CHR '','' then V_sigue h_matching_transfer_encoding_token_start (p\<lparr>index := 0\<rparr>)
           else V_sigue h p)
      | h_matching_connection_keep_alive \<Rightarrow>
          valor_literal ''keep-alive'' c h h_connection_keep_alive h_general p
      | h_matching_connection_close \<Rightarrow> valor_literal ''close'' c h h_connection_close h_general p
      | h_transfer_encoding_chunked \<Rightarrow>
          V_sigue (if ch \<noteq> CHR '' '' then h_matching_transfer_encoding_token else h) p
      | h_connection_keep_alive \<Rightarrow> V_sigue (if ch \<noteq> CHR '' '' then h_general else h) p
      | h_connection_close \<Rightarrow> V_sigue (if ch \<noteq> CHR '' '' then h_general else h) p
      | _ \<Rightarrow> V_sigue h_general (p\<lparr>pstate := s_header_value\<rparr>))"

text \<open>How the loop over the characters of a value ends.\<close>

datatype valor_fin = Fin_datos | Fin_cr | Fin_lf | Fin_token | Fin_longitud http_errno | Fin_aborta

fun lee_valor :: "string \<Rightarrow> nat \<Rightarrow> header_states \<Rightarrow> 'c parser \<Rightarrow> valor_fin \<times> nat \<times> header_states \<times> 'c parser" where
  "lee_valor [] i h p = (Fin_datos, i, h, p)"
| "lee_valor (ch # cs) i h p =
     (if ch = cr then (Fin_cr, i, h, p)
      else if ch = lf then (Fin_lf, i, h, p)
      else if \<not> lenient_http_headers p \<and> \<not> CROW_IS_HEADER_CHAR ch then (Fin_token, i, h, p)
      else case valor_char ch h p of
             V_sigue h1 p1 \<Rightarrow> lee_valor cs (Suc i) h1 p1
           | V_mal er \<Rightarrow> (Fin_longitud er, i, if h = h_content_length then h_content_length_num else h, p)
           | V_aborta \<Rightarrow> (Fin_aborta, i, h, p))"

definition paso_header_value :: "'c manejadores \<Rightarrow> string \<Rightarrow> 'c ejec \<Rightarrow> 'c pasos" where
  "paso_header_value m data e =
     (let (fin, i, h, p) = lee_valor (drop (pos e) data) (pos e) (header_state (par e)) (par e);
          e1 = e\<lparr>par := p, pos := i\<rparr>;
          listo = a_cabecera h (a_estado s_header_almost_done e1)
      in case fin of
           Fin_datos \<Rightarrow> CROW_COUNT_HEADER_SIZE (i - 1 - pos e) (a_cabecera h (e1\<lparr>pos := i - 1\<rparr>))
         | Fin_cr \<Rightarrow>
             luego (CROW_CALLBACK_DATA m data header_value_mark listo) (\<lambda>e2.
               CROW_COUNT_HEADER_SIZE (i - pos e) (a_cabecera h e2))
         | Fin_lf \<Rightarrow>
             luego (CROW_COUNT_HEADER_SIZE (i - pos e) (a_estado s_header_almost_done e1)) (\<lambda>e2.
               luego (CROW_CALLBACK_DATA_NOADVANCE m data header_value_mark (a_cabecera h e2)) (\<lambda>e3. (Reejecuta, e3)))
         | Fin_token \<Rightarrow> falla CHPE_INVALID_HEADER_TOKEN e1
         | Fin_longitud er \<Rightarrow> (Goto_error, a_cabecera h (CROW_SET_ERRNO er e1))
         | Fin_aborta \<Rightarrow> (Aborta, e1))"

definition paso_header_value_lws :: "char \<Rightarrow> 'c ejec \<Rightarrow> 'c pasos" where
  "paso_header_value_lws ch e =
     (if ch = CHR '' '' \<or> ch = ht then
        (Reejecuta, a_estado s_header_value_start
           (if header_state (par e) = h_content_length_num then a_cabecera h_content_length_ws e else e))
      else
        (Reejecuta, a_estado s_header_field_start
           (en_parser (\<lambda>p. p\<lparr>flags :=
              (case header_state p of
                 h_connection_keep_alive \<Rightarrow> insert F_CONNECTION_KEEP_ALIVE (flags p)
               | h_connection_close \<Rightarrow> insert F_CONNECTION_CLOSE (flags p)
               | h_transfer_encoding_chunked \<Rightarrow> insert F_CHUNKED (flags p)
               | _ \<Rightarrow> flags p)\<rparr>) e)))"

definition paso_header_value_discard_lws :: "'c manejadores \<Rightarrow> string \<Rightarrow> char \<Rightarrow> 'c ejec \<Rightarrow> 'c pasos" where
  "paso_header_value_discard_lws m data ch e =
     (if ch = CHR '' '' \<or> ch = ht then (Sigue, a_estado s_header_value_discard_ws e)
      else
        luego (CROW_CALLBACK_DATA_NOADVANCE m data header_value_mark
                 (a_estado s_header_field_start (CROW_MARK header_value_mark e)))
          (\<lambda>e. (Reejecuta, e)))"

subsection \<open>The end of the headers and the body\<close>

text \<open>The wrapper's \<^verbatim>\<open>on_headers_complete\<close> always returns 0.\<close>

definition paso_headers_almost_done :: "'c manejadores \<Rightarrow> char \<Rightarrow> 'c ejec \<Rightarrow> 'c pasos" where
  "paso_headers_almost_done m ch e =
     luego (CROW_STRICT_CHECK (ch \<noteq> lf) e) (\<lambda>e.
       if F_TRAILING \<in> flags (par e) then CROW_CALLBACK_NOTIFY_ER (on_message_complete (handle m)) (pos e + 1) e
       else if uses_transfer_encoding (par e) \<and> F_CONTENTLENGTH \<in> flags (par e) \<and>
               (if F_CHUNKED \<in> flags (par e) then \<not> allow_chunked_length (par e)
                else \<not> lenient_http_headers (par e))
       then falla CHPE_UNEXPECTED_CONTENT_LENGTH e
       else
         let e1 = en_parser (\<lambda>p. p\<lparr>pstate := s_headers_done, upgrade := (F_UPGRADE \<in> flags p \<or> p_method p = Connect)\<rparr>) e;
             e2 = en_parser (on_headers_complete m) e1
         in if p_errno (par e2) \<noteq> CHPE_OK then (Retorna (pos e2), en_parser (\<lambda>p. p\<lparr>nread := nread_l e2\<rparr>) e2)
            else (Reejecuta, e2))"

definition nread_cero :: "'c ejec \<Rightarrow> 'c ejec" where
  "nread_cero e = (en_parser (\<lambda>p. p\<lparr>nread := 0\<rparr>) e)\<lparr>nread_l := 0\<rparr>"

definition paso_headers_done :: "'c manejadores \<Rightarrow> char \<Rightarrow> 'c ejec \<Rightarrow> 'c pasos" where
  "paso_headers_done m ch e =
     luego (CROW_STRICT_CHECK (ch \<noteq> lf) e) (\<lambda>e.
       let e1 = nread_cero e;
           completo = CROW_CALLBACK_NOTIFY_ER (on_message_complete (handle m)) (pos e + 1) e1
       in if upgrade (par e1) then
            luego completo (\<lambda>e2. (Retorna (pos e2 + 1), en_parser (\<lambda>p. p\<lparr>nread := nread_l e2\<rparr>) e2))
          else if F_SKIPBODY \<in> flags (par e1) then completo
          else if F_CHUNKED \<in> flags (par e1) then (Sigue, a_estado s_chunk_size_start e1)
          else if uses_transfer_encoding (par e1) then
            (if \<not> lenient_http_headers (par e1)
             then (Retorna (pos e1),
                   en_parser (\<lambda>p. p\<lparr>nread := nread_l e1\<rparr>) (CROW_SET_ERRNO CHPE_INVALID_TRANSFER_ENCODING e1))
             else (Sigue, a_estado s_body_identity_eof e1))
          else if content_length (par e1) = 0 then completo
          else if content_length (par e1) \<noteq> CROW_ULLONG_MAX then (Sigue, a_estado s_body_identity e1)
          else completo)"

text \<open>Reading \<^verbatim>\<open>to_read\<close> characters of the body: the position stays on the last of them.\<close>

definition lee_cuerpo :: "string \<Rightarrow> 'c ejec \<Rightarrow> 'c ejec" where
  "lee_cuerpo data e =
     (let e1 = CROW_MARK body_mark e;
          n = min (content_length (par e)) (of_nat (length data - pos e))
      in (en_parser (\<lambda>p. p\<lparr>content_length := content_length p - n\<rparr>) e1)\<lparr>pos := pos e + unat n - 1\<rparr>)"

definition paso_body_identity :: "'c manejadores \<Rightarrow> string \<Rightarrow> 'c ejec \<Rightarrow> 'c pasos" where
  "paso_body_identity m data e =
     luego (afirma (content_length (par e) \<noteq> 0 \<and> content_length (par e) \<noteq> CROW_ULLONG_MAX) e) (\<lambda>e.
       let e1 = lee_cuerpo data e
       in if content_length (par e1) = 0
          then luego (CROW_CALLBACK_DATA_ER m data body_mark (pos e1 + 1) (pos e1) (a_estado s_message_done e1))
                 (\<lambda>e. (Reejecuta, e))
          else (Sigue, e1))"

definition paso_body_identity_eof :: "string \<Rightarrow> 'c ejec \<Rightarrow> 'c pasos" where
  "paso_body_identity_eof data e = (Sigue, (CROW_MARK body_mark e)\<lparr>pos := length data - 1\<rparr>)"

definition paso_message_done :: "'c manejadores \<Rightarrow> 'c ejec \<Rightarrow> 'c pasos" where
  "paso_message_done m e = CROW_CALLBACK_NOTIFY_ER (on_message_complete (handle m)) (pos e + 1) e"

definition paso_chunk_size_start :: "char \<Rightarrow> 'c ejec \<Rightarrow> 'c pasos" where
  "paso_chunk_size_start ch e =
     luego (afirma (nread_l e = 1 \<and> F_CHUNKED \<in> flags (par e)) e) (\<lambda>e.
       if unhex ch = -1 then falla CHPE_INVALID_CHUNK_SIZE e
       else (Sigue, a_estado s_chunk_size (en_parser (\<lambda>p. p\<lparr>content_length := word_of_int (unhex ch)\<rparr>) e)))"

definition paso_chunk_size :: "char \<Rightarrow> 'c ejec \<Rightarrow> 'c pasos" where
  "paso_chunk_size ch e =
     luego (afirma (F_CHUNKED \<in> flags (par e)) e) (\<lambda>e.
       if ch = cr then (Sigue, a_estado s_chunk_size_almost_done e)
       else if unhex ch = -1 then
         (if ch = CHR '';'' \<or> ch = CHR '' '' then (Sigue, a_estado s_chunk_parameters e)
          else falla CHPE_INVALID_CHUNK_SIZE e)
       else
         let t = content_length (par e) * 16 + word_of_int (unhex ch)
         in if (CROW_ULLONG_MAX - 16) div 16 < content_length (par e) then falla CHPE_INVALID_CONTENT_LENGTH e
            else (Sigue, en_parser (\<lambda>p. p\<lparr>content_length := t\<rparr>) e))"

definition paso_chunk_parameters :: "char \<Rightarrow> 'c ejec \<Rightarrow> 'c pasos" where
  "paso_chunk_parameters ch e =
     luego (afirma (F_CHUNKED \<in> flags (par e)) e) (\<lambda>e.
       (Sigue, if ch = cr then a_estado s_chunk_size_almost_done e else e))"

definition paso_chunk_size_almost_done :: "char \<Rightarrow> 'c ejec \<Rightarrow> 'c pasos" where
  "paso_chunk_size_almost_done ch e =
     luego (afirma (F_CHUNKED \<in> flags (par e)) e) (\<lambda>e.
       luego (CROW_STRICT_CHECK (ch \<noteq> lf) e) (\<lambda>e.
         let e1 = nread_cero e
         in (Sigue,
             if content_length (par e1) = 0
             then a_estado s_header_field_start (en_parser (\<lambda>p. p\<lparr>flags := insert F_TRAILING (flags p)\<rparr>) e1)
             else a_estado s_chunk_data e1)))"

definition paso_chunk_data :: "string \<Rightarrow> 'c ejec \<Rightarrow> 'c pasos" where
  "paso_chunk_data data e =
     luego (afirma (F_CHUNKED \<in> flags (par e) \<and> content_length (par e) \<noteq> 0 \<and>
                    content_length (par e) \<noteq> CROW_ULLONG_MAX) e) (\<lambda>e.
       let e1 = lee_cuerpo data e
       in (Sigue, if content_length (par e1) = 0 then a_estado s_chunk_data_almost_done e1 else e1))"

definition paso_chunk_data_almost_done :: "'c manejadores \<Rightarrow> string \<Rightarrow> char \<Rightarrow> 'c ejec \<Rightarrow> 'c pasos" where
  "paso_chunk_data_almost_done m data ch e =
     luego (afirma (F_CHUNKED \<in> flags (par e) \<and> content_length (par e) = 0) e) (\<lambda>e.
       luego (CROW_STRICT_CHECK (ch \<noteq> cr) e) (\<lambda>e.
         CROW_CALLBACK_DATA m data body_mark (a_estado s_chunk_data_done e)))"

definition paso_chunk_data_done :: "char \<Rightarrow> 'c ejec \<Rightarrow> 'c pasos" where
  "paso_chunk_data_done ch e =
     luego (afirma (F_CHUNKED \<in> flags (par e)) e) (\<lambda>e.
       luego (CROW_STRICT_CHECK (ch \<noteq> lf) e) (\<lambda>e. (Sigue, a_estado s_chunk_size_start (nread_cero e))))"

subsection \<open>The switch and the loop\<close>

definition paso_estado :: "'c manejadores \<Rightarrow> 64 word \<Rightarrow> string \<Rightarrow> 'c ejec \<Rightarrow> 'c pasos" where
  "paso_estado m dir data e =
     (let ch = data ! pos e in
      case pstate (par e) of
        s_dead \<Rightarrow> paso_dead ch e
      | s_start_req \<Rightarrow> paso_start_req ch e
      | s_req_method \<Rightarrow> paso_req_method ch e
      | s_req_spaces_before_url \<Rightarrow> paso_spaces_before_url dir ch e
      | s_req_schema \<Rightarrow> paso_schema dir ch e
      | s_req_schema_slash \<Rightarrow> paso_schema dir ch e
      | s_req_schema_slash_slash \<Rightarrow> paso_schema dir ch e
      | s_req_server_start \<Rightarrow> paso_schema dir ch e
      | s_req_server \<Rightarrow> paso_url m dir data ch e
      | s_req_server_with_at \<Rightarrow> paso_url m dir data ch e
      | s_req_path \<Rightarrow> paso_url m dir data ch e
      | s_req_query_string_start \<Rightarrow> paso_url m dir data ch e
      | s_req_query_string \<Rightarrow> paso_url m dir data ch e
      | s_req_http_start \<Rightarrow> paso_http_start ch e
      | s_req_http_H \<Rightarrow> paso_estricto (CHR ''T'') s_req_http_HT ch e
      | s_req_http_HT \<Rightarrow> paso_estricto (CHR ''T'') s_req_http_HTT ch e
      | s_req_http_HTT \<Rightarrow> paso_estricto (CHR ''P'') s_req_http_HTTP ch e
      | s_req_http_I \<Rightarrow> paso_estricto (CHR ''C'') s_req_http_IC ch e
      | s_req_http_IC \<Rightarrow> paso_estricto (CHR ''E'') s_req_http_HTTP ch e
      | s_req_http_HTTP \<Rightarrow> paso_estricto (CHR ''/'') s_req_http_major ch e
      | s_req_http_major \<Rightarrow> paso_http_major ch e
      | s_req_http_dot \<Rightarrow> paso_http_dot ch e
      | s_req_http_minor \<Rightarrow> paso_http_minor ch e
      | s_req_http_end \<Rightarrow> paso_http_end ch e
      | s_req_line_almost_done \<Rightarrow> paso_espera_lf s_header_field_start ch e
      | s_header_field_start \<Rightarrow> paso_header_field_start ch e
      | s_header_field \<Rightarrow> paso_header_field m data e
      | s_header_value_discard_ws \<Rightarrow> paso_header_value_discard_ws ch e
      | s_header_value_start \<Rightarrow> paso_header_value_start ch e
      | s_header_value \<Rightarrow> paso_header_value m data e
      | s_header_almost_done \<Rightarrow> paso_espera_lf s_header_value_lws ch e
      | s_header_value_lws \<Rightarrow> paso_header_value_lws ch e
      | s_header_value_discard_ws_almost_done \<Rightarrow> paso_estricto lf s_header_value_discard_lws ch e
      | s_header_value_discard_lws \<Rightarrow> paso_header_value_discard_lws m data ch e
      | s_headers_almost_done \<Rightarrow> paso_headers_almost_done m ch e
      | s_headers_done \<Rightarrow> paso_headers_done m ch e
      | s_body_identity \<Rightarrow> paso_body_identity m data e
      | s_body_identity_eof \<Rightarrow> paso_body_identity_eof data e
      | s_message_done \<Rightarrow> paso_message_done m e
      | s_chunk_size_start \<Rightarrow> paso_chunk_size_start ch e
      | s_chunk_size \<Rightarrow> paso_chunk_size ch e
      | s_chunk_parameters \<Rightarrow> paso_chunk_parameters ch e
      | s_chunk_size_almost_done \<Rightarrow> paso_chunk_size_almost_done ch e
      | s_chunk_data \<Rightarrow> paso_chunk_data data e
      | s_chunk_data_almost_done \<Rightarrow> paso_chunk_data_almost_done m data ch e
      | s_chunk_data_done \<Rightarrow> paso_chunk_data_done ch e)"

text \<open>The call returns how many characters it read and the parser, or its assertion failed.\<close>

datatype 'c resultado_ejec = Devuelve nat "'c parser" | Abortado

definition marcas_puestas :: "'c ejec \<Rightarrow> nat" where
  "marcas_puestas e =
     length (filter (\<lambda>k. marks e k \<noteq> None) [header_field_mark, header_value_mark, url_mark, body_mark])"

definition termina_ejec :: "'c pasos \<Rightarrow> ('c ejec \<Rightarrow> 'c resultado_ejec) \<Rightarrow> 'c resultado_ejec" where
  "termina_ejec r f =
     (case fst r of
        Sigue \<Rightarrow> f (snd r)
      | Retorna n \<Rightarrow> Devuelve n (par (snd r))
      | Aborta \<Rightarrow> Abortado
      | Reejecuta \<Rightarrow> f (snd r)
      | Goto_error \<Rightarrow> f (snd r))"

text \<open>After the loop: what is left under the marks, and the return.\<close>

definition epilogo :: "'c manejadores \<Rightarrow> string \<Rightarrow> 'c ejec \<Rightarrow> 'c resultado_ejec" where
  "epilogo m data e =
     termina_ejec
       (luego (luego (luego (luego (afirma (marcas_puestas e \<le> 1) e)
          (CROW_CALLBACK_DATA_NOADVANCE m data header_field_mark))
          (CROW_CALLBACK_DATA_NOADVANCE m data header_value_mark))
          (CROW_CALLBACK_DATA_NOADVANCE m data url_mark))
          (CROW_CALLBACK_DATA_NOADVANCE m data body_mark))
       (\<lambda>e. Devuelve (length data) ((par e)\<lparr>nread := nread_l e\<rparr>))"

text \<open>The label \<^verbatim>\<open>error\<close>.\<close>

definition salida_error :: "'c ejec \<Rightarrow> 'c resultado_ejec" where
  "salida_error e =
     (let e1 = (if p_errno (par e) = CHPE_OK then CROW_SET_ERRNO CHPE_UNKNOWN e else e)
      in Devuelve (pos e1) ((par e1)\<lparr>nread := nread_l e1\<rparr>))"

definition cuenta :: "'c ejec \<Rightarrow> 'c pasos" where
  "cuenta e = (if CROW_PARSING_HEADER (pstate (par e)) then CROW_COUNT_HEADER_SIZE 1 e else (Sigue, e))"

text \<open>
  The loop, with fuel; the argument \<open>re\<close> says that the switch is entered by \<^verbatim>\<open>reexecute\<close>.
\<close>

fun bucle :: "nat \<Rightarrow> 'c manejadores \<Rightarrow> 64 word \<Rightarrow> string \<Rightarrow> bool \<Rightarrow> 'c ejec \<Rightarrow> 'c resultado_ejec option" where
  "bucle 0 m dir data re e = None"
| "bucle (Suc n) m dir data re e =
     (if \<not> re \<and> pos e = length data then Some (epilogo m data e)
      else
        let r = (if re then paso_estado m dir data e else luego (cuenta e) (paso_estado m dir data))
        in case fst r of
             Sigue \<Rightarrow> bucle n m dir data False ((snd r)\<lparr>pos := pos (snd r) + 1\<rparr>)
           | Reejecuta \<Rightarrow> bucle n m dir data True (snd r)
           | Goto_error \<Rightarrow> Some (salida_error (snd r))
           | Retorna k \<Rightarrow> Some (Devuelve k (par (snd r)))
           | Aborta \<Rightarrow> Some Abortado)"

text \<open>The states in which a call goes on with a URL.\<close>

definition estado_url :: "state \<Rightarrow> bool" where
  "estado_url s \<longleftrightarrow>
     s \<in> {s_req_path, s_req_schema, s_req_schema_slash, s_req_schema_slash_slash, s_req_server_start,
          s_req_server, s_req_server_with_at, s_req_query_string_start, s_req_query_string}"

definition ejec_inicial :: "'c parser \<Rightarrow> 'c ejec" where
  "ejec_inicial p =
     \<lparr>par = p, pos = 0, nread_l = nread p,
      marks = (\<lambda>_. None)
        (header_field_mark := (if pstate p = s_header_field then Some 0 else None),
         header_value_mark := (if pstate p = s_header_value then Some 0 else None),
         url_mark := (if estado_url (pstate p) then Some 0 else None))\<rparr>"

text \<open>A character is looked at by at most four states: the fuel of a call.\<close>

definition combustible :: "string \<Rightarrow> nat" where
  "combustible data = 4 * length data + 1"

definition http_parser_execute :: "'c manejadores \<Rightarrow> 64 word \<Rightarrow> string \<Rightarrow> 'c parser \<Rightarrow> 'c resultado_ejec option" where
  "http_parser_execute m dir data p =
     (if p_errno p \<noteq> CHPE_OK then Some (Devuelve 0 p)
      else if data = [] then
        (case pstate p of
           s_body_identity_eof \<Rightarrow> Some (Devuelve 0 (on_message_complete (handle m) p))
         | s_dead \<Rightarrow> Some (Devuelve 0 p)
         | s_start_req \<Rightarrow> Some (Devuelve 0 p)
         | _ \<Rightarrow> Some (Devuelve 1 (p\<lparr>p_errno := CHPE_INVALID_EOF_STATE\<rparr>)))
      else bucle (combustible data) m dir data False (ejec_inicial p))"

text \<open>The wrapper's \<^verbatim>\<open>feed\<close>: its result and the parser; \<open>None\<close> for the parser is the end of the process.\<close>

datatype 'c alimento = Alimento bool "'c parser" | Muere

definition feed :: "'c manejadores \<Rightarrow> 64 word \<Rightarrow> string \<Rightarrow> 'c parser \<Rightarrow> 'c alimento option" where
  "feed m dir data p =
     (if message_complete p then Some (Alimento True p)
      else map_option
             (\<lambda>s. case s of
                    Devuelve n q \<Rightarrow> Alimento (p_errno q = CHPE_OK \<and> n = length data) q
                  | Abortado \<Rightarrow> Muere)
             (http_parser_execute m dir data p))"

text \<open>
  The wrapper's \<^verbatim>\<open>done\<close>, \<^verbatim>\<open>feed\<close> of no characters: only the handler of a complete message is in reach.
\<close>

definition done_parser :: "('c parser \<Rightarrow> 'c parser) \<Rightarrow> 'c parser \<Rightarrow> 'c parser" where
  "done_parser process_message p =
     (if message_complete p \<or> p_errno p \<noteq> CHPE_OK then p
      else case pstate p of
             s_body_identity_eof \<Rightarrow> on_message_complete process_message p
           | s_dead \<Rightarrow> p
           | s_start_req \<Rightarrow> p
           | _ \<Rightarrow> p\<lparr>p_errno := CHPE_INVALID_EOF_STATE\<rparr>)"

end
