(* ===== verification/Aserciones.thy ===== *)
theory Aserciones
  imports HttpParser
begin

text \<open>
  The assertions and the termination of \<^verbatim>\<open>http_parser_execute\<close>: an invariant of the parser that every
  state of the switch keeps, a rank that falls at every \<^verbatim>\<open>goto reexecute\<close>, and the law of the
  handlers behind it, stated as a locale.
\<close>

subsection \<open>The invariant\<close>

text \<open>The states of a header that its name can be in, and those that its value cannot be in.\<close>

definition estados_campo :: "header_states set" where
  "estados_campo =
     {h_general, h_C, h_CO, h_CON, h_matching_connection, h_matching_proxy_connection, h_matching_content_length,
      h_matching_transfer_encoding, h_matching_upgrade, h_connection, h_content_length, h_transfer_encoding, h_upgrade}"

definition valor_bueno :: "header_states \<Rightarrow> bool" where
  "valor_bueno h \<longleftrightarrow> h \<noteq> h_connection \<and> h \<noteq> h_transfer_encoding"

text \<open>What each state asserts; \<open>n\<close> is what \<^verbatim>\<open>nread\<close> has to be where a chunk size starts.\<close>

definition estado_ok :: "bool \<Rightarrow> nat \<Rightarrow> 'c parser \<Rightarrow> bool" where
  "estado_ok contado n p =
     (case pstate p of
        s_req_method \<Rightarrow> 0 < index p \<and> index p \<le> length (method_name (p_method p))
      | s_header_field \<Rightarrow> header_state p \<in> estados_campo
      | s_header_value_start \<Rightarrow> valor_bueno (header_state p)
      | s_header_value \<Rightarrow> valor_bueno (header_state p)
      | s_header_almost_done \<Rightarrow> valor_bueno (header_state p)
      | s_header_value_lws \<Rightarrow> valor_bueno (header_state p)
      | s_body_identity \<Rightarrow> content_length p \<noteq> 0 \<and> content_length p \<noteq> CROW_ULLONG_MAX
      | s_chunk_size_start \<Rightarrow> F_CHUNKED \<in> flags p \<and> n = (if contado then 1 else 0)
      | s_chunk_size \<Rightarrow> F_CHUNKED \<in> flags p \<and> content_length p \<noteq> CROW_ULLONG_MAX
      | s_chunk_parameters \<Rightarrow> F_CHUNKED \<in> flags p \<and> content_length p \<noteq> CROW_ULLONG_MAX
      | s_chunk_size_almost_done \<Rightarrow> F_CHUNKED \<in> flags p \<and> content_length p \<noteq> CROW_ULLONG_MAX
      | s_chunk_data \<Rightarrow> F_CHUNKED \<in> flags p \<and> content_length p \<noteq> 0 \<and> content_length p \<noteq> CROW_ULLONG_MAX
      | s_chunk_data_almost_done \<Rightarrow> F_CHUNKED \<in> flags p \<and> content_length p = 0
      | s_chunk_data_done \<Rightarrow> F_CHUNKED \<in> flags p
      | _ \<Rightarrow> True)"

text \<open>The states in which a mark may be set.\<close>

definition marca_ok :: "state \<Rightarrow> marca \<Rightarrow> bool" where
  "marca_ok s k =
     (case k of
        header_field_mark \<Rightarrow> s = s_header_field
      | header_value_mark \<Rightarrow> s = s_header_value
      | url_mark \<Rightarrow> estado_url s
      | url_start_mark \<Rightarrow> True
      | body_mark \<Rightarrow> s \<in> {s_body_identity, s_body_identity_eof, s_chunk_data, s_chunk_data_almost_done})"

definition marcas_ok :: "'c ejec \<Rightarrow> bool" where
  "marcas_ok e \<longleftrightarrow> (\<forall>k a. marks e k = Some a \<longrightarrow> a \<le> pos e \<and> marca_ok (pstate (par e)) k)"

definition inv_ejec :: "bool \<Rightarrow> string \<Rightarrow> 'c ejec \<Rightarrow> bool" where
  "inv_ejec contado data e \<longleftrightarrow>
     p_errno (par e) = CHPE_OK \<and> estado_ok contado (nread_l e) (par e) \<and> marcas_ok e \<and> pos e < length data"

definition inv_parser :: "'c parser \<Rightarrow> bool" where
  "inv_parser p \<longleftrightarrow> (p_errno p = CHPE_OK \<longrightarrow> estado_ok False (nread p) p)"

text \<open>How many states may still look at the character.\<close>

definition rango :: "state \<Rightarrow> nat" where
  "rango s =
     (case s of
        s_header_value_discard_lws \<Rightarrow> 3
      | s_header_value_lws \<Rightarrow> 3
      | s_header_field_start \<Rightarrow> 2
      | s_headers_almost_done \<Rightarrow> 1
      | s_header_value \<Rightarrow> 1
      | s_body_identity \<Rightarrow> 1
      | _ \<Rightarrow> 0)"

text \<open>A step that keeps the invariant: it never fails an assertion.\<close>

definition paso_ok :: "string \<Rightarrow> 'c ejec \<Rightarrow> 'c pasos \<Rightarrow> bool" where
  "paso_ok data e r =
     (let e1 = snd r in
      case fst r of
        Sigue \<Rightarrow> pos e \<le> pos e1 \<and> inv_ejec False data e1
      | Reejecuta \<Rightarrow> pos e \<le> pos e1 \<and> inv_ejec True data e1 \<and> rango (pstate (par e1)) < rango (pstate (par e))
      | Goto_error \<Rightarrow> p_errno (par e1) \<noteq> CHPE_OK
      | Retorna n \<Rightarrow> inv_parser (par e1)
      | Aborta \<Rightarrow> False)"

subsection \<open>The handlers\<close>

text \<open>The part of the parser the invariant reads.\<close>

definition control_de :: "'c parser \<Rightarrow> state \<times> header_states \<times> flag set \<times> nat \<times> 64 word \<times> HTTPMethod \<times> http_errno" where
  "control_de p = (pstate p, header_state p, flags p, index p, content_length p, p_method p, p_errno p)"

definition respeta :: "'c parser \<Rightarrow> 'c parser \<Rightarrow> bool" where
  "respeta p q \<longleftrightarrow> p_errno q = p_errno p \<and> (control_de q = control_de p \<or> pstate q = s_start_req)"

text \<open>
  What the parser relies on: a handler leaves its state as it is or puts it at the start of a request;
  the handler of the headers leaves it, and the handler of the URL may stop it by an error.
\<close>

locale conexion_http =
  fixes m :: "'c manejadores"
  assumes url_law: "p_errno (handle_url m p) \<noteq> CHPE_OK \<or> respeta p (handle_url m p)"
    and header_law: "control_de (handle_header m p) = control_de p"
    and message_law: "respeta p (handle m p)"

lemma respeta_refl [simp]: "respeta p p"
  by (simp add: respeta_def)

lemma control_de_eqD:
  assumes "control_de q = control_de p"
  shows "pstate q = pstate p" "p_errno q = p_errno p" "flags q = flags p" "header_state q = header_state p"
    "index q = index p" "content_length q = content_length p" "p_method q = p_method p"
  using assms by (simp_all add: control_de_def)

lemma respeta_trans: "respeta p q \<Longrightarrow> respeta q r \<Longrightarrow> respeta p r"
  unfolding respeta_def by (metis control_de_eqD(1))

lemma respeta_control: "control_de q = control_de p \<Longrightarrow> respeta p q"
  using control_de_eqD(2) [of q p] by (simp add: respeta_def)

lemma estado_ok_inicio: "pstate p = s_start_req \<Longrightarrow> estado_ok b n p"
  by (simp add: estado_ok_def)

lemma estado_ok_control: "control_de q = control_de p \<Longrightarrow> estado_ok b n q = estado_ok b n p"
  by (cases "pstate p") (simp_all add: control_de_def estado_ok_def)

lemma control_de_on_method [simp]: "control_de (on_method p) = control_de p"
  by (simp add: control_de_def on_method_def)

lemma control_de_on_header_field [simp]: "control_de (on_header_field s p) = control_de p"
  by (simp add: control_de_def on_header_field_def Let_def)

lemma control_de_on_header_value [simp]: "control_de (on_header_value s p) = control_de p"
  by (simp add: control_de_def on_header_value_def)

lemma control_de_on_body [simp]: "control_de (on_body s p) = control_de p"
  by (simp add: control_de_def on_body_def)

subsection \<open>The macros\<close>

lemma estado_ok_nread [simp]: "estado_ok b n (p\<lparr>nread := k\<rparr>) = estado_ok b n p"
  by (rule estado_ok_control) (simp add: control_de_def)

context conexion_http
begin

lemma on_dato_control:
  "p_errno (on_dato m k s p) \<noteq> CHPE_OK \<or> control_de (on_dato m k s p) = control_de p \<or>
   k = url_mark \<and> respeta p (on_dato m k s p)"
proof (cases k)
  case url_mark
  define p1 where "p1 = p\<lparr>req := (req p)\<lparr>raw_url := raw_url (req p) @ s,
    url := (if qs_point p \<noteq> 0 then take (unat (qs_point p)) (raw_url (req p) @ s) else raw_url (req p) @ s)\<rparr>\<rparr>"
  have "on_dato m k s p = handle_url m p1" "control_de p1 = control_de p"
    using url_mark by (simp_all add: on_dato_def on_url_def p1_def Let_def control_de_def)
  then show ?thesis using url_law [of p1] url_mark respeta_control [of p1 p] respeta_trans [of p p1] by auto
qed (simp_all add: on_dato_def)

lemma on_message_complete_control:
  obtains "control_de (on_message_complete (handle m) p) = control_de p"
  | "p_errno (on_message_complete (handle m) p) = p_errno p" "pstate (on_message_complete (handle m) p) = s_start_req"
  using message_law [of "p\<lparr>message_complete := True\<rparr>"]
  by (auto simp: on_message_complete_def respeta_def control_de_def)

lemma on_headers_complete_control: "control_de (on_headers_complete m p) = control_de p"
proof -
  define p1 where "p1 = (if header_field p \<noteq> []
    then p\<lparr>req := (req p)\<lparr>req_headers := ci_emplace (header_field p) (header_value p) (req_headers (req p))\<rparr>,
           header_field := [], header_value := []\<rparr> else p)"
  have "control_de (set_connection_parameters p1) = control_de p"
    by (simp add: p1_def set_connection_parameters_def control_de_def Let_def)
  then show ?thesis
    using header_law [of "set_connection_parameters p1"] by (simp add: on_headers_complete_def p1_def Let_def)
qed

lemma data_callback:
  assumes "p_errno (par e) = CHPE_OK"
  shows "(\<exists>e1. CROW_CALLBACK_DATA_ER m data k z er e = (Retorna er, e1) \<and> p_errno (par e1) \<noteq> CHPE_OK) \<or>
         (\<exists>e1. CROW_CALLBACK_DATA_ER m data k z er e = (Sigue, e1) \<and> p_errno (par e1) = CHPE_OK \<and>
               (control_de (par e1) = control_de (par e) \<or> k = url_mark \<and> pstate (par e1) = s_start_req) \<and>
               pos e1 = pos e \<and> nread_l e1 = nread_l e \<and> marks e1 = (marks e)(k := None))"
proof (cases "marks e k")
  case None
  then show ?thesis
    using assms by (auto simp: CROW_CALLBACK_DATA_ER_def luego_def afirma_def fun_upd_idem)
next
  case (Some a)
  define q where "q = on_dato m k (take (z - a) (drop a data)) (par e)"
  have "p_errno q \<noteq> CHPE_OK \<or> p_errno q = CHPE_OK \<and> (control_de q = control_de (par e) \<or> k = url_mark \<and> pstate q = s_start_req)"
    using on_dato_control [of k "take (z - a) (drop a data)" "par e"] assms by (auto simp: q_def [symmetric] respeta_def)
  then show ?thesis
    using assms Some q_def [symmetric]
    by (auto simp: CROW_CALLBACK_DATA_ER_def luego_def afirma_def en_parser_def Let_def)
qed

end

subsection \<open>The states that call no handler\<close>

named_theorems paso_simps

lemmas [paso_simps] =
  luego_def afirma_def en_parser_def a_estado_def a_cabecera_def CROW_SET_ERRNO_def falla_def CROW_STRICT_CHECK_def
  Let_def inv_ejec_def marcas_ok_def estado_ok_def

lemma marca_ok_url_start [simp]: "marca_ok s url_start_mark"
  by (simp add: marca_ok_def)

lemma marca_ok_otra [simp]:
  assumes "s \<notin> {s_header_field, s_header_value, s_body_identity, s_body_identity_eof, s_chunk_data, s_chunk_data_almost_done}"
    and "\<not> estado_url s"
  shows "marca_ok s k \<longleftrightarrow> k = url_start_mark"
  using assms by (cases k) (auto simp: marca_ok_def)

lemma marca_ok_estados [simp]:
  "marca_ok s_header_field k \<longleftrightarrow> k = header_field_mark \<or> k = url_start_mark"
  "marca_ok s_header_value k \<longleftrightarrow> k = header_value_mark \<or> k = url_start_mark"
  "marca_ok s_body_identity k \<longleftrightarrow> k = body_mark \<or> k = url_start_mark"
  "marca_ok s_body_identity_eof k \<longleftrightarrow> k = body_mark \<or> k = url_start_mark"
  "marca_ok s_chunk_data k \<longleftrightarrow> k = body_mark \<or> k = url_start_mark"
  "marca_ok s_chunk_data_almost_done k \<longleftrightarrow> k = body_mark \<or> k = url_start_mark"
  by (cases k; simp add: marca_ok_def estado_url_def)+

lemma luego_simps [simp]:
  "luego (Sigue, e) f = f e"
  "luego (falla er e) f = falla er e"
  by (simp_all add: luego_def falla_def)

lemma paso_ok_falla [simp]: "er \<noteq> CHPE_OK \<Longrightarrow> paso_ok data e (falla er e1)"
  by (simp add: paso_ok_def falla_def CROW_SET_ERRNO_def en_parser_def)

lemma paso_ok_simps [simp]:
  "paso_ok data e (Sigue, e1) \<longleftrightarrow> pos e \<le> pos e1 \<and> inv_ejec False data e1"
  "paso_ok data e (Reejecuta, e1) \<longleftrightarrow>
     pos e \<le> pos e1 \<and> inv_ejec True data e1 \<and> rango (pstate (par e1)) < rango (pstate (par e))"
  "paso_ok data e (Goto_error, e1) \<longleftrightarrow> p_errno (par e1) \<noteq> CHPE_OK"
  "paso_ok data e (Retorna n, e1) \<longleftrightarrow> inv_parser (par e1)"
  "\<not> paso_ok data e (Aborta, e1)"
  by (simp_all add: paso_ok_def)

lemma paso_dead_ok:
  "inv_ejec True data e \<Longrightarrow> pstate (par e) = s_dead \<Longrightarrow> paso_ok data e (paso_dead ch e)"
  by (auto simp: paso_simps paso_dead_def)

lemma method_name_simps:
  "method_name Delete = ''DELETE''" "method_name Get = ''GET''" "method_name Head = ''HEAD''"
    "method_name Post = ''POST''" "method_name Put = ''PUT''" "method_name Connect = ''CONNECT''"
    "method_name Options = ''OPTIONS''" "method_name Trace = ''TRACE''" "method_name Patch = ''PATCH''"
    "method_name Purge = ''PURGE''" "method_name Copy = ''COPY''" "method_name Lock = ''LOCK''"
    "method_name MkCol = ''MKCOL''" "method_name Move = ''MOVE''" "method_name Propfind = ''PROPFIND''"
    "method_name Proppatch = ''PROPPATCH''" "method_name Search = ''SEARCH''" "method_name Unlock = ''UNLOCK''"
    "method_name Bind = ''BIND''" "method_name Rebind = ''REBIND''" "method_name Unbind = ''UNBIND''"
    "method_name Acl = ''ACL''" "method_name Report = ''REPORT''" "method_name MkActivity = ''MKACTIVITY''"
    "method_name Checkout = ''CHECKOUT''" "method_name Merge = ''MERGE''" "method_name MSearch = ''M-SEARCH''"
    "method_name Notify = ''NOTIFY''" "method_name Subscribe = ''SUBSCRIBE''"
    "method_name Unsubscribe = ''UNSUBSCRIBE''" "method_name MkCalendar = ''MKCALENDAR''"
    "method_name Link = ''LINK''" "method_name Unlink = ''UNLINK''" "method_name Source = ''SOURCE''"
  by (simp_all add: method_name_def metodos_def method_strings_def)

lemma method_name_corto: "length (method_name mt) < 31"
  by (cases mt) (simp_all add: method_name_simps, simp add: method_name_def metodos_def method_strings_def)

lemma metodo_inicial_ok: "metodo_inicial ch = Some mt \<Longrightarrow> 1 \<le> length (method_name mt)"
  by (auto simp: metodo_inicial_def method_name_simps split: if_splits)

lemma paso_start_req_ok:
  "inv_ejec True data e \<Longrightarrow> pstate (par e) = s_start_req \<Longrightarrow> paso_ok data e (paso_start_req ch e)"
  using metodo_inicial_ok [of ch]
  by (auto simp: paso_simps paso_start_req_def CROW_CALLBACK_NOTIFY_ER_def estado_url_def split: option.split)

lemma metodo_cambia_ok: "metodo_cambia mt i ch = Some mt' \<Longrightarrow> i < length (method_name mt')"
  by (auto simp: metodo_cambia_def method_name_simps split: if_splits)

lemma car_c_menor: "i \<le> length s \<Longrightarrow> car_c s i \<noteq> nul \<Longrightarrow> i < length s"
  by (cases "i = length s") (auto simp: car_c_def nth_append)

lemma paso_req_method_ok:
  assumes "inv_ejec True data e" "pstate (par e) = s_req_method"
  shows "paso_ok data e (paso_req_method ch e)"
proof -
  let ?i = "index (par e)" and ?mt = "p_method (par e)"
  have e: "?i \<le> length (method_name ?mt)" "0 < ?i" "p_errno (par e) = CHPE_OK" "marcas_ok e" "pos e < length data"
    using assms by (simp_all add: inv_ejec_def estado_ok_def)
  have sig: "paso_ok data e (luego (CROW_CALLBACK_NOTIFY_ER on_method (pos e) e1)
        (\<lambda>e. (Sigue, en_parser (\<lambda>p. p\<lparr>index := (index p + 1) mod 32\<rparr>) e)))"
    if "par e1 = (par e)\<lparr>pstate := s, p_method := mt\<rparr>" "pos e1 = pos e" "marks e1 = marks e" "\<not> estado_url s"
      "s = s_req_method \<Longrightarrow> ?i < length (method_name mt)" "s = s_req_method \<or> s = s_req_spaces_before_url" for e1 s mt
    using that assms(2) e method_name_corto [of mt]
    by (auto simp: paso_simps CROW_CALLBACK_NOTIFY_ER_def on_method_def estado_url_def)
  show ?thesis
  proof (cases "ch = nul")
    case False
    let ?c = "car_c (method_name ?mt) ?i"
    consider "ch = CHR '' ''" "?c = nul" | "ch = ?c" | mt' where "metodo_cambia ?mt ?i ch = Some mt'" | "metodo_cambia ?mt ?i ch = None"
      by fastforce
    then show ?thesis
    proof cases
      case 1
      then show ?thesis
        using sig [of "a_estado s_req_spaces_before_url e" ?mt s_req_spaces_before_url]
        by (simp add: paso_req_method_def a_estado_def en_parser_def estado_url_def)
    next
      case 2
      then show ?thesis
        using False sig [of e ?mt s_req_method] car_c_menor [OF e(1)] assms(2)
        by (auto simp: paso_req_method_def Let_def estado_url_def)
    next
      case (3 mt')
      then show ?thesis
        using False sig [of "en_parser (\<lambda>p. p\<lparr>p_method := mt'\<rparr>) e" mt' s_req_method] metodo_cambia_ok [OF 3]
          sig [of e ?mt s_req_method] car_c_menor [OF e(1)] assms(2)
          sig [of "a_estado s_req_spaces_before_url e" ?mt s_req_spaces_before_url]
        by (auto simp: paso_req_method_def Let_def en_parser_def a_estado_def estado_url_def)
    next
      case 4
      then show ?thesis
        using False sig [of e ?mt s_req_method] car_c_menor [OF e(1)] assms(2)
          sig [of "a_estado s_req_spaces_before_url e" ?mt s_req_spaces_before_url]
        by (auto simp: paso_req_method_def Let_def en_parser_def a_estado_def estado_url_def)
    qed
  qed (simp add: paso_req_method_def)
qed

lemma parse_url_char_ok:
  "parse_url_char s ch d p = (s', p') \<Longrightarrow> (s' = s_dead \<or> estado_url s') \<and> p_errno p' = p_errno p"
  by (cases s) (auto simp: parse_url_char_def url_servidor_def estado_url_def split: if_splits)

lemma estado_ok_url: "estado_url (pstate p) \<Longrightarrow> estado_ok b n p"
  by (auto simp: estado_url_def estado_ok_def)

lemma marca_ok_url: "estado_url s \<Longrightarrow> marca_ok s k \<longleftrightarrow> k = url_mark \<or> k = url_start_mark"
  by (cases k) (auto simp: marca_ok_def estado_url_def)

lemma url_char_ok:
  assumes "p_errno (par e) = CHPE_OK" "pos e = pos e0" "pos e < length data"
    and "\<And>k a. marks e k = Some a \<Longrightarrow> a \<le> pos e \<and> (k = url_mark \<or> k = url_start_mark)"
  shows "paso_ok data e0 (url_char dir ch e)"
proof -
  obtain s p where sp: "parse_url_char (pstate (par e)) ch (dif_punteros dir (pos e) (marks e url_start_mark)) (par e) = (s, p)"
    by fastforce
  show ?thesis
    using assms parse_url_char_ok [OF sp] sp
    by (auto simp: url_char_def Let_def inv_ejec_def marcas_ok_def estado_ok_url marca_ok_url)
qed

lemma paso_spaces_before_url_ok:
  assumes "inv_ejec True data e" "pstate (par e) = s_req_spaces_before_url"
  shows "paso_ok data e (paso_spaces_before_url dir ch e)"
proof -
  have "p_errno (par e) = CHPE_OK" "pos e < length data" and m: "\<And>k a. marks e k = Some a \<Longrightarrow> a \<le> pos e \<and> k = url_start_mark"
    using assms by (auto simp: inv_ejec_def marcas_ok_def estado_url_def)
  then show ?thesis
    using assms
    by (auto simp: paso_spaces_before_url_def Let_def CROW_MARK_def a_estado_def en_parser_def inv_ejec_def
        intro!: url_char_ok split: if_splits dest: m)
      (auto simp: estado_ok_def marcas_ok_def)
qed

lemma inv_url:
  assumes "inv_ejec True data e" "estado_url (pstate (par e))"
  shows "p_errno (par e) = CHPE_OK" "pos e < length data"
    "marks e k = Some a \<Longrightarrow> a \<le> pos e \<and> (k = url_mark \<or> k = url_start_mark)"
  using assms by (auto simp: inv_ejec_def marcas_ok_def marca_ok_url)

lemma paso_schema_ok:
  assumes "inv_ejec True data e" "estado_url (pstate (par e))"
  shows "paso_ok data e (paso_schema dir ch e)"
  using inv_url [OF assms] by (auto simp: paso_schema_def intro!: url_char_ok)

lemma paso_linea_ok:
  assumes "inv_ejec True data e"
  shows "pstate (par e) = s_req_http_start \<Longrightarrow> paso_ok data e (paso_http_start ch e)"
    and "pstate (par e) = s_req_http_major \<Longrightarrow> paso_ok data e (paso_http_major ch e)"
    and "pstate (par e) = s_req_http_dot \<Longrightarrow> paso_ok data e (paso_http_dot ch e)"
    and "pstate (par e) = s_req_http_minor \<Longrightarrow> paso_ok data e (paso_http_minor ch e)"
    and "pstate (par e) = s_req_http_end \<Longrightarrow> paso_ok data e (paso_http_end ch e)"
    and "pstate (par e) = s_req_line_almost_done \<Longrightarrow> paso_ok data e (paso_espera_lf s_header_field_start ch e)"
    and "pstate (par e) = s_header_almost_done \<Longrightarrow> paso_ok data e (paso_espera_lf s_header_value_lws ch e)"
  using assms
  by (auto simp: paso_simps paso_http_start_def paso_http_major_def paso_http_dot_def paso_http_minor_def
      paso_http_end_def paso_espera_lf_def estado_url_def)

lemma paso_estricto_ok:
  assumes "inv_ejec True data e"
    and "(pstate (par e), s) \<in> {(s_req_http_H, s_req_http_HT), (s_req_http_HT, s_req_http_HTT), (s_req_http_HTT, s_req_http_HTTP),
           (s_req_http_I, s_req_http_IC), (s_req_http_IC, s_req_http_HTTP), (s_req_http_HTTP, s_req_http_major),
           (s_header_value_discard_ws_almost_done, s_header_value_discard_lws)}"
  shows "paso_ok data e (paso_estricto c s ch e)"
  using assms by (auto simp: paso_simps paso_estricto_def estado_url_def)

subsection \<open>The names and values of headers\<close>

lemma cabecera_inicial_ok: "cabecera_inicial c \<in> estados_campo"
  by (simp add: cabecera_inicial_def estados_campo_def)

lemma paso_header_field_start_ok:
  "inv_ejec True data e \<Longrightarrow> pstate (par e) = s_header_field_start \<Longrightarrow> paso_ok data e (paso_header_field_start ch e)"
  using cabecera_inicial_ok
  by (auto simp: paso_simps paso_header_field_start_def CROW_MARK_def estado_url_def rango_def
      split: if_splits)

lemma coincide_cases: "coincide lit i c a b d \<in> {a, b, d}"
  by (simp add: coincide_def)

lemma campo_char_ok:
  assumes "header_state p \<in> estados_campo"
  shows "\<exists>p1. campo_char ch p = Some p1 \<and> header_state p1 \<in> estados_campo \<and> pstate p1 = pstate p \<and> p_errno p1 = p_errno p"
  using assms coincide_cases
  by (auto simp: estados_campo_def campo_char_def Let_def avanza_def coincide_def)

lemma campo_ok:
  assumes "lee_campo cs i p = (ok, j, q)" "header_state p \<in> estados_campo"
  shows "ok \<and> i \<le> j \<and> j \<le> i + length cs \<and> header_state q \<in> estados_campo \<and> pstate q = pstate p \<and> p_errno q = p_errno p"
  using assms
proof (induction cs arbitrary: i p)
  case (Cons ch cs)
  then show ?case
    using campo_char_ok [OF Cons.prems(2), of ch] by (force split: if_splits)
qed auto

lemma count_ok:
  "(\<And>n. paso_ok data e (f (e1\<lparr>nread_l := n\<rparr>))) \<Longrightarrow> paso_ok data e (luego (CROW_COUNT_HEADER_SIZE v e1) f)"
  by (simp add: CROW_COUNT_HEADER_SIZE_def Let_def)

lemma count_fin_ok:
  "(\<And>n. paso_ok data e (Sigue, e1\<lparr>nread_l := n\<rparr>)) \<Longrightarrow> paso_ok data e (CROW_COUNT_HEADER_SIZE v e1)"
  by (simp add: CROW_COUNT_HEADER_SIZE_def Let_def)

context conexion_http
begin

lemma data_luego:
  assumes "p_errno (par e0) = CHPE_OK" "k \<noteq> url_mark"
    and "\<And>e1. \<lbrakk>control_de (par e1) = control_de (par e0); pos e1 = pos e0; nread_l e1 = nread_l e0;
               marks e1 = (marks e0)(k := None)\<rbrakk> \<Longrightarrow> paso_ok data e (f e1)"
  shows "paso_ok data e (luego (CROW_CALLBACK_DATA_ER m data k z er e0) f)"
  using data_callback [OF assms(1), of data k z er] assms(2,3)
  by (auto simp: luego_def inv_parser_def)

lemma data_fin:
  assumes "p_errno (par e0) = CHPE_OK" "k \<noteq> url_mark"
    and "\<And>e1. \<lbrakk>control_de (par e1) = control_de (par e0); pos e1 = pos e0; nread_l e1 = nread_l e0;
               marks e1 = (marks e0)(k := None)\<rbrakk> \<Longrightarrow> paso_ok data e (Sigue, e1)"
  shows "paso_ok data e (CROW_CALLBACK_DATA_ER m data k z er e0)"
  using data_callback [OF assms(1), of data k z er] assms(2,3)
  by (auto simp: luego_def inv_parser_def)

text \<open>After a callback that ends a state: the mark is gone, and the new state has no marks.\<close>

lemma inv_tras_data:
  assumes "control_de (par e1) = control_de (par e0)" "marks e1 = (marks e)(k := None)" "pos e1 = pos e'" "pos e \<le> pos e'"
    and "inv_ejec True data e" "\<And>k'. marca_ok (pstate (par e)) k' \<Longrightarrow> k' = k \<or> k' = url_start_mark"
    and "p_errno (par e0) = CHPE_OK" "estado_ok c (nread_l e1) (par e0)" "pos e' < length data"
  shows "inv_ejec c data e1"
  using assms control_de_eqD [OF assms(1)] estado_ok_control [OF assms(1), of c "nread_l e1"]
  by (fastforce simp: inv_ejec_def marcas_ok_def)

lemma paso_url_ok:
  assumes "inv_ejec True data e" "estado_url (pstate (par e))"
  shows "paso_ok data e (paso_url m dir data ch e)"
proof -
  note i = inv_url [OF assms]
  have "paso_ok data e (CROW_CALLBACK_DATA m data url_mark e0)"
    if "par e0 = (par e)\<lparr>http_major := a, http_minor := b, pstate := s\<rparr>" "pos e0 = pos e" "marks e0 = marks e"
      "s \<in> {s_req_http_start, s_req_line_almost_done, s_header_field_start}" for e0 a b s
  proof -
    have "inv_ejec False data e1"
      if "p_errno (par e1) = CHPE_OK" "control_de (par e1) = control_de (par e0) \<or> pstate (par e1) = s_start_req"
        "pos e1 = pos e0" "marks e1 = (marks e0)(url_mark := None)" for e1 :: "'c ejec"
    proof -
      have s: "pstate (par e1) \<in> {s_req_http_start, s_req_line_almost_done, s_header_field_start, s_start_req}"
        using that(2) \<open>par e0 = _\<close> \<open>s \<in> _\<close> by (auto dest: control_de_eqD(1))
      then have "estado_ok False (nread_l e1) (par e1)" by (auto simp: estado_ok_def)
      moreover have "marcas_ok e1"
        using that s i(3) \<open>pos e0 = _\<close> \<open>marks e0 = _\<close>
        by (auto simp: marcas_ok_def estado_url_def split: if_splits dest!: i(3))
      ultimately show ?thesis using that i \<open>pos e0 = _\<close> by (simp add: inv_ejec_def)
    qed
    moreover have "p_errno (par e0) = CHPE_OK" using that i by simp
    ultimately show ?thesis
      using data_callback [of e0 data url_mark "pos e0" "pos e0 + 1"] that(2)
      by (auto simp: CROW_CALLBACK_DATA_def inv_parser_def)
  qed
  note t = this
  have "(par e)\<lparr>pstate := s\<rparr> = (par e)\<lparr>http_major := http_major (par e), http_minor := http_minor (par e), pstate := s\<rparr>" for s
    by simp
  then show ?thesis
    using t [of "a_estado s_req_http_start e" s_req_http_start "http_minor (par e)" "http_major (par e)"]
    by (auto simp: paso_url_def a_estado_def en_parser_def i intro!: t url_char_ok dest: i(3))
qed

lemma paso_header_field_ok:
  assumes "inv_ejec True data e" "pstate (par e) = s_header_field"
  shows "paso_ok data e (paso_header_field m data e)"
proof -
  obtain ok i p where c: "lee_campo (drop (pos e) data) (pos e) (par e) = (ok, i, p)" by (metis prod_cases3)
  have e: "p_errno (par e) = CHPE_OK" "header_state (par e) \<in> estados_campo" "pos e < length data"
    using assms by (simp_all add: inv_ejec_def estado_ok_def)
  note p = campo_ok [OF c e(2)]
  define e1 where "e1 = e\<lparr>par := p, pos := i\<rparr>"
  have "paso_ok data e (CROW_CALLBACK_DATA m data header_field_mark (a_estado s_header_value_discard_ws (e1\<lparr>nread_l := n\<rparr>)))"
    if "i < length data" for n
    unfolding CROW_CALLBACK_DATA_def
  proof (rule data_fin)
    fix e2 :: "'c ejec"
    assume *: "control_de (par e2) = control_de (par (a_estado s_header_value_discard_ws (e1\<lparr>nread_l := n\<rparr>)))"
      "pos e2 = pos (a_estado s_header_value_discard_ws (e1\<lparr>nread_l := n\<rparr>))"
      "nread_l e2 = nread_l (a_estado s_header_value_discard_ws (e1\<lparr>nread_l := n\<rparr>))"
      "marks e2 = (marks (a_estado s_header_value_discard_ws (e1\<lparr>nread_l := n\<rparr>)))(header_field_mark := None)"
    have "inv_ejec False data e2"
      using that * p e
      by (intro inv_tras_data [OF *(1), of e header_field_mark e1])
        (auto simp: assms e1_def a_estado_def en_parser_def estado_ok_def)
    then show "paso_ok data e (Sigue, e2)" using * p by (simp add: e1_def a_estado_def en_parser_def)
  qed (use p e in \<open>simp_all add: a_estado_def en_parser_def e1_def\<close>)
  moreover have "paso_ok data e (CROW_COUNT_HEADER_SIZE v (e\<lparr>par := p, pos := i - 1\<rparr>))" if "i = length data" for v
    using that assms p e
    by (intro count_fin_ok) (fastforce simp: inv_ejec_def estado_ok_def marcas_ok_def)
  ultimately show ?thesis
    using p e(3) by (auto simp: paso_header_field_def c Let_def afirma_def e1_def intro!: count_ok)
qed

end

lemma lower_char: "CROW_LOWER (Char b0 b1 b2 b3 b4 b5 b6 b7) = Char b0 b1 b2 b3 b4 True b6 b7"
proof -
  define n :: nat where "n = of_char (Char b0 b1 b2 b3 b4 b5 b6 b7)"
  have "char_of n = Char b0 b1 b2 b3 b4 b5 b6 b7" unfolding n_def by (rule char_of_char)
  moreover have "\<not> odd (32::nat)" "\<not> bit (32::nat) (Suc 0)" "\<not> bit (32::nat) 2" "\<not> bit (32::nat) 3" "\<not> bit (32::nat) 4" "bit (32::nat) 5"
    "\<not> bit (32::nat) 6" "\<not> bit (32::nat) 7" by (simp_all add: bit_iff_odd)
  ultimately show ?thesis
    unfolding CROW_LOWER_def n_def [symmetric] by (auto simp add: char_of_def bit_or_iff even_or_iff)
qed
lemma lower_espacio: "CROW_LOWER ch = CHR '' '' \<or> CROW_LOWER ch = ht \<Longrightarrow> ch = nul \<or> ch = CHR '' ''"
  by (cases ch) (auto simp: lower_char)

lemma paso_header_value_start_ok:
  assumes "p_errno (par e) = CHPE_OK" "marcas_ok e" "pos e < length data" "\<not> estado_url (pstate (par e))"
    and "\<And>k. marca_ok (pstate (par e)) k \<Longrightarrow> k = url_start_mark"
    and "header_state (par e) = h_connection \<Longrightarrow> ch \<noteq> nul \<and> ch \<noteq> CHR '' ''"
  shows "paso_ok data e (paso_header_value_start ch e)"
proof -
  define e1 where "e1 = en_parser (\<lambda>p. p\<lparr>pstate := s_header_value, index := 0\<rparr>) (CROW_MARK header_value_mark e)"
  have "marks e k = Some a \<Longrightarrow> a \<le> pos e \<and> k = url_start_mark" for k a
    using assms by (auto simp: marcas_ok_def)
  then have *: "marcas_ok e2" if "marks e2 = marks e1" "pos e2 = pos e" "pstate (par e2) = s_header_value" for e2 :: "'a ejec"
    using that by (auto simp: marcas_ok_def e1_def en_parser_def CROW_MARK_def split: if_splits)
  have e1: "p_errno (par e1) = CHPE_OK" "pos e1 = pos e" "pstate (par e1) = s_header_value"
    "header_state (par e1) = header_state (par e)"
    using assms(1) by (simp_all add: e1_def en_parser_def CROW_MARK_def)
  show ?thesis
    unfolding paso_header_value_start_def e1_def [symmetric] Let_def e1(4)
    using assms(3,6) e1 lower_espacio [of ch]
    by (cases "header_state (par e)")
      (auto simp: inv_ejec_def estado_ok_def valor_bueno_def a_cabecera_def en_parser_def intro!: *)
qed

lemma paso_header_value_discard_ws_ok:
  assumes "inv_ejec True data e" "pstate (par e) = s_header_value_discard_ws" "ch \<noteq> nul"
  shows "paso_ok data e (paso_header_value_discard_ws ch e)"
proof -
  have "ch \<noteq> CHR '' '' \<Longrightarrow> paso_ok data e (paso_header_value_start ch e)"
    using assms by (intro paso_header_value_start_ok) (auto simp: inv_ejec_def estado_url_def)
  then show ?thesis
    using assms by (auto simp: paso_header_value_discard_ws_def inv_ejec_def marcas_ok_def estado_ok_def
        a_estado_def en_parser_def estado_url_def)
qed

lemma valor_char_ok:
  assumes "valor_bueno h" "pstate p = s_header_value"
  shows "case valor_char ch h p of
      V_sigue h1 p1 \<Rightarrow> valor_bueno h1 \<and> pstate p1 = s_header_value \<and> p_errno p1 = p_errno p
    | V_mal er \<Rightarrow> er \<noteq> CHPE_OK
    | V_aborta \<Rightarrow> False"
  using assms
  by (cases h) (auto simp: valor_char_def valor_digito_def valor_literal_def coincide_def valor_bueno_def Let_def)

lemma valor_ok:
  assumes "lee_valor cs i h p = (fin, j, h', q)" "valor_bueno h" "pstate p = s_header_value"
  shows "fin \<noteq> Fin_aborta \<and> valor_bueno h' \<and> pstate q = s_header_value \<and> p_errno q = p_errno p \<and> i \<le> j \<and>
    (if fin = Fin_datos then j = i + length cs else j < i + length cs) \<and> (\<forall>er. fin = Fin_longitud er \<longrightarrow> er \<noteq> CHPE_OK)"
  using assms
proof (induction cs arbitrary: i h p)
  case (Cons ch cs)
  show ?case
    using Cons.prems Cons.IH valor_char_ok [OF Cons.prems(2,3), of ch]
    by (cases "valor_char ch h p") (fastforce simp: valor_bueno_def split: if_splits)+
qed auto

context conexion_http
begin

lemma paso_header_value_ok:
  assumes "inv_ejec True data e" "pstate (par e) = s_header_value"
  shows "paso_ok data e (paso_header_value m data e)"
proof -
  obtain fin i h p where c: "lee_valor (drop (pos e) data) (pos e) (header_state (par e)) (par e) = (fin, i, h, p)"
    by (metis prod_cases4)
  have e: "p_errno (par e) = CHPE_OK" "valor_bueno (header_state (par e))" "pos e < length data"
    using assms by (simp_all add: inv_ejec_def estado_ok_def)
  note v = valor_ok [OF c e(2) assms(2)]
  define e1 where "e1 = e\<lparr>par := p, pos := i\<rparr>"
  have tras: "inv_ejec b data e2"
    if "control_de (par e2) = control_de (par e0)" "marks e2 = (marks e)(header_value_mark := None)" "pos e2 = i"
      "pstate (par e0) = s_header_almost_done" "header_state (par e0) = h" "p_errno (par e0) = CHPE_OK" "i < length data"
    for e2 e0 :: "'c ejec" and b
    using that v
    by (intro inv_tras_data [OF that(1), of e header_value_mark e1])
      (auto simp: assms e1_def estado_ok_def)
  have 1: "paso_ok data e (luego (CROW_CALLBACK_DATA m data header_value_mark (a_cabecera h (a_estado s_header_almost_done e1)))
             (\<lambda>e2. CROW_COUNT_HEADER_SIZE (i - pos e) (a_cabecera h e2)))" if "i < length data"
    unfolding CROW_CALLBACK_DATA_def
    using that v e
    by (intro data_luego count_fin_ok)
      (auto simp: a_cabecera_def a_estado_def en_parser_def e1_def control_de_def
        intro!: tras [of _ "(a_cabecera h (a_estado s_header_almost_done e1))"])
  have 2: "paso_ok data e (luego (CROW_COUNT_HEADER_SIZE (i - pos e) (a_estado s_header_almost_done e1)) (\<lambda>e2.
             luego (CROW_CALLBACK_DATA_NOADVANCE m data header_value_mark (a_cabecera h e2)) (\<lambda>e3. (Reejecuta, e3))))"
    if "i < length data"
    unfolding CROW_CALLBACK_DATA_NOADVANCE_def
    using that v e assms(2)
    by (intro count_ok data_luego)
      (auto simp: a_cabecera_def a_estado_def en_parser_def e1_def control_de_def rango_def
        intro!: tras [of _ "(a_cabecera h (a_estado s_header_almost_done e1))"])
  have 3: "paso_ok data e (CROW_COUNT_HEADER_SIZE (i - 1 - pos e) (a_cabecera h (e1\<lparr>pos := i - 1\<rparr>)))" if "fin = Fin_datos"
    using that assms v e
    by (intro count_fin_ok)
      (fastforce simp: inv_ejec_def estado_ok_def marcas_ok_def a_cabecera_def en_parser_def e1_def)
  show ?thesis
    using 1 2 3 v e
    by (cases fin) (auto simp: paso_header_value_def c e1_def a_cabecera_def CROW_SET_ERRNO_def en_parser_def Let_def)
qed

lemma paso_header_value_lws_ok:
  assumes "inv_ejec True data e" "pstate (par e) = s_header_value_lws"
  shows "paso_ok data e (paso_header_value_lws ch e)"
  using assms
  by (auto simp: paso_simps paso_header_value_lws_def estado_url_def rango_def valor_bueno_def)

lemma paso_header_value_discard_lws_ok:
  assumes "inv_ejec True data e" "pstate (par e) = s_header_value_discard_lws"
  shows "paso_ok data e (paso_header_value_discard_lws m data ch e)"
proof -
  define e0 where "e0 = a_estado s_header_field_start (CROW_MARK header_value_mark e)"
  have e0: "p_errno (par e0) = CHPE_OK" "pstate (par e0) = s_header_field_start" "pos e0 = pos e"
    "(marks e0)(header_value_mark := None) = (marks e)(header_value_mark := None)"
    using assms by (auto simp: e0_def a_estado_def en_parser_def CROW_MARK_def inv_ejec_def)
  have "paso_ok data e (Reejecuta, e1)"
    if *: "control_de (par e1) = control_de (par e0)" "pos e1 = pos e0" "marks e1 = (marks e0)(header_value_mark := None)" for e1
  proof -
    have "inv_ejec True data e1"
      using * e0 assms
      by (intro inv_tras_data [OF *(1), of e header_value_mark e]) (auto simp: estado_url_def estado_ok_def inv_ejec_def)
    then show ?thesis using * e0 assms(2) control_de_eqD [OF *(1)] by (simp add: rango_def)
  qed
  then have "paso_ok data e (luego (CROW_CALLBACK_DATA_NOADVANCE m data header_value_mark e0) (\<lambda>e. (Reejecuta, e)))"
    unfolding CROW_CALLBACK_DATA_NOADVANCE_def by (intro data_luego e0) simp
  moreover have "inv_ejec False data (a_estado s_header_value_discard_ws e)" "pos (a_estado s e) = pos e" for s
    using assms by (auto simp: paso_simps estado_url_def)
  ultimately show ?thesis
    by (simp add: paso_header_value_discard_lws_def e0_def)
qed

subsection \<open>The end of the headers and the body\<close>

text \<open>A complete message: the parser goes on as it was, or from the start.\<close>

lemma notify_message:
  assumes "p_errno (par e0) = CHPE_OK"
  shows "\<exists>e1. CROW_CALLBACK_NOTIFY_ER (on_message_complete (handle m)) er e0 = (Sigue, e1) \<and> p_errno (par e1) = CHPE_OK \<and>
    (control_de (par e1) = control_de (par e0) \<or> pstate (par e1) = s_start_req) \<and>
    pos e1 = pos e0 \<and> nread_l e1 = nread_l e0 \<and> marks e1 = marks e0"
  using assms
  by (rule_tac p = "par e0" in on_message_complete_control)
    (auto simp: CROW_CALLBACK_NOTIFY_ER_def afirma_def en_parser_def Let_def dest: control_de_eqD(2))

lemma notify_ok:
  assumes "inv_ejec True data e" "pstate (par e0) = s" "s \<in> {s_headers_almost_done, s_headers_done, s_message_done}"
    "pstate (par e) = s" "p_errno (par e0) = CHPE_OK" "pos e0 = pos e" "marks e0 = marks e"
  shows "\<exists>e1. CROW_CALLBACK_NOTIFY_ER (on_message_complete (handle m)) er e0 = (Sigue, e1) \<and> inv_ejec False data e1 \<and>
    pos e1 = pos e \<and> (\<forall>n. inv_parser ((par e1)\<lparr>nread := n\<rparr>))"
proof -
  obtain e1 where e1: "CROW_CALLBACK_NOTIFY_ER (on_message_complete (handle m)) er e0 = (Sigue, e1)"
      "p_errno (par e1) = CHPE_OK" "control_de (par e1) = control_de (par e0) \<or> pstate (par e1) = s_start_req"
      "pos e1 = pos e0" "marks e1 = marks e0"
    using notify_message [OF assms(5)] by blast
  have s: "pstate (par e1) \<in> {s_headers_almost_done, s_headers_done, s_message_done, s_start_req}"
    using e1(3) assms(2,3) control_de_eqD(1) by (metis insert_iff)
  have "estado_ok b n ((par e1)\<lparr>nread := n'\<rparr>)" "estado_ok b n (par e1)" for b n n'
    using s by (auto simp: estado_ok_def)
  moreover have "marcas_ok e1"
    using assms s e1 by (auto simp: inv_ejec_def marcas_ok_def estado_url_def)
  ultimately show ?thesis
    using e1 assms by (auto simp: inv_ejec_def inv_parser_def)
qed

lemma paso_message_done_ok:
  assumes "inv_ejec True data e" "pstate (par e) = s_message_done"
  shows "paso_ok data e (paso_message_done m e)"
  using notify_ok [OF assms(1), of e s_message_done "pos e + 1"] assms
  by (auto simp: paso_message_done_def inv_ejec_def)

lemma paso_headers_almost_done_ok:
  assumes "inv_ejec True data e" "pstate (par e) = s_headers_almost_done"
  shows "paso_ok data e (paso_headers_almost_done m ch e)"
proof -
  define e2 where "e2 = en_parser (on_headers_complete m)
    (en_parser (\<lambda>p. p\<lparr>pstate := s_headers_done, upgrade := (F_UPGRADE \<in> flags p \<or> p_method p = Connect)\<rparr>) e)"
  have c: "control_de (par e2) = control_de ((par e)\<lparr>pstate := s_headers_done\<rparr>)"
    by (simp add: e2_def en_parser_def on_headers_complete_control) (simp add: control_de_def)
  have "inv_ejec True data e2" "rango (pstate (par e2)) < rango (pstate (par e))" "pos e2 = pos e" "p_errno (par e2) = CHPE_OK"
    using assms control_de_eqD [OF c] e2_def
    by (auto simp: inv_ejec_def estado_ok_def marcas_ok_def rango_def estado_url_def en_parser_def)
  moreover have "\<exists>e1. CROW_CALLBACK_NOTIFY_ER (on_message_complete (handle m)) (pos e + 1) e = (Sigue, e1) \<and>
      inv_ejec False data e1 \<and> pos e1 = pos e"
    using notify_ok [OF assms(1), of e s_headers_almost_done "pos e + 1"] assms by (auto simp: inv_ejec_def)
  ultimately show ?thesis
    by (auto simp: paso_headers_almost_done_def e2_def [symmetric] Let_def CROW_STRICT_CHECK_def)
qed

lemma paso_headers_done_ok:
  assumes "inv_ejec True data e" "pstate (par e) = s_headers_done"
  shows "paso_ok data e (paso_headers_done m ch e)"
proof -
  define e1 where "e1 = nread_cero e"
  have e1: "par e1 = (par e)\<lparr>nread := 0\<rparr>" "pos e1 = pos e" "marks e1 = marks e" "nread_l e1 = 0"
    by (simp_all add: e1_def nread_cero_def en_parser_def)
  obtain e2 where e2: "CROW_CALLBACK_NOTIFY_ER (on_message_complete (handle m)) (pos e + 1) e1 = (Sigue, e2)"
      "inv_ejec False data e2" "pos e2 = pos e" "\<forall>n. inv_parser ((par e2)\<lparr>nread := n\<rparr>)"
    using notify_ok [OF assms(1), of e1 s_headers_done "pos e + 1"] assms e1 by (auto simp: inv_ejec_def)
  have "inv_ejec False data (a_estado s e1)"
    if "s = s_chunk_size_start \<and> F_CHUNKED \<in> flags (par e1) \<or> s = s_body_identity_eof \<or>
        s = s_body_identity \<and> content_length (par e1) \<noteq> 0 \<and> content_length (par e1) \<noteq> CROW_ULLONG_MAX" for s
    using that assms e1
    by (auto simp: inv_ejec_def marcas_ok_def estado_ok_def a_estado_def en_parser_def estado_url_def)
  then show ?thesis
    using e2 e1(2)
    by (auto simp: paso_headers_done_def e1_def [symmetric] Let_def CROW_STRICT_CHECK_def en_parser_def a_estado_def
        CROW_SET_ERRNO_def inv_parser_def)
qed

end

lemma lee_cuerpo_ok:
  assumes "pos e < length data" "length data < 2 ^ 64" "content_length (par e) \<noteq> 0" "content_length (par e) \<noteq> CROW_ULLONG_MAX"
  shows "pos e \<le> pos (lee_cuerpo data e)" "pos (lee_cuerpo data e) < length data"
    "content_length (par (lee_cuerpo data e)) \<noteq> CROW_ULLONG_MAX"
    "\<exists>cl. par (lee_cuerpo data e) = (par e)\<lparr>content_length := cl\<rparr>"
    "nread_l (lee_cuerpo data e) = nread_l e"
    "marks (lee_cuerpo data e) = marks (CROW_MARK body_mark e)"
proof -
  define n where "n = min (content_length (par e)) (of_nat (length data - pos e))"
  have l: "unat (of_nat (length data - pos e) :: 64 word) = length data - pos e"
    using assms(2) by (simp add: unat_of_nat take_bit_nat_eq_self_iff)
  have "0 < unat (content_length (par e))" using assms(3) by (simp add: unat_gt_0)
  then have n: "0 < unat n" "unat n \<le> length data - pos e" "n \<le> content_length (par e)"
    using l assms(1) by (auto simp: n_def min_def word_le_nat_alt)
  have lee: "lee_cuerpo data e = (en_parser (\<lambda>p. p\<lparr>content_length := content_length p - n\<rparr>) (CROW_MARK body_mark e))\<lparr>pos := pos e + unat n - 1\<rparr>"
    by (simp add: lee_cuerpo_def n_def Let_def)
  show "pos e \<le> pos (lee_cuerpo data e)" "pos (lee_cuerpo data e) < length data"
    using n assms(1) by (auto simp: lee)
  have "content_length (par e) - n \<le> content_length (par e)"
    using n(3) by (simp add: word_le_nat_alt unat_sub)
  moreover have "content_length (par e) < CROW_ULLONG_MAX"
    using assms(4) by (simp add: CROW_ULLONG_MAX_def word_order.not_eq_extremum)
  ultimately show "content_length (par (lee_cuerpo data e)) \<noteq> CROW_ULLONG_MAX"
    by (auto simp: lee en_parser_def CROW_MARK_def)
  show "\<exists>cl. par (lee_cuerpo data e) = (par e)\<lparr>content_length := cl\<rparr>" "nread_l (lee_cuerpo data e) = nread_l e"
    "marks (lee_cuerpo data e) = marks (CROW_MARK body_mark e)"
    by (auto simp: lee en_parser_def CROW_MARK_def)
qed

lemma marcas_cuerpo:
  assumes "marcas_ok e" "marca_ok (pstate (par e)) = (\<lambda>k. k = body_mark \<or> k = url_start_mark)"
    and "marks e1 = marks (CROW_MARK body_mark e)" "pos e \<le> pos e1" "marca_ok (pstate (par e1)) body_mark"
  shows "marcas_ok e1"
  using assms by (fastforce simp: marcas_ok_def CROW_MARK_def split: if_splits)

lemma unat_max: "unat CROW_ULLONG_MAX = 2 ^ 64 - 1"
  by (simp add: CROW_ULLONG_MAX_def unsigned_minus_1_eq_mask mask_eq_exp_minus_1)

lemma unhex_rango: "unhex ch = -1 \<or> 0 \<le> unhex ch \<and> unhex ch < 16"
  by (auto simp: unhex_def Let_def)

text \<open>The size of a chunk: the check before the sum keeps it below the largest value, without wrap-around.\<close>

lemma acumula:
  fixes x :: "64 word"
  assumes "\<not> (CROW_ULLONG_MAX - of_nat k) div of_nat k < x" "d < k" "1 < k" "k < 32"
  shows "unat (x * of_nat k + of_nat d) = unat x * k + d" "unat x * k + d < 2 ^ 64 - 1"
proof -
  have k: "unat (of_nat k :: 64 word) = k" using assms(4) by (simp add: unat_of_nat take_bit_nat_eq_self_iff)
  have "unat (CROW_ULLONG_MAX - of_nat k) = 2 ^ 64 - 1 - k"
    using assms(4) k by (subst unat_sub) (auto simp: word_le_nat_alt unat_max)
  then have "unat x \<le> (2 ^ 64 - 1 - k) div k"
    using assms(1) k by (simp add: word_less_nat_alt unat_div not_less)
  then have "unat x * k \<le> 2 ^ 64 - 1 - k"
    using assms(3) by (metis (no_types, opaque_lifting) div_times_less_eq_dividend le_trans mult_le_mono1)
  then show l: "unat x * k + d < 2 ^ 64 - 1" using assms(2,4) by auto
  have "x * of_nat k + of_nat d = of_nat (unat x * k + d)" by simp
  then show "unat (x * of_nat k + of_nat d) = unat x * k + d"
    using l by (simp only: unat_of_nat) (simp add: take_bit_nat_eq_self_iff)
qed

lemma menor_no_max: "unat (x :: 64 word) < 2 ^ 64 - 1 \<Longrightarrow> x \<noteq> CROW_ULLONG_MAX"
  by (auto simp: unat_max)

lemma paso_chunk_size_start_ok:
  assumes "inv_ejec True data e" "pstate (par e) = s_chunk_size_start"
  shows "paso_ok data e (paso_chunk_size_start ch e)"
proof -
  have "word_of_int (unhex ch) \<noteq> CROW_ULLONG_MAX" if "unhex ch \<noteq> -1"
  proof -
    have "word_of_int (unhex ch) = (of_nat (nat (unhex ch)) :: 64 word)" "nat (unhex ch) < 16"
      using unhex_rango [of ch] that by auto
    then show ?thesis by (intro menor_no_max) (simp add: unat_of_nat take_bit_nat_eq_self_iff)
  qed
  then show ?thesis
    using assms by (auto simp: paso_simps paso_chunk_size_start_def estado_url_def)
qed

lemma paso_chunk_size_ok:
  assumes "inv_ejec True data e" "pstate (par e) = s_chunk_size"
  shows "paso_ok data e (paso_chunk_size ch e)"
proof -
  have "content_length (par e) * 16 + word_of_int (unhex ch) \<noteq> CROW_ULLONG_MAX"
    if "unhex ch \<noteq> -1" "\<not> (CROW_ULLONG_MAX - 16) div 16 < content_length (par e)"
  proof -
    have "word_of_int (unhex ch) = (of_nat (nat (unhex ch)) :: 64 word)" "nat (unhex ch) < 16"
      using unhex_rango [of ch] that by auto
    then show ?thesis
      using acumula [of 16 "content_length (par e)" "nat (unhex ch)"] that(2) by (intro menor_no_max) simp
  qed
  then show ?thesis
    using assms by (auto simp: paso_simps paso_chunk_size_def estado_url_def)
qed

lemma paso_chunk_ok:
  assumes "inv_ejec True data e"
  shows "pstate (par e) = s_chunk_parameters \<Longrightarrow> paso_ok data e (paso_chunk_parameters ch e)"
    and "pstate (par e) = s_chunk_size_almost_done \<Longrightarrow> paso_ok data e (paso_chunk_size_almost_done ch e)"
    and "pstate (par e) = s_chunk_data_done \<Longrightarrow> paso_ok data e (paso_chunk_data_done ch e)"
  using assms
  by (auto simp: paso_simps paso_chunk_parameters_def paso_chunk_size_almost_done_def paso_chunk_data_done_def
      nread_cero_def estado_url_def)

lemma paso_body_identity_eof_ok:
  assumes "inv_ejec True data e" "pstate (par e) = s_body_identity_eof"
  shows "paso_ok data e (paso_body_identity_eof data e)"
  using assms
  by (fastforce simp: paso_body_identity_eof_def inv_ejec_def estado_ok_def CROW_MARK_def marcas_ok_def split: if_splits)

lemma paso_chunk_data_ok:
  assumes "inv_ejec True data e" "pstate (par e) = s_chunk_data" "length data < 2 ^ 64"
  shows "paso_ok data e (paso_chunk_data data e)"
proof -
  have e: "pos e < length data" "content_length (par e) \<noteq> 0" "content_length (par e) \<noteq> CROW_ULLONG_MAX"
      "marcas_ok e" "F_CHUNKED \<in> flags (par e)" "p_errno (par e) = CHPE_OK"
    using assms by (simp_all add: inv_ejec_def estado_ok_def)
  define e1 where "e1 = lee_cuerpo data e"
  note l = lee_cuerpo_ok [OF e(1) assms(3) e(2,3), folded e1_def]
  obtain cl where p: "par e1 = (par e)\<lparr>content_length := cl\<rparr>" using l(4) by blast
  have "marcas_ok e1"
    using e(4) l(1,6) assms(2) p by (rule_tac marcas_cuerpo [of e]) (simp_all add: fun_eq_iff)
  moreover have "marcas_ok (a_estado s_chunk_data_almost_done e1)"
    using e(4) l(1,6) assms(2) p by (rule_tac marcas_cuerpo [of e]) (simp_all add: a_estado_def en_parser_def fun_eq_iff)
  ultimately show ?thesis
    using e l(1-3) p assms(2)
    by (auto simp: paso_chunk_data_def e1_def [symmetric] Let_def afirma_def inv_ejec_def estado_ok_def a_estado_def en_parser_def)
qed

context conexion_http
begin

lemma paso_body_identity_ok:
  assumes "inv_ejec True data e" "pstate (par e) = s_body_identity" "length data < 2 ^ 64"
  shows "paso_ok data e (paso_body_identity m data e)"
proof -
  have e: "pos e < length data" "content_length (par e) \<noteq> 0" "content_length (par e) \<noteq> CROW_ULLONG_MAX"
      "marcas_ok e" "p_errno (par e) = CHPE_OK"
    using assms by (simp_all add: inv_ejec_def estado_ok_def)
  define e1 where "e1 = lee_cuerpo data e"
  note l = lee_cuerpo_ok [OF e(1) assms(3) e(2,3), folded e1_def]
  obtain cl where p: "par e1 = (par e)\<lparr>content_length := cl\<rparr>" using l(4) by blast
  have m1: "marcas_ok e1"
    using e(4) l(1,6) assms(2) p by (rule_tac marcas_cuerpo [of e]) (simp_all add: fun_eq_iff)
  define e2 where "e2 = a_estado s_message_done e1"
  have "paso_ok data e (luego (CROW_CALLBACK_DATA_ER m data body_mark (pos e1 + 1) (pos e1) e2) (\<lambda>e. (Reejecuta, e)))"
  proof (rule data_luego)
    fix e3 :: "'c ejec"
    assume *: "control_de (par e3) = control_de (par e2)" "pos e3 = pos e2" "marks e3 = (marks e2)(body_mark := None)"
    have "pstate (par e3) = s_message_done" "p_errno (par e3) = CHPE_OK"
      using control_de_eqD [OF *(1)] e p by (simp_all add: e2_def a_estado_def en_parser_def)
    moreover have "marcas_ok e3"
      using m1 * p assms(2) calculation(1) by (fastforce simp: marcas_ok_def e2_def a_estado_def en_parser_def estado_url_def)
    ultimately show "paso_ok data e (Reejecuta, e3)"
      using * l assms(2) by (simp add: inv_ejec_def estado_ok_def e2_def a_estado_def en_parser_def rango_def)
  qed (use e p in \<open>simp_all add: e2_def a_estado_def en_parser_def\<close>)
  then show ?thesis
    using e l(1-3) p assms(2) m1
    by (simp add: paso_body_identity_def e1_def [symmetric] e2_def [symmetric] Let_def afirma_def inv_ejec_def estado_ok_def)
qed

lemma paso_chunk_data_almost_done_ok:
  assumes "inv_ejec True data e" "pstate (par e) = s_chunk_data_almost_done"
  shows "paso_ok data e (paso_chunk_data_almost_done m data ch e)"
proof -
  define e0 where "e0 = a_estado s_chunk_data_done e"
  have e0: "p_errno (par e0) = CHPE_OK" "pos e0 = pos e" "marks e0 = marks e" "par e0 = (par e)\<lparr>pstate := s_chunk_data_done\<rparr>"
    using assms(1) by (auto simp: e0_def a_estado_def en_parser_def inv_ejec_def)
  have "paso_ok data e (CROW_CALLBACK_DATA m data body_mark e0)"
    unfolding CROW_CALLBACK_DATA_def
  proof (rule data_fin [OF e0(1)])
    fix e1 :: "'c ejec"
    assume *: "control_de (par e1) = control_de (par e0)" "pos e1 = pos e0" "nread_l e1 = nread_l e0"
      "marks e1 = (marks e0)(body_mark := None)"
    have "inv_ejec False data e1"
      using * e0 assms
      by (intro inv_tras_data [OF *(1), of e body_mark e]) (auto simp: estado_ok_def inv_ejec_def)
    then show "paso_ok data e (Sigue, e1)" using * e0 by simp
  qed simp
  then show ?thesis
    using assms
    by (auto simp: paso_chunk_data_almost_done_def e0_def afirma_def CROW_STRICT_CHECK_def inv_ejec_def estado_ok_def)
qed

subsection \<open>The switch and the loop\<close>

theorem paso_estado_ok:
  assumes "inv_ejec True data e" "length data < 2 ^ 64" "nul \<notin> set data"
  shows "paso_ok data e (paso_estado m dir data e)"
proof -
  have "data ! pos e \<noteq> nul" using assms nth_mem [of "pos e" data] unfolding inv_ejec_def by metis
  moreover have "paso_ok data e (paso_header_value_start ch e)" if "pstate (par e) = s_header_value_start" for ch
    using assms(1) that
    by (intro paso_header_value_start_ok) (auto simp: inv_ejec_def estado_ok_def valor_bueno_def estado_url_def)
  ultimately show ?thesis
    using assms
    by (cases "pstate (par e)")
      (simp_all add: paso_estado_def paso_dead_ok paso_start_req_ok paso_req_method_ok paso_spaces_before_url_ok
        paso_schema_ok paso_url_ok paso_linea_ok paso_estricto_ok paso_header_field_start_ok paso_header_field_ok
        paso_header_value_discard_ws_ok paso_header_value_ok paso_header_value_lws_ok paso_header_value_discard_lws_ok
        paso_headers_almost_done_ok paso_headers_done_ok paso_body_identity_ok paso_body_identity_eof_ok
        paso_message_done_ok paso_chunk_size_start_ok paso_chunk_size_ok paso_chunk_ok paso_chunk_data_ok
        paso_chunk_data_almost_done_ok estado_url_def)
qed

lemma marca_ok_unica:
  "marca_ok s k \<Longrightarrow> marca_ok s k' \<Longrightarrow> k \<noteq> url_start_mark \<Longrightarrow> k' \<noteq> url_start_mark \<Longrightarrow> k = k'"
  by (cases k; cases k') (auto simp: marca_ok_def estado_url_def)

text \<open>The callbacks after the loop leave a parser that satisfies the invariant.\<close>

definition final_ok :: "'c pasos \<Rightarrow> bool" where
  "final_ok r \<longleftrightarrow>
     (\<exists>n. fst r = Retorna n) \<and> p_errno (par (snd r)) \<noteq> CHPE_OK \<or>
     fst r = Sigue \<and> p_errno (par (snd r)) = CHPE_OK \<and> estado_ok False (nread_l (snd r)) (par (snd r))"

lemma final_data: "final_ok r \<Longrightarrow> final_ok (luego r (CROW_CALLBACK_DATA_NOADVANCE m data k))"
proof (cases "fst r = Sigue")
  case True
  assume "final_ok r"
  then have "p_errno (par (snd r)) = CHPE_OK" "estado_ok False (nread_l (snd r)) (par (snd r))"
    using True by (auto simp: final_ok_def)
  then show ?thesis
    using True data_callback [of "snd r" data k "pos (snd r)" "pos (snd r)"]
    by (auto simp: luego_def CROW_CALLBACK_DATA_NOADVANCE_def final_ok_def estado_ok_inicio
        intro: estado_ok_control [THEN iffD2])
qed (simp add: luego_def)

lemma epilogo_ok:
  assumes "p_errno (par e) = CHPE_OK" "estado_ok False (nread_l e) (par e)" "marcas_ok e"
  shows "\<exists>n q. epilogo m data e = Devuelve n q \<and> inv_parser q"
proof -
  have *: "marks e k = None \<or> marks e k' = None" if "k \<noteq> k'" "k \<noteq> url_start_mark" "k' \<noteq> url_start_mark" for k k'
    using assms(3) that marca_ok_unica [of "pstate (par e)" k k'] by (cases "marks e k"; cases "marks e k'") (auto simp: marcas_ok_def)
  have "marcas_puestas e \<le> 1"
    using * [of header_field_mark header_value_mark] * [of header_field_mark url_mark] * [of header_field_mark body_mark]
      * [of header_value_mark url_mark] * [of header_value_mark body_mark] * [of url_mark body_mark]
    by (auto simp: marcas_puestas_def)
  then have "final_ok (afirma (marcas_puestas e \<le> 1) e)"
    using assms by (simp add: final_ok_def afirma_def)
  then have "final_ok (luego (luego (luego (luego (afirma (marcas_puestas e \<le> 1) e)
          (CROW_CALLBACK_DATA_NOADVANCE m data header_field_mark))
          (CROW_CALLBACK_DATA_NOADVANCE m data header_value_mark))
          (CROW_CALLBACK_DATA_NOADVANCE m data url_mark))
          (CROW_CALLBACK_DATA_NOADVANCE m data body_mark))"
    by (intro final_data)
  then show ?thesis
    by (auto simp: epilogo_def termina_ejec_def final_ok_def inv_parser_def)
qed

lemma salida_error_ok: "\<exists>n q. salida_error e = Devuelve n q \<and> inv_parser q"
  by (auto simp: salida_error_def Let_def CROW_SET_ERRNO_def en_parser_def inv_parser_def)

lemma estado_ok_contado:
  "estado_ok False n p \<Longrightarrow> estado_ok True (if CROW_PARSING_HEADER (pstate p) then (n + 1) mod 2 ^ 32 else n) p"
  by (cases "pstate p") (auto simp: estado_ok_def CROW_PARSING_HEADER_def estados_cuerpo_def)

lemma cuenta_ok:
  assumes "p_errno (par e) = CHPE_OK" "estado_ok False (nread_l e) (par e)" "marcas_ok e" "pos e < length data"
  shows "(\<exists>e1. cuenta e = (Goto_error, e1)) \<or>
    (\<exists>e1. cuenta e = (Sigue, e1) \<and> inv_ejec True data e1 \<and> pos e1 = pos e \<and> pstate (par e1) = pstate (par e))"
  using assms estado_ok_contado [OF assms(2)]
  by (auto simp: cuenta_def CROW_COUNT_HEADER_SIZE_def Let_def falla_def inv_ejec_def marcas_ok_def)

lemma rango_le: "rango s \<le> 3"
  by (cases s) (simp_all add: rango_def)

theorem bucle_ok:
  assumes "length data < 2 ^ 64" "nul \<notin> set data"
    and "if re then inv_ejec True data e \<and> 4 * (length data - pos e - 1) + rango (pstate (par e)) + 2 \<le> n
         else p_errno (par e) = CHPE_OK \<and> estado_ok False (nread_l e) (par e) \<and> marcas_ok e \<and> pos e \<le> length data \<and>
              4 * (length data - pos e) + 1 \<le> n"
  shows "\<exists>k q. bucle n m dir data re e = Some (Devuelve k q) \<and> inv_parser q"
  using assms(3)
proof (induction n arbitrary: re e)
  case (Suc n)
  have paso: "\<exists>k q. (case fst r of
             Sigue \<Rightarrow> bucle n m dir data False ((snd r)\<lparr>pos := pos (snd r) + 1\<rparr>)
           | Reejecuta \<Rightarrow> bucle n m dir data True (snd r)
           | Goto_error \<Rightarrow> Some (salida_error (snd r))
           | Retorna k \<Rightarrow> Some (Devuelve k (par (snd r)))
           | Aborta \<Rightarrow> Some Abortado) = Some (Devuelve k q) \<and> inv_parser q"
    if "inv_ejec True data e1" "pos e1 = pos e" "r = paso_estado m dir data e1"
      "4 * (length data - pos e - 1) + rango (pstate (par e1)) + 1 \<le> n" for e1 r
  proof -
    have ok: "paso_ok data e1 r" using paso_estado_ok [OF that(1) assms(1,2)] that(3) by simp
    show ?thesis
    proof (cases "fst r")
      case Sigue
      then have "pos e \<le> pos (snd r)" "inv_ejec False data (snd r)"
        using ok that(2) by (auto simp: paso_ok_def Let_def)
      then show ?thesis
        using Sigue that(4) Suc.IH [of False "(snd r)\<lparr>pos := pos (snd r) + 1\<rparr>"]
        by (fastforce simp: inv_ejec_def marcas_ok_def)
    next
      case Reejecuta
      then have "pos e \<le> pos (snd r)" "inv_ejec True data (snd r)" "rango (pstate (par (snd r))) < rango (pstate (par e1))"
        using ok that(2) by (auto simp: paso_ok_def Let_def)
      then show ?thesis
        using Reejecuta that(4) Suc.IH [of True "snd r"] by fastforce
    qed (use ok salida_error_ok in \<open>auto simp: paso_ok_def Let_def\<close>)
  qed
  show ?case
  proof (cases re)
    case True
    then show ?thesis
      using Suc.prems paso [of e] by (simp add: Let_def)
  next
    case re: False
    show ?thesis
    proof (cases "pos e = length data")
      case True
      then show ?thesis using re Suc.prems epilogo_ok by simp
    next
      case False
      then have e: "pos e < length data" using re Suc.prems by simp
      then consider e1 where "cuenta e = (Goto_error, e1)" | e1 where "cuenta e = (Sigue, e1)" "inv_ejec True data e1" "pos e1 = pos e"
        using cuenta_ok [of e data] re Suc.prems by auto
      then show ?thesis
      proof cases
        case 1
        then show ?thesis using re False salida_error_ok by (simp add: luego_def)
      next
        case 2
        have "4 * (length data - pos e - 1) + rango (pstate (par e1)) + 1 \<le> n"
          using re e Suc.prems rango_le [of "pstate (par e1)"] by auto
        then show ?thesis
          using paso [OF 2(2,3) refl] 2(1) re False by (simp add: Let_def)
      qed
    qed
  qed
qed (simp split: if_splits)

text \<open>A call of the parser returns, fails no assertion and keeps the invariant.\<close>

theorem ejecuta_ok:
  assumes "inv_parser p" "length data < 2 ^ 64" "nul \<notin> set data"
  shows "\<exists>k q. http_parser_execute m dir data p = Some (Devuelve k q) \<and> inv_parser q"
proof -
  consider "p_errno p \<noteq> CHPE_OK" | "p_errno p = CHPE_OK" "data = []" | "p_errno p = CHPE_OK" "data \<noteq> []" by blast
  then show ?thesis
  proof cases
    case 2
    have "inv_parser (on_message_complete (handle m) p)" if "pstate p = s_body_identity_eof"
      using that 2
      by (rule_tac p = p in on_message_complete_control)
        (auto simp: inv_parser_def estado_ok_def dest: control_de_eqD(1))
    then show ?thesis
      using 2 assms(1) by (cases "pstate p") (auto simp: http_parser_execute_def inv_parser_def)
  next
    case 3
    have "marcas_ok (ejec_inicial p)"
      by (auto simp: marcas_ok_def ejec_inicial_def marca_ok_def split: if_splits marca.splits)
    then have "\<exists>k q. bucle (combustible data) m dir data False (ejec_inicial p) = Some (Devuelve k q) \<and> inv_parser q"
      using assms 3 by (intro bucle_ok) (auto simp: ejec_inicial_def inv_parser_def combustible_def)
    then show ?thesis using 3 by (simp add: http_parser_execute_def)
  qed (use assms in \<open>simp add: http_parser_execute_def\<close>)
qed

end

lemma inv_parser_init: "inv_parser (http_parser_init c)"
  by (simp add: inv_parser_def http_parser_init_def estado_ok_def)

lemma inv_parser_clear: "inv_parser (clear_parser p)"
  by (simp add: inv_parser_def clear_parser_def estado_ok_def)

end
