(* ===== verification/Analisis.thy ===== *)
theory Analisis
  imports Aserciones
begin

text \<open>
  What \<^verbatim>\<open>http_parser_execute\<close> does with a well-formed request in one buffer: it calls the handlers once, in
  order, with the method, the URL, the headers and the body that were printed. The proof follows the text of
  the request, one group of states at a time.
\<close>

subsection \<open>Runs of the loop\<close>

definition corre ::
    "'c manejadores \<Rightarrow> 64 word \<Rightarrow> string \<Rightarrow> bool \<Rightarrow> 'c ejec \<Rightarrow> bool \<Rightarrow> 'c ejec \<Rightarrow> bool" where
  "corre m dir data re e re' e' \<longleftrightarrow> (\<exists>k. \<forall>n. bucle (n + k) m dir data re e = bucle n m dir data re' e')"

lemma corre_refl [simp]: "corre m dir data re e re e"
  unfolding corre_def by (rule exI [of _ 0]) simp

lemma corre_trans [trans]:
  assumes "corre m dir data re e re' e'" "corre m dir data re' e' re'' e''"
  shows "corre m dir data re e re'' e''"
proof -
  from assms obtain k l where "\<And>n. bucle (n + k) m dir data re e = bucle n m dir data re' e'"
    "\<And>n. bucle (n + l) m dir data re' e' = bucle n m dir data re'' e''"
    unfolding corre_def by blast
  then have "bucle (n + (l + k)) m dir data re e = bucle n m dir data re'' e''" for n
    by (metis add.assoc)
  then show ?thesis unfolding corre_def by blast
qed

lemma corre_sigue:
  assumes "pos e \<noteq> length data" "cuenta e = (Sigue, e1)" "paso_estado m dir data e1 = (Sigue, e2)"
  shows "corre m dir data False e False (e2\<lparr>pos := pos e2 + 1\<rparr>)"
  unfolding corre_def using assms by (intro exI [of _ 1]) (simp add: Let_def)

lemma corre_reejecuta:
  assumes "pos e \<noteq> length data" "cuenta e = (Sigue, e1)" "paso_estado m dir data e1 = (Reejecuta, e2)"
  shows "corre m dir data False e True e2"
  unfolding corre_def using assms by (intro exI [of _ 1]) (simp add: Let_def)

lemma corre_re_sigue:
  "paso_estado m dir data e = (Sigue, e2) \<Longrightarrow> corre m dir data True e False (e2\<lparr>pos := pos e2 + 1\<rparr>)"
  unfolding corre_def by (intro exI [of _ 1]) (simp add: Let_def)

lemma corre_re_re:
  "paso_estado m dir data e = (Reejecuta, e2) \<Longrightarrow> corre m dir data True e True e2"
  unfolding corre_def by (intro exI [of _ 1]) (simp add: Let_def)

lemma bucle_mas: "bucle n m dir data re e = Some r \<Longrightarrow> bucle (n + k) m dir data re e = Some r"
proof (induction n arbitrary: re e)
  case (Suc n)
  then show ?case by (auto simp: Let_def split: if_splits control.splits)
qed simp

text \<open>A run to a result gives the result of the call, whatever fuel is enough.\<close>

lemma corre_resultado:
  assumes "corre m dir data re e re' e'" "bucle l m dir data re' e' = Some r" "bucle n m dir data re e = Some r'"
  shows "r' = r"
proof -
  obtain k where "\<And>n. bucle (n + k) m dir data re e = bucle n m dir data re' e'"
    using assms(1) unfolding corre_def by blast
  then have "bucle (l + k) m dir data re e = Some r" using assms(2) by simp
  then have "bucle (l + k + n) m dir data re e = Some r" by (rule bucle_mas)
  moreover have "bucle (n + (l + k)) m dir data re e = Some r'" using assms(3) by (rule bucle_mas)
  ultimately show ?thesis by (simp add: add.commute)
qed

text \<open>The local variables as one value, and what is left of the buffer.\<close>

abbreviation en :: "'c parser \<Rightarrow> nat \<Rightarrow> nat \<Rightarrow> (marca \<Rightarrow> nat option) \<Rightarrow> 'c ejec" where
  "en p i n mk \<equiv> \<lparr>par = p, pos = i, nread_l = n, marks = mk\<rparr>"

lemma queda:
  assumes "drop i data = c # r"
  shows "i \<noteq> length data" "i < length data" "data ! i = c" "drop (Suc i) data = r"
proof -
  show l: "i < length data" using assms by (metis drop_all list.distinct(1) not_le_imp_less)
  then show "i \<noteq> length data" by simp
  show "data ! i = c" using assms by (rule nth_via_drop)
  show "drop (Suc i) data = r" using assms by (metis drop_Suc drop_tl list.sel(3))
qed

lemma sigue_tras: "drop i data = w @ r \<Longrightarrow> drop (i + length w) data = r"
  by (metis add.commute append_eq_conv_conj drop_drop)

lemma cuenta_en:
  "CROW_PARSING_HEADER (pstate p) \<Longrightarrow> n < max_header_size \<Longrightarrow> cuenta (en p i n mk) = (Sigue, en p i (Suc n) mk)"
  by (simp add: cuenta_def CROW_COUNT_HEADER_SIZE_def Let_def max_header_size_def)

text \<open>One character of the head of a message.\<close>

lemma corre_letra:
  assumes "drop i data = c # r" "CROW_PARSING_HEADER (pstate p)" "n < max_header_size"
    and "paso_estado m dir data (en p i (Suc n) mk) = (Sigue, en q j n' mk')"
  shows "corre m dir data False (en p i n mk) False (en q (Suc j) n' mk')"
proof -
  have "pos (en p i n mk) \<noteq> length data" using queda [OF assms(1)] by simp
  then show ?thesis using corre_sigue [OF _ cuenta_en [OF assms(2,3)] assms(4)] by simp
qed

subsection \<open>The method\<close>

text \<open>One more character of the method, and the rest of its name.\<close>

definition metodo_sigue :: "HTTPMethod \<Rightarrow> nat \<Rightarrow> char \<Rightarrow> HTTPMethod option" where
  "metodo_sigue mt i c = (if c = car_c (method_name mt) i then Some mt else metodo_cambia mt i c)"

fun metodo_lee :: "HTTPMethod \<Rightarrow> nat \<Rightarrow> string \<Rightarrow> HTTPMethod option" where
  "metodo_lee mt i [] = Some mt"
| "metodo_lee mt i (c # cs) =
     (case metodo_sigue mt i c of None \<Rightarrow> None | Some mt' \<Rightarrow> metodo_lee mt' (Suc i) cs)"

definition letra_metodo :: "char \<Rightarrow> bool" where
  "letra_metodo c \<longleftrightarrow> CHR ''A'' \<le> c \<and> c \<le> CHR ''Z'' \<or> c = CHR ''-''"

lemma metodo_lee_nombre:
  assumes "mt \<noteq> InternalMethodCount"
  obtains c cs mt0 where "method_name mt = c # cs" "list_all letra_metodo cs" "CROW_IS_ALPHA c" "c \<noteq> cr" "c \<noteq> lf"
    "metodo_inicial c = Some mt0" "metodo_lee mt0 1 cs = Some mt"
proof -
  have "\<exists>c cs mt0. method_name mt = c # cs \<and> list_all letra_metodo cs \<and> CROW_IS_ALPHA c \<and> c \<noteq> cr \<and> c \<noteq> lf \<and>
    metodo_inicial c = Some mt0 \<and> metodo_lee mt0 1 cs = Some mt"
    using assms
    by (cases mt) (simp_all add: method_name_simps metodo_inicial_def metodo_sigue_def metodo_cambia_def car_c_def
        letra_metodo_def CROW_IS_ALPHA_def lower_char less_eq_char_simp)
  then show thesis using that by blast
qed

lemma letra_metodoD: "letra_metodo c \<Longrightarrow> c \<noteq> nul \<and> c \<noteq> CHR '' ''"
  by (auto simp: letra_metodo_def)

definition con_metodo_leido :: "HTTPMethod \<Rightarrow> nat \<Rightarrow> 'c parser \<Rightarrow> 'c parser" where
  "con_metodo_leido mt k p = p\<lparr>p_method := mt, req := (req p)\<lparr>req_method := mt\<rparr>, index := k\<rparr>"

lemma paso_metodo_letra:
  assumes "letra_metodo c" "metodo_sigue (p_method p) (index p) c = Some mt" "p_errno p = CHPE_OK" "index p < 31"
  shows "paso_req_method c (en p i n mk) = (Sigue, en (con_metodo_leido mt (Suc (index p)) p) i n mk)"
proof (cases "c = car_c (method_name (p_method p)) (index p)")
  case True
  then have "mt = p_method p" using assms(2) by (simp add: metodo_sigue_def)
  then show ?thesis
    using assms letra_metodoD [OF assms(1)] True [symmetric]
    by (cases p) (simp add: paso_req_method_def Let_def CROW_CALLBACK_NOTIFY_ER_def afirma_def en_parser_def
        on_method_def con_metodo_leido_def)
next
  case False
  then have "metodo_cambia (p_method p) (index p) c = Some mt" using assms(2) by (simp add: metodo_sigue_def)
  then show ?thesis
    using assms letra_metodoD [OF assms(1)] False
    by (simp add: paso_req_method_def Let_def letra_metodo_def CROW_CALLBACK_NOTIFY_ER_def afirma_def en_parser_def
        on_method_def con_metodo_leido_def)
qed

lemma cabecera_estados [simp]:
  "s \<notin> estados_cuerpo \<Longrightarrow> CROW_PARSING_HEADER s"
  by (simp add: CROW_PARSING_HEADER_def)

lemma corre_metodo_resto:
  assumes "list_all letra_metodo cs" "metodo_lee (p_method p) (index p) cs = Some mt" "drop i data = cs @ CHR '' '' # r"
    and "index p + length cs = length (method_name mt)" "pstate p = s_req_method" "p_errno p = CHPE_OK"
    and "n + length cs < max_header_size"
  shows "\<exists>k. corre m dir data False (en p i n mk) False
    (en (con_metodo_leido mt k p\<lparr>pstate := s_req_spaces_before_url\<rparr>) (i + length cs + 1) (n + length cs + 1) mk)"
  using assms
proof (induction cs arbitrary: p i n)
  case Nil
  have d: "drop i data = CHR '' '' # r" using Nil by simp
  have "car_c (method_name mt) (index p) = nul" using Nil by (simp add: car_c_def)
  then have "paso_estado m dir data (en p i (Suc n) mk) =
      (Sigue, en (con_metodo_leido mt (Suc (index p)) p\<lparr>pstate := s_req_spaces_before_url\<rparr>) i (Suc n) mk)"
    using Nil queda [OF d] method_name_corto [of mt]
    by (simp add: paso_estado_def paso_req_method_def CROW_CALLBACK_NOTIFY_ER_def afirma_def en_parser_def a_estado_def
        on_method_def con_metodo_leido_def Let_def)
  then show ?case
    using corre_letra [OF d, of p n] Nil by (auto simp: estados_cuerpo_def intro!: exI)
next
  case (Cons c cs)
  obtain mt1 where m1: "metodo_sigue (p_method p) (index p) c = Some mt1" "metodo_lee mt1 (Suc (index p)) cs = Some mt"
    using Cons.prems(2) by (auto split: option.splits)
  have d: "drop i data = c # (cs @ CHR '' '' # r)" using Cons.prems by simp
  define q where "q = con_metodo_leido mt1 (Suc (index p)) p"
  have "paso_estado m dir data (en p i (Suc n) mk) = (Sigue, en q i (Suc n) mk)"
    using paso_metodo_letra [OF _ m1(1)] Cons.prems queda [OF d] method_name_corto [of mt]
    by (simp add: paso_estado_def q_def)
  then have "corre m dir data False (en p i n mk) False (en q (Suc i) (Suc n) mk)"
    using Cons.prems by (intro corre_letra [OF d]) (simp_all add: estados_cuerpo_def)
  moreover have "con_metodo_leido mt k q = con_metodo_leido mt k p" for k
    by (simp add: con_metodo_leido_def q_def)
  moreover have "\<exists>k. corre m dir data False (en q (Suc i) (Suc n) mk) False
    (en (con_metodo_leido mt k q\<lparr>pstate := s_req_spaces_before_url\<rparr>) (Suc i + length cs + 1) (Suc n + length cs + 1) mk)"
    using Cons.prems m1 queda [OF d] by (intro Cons.IH) (auto simp: q_def con_metodo_leido_def)
  ultimately show ?case using corre_trans by fastforce
qed

definition inicio_peticion :: "'c parser \<Rightarrow> 'c parser" where
  "inicio_peticion p = p\<lparr>flags := {}, uses_transfer_encoding := False, content_length := CROW_ULLONG_MAX\<rparr>"

lemma corre_metodo:
  assumes "mt \<noteq> InternalMethodCount" "drop i data = method_name mt @ CHR '' '' # r"
    and "pstate p = s_start_req" "p_errno p = CHPE_OK" "n + length (method_name mt) < max_header_size"
  shows "\<exists>k. corre m dir data False (en p i n mk) False
    (en (con_metodo_leido mt k (inicio_peticion p)\<lparr>pstate := s_req_spaces_before_url\<rparr>)
       (i + length (method_name mt) + 1) (n + length (method_name mt) + 1) mk)"
proof -
  obtain c cs mt0 where c: "method_name mt = c # cs" "list_all letra_metodo cs" "CROW_IS_ALPHA c" "c \<noteq> cr" "c \<noteq> lf"
    "metodo_inicial c = Some mt0" "metodo_lee mt0 1 cs = Some mt"
    by (rule metodo_lee_nombre [OF assms(1)])
  define q where "q = (inicio_peticion p)\<lparr>p_method := mt0, index := 1, pstate := s_req_method\<rparr>"
  have d: "drop i data = c # (cs @ CHR '' '' # r)" using assms(2) c(1) by simp
  have "paso_estado m dir data (en p i (Suc n) mk) = (Sigue, en q i (Suc n) mk)"
    using c assms queda [OF d]
    by (simp add: paso_estado_def paso_start_req_def q_def inicio_peticion_def CROW_CALLBACK_NOTIFY_ER_def afirma_def en_parser_def Let_def)
  then have 1: "corre m dir data False (en p i n mk) False (en q (Suc i) (Suc n) mk)"
    using assms c(1) by (intro corre_letra [OF d]) (simp_all add: estados_cuerpo_def)
  obtain k where 2: "corre m dir data False (en q (Suc i) (Suc n) mk) False
    (en (con_metodo_leido mt k q\<lparr>pstate := s_req_spaces_before_url\<rparr>) (Suc i + length cs + 1) (Suc n + length cs + 1) mk)"
    using corre_metodo_resto [of cs q mt "Suc i" data r "Suc n" m dir mk] c queda [OF d] assms
    by (auto simp: q_def inicio_peticion_def)
  have "con_metodo_leido mt k q\<lparr>pstate := s_req_spaces_before_url\<rparr> =
      con_metodo_leido mt k (inicio_peticion p)\<lparr>pstate := s_req_spaces_before_url\<rparr>"
    by (simp add: con_metodo_leido_def q_def inicio_peticion_def)
  then show ?thesis using corre_trans [OF 1 2] c(1) by auto
qed

subsection \<open>The URL\<close>

text \<open>An absolute path with an optional query.\<close>

definition url_letra :: "char \<Rightarrow> bool" where
  "url_letra c \<longleftrightarrow> CROW_IS_URL_CHAR c \<or> c = CHR ''?''"

definition url_ok :: "string \<Rightarrow> bool" where
  "url_ok u \<longleftrightarrow> (\<exists>w. u = CHR ''/'' # w \<and> list_all url_letra w)"

definition sin_consulta :: "string \<Rightarrow> string" where
  "sin_consulta u = takeWhile (\<lambda>c. c \<noteq> CHR ''?'') u"

lemma no_url_char:
  "\<not> CROW_IS_URL_CHAR (CHR '' '')" "\<not> CROW_IS_URL_CHAR cr" "\<not> CROW_IS_URL_CHAR lf" "\<not> CROW_IS_URL_CHAR ht"
  "\<not> CROW_IS_URL_CHAR (CHR 0x0C)" "\<not> CROW_IS_URL_CHAR (CHR ''?'')"
  by (simp_all add: CROW_IS_URL_CHAR_def normal_url_char_def Let_def)

lemma url_letraD: "url_letra c \<Longrightarrow> c \<noteq> CHR '' '' \<and> c \<noteq> cr \<and> c \<noteq> lf \<and> c \<noteq> ht \<and> c \<noteq> CHR 0x0C"
  by (intro conjI notI) (simp_all add: url_letra_def no_url_char)

definition estado_ruta :: "state \<Rightarrow> bool" where
  "estado_ruta s \<longleftrightarrow> s = s_req_path \<or> s = s_req_query_string_start \<or> s = s_req_query_string"

lemma estado_ruta_url: "estado_ruta s \<Longrightarrow> CROW_PARSING_HEADER s \<and> estado_url s \<and> s \<noteq> s_dead"
  by (auto simp: estado_ruta_def CROW_PARSING_HEADER_def estados_cuerpo_def estado_url_def)

lemma parse_url_letra:
  assumes "estado_ruta s" "url_letra c"
  obtains s' where "estado_ruta s'" "parse_url_char s c d p =
    (s', if s = s_req_path \<and> c = CHR ''?'' then p\<lparr>qs_point := d\<rparr> else p)"
    "s' = s_req_path \<longleftrightarrow> s = s_req_path \<and> c \<noteq> CHR ''?''"
proof -
  define s' where "s' = (if s = s_req_path then if c = CHR ''?'' then s_req_query_string_start else s_req_path else s_req_query_string)"
  have n: "c \<noteq> CHR '' ''" "c \<noteq> cr" "c \<noteq> lf" "c \<noteq> ht" "c \<noteq> CHR 0x0C" using url_letraD [OF assms(2)] by simp_all
  have "parse_url_char s c d p = (s', if s = s_req_path \<and> c = CHR ''?'' then p\<lparr>qs_point := d\<rparr> else p)"
  proof (cases "c = CHR ''?''")
    case True
    then show ?thesis
      using assms(1) unfolding estado_ruta_def by (elim disjE) (simp_all add: parse_url_char_def no_url_char s'_def)
  next
    case False
    then have "CROW_IS_URL_CHAR c" using assms(2) by (simp add: url_letra_def)
    then show ?thesis
      using assms(1) n False unfolding estado_ruta_def by (elim disjE) (simp_all add: parse_url_char_def s'_def)
  qed
  then show thesis by (rule that [rotated]) (simp_all add: s'_def estado_ruta_def)
qed

lemma paso_estado_ruta:
  "estado_ruta (pstate (par e)) \<Longrightarrow> paso_estado m dir data e = paso_url m dir data (data ! pos e) e"
  by (auto simp: estado_ruta_def paso_estado_def)

lemma corre_url_resto:
  assumes "list_all url_letra w" "drop i data = w @ r" "estado_ruta (pstate p)" "p_errno p = CHPE_OK"
    and "mk url_start_mark = Some a" "a \<le> i" "n + length w < max_header_size"
  shows "\<exists>s. estado_ruta s \<and> corre m dir data False (en p i n mk) False
    (en (p\<lparr>qs_point := (if pstate p = s_req_path \<and> CHR ''?'' \<in> set w then of_nat (i + length (sin_consulta w) - a) else qs_point p),
           pstate := s\<rparr>) (i + length w) (n + length w) mk)"
  using assms
proof (induction w arbitrary: p i n)
  case Nil
  have "p\<lparr>qs_point := qs_point p, pstate := pstate p\<rparr> = p" by (cases p) simp
  then show ?case using Nil by (intro exI [of _ "pstate p"]) simp
next
  case (Cons c w)
  have d: "drop i data = c # (w @ r)" using Cons.prems by simp
  define dd where "dd = dif_punteros dir i (Some a)"
  have dd: "dd = of_nat (i - a)" using Cons.prems(6) by (simp add: dd_def dif_punteros_def of_nat_diff)
  have c: "url_letra c" using Cons.prems(1) by simp
  obtain s' where s': "estado_ruta s'" "parse_url_char (pstate p) c dd p =
      (s', if pstate p = s_req_path \<and> c = CHR ''?'' then p\<lparr>qs_point := dd\<rparr> else p)"
      "s' = s_req_path \<longleftrightarrow> pstate p = s_req_path \<and> c \<noteq> CHR ''?''"
    by (rule parse_url_letra [OF Cons.prems(3) c])
  define q where "q = (if pstate p = s_req_path \<and> c = CHR ''?'' then p\<lparr>qs_point := dd\<rparr> else p)\<lparr>pstate := s'\<rparr>"
  have "paso_estado m dir data (en p i (Suc n) mk) = (Sigue, en q i (Suc n) mk)"
    using Cons.prems s'(2) url_letraD [OF c] estado_ruta_url [OF s'(1)] queda [OF d]
    by (simp add: paso_estado_ruta paso_url_def url_char_def dd_def q_def Let_def)
  then have 1: "corre m dir data False (en p i n mk) False (en q (Suc i) (Suc n) mk)"
    using Cons.prems estado_ruta_url by (intro corre_letra [OF d]) simp_all
  have q: "pstate q = s'" "p_errno q = CHPE_OK" using Cons.prems(4) by (simp_all add: q_def)
  obtain s where s: "estado_ruta s" "corre m dir data False (en q (Suc i) (Suc n) mk) False
    (en (q\<lparr>qs_point := (if pstate q = s_req_path \<and> CHR ''?'' \<in> set w then of_nat (Suc i + length (sin_consulta w) - a) else qs_point q),
           pstate := s\<rparr>) (Suc i + length w) (Suc n + length w) mk)"
    using Cons.IH [of "Suc i" q "Suc n"] Cons.prems queda [OF d] q s'(1) by auto
  have "q\<lparr>qs_point := (if pstate q = s_req_path \<and> CHR ''?'' \<in> set w then of_nat (Suc i + length (sin_consulta w) - a) else qs_point q),
           pstate := s\<rparr> =
      p\<lparr>qs_point := (if pstate p = s_req_path \<and> CHR ''?'' \<in> set (c # w) then of_nat (i + length (sin_consulta (c # w)) - a) else qs_point p),
           pstate := s\<rparr>"
    using s'(3) q(1) dd by (cases "c = CHR ''?''") (auto simp: q_def sin_consulta_def)
  then show ?case using corre_trans [OF 1 s(2)] s(1) by auto
qed

text \<open>The marks while nothing of the head is pending: only the start of the URL stays.\<close>

definition marca_inicio :: "nat \<Rightarrow> marca \<Rightarrow> nat option" where
  "marca_inicio i = (\<lambda>_. None)(url_start_mark := Some i)"

definition url_leida :: "string \<Rightarrow> 'c \<Rightarrow> 64 word \<Rightarrow> 'c parser \<Rightarrow> 'c parser" where
  "url_leida u c x p =
     p\<lparr>qs_point := x, pstate := s_req_http_start, req := (req p)\<lparr>raw_url := u, url := sin_consulta u\<rparr>, conexion := c\<rparr>"

text \<open>The marks inside the URL.\<close>

definition marca_url :: "nat \<Rightarrow> marca \<Rightarrow> nat option" where
  "marca_url i = (\<lambda>_. None)(url_mark := Some i, url_start_mark := Some i)"

lemma corre_url_letras:
  assumes "url_ok u" "drop i data = u @ r" "pstate p = s_req_spaces_before_url" "p_method p \<noteq> Connect"
    and "p_errno p = CHPE_OK" "qs_point p = 0" "n + length u < max_header_size"
  shows "\<exists>x s. estado_ruta s \<and> (if x \<noteq> 0 then take (unat x) u else u) = sin_consulta u \<and>
    corre m dir data False (en p i n (\<lambda>_. None)) False (en (p\<lparr>qs_point := x, pstate := s\<rparr>) (i + length u) (n + length u) (marca_url i))"
proof -
  obtain w where w: "u = CHR ''/'' # w" "list_all url_letra w" using assms(1) by (auto simp: url_ok_def)
  have d: "drop i data = CHR ''/'' # (w @ r)" using assms(2) w(1) by simp
  define p1 where "p1 = p\<lparr>pstate := s_req_path\<rparr>"
  have "paso_estado m dir data (en p i (Suc n) (\<lambda>_. None)) = (Sigue, en p1 i (Suc n) (marca_url i))"
    using assms(3,4) queda [OF d]
    by (simp add: paso_estado_def paso_spaces_before_url_def CROW_MARK_def url_char_def parse_url_char_def p1_def marca_url_def Let_def)
  then have 1: "corre m dir data False (en p i n (\<lambda>_. None)) False (en p1 (Suc i) (Suc n) (marca_url i))"
    using assms(3,7) w(1) by (intro corre_letra [OF d]) (simp_all add: estados_cuerpo_def)
  define x where "x = (if pstate p1 = s_req_path \<and> CHR ''?'' \<in> set w then of_nat (Suc i + length (sin_consulta w) - i) else qs_point p1)"
  obtain s where s: "estado_ruta s" "corre m dir data False (en p1 (Suc i) (Suc n) (marca_url i)) False
      (en (p1\<lparr>qs_point := x, pstate := s\<rparr>) (Suc i + length w) (Suc n + length w) (marca_url i))"
    using corre_url_resto [OF w(2) queda(4) [OF d], of p1 "marca_url i" i "Suc n" m dir, folded x_def] assms(5,7) w(1)
    by (auto simp: p1_def marca_url_def estado_ruta_def)
  have lu: "length u < 2 ^ 64" using assms(7) by (simp add: max_header_size_def)
  have u: "(if x \<noteq> 0 then take (unat x) u else u) = sin_consulta u"
  proof (cases "CHR ''?'' \<in> set w")
    case True
    then have x: "x = of_nat (length (sin_consulta u))" by (simp add: x_def p1_def w(1) sin_consulta_def)
    have l: "length (sin_consulta u) \<le> length u" unfolding sin_consulta_def by (rule length_takeWhile_le)
    then have "unat x = length (sin_consulta u)" using lu unfolding x by (simp add: unat_of_nat take_bit_nat_eq_self_iff)
    moreover have "length (sin_consulta u) \<noteq> 0" by (simp add: w(1) sin_consulta_def)
    ultimately have "x \<noteq> 0" "unat x = length (sin_consulta u)" by auto
    then show ?thesis unfolding sin_consulta_def by (simp add: takeWhile_eq_take [symmetric])
  next
    case False
    then have "takeWhile (\<lambda>c. c \<noteq> CHR ''?'') w = w" by (auto simp: takeWhile_eq_all_conv)
    then show ?thesis using assms(6) False by (simp add: x_def p1_def w(1) sin_consulta_def del: takeWhile_eq_all_conv)
  qed
  have "p1\<lparr>qs_point := x, pstate := s\<rparr> = p\<lparr>qs_point := x, pstate := s\<rparr>" by (simp add: p1_def)
  moreover have "i + length u = Suc (i + length w)" "n + length u = Suc (n + length w)" by (simp_all add: w(1))
  ultimately show ?thesis using corre_trans [OF 1 s(2)] u s(1) by (intro exI [of _ x] exI [of _ s]) simp
qed

lemma on_url_ok:
  assumes "(if x \<noteq> 0 then take (unat x) u else u) = sin_consulta u" "raw_url (req p) = []"
  shows "on_url m u (p\<lparr>qs_point := x, pstate := s\<rparr>) =
    handle_url m (p\<lparr>qs_point := x, pstate := s, req := (req p)\<lparr>raw_url := u, url := sin_consulta u\<rparr>\<rparr>)"
  using assms(2) by (simp add: on_url_def Let_def assms(1) [symmetric])

lemma corre_url:
  assumes "url_ok u" "drop i data = u @ CHR '' '' # r" "pstate p = s_req_spaces_before_url" "p_method p \<noteq> Connect"
    and "p_errno p = CHPE_OK" "qs_point p = 0" "raw_url (req p) = []" "n + length u < max_header_size"
    and h: "\<And>q. req q = (req p)\<lparr>raw_url := u, url := sin_consulta u\<rparr> \<Longrightarrow> conexion q = conexion p \<Longrightarrow> handle_url m q = q\<lparr>conexion := c\<rparr>"
  shows "\<exists>x. corre m dir data False (en p i n (\<lambda>_. None)) False
    (en (url_leida u c x p) (i + length u + 1) (n + length u + 1) (marca_inicio i))"
proof -
  obtain x s where s: "estado_ruta s" "(if x \<noteq> 0 then take (unat x) u else u) = sin_consulta u"
      "corre m dir data False (en p i n (\<lambda>_. None)) False (en (p\<lparr>qs_point := x, pstate := s\<rparr>) (i + length u) (n + length u) (marca_url i))"
    using corre_url_letras [OF assms(1-6,8), of m dir] by blast
  have d2: "drop (i + length u) data = CHR '' '' # r" using assms(2) by (rule sigue_tras)
  have t: "take (i + length u - i) (drop i data) = u" using assms(2) by simp
  have o: "on_url m u (p\<lparr>qs_point := x, pstate := s_req_http_start\<rparr>) = url_leida u c x p"
    unfolding on_url_ok [OF s(2) assms(7)] by (subst h) (simp_all add: url_leida_def)
  have "paso_estado m dir data (en (p\<lparr>qs_point := x, pstate := s\<rparr>) (i + length u) (Suc (n + length u)) (marca_url i)) =
      (Sigue, en (url_leida u c x p) (i + length u) (Suc (n + length u)) (marca_inicio i))"
    using s(1) queda [OF d2] o assms(5) t
    by (simp add: paso_estado_ruta paso_url_def CROW_CALLBACK_DATA_def CROW_CALLBACK_DATA_ER_def afirma_def a_estado_def en_parser_def
        on_dato_def Let_def marca_url_def marca_inicio_def fun_upd_twist)
      (simp add: url_leida_def)
  then have "corre m dir data False (en (p\<lparr>qs_point := x, pstate := s\<rparr>) (i + length u) (n + length u) (marca_url i)) False
      (en (url_leida u c x p) (Suc (i + length u)) (Suc (n + length u)) (marca_inicio i))"
    using assms(8) estado_ruta_url [OF s(1)] by (intro corre_letra [OF d2]) simp_all
  then show ?thesis using corre_trans [OF s(3)] by auto
qed

subsection \<open>The version\<close>

lemma corre_estricto:
  assumes "drop i data = c # r" "n < max_header_size"
    and "(pstate p, c, s) \<in> {(s_req_http_H, CHR ''T'', s_req_http_HT), (s_req_http_HT, CHR ''T'', s_req_http_HTT),
       (s_req_http_HTT, CHR ''P'', s_req_http_HTTP), (s_req_http_HTTP, CHR ''/'', s_req_http_major),
       (s_req_http_start, CHR ''H'', s_req_http_H), (s_req_http_dot, CHR ''.'', s_req_http_minor),
       (s_req_http_end, cr, s_req_line_almost_done), (s_req_line_almost_done, lf, s_header_field_start)}"
  shows "corre m dir data False (en p i n mk) False (en (p\<lparr>pstate := s\<rparr>) (Suc i) (Suc n) mk)"
  using assms(2,3) queda [OF assms(1)]
  by (intro corre_letra [OF assms(1)])
    (auto simp: paso_estado_def paso_estricto_def paso_http_start_def paso_http_dot_def paso_http_end_def paso_espera_lf_def
      CROW_STRICT_CHECK_def a_estado_def en_parser_def estados_cuerpo_def)

lemma corre_version:
  assumes "drop i data = ''HTTP/1.1'' @ [cr, lf] @ r" "pstate p = s_req_http_start" "n + 10 < max_header_size"
  shows "corre m dir data False (en p i n mk) False
    (en (p\<lparr>http_major := 1, http_minor := 1, pstate := s_header_field_start\<rparr>) (i + 10) (n + 10) mk)"
proof -
  have d0: "drop i data = CHR ''H'' # CHR ''T'' # CHR ''T'' # CHR ''P'' # CHR ''/'' # CHR ''1'' # CHR ''.'' # CHR ''1'' # cr # lf # r"
    using assms(1) by simp
  note d1 = queda(4) [OF d0] note d2 = queda(4) [OF d1] note d3 = queda(4) [OF d2] note d4 = queda(4) [OF d3]
  note d5 = queda(4) [OF d4] note d6 = queda(4) [OF d5] note d7 = queda(4) [OF d6] note d8 = queda(4) [OF d7]
  note d9 = queda(4) [OF d8]
  have num: "corre m dir data False (en q j k mk) False (en (q\<lparr>http_major := 1, pstate := s_req_http_dot\<rparr>) (Suc j) (Suc k) mk)"
    if "drop j data = CHR ''1'' # x" "pstate q = s_req_http_major" "k < max_header_size" for q :: "'a parser" and j k x
    using that(2,3) queda [OF that(1)]
    by (intro corre_letra [OF that(1)])
      (simp_all add: paso_estado_def paso_http_major_def CROW_IS_NUM_def a_estado_def en_parser_def estados_cuerpo_def)
  have num': "corre m dir data False (en q j k mk) False (en (q\<lparr>http_minor := 1, pstate := s_req_http_end\<rparr>) (Suc j) (Suc k) mk)"
    if "drop j data = CHR ''1'' # x" "pstate q = s_req_http_minor" "k < max_header_size" for q :: "'a parser" and j k x
    using that(2,3) queda [OF that(1)]
    by (intro corre_letra [OF that(1)])
      (simp_all add: paso_estado_def paso_http_minor_def CROW_IS_NUM_def a_estado_def en_parser_def estados_cuerpo_def)
  have c0: "corre m dir data False (en p i n mk) False (en (p\<lparr>pstate := s_req_http_H\<rparr>) (i + 1) (n + 1) mk)"
    using corre_estricto [OF d0, of "n" "p" s_req_http_H m dir mk] assms(2,3) by (simp add: eval_nat_numeral)
  have c1: "corre m dir data False (en (p\<lparr>pstate := s_req_http_H\<rparr>) (i + 1) (n + 1) mk) False (en (p\<lparr>pstate := s_req_http_HT\<rparr>) (i + 2) (n + 2) mk)"
    using corre_estricto [OF d1, of "n + 1" "p\<lparr>pstate := s_req_http_H\<rparr>" s_req_http_HT m dir mk] assms(2,3) by (simp add: eval_nat_numeral)
  have c2: "corre m dir data False (en (p\<lparr>pstate := s_req_http_HT\<rparr>) (i + 2) (n + 2) mk) False (en (p\<lparr>pstate := s_req_http_HTT\<rparr>) (i + 3) (n + 3) mk)"
    using corre_estricto [OF d2, of "n + 2" "p\<lparr>pstate := s_req_http_HT\<rparr>" s_req_http_HTT m dir mk] assms(2,3) by (simp add: eval_nat_numeral)
  have c3: "corre m dir data False (en (p\<lparr>pstate := s_req_http_HTT\<rparr>) (i + 3) (n + 3) mk) False (en (p\<lparr>pstate := s_req_http_HTTP\<rparr>) (i + 4) (n + 4) mk)"
    using corre_estricto [OF d3, of "n + 3" "p\<lparr>pstate := s_req_http_HTT\<rparr>" s_req_http_HTTP m dir mk] assms(2,3) by (simp add: eval_nat_numeral)
  have c4: "corre m dir data False (en (p\<lparr>pstate := s_req_http_HTTP\<rparr>) (i + 4) (n + 4) mk) False (en (p\<lparr>pstate := s_req_http_major\<rparr>) (i + 5) (n + 5) mk)"
    using corre_estricto [OF d4, of "n + 4" "p\<lparr>pstate := s_req_http_HTTP\<rparr>" s_req_http_major m dir mk] assms(2,3) by (simp add: eval_nat_numeral)
  have c5: "corre m dir data False (en (p\<lparr>pstate := s_req_http_major\<rparr>) (i + 5) (n + 5) mk) False (en (p\<lparr>http_major := 1, pstate := s_req_http_dot\<rparr>) (i + 6) (n + 6) mk)"
    using num [OF d5, of "p\<lparr>pstate := s_req_http_major\<rparr>" "n + 5"] assms(2,3) by (simp add: eval_nat_numeral)
  have c6: "corre m dir data False (en (p\<lparr>http_major := 1, pstate := s_req_http_dot\<rparr>) (i + 6) (n + 6) mk) False (en (p\<lparr>http_major := 1, pstate := s_req_http_minor\<rparr>) (i + 7) (n + 7) mk)"
    using corre_estricto [OF d6, of "n + 6" "p\<lparr>http_major := 1, pstate := s_req_http_dot\<rparr>" s_req_http_minor m dir mk] assms(2,3) by (simp add: eval_nat_numeral)
  have c7: "corre m dir data False (en (p\<lparr>http_major := 1, pstate := s_req_http_minor\<rparr>) (i + 7) (n + 7) mk) False (en (p\<lparr>http_major := 1, http_minor := 1, pstate := s_req_http_end\<rparr>) (i + 8) (n + 8) mk)"
    using num' [OF d7, of "p\<lparr>http_major := 1, pstate := s_req_http_minor\<rparr>" "n + 7"] assms(2,3) by (simp add: eval_nat_numeral)
  have c8: "corre m dir data False (en (p\<lparr>http_major := 1, http_minor := 1, pstate := s_req_http_end\<rparr>) (i + 8) (n + 8) mk) False (en (p\<lparr>http_major := 1, http_minor := 1, pstate := s_req_line_almost_done\<rparr>) (i + 9) (n + 9) mk)"
    using corre_estricto [OF d8, of "n + 8" "p\<lparr>http_major := 1, http_minor := 1, pstate := s_req_http_end\<rparr>" s_req_line_almost_done m dir mk] assms(2,3) by (simp add: eval_nat_numeral)
  have c9: "corre m dir data False (en (p\<lparr>http_major := 1, http_minor := 1, pstate := s_req_line_almost_done\<rparr>) (i + 9) (n + 9) mk) False (en (p\<lparr>http_major := 1, http_minor := 1, pstate := s_header_field_start\<rparr>) (i + 10) (n + 10) mk)"
    using corre_estricto [OF d9, of "n + 9" "p\<lparr>http_major := 1, http_minor := 1, pstate := s_req_line_almost_done\<rparr>" s_header_field_start m dir mk] assms(2,3) by (simp add: eval_nat_numeral)
  note corre_trans [OF c0 c1] note corre_trans [OF this c2] note corre_trans [OF this c3] note corre_trans [OF this c4]
  note corre_trans [OF this c5] note corre_trans [OF this c6] note corre_trans [OF this c7] note corre_trans [OF this c8]
  note corre_trans [OF this c9]
  then show ?thesis by simp
qed

subsection \<open>A line of a header\<close>

text \<open>
  A line is read from the state that starts a name, or from the one after the line before, where the
  state of that header must not add a flag.
\<close>

definition empieza_linea :: "'c parser \<Rightarrow> 'c parser \<Rightarrow> bool" where
  "empieza_linea p p' \<longleftrightarrow>
     pstate p = s_header_field_start \<and> p' = p \<or>
     pstate p = s_header_value_lws \<and>
     header_state p \<notin> {h_connection_keep_alive, h_connection_close, h_transfer_encoding_chunked} \<and>
     p' = p\<lparr>pstate := s_header_field_start\<rparr>"

lemma corre_empieza:
  assumes "empieza_linea p p'" "drop i data = c # r" "c \<noteq> CHR '' ''" "c \<noteq> ht" "n < max_header_size"
    and "paso_estado m dir data (en p' i (Suc n) mk) = (Sigue, en q i n' mk')"
  shows "corre m dir data False (en p i n mk) False (en q (Suc i) n' mk')"
proof -
  consider "pstate p = s_header_field_start" "p' = p"
    | "pstate p = s_header_value_lws" "header_state p \<notin> {h_connection_keep_alive, h_connection_close, h_transfer_encoding_chunked}"
      "p' = p\<lparr>pstate := s_header_field_start\<rparr>"
    using assms(1) by (auto simp: empieza_linea_def)
  then show ?thesis
  proof cases
    case 1
    then show ?thesis using assms(5,6) by (intro corre_letra [OF assms(2)]) (simp_all add: estados_cuerpo_def)
  next
    case 2
    have q: "pos (en p i n mk) \<noteq> length data" using queda [OF assms(2)] by simp
    have cu: "cuenta (en p i n mk) = (Sigue, en p i (Suc n) mk)"
      using assms(5) 2(1) by (intro cuenta_en) (simp_all add: estados_cuerpo_def)
    have "paso_estado m dir data (en p i (Suc n) mk) = (Reejecuta, en p' i (Suc n) mk)"
      using 2 assms(3,4) queda [OF assms(2)]
      by (cases "header_state p") (simp_all add: paso_estado_def paso_header_value_lws_def a_estado_def en_parser_def)
    from corre_trans [OF corre_reejecuta [OF q cu this] corre_re_sigue [OF assms(6)]] show ?thesis by simp
  qed
qed

text \<open>The name of a field, up to the colon.\<close>

definition nombre_campo :: "string \<Rightarrow> bool" where
  "nombre_campo k \<longleftrightarrow> k \<noteq> [] \<and> list_all (\<lambda>c. CROW_TOKEN c \<noteq> nul) k"

lemma no_token:
  "CROW_TOKEN cr = nul" "CROW_TOKEN lf = nul" "CROW_TOKEN (CHR '' '') = nul" "CROW_TOKEN ht = nul" "CROW_TOKEN (CHR '':'') = nul"
  by (simp_all add: CROW_TOKEN_def tokens_def Let_def nth_append)

lemma token_distinto: "CROW_TOKEN c \<noteq> nul \<Longrightarrow> c \<noteq> cr \<and> c \<noteq> lf \<and> c \<noteq> CHR '' '' \<and> c \<noteq> ht \<and> c \<noteq> CHR '':''"
  using no_token by metis

definition tras_nombre :: "string \<Rightarrow> header_states \<Rightarrow> nat \<Rightarrow> 'c parser \<Rightarrow> 'c parser" where
  "tras_nombre k h ix p = on_header_field k (p\<lparr>index := ix, header_state := h, pstate := s_header_value_discard_ws\<rparr>)"

lemma p_errno_on_header [simp]:
  "p_errno (on_header_field k p) = p_errno p" "pstate (on_header_field k p) = pstate p"
  "p_errno (on_header_value k p) = p_errno p" "pstate (on_header_value k p) = pstate p"
  "header_state (on_header_field k p) = header_state p" "header_state (on_header_value k p) = header_state p"
  by (simp_all add: on_header_field_def on_header_value_def Let_def)

lemma corre_campo:
  assumes "empieza_linea p p'" "drop i data = k @ CHR '':'' # r" "nombre_campo k" "p_errno p = CHPE_OK"
    and "mk header_field_mark = None" "n + length k < max_header_size"
    and l: "lee_campo (tl k @ CHR '':'' # r) (Suc i)
      (p'\<lparr>index := 0, pstate := s_header_field, header_state := cabecera_inicial (CROW_TOKEN (hd k))\<rparr>) =
      (True, i + length k, p'\<lparr>index := ix, pstate := s_header_field, header_state := h\<rparr>)"
  shows "corre m dir data False (en p i n mk) False (en (tras_nombre k h ix p') (i + length k + 1) (n + length k + 1) mk)"
proof -
  obtain c w where k: "k = c # w" "CROW_TOKEN c \<noteq> nul" using assms(3) by (cases k) (auto simp: nombre_campo_def)
  have d: "drop i data = c # (w @ CHR '':'' # r)" using assms(2) k(1) by simp
  have p': "pstate p' = s_header_field_start" "p_errno p' = CHPE_OK" using assms(1,4) by (auto simp: empieza_linea_def)
  define p1 where "p1 = p'\<lparr>index := 0, pstate := s_header_field, header_state := cabecera_inicial (CROW_TOKEN c)\<rparr>"
  define mk1 where "mk1 = mk(header_field_mark := Some i)"
  have "paso_estado m dir data (en p' i (Suc n) mk) = (Sigue, en p1 i (Suc n) mk1)"
    using p' k(2) token_distinto [OF k(2)] queda [OF d] assms(5)
    by (simp add: paso_estado_def paso_header_field_start_def CROW_MARK_def a_cabecera_def a_estado_def en_parser_def p1_def mk1_def)
  then have 1: "corre m dir data False (en p i n mk) False (en p1 (Suc i) (Suc n) mk1)"
    using corre_empieza [OF assms(1) d] token_distinto [OF k(2)] assms(6) by simp
  have d1: "drop (Suc i) data = w @ CHR '':'' # r" using queda(4) [OF d] .
  have d2: "drop (i + length k) data = CHR '':'' # r" using assms(2) by (rule sigue_tras)
  have t: "take (i + length k - i) (drop i data) = k" using assms(2) by simp
  have n: "Suc i < length data" "i + length k \<noteq> length data" "data ! (i + length k) = CHR '':''"
    using queda [OF d2] k(1) by auto
  obtain c' r' where d1': "drop (Suc i) data = c' # r'" using d1 by (cases w) auto
  have mhs: "max_header_size < 2 ^ 32" by (simp add: max_header_size_def)
  have "paso_estado m dir data (en p1 (Suc i) (Suc (Suc n)) mk1) = (Sigue, en (tras_nombre k h ix p') (i + length k) (Suc n + length k) mk)"
    using l n p' d1 t assms(5,6) mhs k(1)
    by (simp add: paso_estado_def paso_header_field_def p1_def afirma_def CROW_COUNT_HEADER_SIZE_def Let_def CROW_CALLBACK_DATA_def
        CROW_CALLBACK_DATA_ER_def mk1_def a_estado_def en_parser_def on_dato_def tras_nombre_def fun_upd_idem)
  then have "corre m dir data False (en p1 (Suc i) (Suc n) mk1) False (en (tras_nombre k h ix p') (Suc (i + length k)) (Suc n + length k) mk)"
    using assms(6) k(1) by (intro corre_letra [OF d1']) (simp_all add: p1_def estados_cuerpo_def)
  then show ?thesis using corre_trans [OF 1] by simp
qed

text \<open>The value of a field, from the colon to the end of the line.\<close>

definition valor_campo :: "string \<Rightarrow> bool" where
  "valor_campo v \<longleftrightarrow> v \<noteq> [] \<and> hd v \<noteq> CHR '' '' \<and> hd v \<noteq> ht \<and>
     list_all (\<lambda>c. CROW_IS_HEADER_CHAR c \<and> c \<noteq> cr \<and> c \<noteq> lf) v"

definition tras_valor :: "string \<Rightarrow> header_states \<Rightarrow> 'c parser \<Rightarrow> 'c parser" where
  "tras_valor v h p = on_header_value v (p\<lparr>header_state := h, pstate := s_header_value_lws\<rparr>)"

lemma on_header_value_estado:
  "on_header_value v p\<lparr>pstate := s\<rparr> = on_header_value v (p\<lparr>pstate := s\<rparr>)"
  "on_header_value v p\<lparr>header_state := h\<rparr> = on_header_value v (p\<lparr>header_state := h\<rparr>)"
  by (simp_all add: on_header_value_def)

lemma corre_valor:
  assumes "drop i data = CHR '' '' # v @ [cr, lf] @ r" "valor_campo v" "pstate p = s_header_value_discard_ws"
    and "mk header_value_mark = None" "n + length v + 3 < max_header_size"
    and vs: "\<And>j k. paso_header_value_start (hd v) (en p j k mk) = (Sigue, en p1 j k (mk(header_value_mark := Some j)))"
    and lv: "lee_valor (tl v @ [cr, lf] @ r) (i + 2) (header_state p1) p1 = (Fin_cr, i + 1 + length v, h, p2)"
    and p12: "pstate p1 = s_header_value" "p_errno p2 = CHPE_OK"
  shows "corre m dir data False (en p i n mk) False (en (tras_valor v h p2) (i + length v + 3) (n + length v + 3) mk)"
proof -
  obtain c w where v: "v = c # w" using assms(2) by (cases v) (auto simp: valor_campo_def)
  have c: "c \<noteq> CHR '' ''" "c \<noteq> ht" "c \<noteq> cr" "c \<noteq> lf" using assms(2) v by (auto simp: valor_campo_def)
  have d0: "drop i data = CHR '' '' # c # (w @ [cr, lf] @ r)" using assms(1) v by simp
  note d1 = queda(4) [OF d0]
  note d2 = queda(4) [OF d1]
  have dr: "drop (i + 1 + length v) data = cr # lf # r"
    using queda(4) [OF d0] v by (metis Suc_eq_plus1 append_Cons append_Nil append_eq_conv_conj add.commute drop_drop)
  note dl = queda(4) [OF dr]
  obtain c2 r2 where d2': "drop (Suc (Suc i)) data = c2 # r2" using d2 by (cases w) auto
  have mhs: "max_header_size < 2 ^ 32" by (simp add: max_header_size_def)
  have 1: "corre m dir data False (en p i n mk) False (en p (Suc i) (Suc n) mk)"
    using assms(3,5) queda [OF d0]
    by (intro corre_letra [OF d0]) (simp_all add: paso_estado_def paso_header_value_discard_ws_def estados_cuerpo_def)
  define mk1 where "mk1 = mk(header_value_mark := Some (Suc i))"
  have 2: "corre m dir data False (en p (Suc i) (Suc n) mk) False (en p1 (Suc (Suc i)) (Suc (Suc n)) mk1)"
    using assms(3,5) queda [OF d1] c vs v
    by (intro corre_letra [OF d1]) (simp_all add: paso_estado_def paso_header_value_discard_ws_def estados_cuerpo_def mk1_def)
  have t: "take (i + 1 + length v - Suc i) (drop (Suc i) data) = v" using d1 v by simp
  have l: "lee_valor (drop (Suc (Suc i)) data) (Suc (Suc i)) (header_state p1) p1 = (Fin_cr, i + 1 + length v, h, p2)"
    using lv d2 v by simp
  define p3 where "p3 = on_header_value v (p2\<lparr>header_state := h, pstate := s_header_almost_done\<rparr>)"
  have "paso_estado m dir data (en p1 (Suc (Suc i)) (Suc (Suc (Suc n))) mk1) = (Sigue, en p3 (i + 1 + length v) (n + length v + 2) mk)"
    using p12 l t mhs assms(4,5) v
    by (simp add: paso_estado_def paso_header_value_def CROW_CALLBACK_DATA_def CROW_CALLBACK_DATA_ER_def afirma_def mk1_def
        CROW_COUNT_HEADER_SIZE_def Let_def a_cabecera_def a_estado_def en_parser_def on_dato_def p3_def on_header_value_estado fun_upd_idem)
      (simp add: on_header_value_def)
  then have 3: "corre m dir data False (en p1 (Suc (Suc i)) (Suc (Suc n)) mk1) False (en p3 (Suc (i + 1 + length v)) (n + length v + 2) mk)"
    using assms(5) p12 by (intro corre_letra [OF d2']) (simp_all add: estados_cuerpo_def)
  have "pstate p3 = s_header_almost_done" by (simp add: p3_def)
  then have 4: "corre m dir data False (en p3 (Suc (i + 1 + length v)) (n + length v + 2) mk) False
      (en (tras_valor v h p2) (Suc (Suc (i + 1 + length v))) (Suc (n + length v + 2)) mk)"
    using assms(5) queda [OF dl]
    by (intro corre_letra [OF dl])
      (simp_all add: paso_estado_def paso_espera_lf_def a_estado_def en_parser_def estados_cuerpo_def p3_def tras_valor_def on_header_value_estado)
  show ?thesis using corre_trans [OF corre_trans [OF corre_trans [OF 1 2] 3] 4] by (simp add: eval_nat_numeral)
qed

text \<open>
  A header that the parser does not interpret: its name, in any case, is none of the four that it knows by their
  whole, and does not begin with the fifth (which it takes for seen as soon as it has read it, whatever follows).
\<close>

definition nombre_general :: "string \<Rightarrow> bool" where
  "nombre_general k \<longleftrightarrow> nombre_campo k \<and>
     map CROW_TOKEN k \<notin> {''connection'', ''proxy-connection'', ''content-length'', ''upgrade''} \<and>
     take 17 (map CROW_TOKEN k) \<noteq> ''transfer-encoding''"

text \<open>The state of the parser after the letters \<open>t\<close> of a name.\<close>

definition en_literal :: "string \<Rightarrow> string \<Rightarrow> nat \<Rightarrow> bool" where
  "en_literal lit t ix \<longleftrightarrow> t = take (length t) lit \<and> length t < length lit \<and> length t = Suc ix"

fun nombre_en :: "string \<Rightarrow> header_states \<Rightarrow> nat \<Rightarrow> bool" where
  "nombre_en t h_general ix \<longleftrightarrow> True"
| "nombre_en t h_C ix \<longleftrightarrow> t = ''c'' \<and> ix = 0"
| "nombre_en t h_CO ix \<longleftrightarrow> t = ''co'' \<and> ix = 1"
| "nombre_en t h_CON ix \<longleftrightarrow> t = ''con'' \<and> ix = 2"
| "nombre_en t h_matching_connection ix \<longleftrightarrow> en_literal ''connection'' t ix"
| "nombre_en t h_matching_proxy_connection ix \<longleftrightarrow> en_literal ''proxy-connection'' t ix"
| "nombre_en t h_matching_content_length ix \<longleftrightarrow> en_literal ''content-length'' t ix"
| "nombre_en t h_matching_transfer_encoding ix \<longleftrightarrow> en_literal ''transfer-encoding'' t ix"
| "nombre_en t h_matching_upgrade ix \<longleftrightarrow> en_literal ''upgrade'' t ix"
| "nombre_en t h_connection ix \<longleftrightarrow> t \<in> {''connection'', ''proxy-connection''}"
| "nombre_en t h_content_length ix \<longleftrightarrow> t = ''content-length''"
| "nombre_en t h_upgrade ix \<longleftrightarrow> t = ''upgrade''"
| "nombre_en t _ ix \<longleftrightarrow> False"

lemma nombre_en_inicial: "nombre_en [c] (cabecera_inicial c) 0"
  by (simp add: cabecera_inicial_def en_literal_def)

lemma coincide_literal:
  assumes "en_literal lit t ix"
  shows "coincide lit (Suc ix) c sigue fin no = no \<or>
    (coincide lit (Suc ix) c sigue fin no = fin \<and> t @ [c] = lit) \<or>
    (coincide lit (Suc ix) c sigue fin no = sigue \<and> en_literal lit (t @ [c]) (Suc ix))"
proof -
  have l: "Suc ix < length lit" "length t = Suc ix" "t = take (Suc ix) lit" using assms by (auto simp: en_literal_def)
  have "t @ [lit ! Suc ix] = take (Suc (Suc ix)) lit" unfolding l(3) using l(1) by (rule take_Suc_conv_app_nth [symmetric])
  moreover have "take (Suc (Suc ix)) lit = lit" if "Suc ix = length lit - 1" using that l(1) by simp
  ultimately show ?thesis
    using l by (cases "c = lit ! Suc ix"; cases "Suc ix = length lit - 1")
      (auto simp: coincide_def car_c_def nth_append en_literal_def)
qed

lemma en_literal_32: "en_literal lit t ix \<Longrightarrow> length lit < 32 \<Longrightarrow> (ix + 1) mod 32 = Suc ix"
  by (simp add: en_literal_def)

lemma nombre_ex:
  "(\<exists>h' ix'. (p :: 'c parser)\<lparr>index := a, header_state := b\<rparr> = p\<lparr>index := ix', header_state := h'\<rparr> \<and> P h' ix') \<longleftrightarrow> P b a"
proof -
  have "b = h' \<and> a = ix'" if "p\<lparr>index := a, header_state := b\<rparr> = p\<lparr>index := ix', header_state := h'\<rparr>" for h' ix'
    using arg_cong [OF that, of index] arg_cong [OF that, of header_state] by simp
  then show ?thesis by blast
qed

lemma campo_char_nombreI:
  "campo_char ch q = Some (p\<lparr>index := ix', header_state := h'\<rparr>) \<Longrightarrow> nombre_en t h' ix' \<Longrightarrow>
   \<exists>h' ix'. campo_char ch q = Some (p\<lparr>index := ix', header_state := h'\<rparr>) \<and> nombre_en t h' ix'"
  by blast

lemma campo_char_nombre:
  fixes p :: "'c parser"
  assumes "nombre_en t h ix" "CROW_TOKEN ch \<noteq> nul" "t @ [CROW_TOKEN ch] \<noteq> ''transfer-encoding''"
  shows "\<exists>h' ix'. campo_char ch (p\<lparr>index := ix, header_state := h\<rparr>) = Some (p\<lparr>index := ix', header_state := h'\<rparr>) \<and>
    nombre_en (t @ [CROW_TOKEN ch]) h' ix'"
proof -
  have ch: "ch \<noteq> CHR '' ''" using assms(2) no_token(3) by metis
  show ?thesis
  proof (cases h)
    case h_matching_connection
    then have l: "en_literal ''connection'' t ix" using assms(1) by simp
    note i = en_literal_32 [OF l, simplified]
    show ?thesis using coincide_literal [OF l, of "CROW_TOKEN ch" h_matching_connection h_connection h_general]
      by (elim disjE conjE) (rule campo_char_nombreI, simp add: campo_char_def avanza_def Let_def h_matching_connection i, simp)+
  next
    case h_matching_proxy_connection
    then have l: "en_literal ''proxy-connection'' t ix" using assms(1) by simp
    note i = en_literal_32 [OF l, simplified]
    show ?thesis using coincide_literal [OF l, of "CROW_TOKEN ch" h_matching_proxy_connection h_connection h_general]
      by (elim disjE conjE) (rule campo_char_nombreI, simp add: campo_char_def avanza_def Let_def h_matching_proxy_connection i, simp)+
  next
    case h_matching_content_length
    then have l: "en_literal ''content-length'' t ix" using assms(1) by simp
    note i = en_literal_32 [OF l, simplified]
    show ?thesis using coincide_literal [OF l, of "CROW_TOKEN ch" h_matching_content_length h_content_length h_general]
      by (elim disjE conjE) (rule campo_char_nombreI, simp add: campo_char_def avanza_def Let_def h_matching_content_length i, simp)+
  next
    case h_matching_transfer_encoding
    then have l: "en_literal ''transfer-encoding'' t ix" using assms(1) by simp
    note i = en_literal_32 [OF l, simplified]
    show ?thesis using coincide_literal [OF l, of "CROW_TOKEN ch" h_matching_transfer_encoding h_transfer_encoding h_general] assms(3)
      by (elim disjE conjE) (rule campo_char_nombreI, simp add: campo_char_def avanza_def Let_def h_matching_transfer_encoding i, simp)+
  next
    case h_matching_upgrade
    then have l: "en_literal ''upgrade'' t ix" using assms(1) by simp
    note i = en_literal_32 [OF l, simplified]
    show ?thesis using coincide_literal [OF l, of "CROW_TOKEN ch" h_matching_upgrade h_upgrade h_general]
      by (elim disjE conjE) (rule campo_char_nombreI, simp add: campo_char_def avanza_def Let_def h_matching_upgrade i, simp)+
  qed (use assms(1) ch in \<open>auto simp: campo_char_def avanza_def Let_def en_literal_def nombre_ex\<close>)
qed

lemma lee_campo_nombre:
  fixes p :: "'c parser"
  assumes "nombre_en t h ix" "list_all (\<lambda>c. CROW_TOKEN c \<noteq> nul) w" "CROW_TOKEN c = nul"
    and "take 17 (t @ map CROW_TOKEN w) \<noteq> ''transfer-encoding''"
  shows "\<exists>h' ix'. lee_campo (w @ c # r) i (p\<lparr>index := ix, header_state := h\<rparr>) =
      (True, i + length w, p\<lparr>index := ix', header_state := h'\<rparr>) \<and> nombre_en (t @ map CROW_TOKEN w) h' ix'"
  using assms
proof (induction w arbitrary: t h ix i)
  case (Cons ch w)
  have "t @ [CROW_TOKEN ch] \<noteq> ''transfer-encoding''"
  proof
    assume a: "t @ [CROW_TOKEN ch] = ''transfer-encoding''"
    then have "length (t @ [CROW_TOKEN ch]) = 17" by simp
    then have "take 17 ((t @ [CROW_TOKEN ch]) @ map CROW_TOKEN w) = t @ [CROW_TOKEN ch]" by simp
    then show False using Cons.prems(4) a by simp
  qed
  with Cons.prems obtain h' ix' where 1: "campo_char ch (p\<lparr>index := ix, header_state := h\<rparr>) = Some (p\<lparr>index := ix', header_state := h'\<rparr>)"
    "nombre_en (t @ [CROW_TOKEN ch]) h' ix'" using campo_char_nombre [of t h ix ch p] by auto
  have "lee_campo ((ch # w) @ c # r) i (p\<lparr>index := ix, header_state := h\<rparr>) =
      lee_campo (w @ c # r) (Suc i) (p\<lparr>index := ix', header_state := h'\<rparr>)" using Cons.prems(2) 1(1) by simp
  then show ?case using Cons.IH [OF 1(2), of "Suc i"] Cons.prems by simp
qed (auto simp: nombre_ex)

lemma nombre_en_general:
  assumes "nombre_general k" "nombre_en (map CROW_TOKEN k) h ix"
  shows "h \<in> {h_general, h_C, h_CO, h_CON, h_matching_connection, h_matching_proxy_connection, h_matching_content_length,
    h_matching_transfer_encoding, h_matching_upgrade}"
  using assms by (cases h) (auto simp: nombre_general_def)

lemma lee_valor_general:
  "list_all (\<lambda>c. CROW_IS_HEADER_CHAR c \<and> c \<noteq> cr \<and> c \<noteq> lf) w \<Longrightarrow> lee_valor (w @ cr # r) i h_general p = (Fin_cr, i + length w, h_general, p)"
  by (induction w arbitrary: i) (auto simp: valor_char_def)

definition cabeceras_de :: "'c parser \<Rightarrow> ci_map" where
  "cabeceras_de p = req_headers (req p) @ (if header_field p = [] then [] else [(header_field p, header_value p)])"

definition linea_leida :: "header_states \<Rightarrow> nat \<Rightarrow> string \<Rightarrow> string \<Rightarrow> 'c parser \<Rightarrow> 'c parser" where
  "linea_leida h ix k v p =
     p\<lparr>pstate := s_header_value_lws, header_state := h, index := ix, req := (req p)\<lparr>req_headers := cabeceras_de p\<rparr>,
       header_field := k, header_value := v, header_building_state := False\<rparr>"

text \<open>Between lines a field and its value are both there or neither is.\<close>

definition entre_lineas :: "'c parser \<Rightarrow> bool" where
  "entre_lineas p \<longleftrightarrow> \<not> header_building_state p \<and> (header_field p = [] \<longleftrightarrow> header_value p = [])"

lemma linea_tras:
  assumes "entre_lineas p" "empieza_linea p p'"
  shows "tras_valor v h2 (tras_nombre k h ix p'\<lparr>pstate := s, header_state := h1, index := ix2, flags := fl, content_length := cl\<rparr>) =
    linea_leida h2 ix2 k v p\<lparr>flags := fl, content_length := cl\<rparr>"
  using assms
  by (cases p) (auto simp: tras_valor_def tras_nombre_def linea_leida_def on_header_value_def on_header_field_def
      entre_lineas_def empieza_linea_def ci_emplace_def cabeceras_de_def Let_def)

definition linea :: "string \<times> string \<Rightarrow> string" where
  "linea kv = fst kv @ '': '' @ snd kv @ [cr, lf]"

lemma empieza_linea_leida:
  "h \<notin> {h_connection_keep_alive, h_connection_close, h_transfer_encoding_chunked} \<Longrightarrow>
   empieza_linea (linea_leida h ix k v p) (linea_leida h ix k v p\<lparr>pstate := s_header_field_start\<rparr>)"
  by (simp add: empieza_linea_def linea_leida_def)

lemma corre_linea:
  assumes "empieza_linea p p'" "drop i data = linea (k, v) @ r" "nombre_general k" "valor_campo v" "entre_lineas p"
    and "p_errno p = CHPE_OK" "mk header_field_mark = None" "mk header_value_mark = None"
    and "n + length (linea (k, v)) < max_header_size"
  shows "corre m dir data False (en p i n mk) False
    (en (linea_leida h_general 0 k v p) (i + length (linea (k, v))) (n + length (linea (k, v))) mk)"
proof -
  obtain c w where k: "k = c # w" "list_all (\<lambda>c. CROW_TOKEN c \<noteq> nul) w"
    using assms(3) by (cases k) (auto simp: nombre_general_def nombre_campo_def)
  have t17: "take 17 ([CROW_TOKEN c] @ map CROW_TOKEN w) \<noteq> ''transfer-encoding''" using assms(3) k(1) by (simp add: nombre_general_def)
  have orden: "p'\<lparr>pstate := s, index := a, header_state := b\<rparr> = p'\<lparr>index := a, pstate := s, header_state := b\<rparr>" for s a b
    by (cases p') simp
  from lee_campo_nombre [OF nombre_en_inicial k(2) no_token(5) t17, of "CHR '' '' # v @ [cr, lf] @ r" "Suc i" "p'\<lparr>pstate := s_header_field\<rparr>", unfolded orden]
  obtain h ix where lc: "lee_campo (w @ CHR '':'' # CHR '' '' # v @ [cr, lf] @ r) (Suc i)
      (p'\<lparr>index := 0, pstate := s_header_field, header_state := cabecera_inicial (CROW_TOKEN c)\<rparr>) =
      (True, Suc i + length w, p'\<lparr>index := ix, pstate := s_header_field, header_state := h\<rparr>)"
    and "nombre_en (map CROW_TOKEN k) h ix" using k(1) by auto
  then have h: "h \<in> {h_general, h_C, h_CO, h_CON, h_matching_connection, h_matching_proxy_connection, h_matching_content_length,
    h_matching_transfer_encoding, h_matching_upgrade}" using nombre_en_general [OF assms(3)] by blast
  define p1 where "p1 = tras_nombre k h ix p'"
  define p2 where "p2 = p1\<lparr>pstate := s_header_value, header_state := h_general, index := 0\<rparr>"
  have d: "drop i data = k @ CHR '':'' # (CHR '' '' # v @ [cr, lf] @ r)" using assms(2) by (simp add: linea_def)
  have n: "nombre_campo k" using assms(3) by (simp add: nombre_general_def)
  have e': "p_errno p' = CHPE_OK" using assms(1,6) by (auto simp: empieza_linea_def)
  have 1: "corre m dir data False (en p i n mk) False (en p1 (i + length k + 1) (n + length k + 1) mk)"
    unfolding p1_def
  proof (rule corre_campo)
    show "n + length k < max_header_size" using assms(9) by (simp add: linea_def)
    show "lee_campo (tl k @ CHR '':'' # CHR '' '' # v @ [cr, lf] @ r) (Suc i)
      (p'\<lparr>index := 0, pstate := s_header_field, header_state := cabecera_inicial (CROW_TOKEN (hd k))\<rparr>) =
      (True, i + length k, p'\<lparr>index := ix, pstate := s_header_field, header_state := h\<rparr>)"
      using lc k(1) by simp
  qed (use assms d n in simp_all)
  have d1: "drop (i + length k + 1) data = CHR '' '' # v @ [cr, lf] @ r"
    using queda(4) [OF sigue_tras [OF d]] by simp
  have 2: "corre m dir data False (en p1 (i + length k + 1) (n + length k + 1) mk) False
      (en (tras_valor v h_general p2) (i + length k + 1 + length v + 3) (n + length k + 1 + length v + 3) mk)"
  proof (rule corre_valor [OF d1 assms(4)])
    show "n + length k + 1 + length v + 3 < max_header_size" using assms(9) by (simp add: linea_def)
    show "paso_header_value_start (hd v) (en p1 j ka mk) = (Sigue, en p2 j ka (mk(header_value_mark \<mapsto> j)))" for j ka
      using assms(8) h by (auto simp: paso_header_value_start_def CROW_MARK_def p1_def p2_def tras_nombre_def a_cabecera_def en_parser_def Let_def)
    have t: "list_all (\<lambda>c. CROW_IS_HEADER_CHAR c \<and> c \<noteq> cr \<and> c \<noteq> lf) (tl v)" and "v \<noteq> []"
      using assms(4) by (cases v; simp add: valor_campo_def)+
    then show "lee_valor (tl v @ [cr, lf] @ r) (i + length k + 1 + 2) (header_state p2) p2 =
        (Fin_cr, i + length k + 1 + 1 + length v, h_general, p2)"
      using t by (cases v) (simp_all add: p2_def lee_valor_general)
  qed (use assms(8) e' in \<open>simp_all add: p1_def p2_def tras_nombre_def\<close>)
  have "p2 = p1\<lparr>pstate := s_header_value, header_state := h_general, index := 0, flags := flags p, content_length := content_length p\<rparr>"
    using assms(1) by (auto simp: p2_def p1_def tras_nombre_def on_header_field_def Let_def empieza_linea_def)
  then have "tras_valor v h_general p2 = linea_leida h_general 0 k v p\<lparr>flags := flags p, content_length := content_length p\<rparr>"
    using linea_tras [OF assms(5,1)] by (simp add: p1_def)
  then have "tras_valor v h_general p2 = linea_leida h_general 0 k v p"
    by (simp add: linea_leida_def)
  moreover have "i + length k + 1 + length v + 3 = i + length (linea (k, v))" "n + length k + 1 + length v + 3 = n + length (linea (k, v))"
    by (simp_all add: linea_def)
  ultimately show ?thesis using corre_trans [OF 1 2] by (simp only:)
qed

text \<open>All the lines.\<close>

fun tras_lineas :: "'c parser \<Rightarrow> (string \<times> string) list \<Rightarrow> 'c parser" where
  "tras_lineas p [] = p"
| "tras_lineas p ((k, v) # hs) = tras_lineas (linea_leida h_general 0 k v p) hs"

definition cabeceras_ok :: "(string \<times> string) list \<Rightarrow> bool" where
  "cabeceras_ok hs \<longleftrightarrow> list_all (\<lambda>(k, v). nombre_general k \<and> valor_campo v) hs"

text \<open>The parser without what a header changes.\<close>

definition sin_cabeceras :: "'c parser \<Rightarrow> 'c parser" where
  "sin_cabeceras p =
     p\<lparr>pstate := s_dead, header_state := h_general, index := 0, header_field := [], header_value := [],
       header_building_state := False, req := (req p)\<lparr>req_headers := []\<rparr>\<rparr>"

lemma sin_cabeceras_fields:
  assumes "sin_cabeceras q = sin_cabeceras p"
  shows "flags q = flags p" "uses_transfer_encoding q = uses_transfer_encoding p" "content_length q = content_length p"
    "p_method q = p_method p" "p_errno q = p_errno p" "http_major q = http_major p" "http_minor q = http_minor p"
    "message_complete q = message_complete p" "conexion q = conexion p" "lenient_http_headers q = lenient_http_headers p"
    "(req q)\<lparr>req_headers := hs\<rparr> = (req p)\<lparr>req_headers := hs\<rparr>"
proof -
  show "flags q = flags p" using arg_cong [OF assms, of flags] by (simp add: sin_cabeceras_def)
  show "uses_transfer_encoding q = uses_transfer_encoding p" using arg_cong [OF assms, of uses_transfer_encoding] by (simp add: sin_cabeceras_def)
  show "content_length q = content_length p" using arg_cong [OF assms, of content_length] by (simp add: sin_cabeceras_def)
  show "p_method q = p_method p" using arg_cong [OF assms, of p_method] by (simp add: sin_cabeceras_def)
  show "p_errno q = p_errno p" using arg_cong [OF assms, of p_errno] by (simp add: sin_cabeceras_def)
  show "http_major q = http_major p" using arg_cong [OF assms, of http_major] by (simp add: sin_cabeceras_def)
  show "http_minor q = http_minor p" using arg_cong [OF assms, of http_minor] by (simp add: sin_cabeceras_def)
  show "message_complete q = message_complete p" using arg_cong [OF assms, of message_complete] by (simp add: sin_cabeceras_def)
  show "conexion q = conexion p" using arg_cong [OF assms, of conexion] by (simp add: sin_cabeceras_def)
  show "lenient_http_headers q = lenient_http_headers p" using arg_cong [OF assms, of lenient_http_headers] by (simp add: sin_cabeceras_def)
  have "(req q)\<lparr>req_headers := []\<rparr> = (req p)\<lparr>req_headers := []\<rparr>"
    using arg_cong [OF assms, of req] by (simp add: sin_cabeceras_def)
  then have "(req q)\<lparr>req_headers := []\<rparr>\<lparr>req_headers := hs\<rparr> = (req p)\<lparr>req_headers := []\<rparr>\<lparr>req_headers := hs\<rparr>" by simp
  then show "(req q)\<lparr>req_headers := hs\<rparr> = (req p)\<lparr>req_headers := hs\<rparr>" by simp
qed

lemma linea_leida_props:
  assumes "k \<noteq> []" "v \<noteq> []"
  shows "entre_lineas (linea_leida h ix k v p)" "cabeceras_de (linea_leida h ix k v p) = cabeceras_de p @ [(k, v)]"
    "sin_cabeceras (linea_leida h ix k v p) = sin_cabeceras p"
  using assms by (simp_all add: linea_leida_def entre_lineas_def cabeceras_de_def sin_cabeceras_def)

lemma corre_cabeceras:
  assumes "empieza_linea p p'" "drop i data = concat (map linea hs) @ r" "cabeceras_ok hs" "entre_lineas p" "p_errno p = CHPE_OK"
    and "mk header_field_mark = None" "mk header_value_mark = None" "n + length (concat (map linea hs)) < max_header_size"
  shows "\<exists>q'. corre m dir data False (en p i n mk) False
      (en (tras_lineas p hs) (i + length (concat (map linea hs))) (n + length (concat (map linea hs))) mk) \<and>
    empieza_linea (tras_lineas p hs) q' \<and> entre_lineas (tras_lineas p hs) \<and>
    cabeceras_de (tras_lineas p hs) = cabeceras_de p @ hs \<and> sin_cabeceras (tras_lineas p hs) = sin_cabeceras p"
  using assms
proof (induction hs arbitrary: p p' i n)
  case Nil
  then show ?case by auto
next
  case (Cons kv hs)
  obtain k v where kv: "kv = (k, v)" by (cases kv)
  have k: "nombre_general k" "valor_campo v" "k \<noteq> []" "v \<noteq> []"
    using Cons.prems(3) kv by (auto simp: cabeceras_ok_def nombre_general_def nombre_campo_def valor_campo_def)
  let ?L = "length (linea (k, v))" and ?q = "linea_leida h_general 0 k v p"
  have d: "drop i data = linea (k, v) @ (concat (map linea hs) @ r)" using Cons.prems(2) kv by simp
  have "corre m dir data False (en p i n mk) False (en ?q (i + ?L) (n + ?L) mk)"
    using Cons.prems kv k by (intro corre_linea [OF _ d]) auto
  moreover have "drop (i + ?L) data = concat (map linea hs) @ r"
    using d by (rule sigue_tras)
  then have "\<exists>q'. corre m dir data False (en ?q (i + ?L) (n + ?L) mk) False
      (en (tras_lineas ?q hs) (i + ?L + length (concat (map linea hs))) (n + ?L + length (concat (map linea hs))) mk) \<and>
    empieza_linea (tras_lineas ?q hs) q' \<and> entre_lineas (tras_lineas ?q hs) \<and>
    cabeceras_de (tras_lineas ?q hs) = cabeceras_de ?q @ hs \<and> sin_cabeceras (tras_lineas ?q hs) = sin_cabeceras ?q"
    using Cons.prems kv k empieza_linea_leida [of h_general 0 k v p] linea_leida_props [OF k(3,4)]
    by (intro Cons.IH) (auto simp: cabeceras_ok_def linea_leida_def)
  ultimately show ?case
    using kv linea_leida_props [OF k(3,4), of h_general 0 p] by (auto simp: add.assoc intro: corre_trans)
qed

subsection \<open>The length of the body\<close>

lemma token_longitud:
  "CROW_TOKEN (CHR ''C'') = CHR ''c''" "CROW_TOKEN (CHR ''L'') = CHR ''l''"
  "CROW_TOKEN (CHR ''o'') = CHR ''o''" "CROW_TOKEN (CHR ''n'') = CHR ''n''" "CROW_TOKEN (CHR ''t'') = CHR ''t''"
  "CROW_TOKEN (CHR ''e'') = CHR ''e''" "CROW_TOKEN (CHR ''-'') = CHR ''-''" "CROW_TOKEN (CHR ''g'') = CHR ''g''"
  "CROW_TOKEN (CHR ''h'') = CHR ''h''"
  by (simp_all add: CROW_TOKEN_def tokens_def Let_def nth_append)

lemma lee_campo_longitud:
  "header_state p = h_C \<Longrightarrow> index p = 0 \<Longrightarrow>
   lee_campo (''ontent-Length'' @ CHR '':'' # r) i p = (True, i + 13, p\<lparr>index := 13, header_state := h_content_length\<rparr>)"
  by (simp add: token_longitud no_token campo_char_def avanza_def coincide_def car_c_def Let_def)

lemma es_digito_num: "CROW_IS_NUM c \<longleftrightarrow> es_digito c"
  by (simp add: CROW_IS_NUM_def es_digito_def less_eq_char_def)

lemma es_digitoD: "es_digito c \<Longrightarrow> CROW_IS_HEADER_CHAR c \<and> c \<noteq> cr \<and> c \<noteq> lf \<and> c \<noteq> CHR '' '' \<and> c \<noteq> ht \<and> c \<noteq> nul"
  by (auto simp: es_digito_def CROW_IS_HEADER_CHAR_def less_char_def)

lemma foldl_decimal_le: "x \<le> foldl (\<lambda>n c. 10 * n + digito c) x ds"
proof (induction ds arbitrary: x)
  case (Cons c ds)
  have "x \<le> 10 * x + digito c" by simp
  also have "\<dots> \<le> foldl (\<lambda>n c. 10 * n + digito c) (10 * x + digito c) ds" by (rule Cons)
  finally show ?case by simp
qed simp

lemma no_desborda:
  assumes "x < 2 ^ 59"
  shows "\<not> (CROW_ULLONG_MAX - 10) div 10 < (of_nat x :: 64 word)"
proof -
  have "unat (of_nat x :: 64 word) = x" using assms by (simp add: unat_of_nat take_bit_nat_eq_self_iff)
  moreover have "unat ((CROW_ULLONG_MAX - 10) div 10) = (2 ^ 64 - 11) div 10"
    unfolding unat_div by (subst unat_sub) (simp_all add: word_le_nat_alt unat_max)
  ultimately show ?thesis using assms by (simp add: word_less_nat_alt)
qed

lemma lee_valor_digitos:
  assumes "list_all es_digito ds" "foldl (\<lambda>n c. 10 * n + digito c) x ds < 2 ^ 59" "content_length p = of_nat x"
  shows "lee_valor (ds @ cr # r) i h_content_length_num p =
    (Fin_cr, i + length ds, h_content_length_num, p\<lparr>content_length := of_nat (foldl (\<lambda>n c. 10 * n + digito c) x ds)\<rparr>)"
  using assms
proof (induction ds arbitrary: x i p)
  case (Cons c ds)
  define y where "y = 10 * x + digito c"
  have "x \<le> y" "y \<le> foldl (\<lambda>n c. 10 * n + digito c) y ds" by (simp_all add: y_def foldl_decimal_le)
  then have x: "x < 2 ^ 59" using Cons.prems(2) by (simp add: y_def)
  have c: "es_digito c" using Cons.prems(1) by simp
  have "valor_char c h_content_length_num p = V_sigue h_content_length_num (p\<lparr>content_length := of_nat y\<rparr>)"
    using c es_digitoD [OF c] no_desborda [OF x] Cons.prems(3)
    by (simp add: valor_char_def valor_digito_def es_digito_num Let_def y_def digito_def algebra_simps)
  then show ?case
    using Cons.IH [of y "p\<lparr>content_length := of_nat y\<rparr>" "Suc i"] Cons.prems es_digitoD [OF c] by (simp add: y_def)
qed (cases p, simp)

lemma corre_longitud:
  assumes "empieza_linea p p'" "drop i data = linea (''Content-Length'', decimal N) @ r" "entre_lineas p"
    and "p_errno p = CHPE_OK" "mk header_field_mark = None" "mk header_value_mark = None" "F_CONTENTLENGTH \<notin> flags p" "N < 2 ^ 59"
    and "n + length (linea (''Content-Length'', decimal N)) < max_header_size"
  shows "corre m dir data False (en p i n mk) False
    (en (linea_leida h_content_length_num 0 ''Content-Length'' (decimal N) p
          \<lparr>flags := insert F_CONTENTLENGTH (flags p), content_length := of_nat N\<rparr>)
       (i + length (linea (''Content-Length'', decimal N))) (n + length (linea (''Content-Length'', decimal N))) mk)"
proof -
  define k where "k = ''Content-Length''"
  define v where "v = decimal N"
  obtain c ds where v': "v = c # ds" using decimal_no_vacio [of N] by (cases v) (auto simp: v_def)
  have dig: "es_digito c" "list_all es_digito ds" using decimal_digitos [of N] v' by (simp_all add: v_def)
  have val: "foldl (\<lambda>n c. 10 * n + digito c) (digito c) ds = N"
    using valor_decimal_decimal [of N] v' by (simp add: v_def [symmetric] valor_decimal_def)
  have vc: "valor_campo v"
    using dig es_digitoD v' by (auto simp: valor_campo_def list_all_iff)
  have e': "p_errno p' = CHPE_OK" "flags p' = flags p" "content_length p' = content_length p" using assms(1,4) by (auto simp: empieza_linea_def)
  define p1 where "p1 = tras_nombre k h_content_length 13 p'"
  define p2 where "p2 = p1\<lparr>pstate := s_header_value, header_state := h_content_length_num, index := 0,
      flags := insert F_CONTENTLENGTH (flags p), content_length := of_nat (digito c)\<rparr>"
  have fp1: "flags p1 = flags p" "header_state p1 = h_content_length"
    using e' by (simp_all add: p1_def tras_nombre_def on_header_field_def Let_def)
  have lk: "length k = 14" "hd k = CHR ''C''" "tl k = ''ontent-Length''" by (simp_all add: k_def)
  have d: "drop i data = k @ CHR '':'' # (CHR '' '' # v @ [cr, lf] @ r)" using assms(2) by (simp add: linea_def k_def v_def)
  have L: "length (linea (k, v)) = 14 + length v + 4" by (simp add: linea_def lk)
  have 1: "corre m dir data False (en p i n mk) False (en p1 (i + length k + 1) (n + length k + 1) mk)"
    unfolding p1_def
  proof (rule corre_campo)
    show "n + length k < max_header_size" using assms(9) L by (simp add: k_def v_def)
    show "nombre_campo k" by (simp add: k_def nombre_campo_def token_longitud)
    show "lee_campo (tl k @ CHR '':'' # CHR '' '' # v @ [cr, lf] @ r) (Suc i)
      (p'\<lparr>index := 0, pstate := s_header_field, header_state := cabecera_inicial (CROW_TOKEN (hd k))\<rparr>) =
      (True, i + length k, p'\<lparr>index := 13, pstate := s_header_field, header_state := h_content_length\<rparr>)"
      unfolding lk by (subst lee_campo_longitud) (simp_all add: token_longitud cabecera_inicial_def)
  qed (use assms d in simp_all)
  have d1: "drop (i + length k + 1) data = CHR '' '' # v @ [cr, lf] @ r"
    using queda(4) [OF sigue_tras [OF d]] by simp
  have 2: "corre m dir data False (en p1 (i + length k + 1) (n + length k + 1) mk) False
      (en (tras_valor v h_content_length_num (p2\<lparr>content_length := of_nat N\<rparr>)) (i + length k + 1 + length v + 3) (n + length k + 1 + length v + 3) mk)"
  proof (rule corre_valor [OF d1 vc])
    show "n + length k + 1 + length v + 3 < max_header_size" using assms(9) L lk by (simp add: k_def v_def)
    show "paso_header_value_start (hd v) (en p1 j ka mk) = (Sigue, en p2 j ka (mk(header_value_mark \<mapsto> j)))" for j ka
      using assms(6,7) fp1 dig v'
      by (simp add: paso_header_value_start_def CROW_MARK_def es_digito_num p2_def a_cabecera_def en_parser_def Let_def digito_def)
    show "lee_valor (tl v @ [cr, lf] @ r) (i + length k + 1 + 2) (header_state p2) p2 =
        (Fin_cr, i + length k + 1 + 1 + length v, h_content_length_num, p2\<lparr>content_length := of_nat N\<rparr>)"
      using lee_valor_digitos [OF dig(2), of "digito c" p2 "lf # r" "i + length k + 1 + 2"] assms(8) v' val
      by (simp add: p2_def)
  qed (use assms(6) e' in \<open>simp_all add: p1_def p2_def tras_nombre_def\<close>)
  have "tras_valor v h_content_length_num (p2\<lparr>content_length := of_nat N\<rparr>) =
      linea_leida h_content_length_num 0 k v p\<lparr>flags := insert F_CONTENTLENGTH (flags p), content_length := of_nat N\<rparr>"
    using linea_tras [OF assms(3,1), where v = v and ?h2.0 = h_content_length_num and k = k and h = h_content_length and ix = 13
        and s = s_header_value and ?h1.0 = h_content_length_num and ?ix2.0 = 0]
    by (simp add: p2_def p1_def)
  moreover have "i + length k + 1 + length v + 3 = i + length (linea (k, v))" "n + length k + 1 + length v + 3 = n + length (linea (k, v))"
    using L lk by simp_all
  ultimately show ?thesis using corre_trans [OF 1 2] by (simp only: k_def v_def)
qed

subsection \<open>The end of the headers\<close>

text \<open>The request as the handler of the message gets it, and its text.\<close>

definition longitud :: "string \<Rightarrow> (string \<times> string) list" where
  "longitud b = (if b = [] then [] else [(''Content-Length'', decimal (length b))])"

definition linea_peticion :: "HTTPMethod \<Rightarrow> string \<Rightarrow> string" where
  "linea_peticion mt u = method_name mt @ '' '' @ u @ '' HTTP/1.1'' @ [cr, lf]"

definition texto_peticion :: "HTTPMethod \<Rightarrow> string \<Rightarrow> (string \<times> string) list \<Rightarrow> string \<Rightarrow> string" where
  "texto_peticion mt u hs b =
     linea_peticion mt u @ concat (map linea (hs @ longitud b)) @ [cr, lf] @ b"

definition peticion_leida :: "HTTPMethod \<Rightarrow> string \<Rightarrow> (string \<times> string) list \<Rightarrow> string \<Rightarrow> request" where
  "peticion_leida mt u hs b =
     \<lparr>req_method = mt, raw_url = u, url = sin_consulta u, req_headers = hs @ longitud b, req_body = b,
      remote_ip_address = [], http_ver_major = 1, http_ver_minor = 1, keep_alive = True, close_connection = False,
      req_upgrade = False\<rparr>"

definition peticion_ok :: "HTTPMethod \<Rightarrow> string \<Rightarrow> (string \<times> string) list \<Rightarrow> string \<Rightarrow> bool" where
  "peticion_ok mt u hs b \<longleftrightarrow>
     mt \<noteq> InternalMethodCount \<and> mt \<noteq> Connect \<and> url_ok u \<and> cabeceras_ok hs \<and> nul \<notin> set b"

lemma corre_fin:
  assumes "empieza_linea p p'" "drop i data = cr # lf # r" "entre_lineas p" "p_errno p = CHPE_OK" "n + 2 < max_header_size"
    and "flags p \<subseteq> {F_CONTENTLENGTH}" "\<not> uses_transfer_encoding p" "p_method p \<noteq> Connect" "http_major p = 1" "http_minor p = 1"
    and h: "\<And>q. req q = (req p)\<lparr>req_headers := cabeceras_de p, http_ver_major := 1, http_ver_minor := 1, keep_alive := True,
            close_connection := False, req_upgrade := False\<rparr> \<Longrightarrow> conexion q = conexion p \<Longrightarrow> handle_header m q = q"
  shows "\<exists>q. corre m dir data False (en p i n mk) True (en q (Suc i) (Suc (Suc n)) mk) \<and> pstate q = s_headers_done \<and>
    req q = (req p)\<lparr>req_headers := cabeceras_de p, http_ver_major := 1, http_ver_minor := 1, keep_alive := True,
      close_connection := False, req_upgrade := False\<rparr> \<and>
    flags q = flags p \<and> \<not> uses_transfer_encoding q \<and> content_length q = content_length p \<and> \<not> upgrade q \<and>
    p_errno q = CHPE_OK \<and> conexion q = conexion p"
proof -
  have p': "pstate p' = s_header_field_start" "p_errno p' = CHPE_OK" "flags p' = flags p" "uses_transfer_encoding p' = uses_transfer_encoding p"
    "p_method p' = p_method p" "http_major p' = 1" "http_minor p' = 1" "req p' = req p" "header_field p' = header_field p"
    "header_value p' = header_value p" "conexion p' = conexion p" "content_length p' = content_length p"
    using assms(1,4,9,10) by (auto simp: empieza_linea_def)
  define p1 where "p1 = p'\<lparr>pstate := s_headers_almost_done\<rparr>"
  have "paso_estado m dir data (en p' i (Suc n) mk) = (Sigue, en p1 i (Suc n) mk)"
    using p' queda [OF assms(2)] by (simp add: paso_estado_def paso_header_field_start_def a_estado_def en_parser_def p1_def)
  then have 1: "corre m dir data False (en p i n mk) False (en p1 (Suc i) (Suc n) mk)"
    using corre_empieza [OF assms(1,2)] assms(5) by simp
  define p2 where "p2 = p1\<lparr>pstate := s_headers_done, upgrade := False\<rparr>"
  define p3 where "p3 = (if header_field p2 \<noteq> []
      then p2\<lparr>req := (req p2)\<lparr>req_headers := ci_emplace (header_field p2) (header_value p2) (req_headers (req p2))\<rparr>,
              header_field := [], header_value := []\<rparr> else p2)"
  define q where "q = set_connection_parameters p3"
  have p3: "req p3 = (req p)\<lparr>req_headers := cabeceras_de p\<rparr>" "flags p3 = flags p" "http_major p3 = 1" "http_minor p3 = 1"
    "upgrade p3 = False" "conexion p3 = conexion p" "p_errno p3 = CHPE_OK" "content_length p3 = content_length p" "pstate p3 = s_headers_done"
    "uses_transfer_encoding p3 = uses_transfer_encoding p"
    using p' by (simp_all add: p3_def p2_def p1_def cabeceras_de_def ci_emplace_def)
  have fl: "F_CONNECTION_CLOSE \<notin> flags p" "F_CONNECTION_KEEP_ALIVE \<notin> flags p" "F_UPGRADE \<notin> flags p" "F_TRAILING \<notin> flags p"
    using assms(6) by auto
  have q: "req q = (req p)\<lparr>req_headers := cabeceras_de p, http_ver_major := 1, http_ver_minor := 1, keep_alive := True,
      close_connection := False, req_upgrade := False\<rparr>" "conexion q = conexion p" "flags q = flags p" "p_errno q = CHPE_OK"
    "content_length q = content_length p" "pstate q = s_headers_done" "upgrade q = False" "uses_transfer_encoding q = uses_transfer_encoding p"
    using p3 fl by (simp_all add: q_def set_connection_parameters_def Let_def)
  have oh: "on_headers_complete m p2 = q"
    using h [OF q(1,2)] by (simp add: on_headers_complete_def p3_def [symmetric] q_def [symmetric] Let_def)
  note d1 = queda(4) [OF assms(2)]
  have "paso_estado m dir data (en p1 (Suc i) (Suc (Suc n)) mk) = (Reejecuta, en q (Suc i) (Suc (Suc n)) mk)"
    using queda [OF d1] p' fl assms(7,8) oh q
    by (simp add: paso_estado_def paso_headers_almost_done_def CROW_STRICT_CHECK_def en_parser_def p1_def p2_def Let_def)
  moreover have "cuenta (en p1 (Suc i) (Suc n) mk) = (Sigue, en p1 (Suc i) (Suc (Suc n)) mk)"
    using assms(5) by (intro cuenta_en) (simp_all add: p1_def estados_cuerpo_def)
  ultimately have "corre m dir data False (en p1 (Suc i) (Suc n) mk) True (en q (Suc i) (Suc (Suc n)) mk)"
    using queda [OF d1] by (intro corre_reejecuta) simp_all
  then show ?thesis using corre_trans [OF 1] q assms(7) by blast
qed

subsection \<open>The message\<close>

definition marcas_libres :: "(marca \<Rightarrow> nat option) \<Rightarrow> bool" where
  "marcas_libres mk \<longleftrightarrow> (\<forall>k. k \<noteq> url_start_mark \<longrightarrow> mk k = None)"

context conexion_http
begin

lemma message_errno: "p_errno (handle m p) = p_errno p"
  using message_law [of p] by (simp add: respeta_def)

lemma epilogo_libre:
  assumes "marcas_libres mk" "p_errno p = CHPE_OK"
  shows "epilogo m data (en p i n mk) = Devuelve (length data) (p\<lparr>nread := n\<rparr>)"
  using assms
  by (simp add: epilogo_def marcas_puestas_def marcas_libres_def afirma_def CROW_CALLBACK_DATA_NOADVANCE_def
      CROW_CALLBACK_DATA_ER_def termina_ejec_def)

lemma notifica:
  assumes "p_errno p = CHPE_OK"
  shows "CROW_CALLBACK_NOTIFY_ER (on_message_complete (handle m)) k (en p i n mk) = (Sigue, en (handle m (p\<lparr>message_complete := True\<rparr>)) i n mk)"
  using assms by (simp add: CROW_CALLBACK_NOTIFY_ER_def afirma_def en_parser_def on_message_complete_def message_errno)

lemma corre_mensaje:
  assumes "data \<noteq> []" "pstate q = s_headers_done" "flags q \<subseteq> {F_CONTENTLENGTH}" "\<not> uses_transfer_encoding q" "\<not> upgrade q"
    and "p_errno q = CHPE_OK" "drop i data = lf # b @ x" "marcas_libres mk" "length b < 2 ^ 63" "req_body (req q) = []"
    and "content_length q = (if b = [] then CROW_ULLONG_MAX else of_nat (length b))" "length data < 2 ^ 63"
  shows "\<exists>q'. corre m dir data True (en q i n mk) False (en (handle m q') (Suc (i + length b)) 0 mk) \<and>
    req q' = (req q)\<lparr>req_body := b\<rparr> \<and> conexion q' = conexion q \<and> message_complete q' \<and> p_errno q' = CHPE_OK \<and>
    pstate q' = (if b = [] then s_headers_done else s_message_done)"
proof -
  note d = queda [OF assms(7)]
  have fl: "F_SKIPBODY \<notin> flags q" "F_CHUNKED \<notin> flags q" using assms(3) by auto
  define q1 where "q1 = q\<lparr>nread := 0\<rparr>"
  show ?thesis
  proof (cases "b = []")
    case True
    have "paso_estado m dir data (en q i n mk) = (Sigue, en (handle m (q1\<lparr>message_complete := True\<rparr>)) i 0 mk)"
      using d assms fl True notifica [of q1 "i + 1" i 0 mk]
      by (simp add: paso_estado_def paso_headers_done_def CROW_STRICT_CHECK_def nread_cero_def en_parser_def q1_def Let_def CROW_ULLONG_MAX_def)
    from corre_re_sigue [OF this] have "corre m dir data True (en q i n mk) False (en (handle m (q1\<lparr>message_complete := True\<rparr>)) (Suc i) 0 mk)"
      by simp
    moreover have "(req q)\<lparr>req_body := b\<rparr> = req q" using assms(10) True by simp
    ultimately show ?thesis using assms True by (intro exI [of _ "q1\<lparr>message_complete := True\<rparr>"]) (simp add: q1_def)
  next
    case False
    define N where "N = length b"
    have N: "0 < N" "N < 2 ^ 63" using False assms(9) by (simp_all add: N_def)
    have un: "unat (of_nat N :: 64 word) = N" using N(2) by (simp add: unat_of_nat take_bit_nat_eq_self_iff)
    have cl: "content_length q = of_nat N" using assms(11) False by (simp add: N_def)
    have ne: "(of_nat N :: 64 word) \<noteq> 0" using un N(1) by (metis less_numeral_extra(3) unat_0)
    have nm: "(of_nat N :: 64 word) \<noteq> CROW_ULLONG_MAX" using un N(2) by (intro menor_no_max) simp
    have "length (drop (Suc i) data) = N + length x" using d(4) by (simp add: N_def)
    then have len: "length data = Suc i + N + length x" using d(2) by simp
    have mn: "min (of_nat N) (of_nat (length data - Suc i) :: 64 word) = of_nat N"
    proof -
      define K where "K = length data - Suc i"
      have "N \<le> K" "K < 2 ^ 64" using len assms(12) by (simp_all add: K_def)
      then have "unat (of_nat K :: 64 word) = K" by (simp add: unat_of_nat take_bit_nat_eq_self_iff)
      then show ?thesis using un \<open>N \<le> K\<close> unfolding K_def [symmetric] by (simp add: min_def word_le_nat_alt)
    qed
    define q2 where "q2 = q1\<lparr>pstate := s_body_identity\<rparr>"
    have "paso_estado m dir data (en q i n mk) = (Sigue, en q2 i 0 mk)"
      using d assms fl cl ne nm
      by (simp add: paso_estado_def paso_headers_done_def CROW_STRICT_CHECK_def nread_cero_def en_parser_def a_estado_def q1_def q2_def Let_def)
    from corre_re_sigue [OF this] have 1: "corre m dir data True (en q i n mk) False (en q2 (Suc i) 0 mk)" by simp
    define q3 where "q3 = q2\<lparr>pstate := s_message_done, content_length := 0, req := (req q)\<lparr>req_body := b\<rparr>\<rparr>"
    have lee: "lee_cuerpo data (en q2 (Suc i) 0 mk) = en (q2\<lparr>content_length := 0\<rparr>) (i + N) 0 (mk(body_mark := Some (Suc i)))"
      using assms(8) cl mn un by (simp add: lee_cuerpo_def CROW_MARK_def en_parser_def marcas_libres_def q2_def q1_def Let_def)
    have mk: "mk(body_mark := None) = mk" using assms(8) by (auto simp: marcas_libres_def)
    have t: "take N b = b" "N - length b = 0" by (simp_all add: N_def)
    have "paso_estado m dir data (en q2 (Suc i) 0 mk) = (Reejecuta, en q3 (i + N) 0 mk)"
      using lee mk assms(6,10) cl ne nm d(4) t
      by (simp add: paso_estado_def paso_body_identity_def CROW_CALLBACK_DATA_ER_def afirma_def en_parser_def a_estado_def
          on_dato_def on_body_def q1_def q2_def q3_def Let_def)
    moreover have "cuenta (en q2 (Suc i) 0 mk) = (Sigue, en q2 (Suc i) 0 mk)"
      by (simp add: cuenta_def q2_def CROW_PARSING_HEADER_def estados_cuerpo_def)
    ultimately have 2: "corre m dir data False (en q2 (Suc i) 0 mk) True (en q3 (i + N) 0 mk)"
      using len N by (intro corre_reejecuta) simp_all
    have "paso_estado m dir data (en q3 (i + N) 0 mk) = (Sigue, en (handle m (q3\<lparr>message_complete := True\<rparr>)) (i + N) 0 mk)"
      using notifica [of q3 "i + N + 1" "i + N" 0 mk] assms(6) by (simp add: paso_estado_def paso_message_done_def q3_def q2_def q1_def)
    from corre_re_sigue [OF this] have 3: "corre m dir data True (en q3 (i + N) 0 mk) False (en (handle m (q3\<lparr>message_complete := True\<rparr>)) (Suc (i + length b)) 0 mk)"
      using N by (simp add: N_def)
    show ?thesis using corre_trans [OF corre_trans [OF 1 2] 3] assms(6) False
      by (intro exI [of _ "q3\<lparr>message_complete := True\<rparr>"]) (simp add: q3_def q2_def q1_def)
  qed
qed

end

text \<open>A parser at the start of a request.\<close>

definition al_inicio :: "'c parser \<Rightarrow> bool" where
  "al_inicio p \<longleftrightarrow>
     pstate p = s_start_req \<and> p_errno p = CHPE_OK \<and> \<not> message_complete p \<and> req p = request_vacia \<and> header_field p = [] \<and>
     header_value p = [] \<and> \<not> header_building_state p \<and> qs_point p = 0"

lemma longitud_corta: "length b < 2 ^ 59 \<Longrightarrow> b \<noteq> [] \<Longrightarrow> length (longitud b) = 1"
  by (simp add: longitud_def)

lemma sin_cabeceras_flags:
  "sin_cabeceras (p\<lparr>flags := a, content_length := c\<rparr>) = (sin_cabeceras p)\<lparr>flags := a, content_length := c\<rparr>"
  by (cases p) (simp add: sin_cabeceras_def)

lemma corre_lineas:
  assumes "pstate p = s_header_field_start" "drop i data = concat (map linea (hs @ longitud b)) @ r" "cabeceras_ok hs" "entre_lineas p"
    and "p_errno p = CHPE_OK" "mk header_field_mark = None" "mk header_value_mark = None" "F_CONTENTLENGTH \<notin> flags p"
    and "length b < 2 ^ 59" "n + length (concat (map linea (hs @ longitud b))) < max_header_size"
  shows "\<exists>q q'. corre m dir data False (en p i n mk) False
      (en q (i + length (concat (map linea (hs @ longitud b)))) (n + length (concat (map linea (hs @ longitud b)))) mk) \<and>
    empieza_linea q q' \<and> entre_lineas q \<and> cabeceras_de q = cabeceras_de p @ hs @ longitud b \<and>
    sin_cabeceras q = sin_cabeceras (p\<lparr>flags := if b = [] then flags p else insert F_CONTENTLENGTH (flags p),
      content_length := if b = [] then content_length p else of_nat (length b)\<rparr>)"
proof -
  let ?L = "length (concat (map linea hs))"
  have e: "empieza_linea p p" using assms(1) by (simp add: empieza_linea_def)
  have d: "drop i data = concat (map linea hs) @ (concat (map linea (longitud b)) @ r)" using assms(2) by simp
  obtain q' where 1: "corre m dir data False (en p i n mk) False (en (tras_lineas p hs) (i + ?L) (n + ?L) mk)"
      and q': "empieza_linea (tras_lineas p hs) q'" "entre_lineas (tras_lineas p hs)" "cabeceras_de (tras_lineas p hs) = cabeceras_de p @ hs"
      "sin_cabeceras (tras_lineas p hs) = sin_cabeceras p"
    using corre_cabeceras [where m = m and dir = dir and n = n, OF e d assms(3-7)] assms(10) by auto
  show ?thesis
  proof (cases "b = []")
    case True
    have "p\<lparr>flags := flags p, content_length := content_length p\<rparr> = p" by (cases p) simp
    then show ?thesis using 1 q' True by (auto simp: longitud_def)
  next
    case False
    let ?q = "tras_lineas p hs"
    let ?l = "linea (''Content-Length'', decimal (length b))"
    have f: "flags ?q = flags p" "p_errno ?q = CHPE_OK" using sin_cabeceras_fields [OF q'(4)] assms(5) by simp_all
    have c: "concat (map linea (longitud b)) = ?l" using False by (simp add: longitud_def)
    have d1: "drop (i + ?L) data = ?l @ r" using sigue_tras [OF d] unfolding c .
    define q2 where "q2 = linea_leida h_content_length_num 0 ''Content-Length'' (decimal (length b)) ?q
        \<lparr>flags := insert F_CONTENTLENGTH (flags p), content_length := of_nat (length b)\<rparr>"
    have l: "length (concat (map linea (hs @ longitud b))) = ?L + length ?l" using False by (simp add: longitud_def)
    have 2: "corre m dir data False (en ?q (i + ?L) (n + ?L) mk) False (en q2 (i + ?L + length ?l) (n + ?L + length ?l) mk)"
      using corre_longitud [where m = m and dir = dir, OF q'(1) d1 q'(2) f(2) assms(6,7)] assms(8,9,10) f l
      by (simp add: q2_def)
    have "decimal (length b) \<noteq> []" by (rule decimal_no_vacio)
    moreover have "sin_cabeceras (linea_leida h ix k v ?q\<lparr>flags := a, content_length := c\<rparr>) =
        sin_cabeceras (p\<lparr>flags := a, content_length := c\<rparr>)" for h ix k v a c
      using q'(4) by (simp add: sin_cabeceras_flags linea_leida_def) (simp add: sin_cabeceras_def)
    ultimately have "empieza_linea q2 (q2\<lparr>pstate := s_header_field_start\<rparr>)" "entre_lineas q2"
      "cabeceras_de q2 = cabeceras_de p @ hs @ longitud b"
      "sin_cabeceras q2 = sin_cabeceras (p\<lparr>flags := insert F_CONTENTLENGTH (flags p), content_length := of_nat (length b)\<rparr>)"
      using q'(3) False
      by (simp_all add: q2_def linea_leida_def empieza_linea_def entre_lineas_def cabeceras_de_def longitud_def)
    then show ?thesis using corre_trans [OF 1 2] False l by (auto simp: add.assoc)
  qed
qed

lemma linea_nul:
  assumes "nombre_general k" "valor_campo v"
  shows "nul \<notin> set (linea (k, v))"
proof -
  have "CROW_TOKEN nul = nul" "\<not> CROW_IS_HEADER_CHAR nul"
    by (simp_all add: CROW_TOKEN_def tokens_def Let_def nth_append CROW_IS_HEADER_CHAR_def less_char_def)
  then have "nul \<notin> set k" "nul \<notin> set v"
    using assms unfolding nombre_general_def nombre_campo_def valor_campo_def list_all_iff by metis+
  then show ?thesis by (simp add: linea_def)
qed

lemma cabeceras_ok_nul: "cabeceras_ok hs \<Longrightarrow> nul \<notin> set (concat (map linea hs))"
proof (induction hs)
  case (Cons kv hs)
  then show ?case by (cases kv) (simp add: cabeceras_ok_def linea_nul)
qed simp

lemma linea_peticion_nul:
  assumes "mt \<noteq> InternalMethodCount" "url_ok u"
  shows "nul \<notin> set (linea_peticion mt u)"
proof -
  have "nul \<notin> set (method_name mt)"
    using assms(1) by (cases mt) (simp_all add: method_name_simps)
  moreover have "\<not> url_letra nul" by (simp add: url_letra_def CROW_IS_URL_CHAR_def normal_url_char_def Let_def)
  then have "nul \<notin> set u" using assms(2) by (auto simp: url_ok_def list_all_iff)
  ultimately show ?thesis by (simp add: linea_peticion_def)
qed

lemma texto_sin_nul:
  assumes "peticion_ok mt u hs b"
  shows "nul \<notin> set (texto_peticion mt u hs b)"
proof -
  have "nul \<notin> set (concat (map linea (longitud b)))"
    using decimal_digitos [of "length b"] es_digitoD by (auto simp: longitud_def linea_def list_all_iff)
  then show ?thesis
    using cabeceras_ok_nul [of hs] linea_peticion_nul [of mt u] assms by (auto simp: texto_peticion_def peticion_ok_def)
qed

text \<open>The parser after the request line, before any header.\<close>

definition tras_peticion :: "HTTPMethod \<Rightarrow> string \<Rightarrow> 'c \<Rightarrow> 'c parser \<Rightarrow> bool" where
  "tras_peticion mt u c p \<longleftrightarrow>
     req p = request_vacia\<lparr>req_method := mt, raw_url := u, url := sin_consulta u\<rparr> \<and> conexion p = c \<and> p_method p = mt \<and>
     p_errno p = CHPE_OK \<and> flags p = {} \<and> \<not> uses_transfer_encoding p \<and> content_length p = CROW_ULLONG_MAX \<and>
     header_field p = [] \<and> header_value p = [] \<and> entre_lineas p \<and> pstate p = s_header_field_start \<and> http_major p = 1 \<and>
     http_minor p = 1"

context conexion_http
begin

lemma corre_linea_peticion:
  assumes "mt \<noteq> InternalMethodCount" "mt \<noteq> Connect" "url_ok u" "al_inicio p" "data = linea_peticion mt u @ r"
    and "nread p + length (linea_peticion mt u) < max_header_size"
    and hu: "\<And>q. req q = request_vacia\<lparr>req_method := mt, raw_url := u, url := sin_consulta u\<rparr> \<Longrightarrow> conexion q = conexion p \<Longrightarrow>
      handle_url m q = q\<lparr>conexion := c\<rparr>"
  obtains q where "corre m dir data False (en p 0 (nread p) (\<lambda>_. None)) False
      (en q (length (linea_peticion mt u)) (nread p + length (linea_peticion mt u)) (marca_inicio (length (method_name mt) + 1)))"
    "tras_peticion mt u c q" "message_complete q = message_complete p"
proof -
  have ini: "pstate p = s_start_req" "p_errno p = CHPE_OK" "req p = request_vacia" "header_field p = []" "header_value p = []"
      "\<not> header_building_state p" "qs_point p = 0"
    using assms(4) by (simp_all add: al_inicio_def)
  let ?M = "length (method_name mt)" and ?n = "nread p"
  let ?i2 = "?M + 1 + length u + 1"
  have L: "length (linea_peticion mt u) = ?i2 + 10" by (simp add: linea_peticion_def)
  have d0: "drop 0 data = method_name mt @ CHR '' '' # (u @ CHR '' '' # (''HTTP/1.1'' @ [cr, lf] @ r))"
    by (simp add: assms(5) linea_peticion_def)
  have d1: "drop (?M + 1) data = u @ CHR '' '' # (''HTTP/1.1'' @ [cr, lf] @ r)"
    using queda(4) [OF sigue_tras [OF d0]] by simp
  have d2: "drop ?i2 data = ''HTTP/1.1'' @ [cr, lf] @ r"
    using queda(4) [OF sigue_tras [OF d1]] by simp
  obtain k where 1: "corre m dir data False (en p 0 ?n (\<lambda>_. None)) False
      (en (con_metodo_leido mt k (inicio_peticion p)\<lparr>pstate := s_req_spaces_before_url\<rparr>) (?M + 1) (?n + ?M + 1) (\<lambda>_. None))"
    using corre_metodo [OF assms(1) d0 ini(1,2), of ?n m dir "\<lambda>_. None"] assms(6) L by auto
  define p1 where "p1 = con_metodo_leido mt k (inicio_peticion p)\<lparr>pstate := s_req_spaces_before_url\<rparr>"
  have p1: "req p1 = request_vacia\<lparr>req_method := mt\<rparr>" "conexion p1 = conexion p" "p_method p1 = mt" "p_errno p1 = CHPE_OK" "qs_point p1 = 0"
      "raw_url (req p1) = []" "flags p1 = {}" "\<not> uses_transfer_encoding p1" "content_length p1 = CROW_ULLONG_MAX" "header_field p1 = []"
      "header_value p1 = []" "\<not> header_building_state p1" "pstate p1 = s_req_spaces_before_url"
      "message_complete p1 = message_complete p"
    using ini by (simp_all add: p1_def con_metodo_leido_def inicio_peticion_def request_vacia_def)
  have hu': "handle_url m q = q\<lparr>conexion := c\<rparr>" if "req q = (req p1)\<lparr>raw_url := u, url := sin_consulta u\<rparr>" "conexion q = conexion p1" for q
    using hu [of q] that p1 by simp
  obtain x where 2: "corre m dir data False (en p1 (?M + 1) (?n + ?M + 1) (\<lambda>_. None)) False
      (en (url_leida u c x p1) ?i2 (?n + ?i2) (marca_inicio (?M + 1)))"
  proof -
    have "p_method p1 \<noteq> Connect" "?n + ?M + 1 + length u < max_header_size" using assms(2) p1(3) assms(6) L by simp_all
    moreover have "?n + ?M + 1 + length u + 1 = ?n + ?i2" by simp
    ultimately show thesis using corre_url [OF assms(3) d1 p1(13) _ p1(4,5,6) _ hu'] that by metis
  qed
  define p2 where "p2 = url_leida u c x p1\<lparr>http_major := 1, http_minor := 1, pstate := s_header_field_start\<rparr>"
  have 3: "corre m dir data False (en (url_leida u c x p1) ?i2 (?n + ?i2) (marca_inicio (?M + 1))) False
      (en p2 (?i2 + 10) (?n + ?i2 + 10) (marca_inicio (?M + 1)))"
    unfolding p2_def using assms(6) L by (intro corre_version [OF d2]) (simp_all add: url_leida_def)
  have "tras_peticion mt u c p2" "message_complete p2 = message_complete p"
    using p1 by (simp_all add: tras_peticion_def p2_def url_leida_def entre_lineas_def)
  then show thesis using that [of p2] corre_trans [OF corre_trans [OF 1 [folded p1_def] 2] 3] unfolding L by (simp add: ac_simps)
qed

text \<open>A run of a whole buffer is the result of the call.\<close>

lemma ejecuta_corre:
  assumes "corre m dir data False (en p 0 (nread p) (\<lambda>_. None)) re e" "al_inicio p" "inv_parser p" "data \<noteq> []"
    and "bucle k m dir data re e = Some r" "length data < 2 ^ 64" "nul \<notin> set data"
  shows "http_parser_execute m dir data p = Some r"
proof -
  have ini: "p_errno p = CHPE_OK" "ejec_inicial p = en p 0 (nread p) (\<lambda>_. None)"
    using assms(2) by (simp_all add: al_inicio_def ejec_inicial_def estado_url_def fun_eq_iff)
  obtain r' where r': "http_parser_execute m dir data p = Some r'" using ejecuta_ok [OF assms(3,6,7), of dir] by auto
  then have "bucle (combustible data) m dir data False (en p 0 (nread p) (\<lambda>_. None)) = Some r'"
    using assms(4) ini by (simp add: http_parser_execute_def)
  from corre_resultado [OF assms(1,5) this] r' show ?thesis by simp
qed

lemma corre_cabeza:
  assumes "peticion_ok mt u hs b" "al_inicio p" "data = linea_peticion mt u @ concat (map linea (hs @ longitud b)) @ cr # lf # r"
    and "nread p + length (linea_peticion mt u @ concat (map linea (hs @ longitud b))) + 2 < max_header_size" "length b < 2 ^ 59"
    and hu: "\<And>q. req q = request_vacia\<lparr>req_method := mt, raw_url := u, url := sin_consulta u\<rparr> \<Longrightarrow> conexion q = conexion p \<Longrightarrow>
      handle_url m q = q\<lparr>conexion := c\<rparr>"
    and hh: "\<And>q. req q = (peticion_leida mt u hs b)\<lparr>req_body := []\<rparr> \<Longrightarrow> conexion q = c \<Longrightarrow> handle_header m q = q"
  obtains q i n mk where "corre m dir data False (en p 0 (nread p) (\<lambda>_. None)) True (en q i n mk)" "drop i data = lf # r" "marcas_libres mk"
    "pstate q = s_headers_done" "req q = (peticion_leida mt u hs b)\<lparr>req_body := []\<rparr>" "flags q \<subseteq> {F_CONTENTLENGTH}"
    "\<not> uses_transfer_encoding q" "content_length q = (if b = [] then CROW_ULLONG_MAX else of_nat (length b))" "\<not> upgrade q"
    "p_errno q = CHPE_OK" "conexion q = c"
proof -
  have ok: "mt \<noteq> InternalMethodCount" "mt \<noteq> Connect" "url_ok u" "cabeceras_ok hs"
    using assms(1) by (simp_all add: peticion_ok_def)
  let ?mk = "marca_inicio (length (method_name mt) + 1)" and ?H = "concat (map linea (hs @ longitud b))" and ?n = "nread p"
  let ?i = "length (linea_peticion mt u)"
  let ?j = "?i + length ?H"
  have L: "?n + ?j + 2 < max_header_size" using assms(4) by simp
  have d3: "drop ?i data = ?H @ cr # lf # r" by (simp add: assms(3))
  note d4 = sigue_tras [OF d3]
  obtain p2 where 3: "corre m dir data False (en p 0 ?n (\<lambda>_. None)) False (en p2 ?i (?n + ?i) ?mk)"
      and tp: "tras_peticion mt u c p2"
  proof (rule corre_linea_peticion [OF ok(1-3) assms(2,3)])
    show "?n + ?i < max_header_size" using L by simp
  qed (use hu in blast)+
  have p2: "req p2 = request_vacia\<lparr>req_method := mt, raw_url := u, url := sin_consulta u\<rparr>" "conexion p2 = c" "p_method p2 = mt"
      "p_errno p2 = CHPE_OK" "flags p2 = {}" "\<not> uses_transfer_encoding p2" "content_length p2 = CROW_ULLONG_MAX" "header_field p2 = []"
      "header_value p2 = []" "entre_lineas p2" "pstate p2 = s_header_field_start" "http_major p2 = 1" "http_minor p2 = 1"
    using tp by (simp_all add: tras_peticion_def)
  obtain p3 p3' where 4: "corre m dir data False (en p2 ?i (?n + ?i) ?mk) False (en p3 ?j (?n + ?i + length ?H) ?mk)"
      and p3: "empieza_linea p3 p3'" "entre_lineas p3" "cabeceras_de p3 = cabeceras_de p2 @ hs @ longitud b"
      "sin_cabeceras p3 = sin_cabeceras (p2\<lparr>flags := if b = [] then flags p2 else insert F_CONTENTLENGTH (flags p2),
      content_length := if b = [] then content_length p2 else of_nat (length b)\<rparr>)"
    using corre_lineas [where m = m and dir = dir and n = "?n + ?i" and mk = ?mk, OF p2(11) d3 ok(4) p2(10,4)] assms(5) L p2(5)
    by (auto simp: marca_inicio_def)
  note f = sin_cabeceras_fields [OF p3(4), simplified]
  have cab: "cabeceras_de p3 = hs @ longitud b" using p3(3) p2 by (simp add: cabeceras_de_def request_vacia_def)
  have r3: "(req p3)\<lparr>req_headers := h\<rparr> = request_vacia\<lparr>req_method := mt, raw_url := u, url := sin_consulta u, req_headers := h\<rparr>" for h
    using f(11) [of h] p2(1) by simp
  have r4: "(req p3)\<lparr>req_headers := cabeceras_de p3, http_ver_major := 1, http_ver_minor := 1, keep_alive := True,
            close_connection := False, req_upgrade := False\<rparr> = (peticion_leida mt u hs b)\<lparr>req_body := []\<rparr>"
    unfolding r3 by (simp add: peticion_leida_def request_vacia_def cab)
  have hh': "handle_header m q = q" if "req q = (req p3)\<lparr>req_headers := cabeceras_de p3, http_ver_major := 1, http_ver_minor := 1,
      keep_alive := True, close_connection := False, req_upgrade := False\<rparr>" "conexion q = conexion p3" for q
    using hh [of q] that r4 f(9) p2(2) by simp
  have "flags p3 \<subseteq> {F_CONTENTLENGTH}" "\<not> uses_transfer_encoding p3" "p_method p3 \<noteq> Connect" "http_major p3 = 1" "http_minor p3 = 1" "p_errno p3 = CHPE_OK"
    using f p2 ok(2) by auto
  from corre_fin [where m = m and dir = dir and n = "?n + ?i + length ?H" and mk = ?mk, OF p3(1) d4 p3(2) this(6) _ this(1-5) hh'] L
  obtain q where 5: "corre m dir data False (en p3 ?j (?n + ?i + length ?H) ?mk) True (en q (Suc ?j) (Suc (Suc (?n + ?i + length ?H))) ?mk)"
    and q: "pstate q = s_headers_done" "req q = (peticion_leida mt u hs b)\<lparr>req_body := []\<rparr>" "flags q = flags p3"
      "\<not> uses_transfer_encoding q" "content_length q = content_length p3" "\<not> upgrade q" "p_errno q = CHPE_OK" "conexion q = conexion p3"
    unfolding r4 by auto
  show thesis
  proof (rule that [OF corre_trans [OF corre_trans [OF 3 4] 5] queda(4) [OF d4] _ q(1,2) _ q(4) _ q(6,7)])
    show "marcas_libres ?mk" by (simp add: marcas_libres_def marca_inicio_def)
    show "flags q \<subseteq> {F_CONTENTLENGTH}" using q(3) f p2 by auto
    show "content_length q = (if b = [] then CROW_ULLONG_MAX else of_nat (length b))" using q(5) f p2 by simp
    show "conexion q = c" using q(8) f(9) p2(2) by simp
  qed
qed

theorem analiza_peticion:
  assumes "peticion_ok mt u hs b" "al_inicio p" "inv_parser p" "data = texto_peticion mt u hs b"
    and "nread p + length data < max_header_size"
    and hu: "\<And>q. req q = request_vacia\<lparr>req_method := mt, raw_url := u, url := sin_consulta u\<rparr> \<Longrightarrow> conexion q = conexion p \<Longrightarrow>
      handle_url m q = q\<lparr>conexion := c\<rparr>"
    and hh: "\<And>q. req q = (peticion_leida mt u hs b)\<lparr>req_body := []\<rparr> \<Longrightarrow> conexion q = c \<Longrightarrow> handle_header m q = q"
  shows "\<exists>q. http_parser_execute m dir data p = Some (Devuelve (length data) (handle m q\<lparr>nread := 0\<rparr>)) \<and>
    req q = peticion_leida mt u hs b \<and> conexion q = c \<and> message_complete q \<and> p_errno q = CHPE_OK \<and>
    pstate q = (if b = [] then s_headers_done else s_message_done)"
proof -
  have d: "data = linea_peticion mt u @ concat (map linea (hs @ longitud b)) @ cr # lf # b" by (simp add: assms(4) texto_peticion_def)
  have b: "length b < 2 ^ 59" "nread p + length (linea_peticion mt u @ concat (map linea (hs @ longitud b))) + 2 < max_header_size"
    using assms(5) d by (simp_all add: max_header_size_def)
  have dl: "length data < 2 ^ 63" "length b < 2 ^ 63" using assms(5) b(1) by (simp_all add: max_header_size_def)
  obtain q i n mk where 1: "corre m dir data False (en p 0 (nread p) (\<lambda>_. None)) True (en q i n mk)" "drop i data = lf # b" "marcas_libres mk"
    "pstate q = s_headers_done" "req q = (peticion_leida mt u hs b)\<lparr>req_body := []\<rparr>" "flags q \<subseteq> {F_CONTENTLENGTH}"
    "\<not> uses_transfer_encoding q" "content_length q = (if b = [] then CROW_ULLONG_MAX else of_nat (length b))" "\<not> upgrade q"
    "p_errno q = CHPE_OK" "conexion q = c"
    by (rule corre_cabeza [OF assms(1,2) d b(2,1) hu hh])
  have ne: "data \<noteq> []" using d by auto
  have fin: "Suc (i + length b) = length data" using queda(2,4) [OF 1(2)] by (metis length_drop add_Suc le_add_diff_inverse Suc_leI)
  have "drop i data = lf # b @ []" "req_body (req q) = []" using 1(2,5) by simp_all
  then obtain q' where 2: "corre m dir data True (en q i n mk) False (en (handle m q') (length data) 0 mk)"
      and q': "req q' = (req q)\<lparr>req_body := b\<rparr>" "conexion q' = conexion q" "message_complete q'" "p_errno q' = CHPE_OK"
      "pstate q' = (if b = [] then s_headers_done else s_message_done)"
    using corre_mensaje [where i = i and x = "[]" and dir = dir and n = n, OF ne 1(4,6,7,9,10) _ 1(3) dl(2) _ 1(8) dl(1)]
    unfolding fin by blast
  have "http_parser_execute m dir data p = Some (Devuelve (length data) (handle m q'\<lparr>nread := 0\<rparr>))"
  proof (rule ejecuta_corre [OF corre_trans [OF 1(1) 2] assms(2,3) ne])
    show "bucle 1 m dir data False (en (handle m q') (length data) 0 mk) = Some (Devuelve (length data) (handle m q'\<lparr>nread := 0\<rparr>))"
      using q'(4) 1(3) by (simp add: message_errno epilogo_libre)
    show "length data < 2 ^ 64" "nul \<notin> set data" using dl(1) texto_sin_nul [OF assms(1)] assms(4) by simp_all
  qed
  then show ?thesis using q' 1(5,11) by (intro exI [of _ q']) (simp add: peticion_leida_def)
qed

end

end
