(* ===== verification/Conexion.thy ===== *)
theory Conexion
  imports Router Analisis
begin

text \<open>
  One HTTP connection of Crow, class \<^verbatim>\<open>Connection\<close> of \<^verbatim>\<open>includes/crow_all.h\<close>: the handlers behind the parser,
  the response as it is written, and the completion of reads, writes and the deadline. The program has no
  middleware and is built without compression and TLS. The server's name, the date, the address of the peer
  and what a file holds are given; a socket write takes all its bytes.
\<close>

subsection \<open>State\<close>

record ('d, 's) entorno_con =
  stod_e :: "string \<Rightarrow> ('d \<times> nat) option"
  router_e :: "('d, 's) router"
  server_name :: string
  date_str :: string
  peer_ip :: string
  res_stream_threshold :: nat
  contenido :: "string \<Rightarrow> string"

text \<open>
  The members of \<^verbatim>\<open>Connection\<close>, and what happens outside it: whether the socket is open and its peer is
  still there, the bytes given to the socket, the writes and reads under way, whether the deadline runs, the state of the application and a failure that left the
  handler of the last read: an exception leaves the parser and ends the connection, the worker goes on.
\<close>

record ('d, 's) con =
  routing_handle_result_c :: "'d routing_handle_result option"
  res_c :: response
  close_connection_c :: bool
  buffers_c :: "string list"
  res_body_copy :: string
  continue_requested :: bool
  need_to_call_after_handlers :: bool
  need_to_start_read_after_complete :: bool
  add_keep_alive :: bool
  abierto :: bool
  conectado :: bool
  enviado :: string
  escrituras :: nat
  lecturas :: nat
  plazo :: bool
  aplicacion :: 's
  fallo_c :: "fallo option"

type_synonym ('d, 's) cparser = "('d, 's) con parser"

definition en_con :: "(('d, 's) con \<Rightarrow> ('d, 's) con) \<Rightarrow> ('d, 's) cparser \<Rightarrow> ('d, 's) cparser" where
  "en_con f p = p\<lparr>conexion := f (conexion p)\<rparr>"

definition en_res :: "(response \<Rightarrow> response) \<Rightarrow> ('d, 's) cparser \<Rightarrow> ('d, 's) cparser" where
  "en_res f = en_con (\<lambda>c. c\<lparr>res_c := f (res_c c)\<rparr>)"

subsection \<open>Writing\<close>

definition crlf :: string where
  "crlf = [cr, lf]"

text \<open>The text of the status line after the version, for the codes of the table.\<close>

definition razones :: "(int \<times> string) list" where
  "razones =
     [(100, ''100 Continue''), (101, ''101 Switching Protocols''), (200, ''200 OK''), (201, ''201 Created''),
      (202, ''202 Accepted''), (203, ''203 Non-Authoritative Information''), (204, ''204 No Content''),
      (205, ''205 Reset Content''), (206, ''206 Partial Content''), (300, ''300 Multiple Choices''),
      (301, ''301 Moved Permanently''), (302, ''302 Found''), (303, ''303 See Other''), (304, ''304 Not Modified''),
      (307, ''307 Temporary Redirect''), (308, ''308 Permanent Redirect''), (400, ''400 Bad Request''),
      (401, ''401 Unauthorized''), (403, ''403 Forbidden''), (404, ''404 Not Found''), (405, ''405 Method Not Allowed''),
      (407, ''407 Proxy Authentication Required''), (409, ''409 Conflict''), (410, ''410 Gone''),
      (413, ''413 Payload Too Large''), (415, ''415 Unsupported Media Type''), (416, ''416 Range Not Satisfiable''),
      (417, ''417 Expectation Failed''), (428, ''428 Precondition Required''), (429, ''429 Too Many Requests''),
      (451, ''451 Unavailable For Legal Reasons''), (500, ''500 Internal Server Error''),
      (501, ''501 Not Implemented''), (502, ''502 Bad Gateway''), (503, ''503 Service Unavailable''),
      (504, ''504 Gateway Timeout''), (506, ''506 Variant Also Negotiates'')]"

definition statusCodes :: "int \<Rightarrow> string option" where
  "statusCodes c = map_option (\<lambda>s. ''HTTP/1.1 '' @ s @ crlf) (map_of razones c)"

definition linea_estado :: "int \<Rightarrow> string" where
  "linea_estado c = (case statusCodes c of Some s \<Rightarrow> s | None \<Rightarrow> [])"

definition linea_cabecera :: "string \<times> string \<Rightarrow> string" where
  "linea_cabecera kv = fst kv @ '': '' @ snd kv @ crlf"

text \<open>A code outside the table becomes 500, and an error without a body gets its name as body.\<close>

definition fija_estado :: "response \<Rightarrow> response" where
  "fija_estado r0 =
     (let r1 = (if statusCodes (code r0) = None then r0\<lparr>code := 500\<rparr> else r0)
      in if 400 \<le> code r1 \<and> body r1 = [] then r1\<lparr>body := drop 9 (linea_estado (code r1))\<rparr> else r1)"

text \<open>The order of the headers is that of the multimap; here it is that of insertion.\<close>

definition cabeza :: "('d, 's) entorno_con \<Rightarrow> bool \<Rightarrow> response \<Rightarrow> string list" where
  "cabeza env keep r =
     [linea_estado (code r)] @ map linea_cabecera (headers r) @
     (if \<not> manual_length_header r \<and> ci_count (headers r) ''content-length'' = 0
      then [''Content-Length: '' @ decimal (length (body r)) @ crlf] else []) @
     (if ci_count (headers r) ''server'' = 0 then [''Server: '' @ server_name env @ crlf] else []) @
     (if ci_count (headers r) ''date'' = 0 then [''Date: '' @ date_str env @ crlf] else []) @
     (if keep then [''Connection: Keep-Alive'' @ crlf] else []) @
     [crlf]"

definition prepare_buffers :: "('d, 's) entorno_con \<Rightarrow> ('d, 's) con \<Rightarrow> ('d, 's) con" where
  "prepare_buffers env c0 =
     (let c = c0\<lparr>res_c := (res_c c0)\<lparr>con_manejador := False\<rparr>\<rparr> in
      if \<not> abierto c then c
      else let r = fija_estado (res_c c) in c\<lparr>res_c := r, buffers_c := cabeza env (add_keep_alive c) r\<rparr>)"

definition write_sync :: "string \<Rightarrow> ('d, 's) con \<Rightarrow> ('d, 's) con" where
  "write_sync s c = c\<lparr>enviado := enviado c @ s\<rparr>"

text \<open>
  An asynchronous write is started; its bytes go to the socket in the order of the calls. On a closed socket
  it completes with an error.
\<close>

definition do_write_con :: "('d, 's) con \<Rightarrow> ('d, 's) con" where
  "do_write_con c = (if abierto c then write_sync (concat (buffers_c c)) c else c)\<lparr>escrituras := escrituras c + 1\<rparr>"

definition cierra :: "('d, 's) con \<Rightarrow> ('d, 's) con" where
  "cierra c = c\<lparr>abierto := False\<rparr>"

definition cancel_deadline_timer :: "('d, 's) con \<Rightarrow> ('d, 's) con" where
  "cancel_deadline_timer c = c\<lparr>plazo := False\<rparr>"

definition start_deadline :: "('d, 's) con \<Rightarrow> ('d, 's) con" where
  "start_deadline c = (cancel_deadline_timer c)\<lparr>plazo := True\<rparr>"

definition do_read_con :: "('d, 's) con \<Rightarrow> ('d, 's) con" where
  "do_read_con c = c\<lparr>lecturas := lecturas c + 1\<rparr>"

definition lanza_con :: "excepcion \<Rightarrow> ('d, 's) con \<Rightarrow> ('d, 's) con" where
  "lanza_con x c = c\<lparr>fallo_c := Some (Excepcion x)\<rparr>"

text \<open>What both synchronous branches do at their end.\<close>

definition fin_sincrono :: "('d, 's) cparser \<Rightarrow> ('d, 's) cparser" where
  "fin_sincrono p =
     clear_parser (en_con (\<lambda>c.
       let c1 = (if close_connection_c c then cierra c else c)
       in c1\<lparr>res_c := clear_res (fst (end_res (res_c c1))), buffers_c := []\<rparr>) p)"

text \<open>On a closed socket \<^verbatim>\<open>asio::write\<close> throws.\<close>

definition do_write_static :: "('d, 's) entorno_con \<Rightarrow> ('d, 's) cparser \<Rightarrow> ('d, 's) cparser" where
  "do_write_static env p =
     (if \<not> abierto (conexion p) then en_con (lanza_con System_error) p
      else fin_sincrono (en_con (\<lambda>c. write_sync (concat (buffers_c c) @ contenido env (file_path (res_c c))) c) p))"

definition do_write_general :: "('d, 's) entorno_con \<Rightarrow> ('d, 's) cparser \<Rightarrow> ('d, 's) cparser" where
  "do_write_general env p =
     (if length (body (res_c (conexion p))) < res_stream_threshold env then
        en_con (\<lambda>c.
          let b = body (res_c c);
              c1 = do_write_con (c\<lparr>res_c := (res_c c)\<lparr>body := res_body_copy c\<rparr>, res_body_copy := b, buffers_c := buffers_c c @ [b]\<rparr>)
          in if need_to_start_read_after_complete c1
             then do_read_con (start_deadline (c1\<lparr>need_to_start_read_after_complete := False\<rparr>))
             else c1) p
      else if \<not> abierto (conexion p) then en_con (lanza_con System_error) p
      else fin_sincrono (en_con (\<lambda>c. cancel_deadline_timer (write_sync (concat (buffers_c c) @ body (res_c c)) c)) p))"

definition contiene :: "string \<Rightarrow> string \<Rightarrow> bool" where
  "contiene w s \<longleftrightarrow> list_ex (\<lambda>i. take (length w) (drop i s) = w) [0..<length s + 1]"

text \<open>A \<^verbatim>\<open>Location\<close> with no scheme gets the host of the request in front.\<close>

definition con_location :: "request \<Rightarrow> response \<Rightarrow> response" where
  "con_location r res =
     (let location = get_header_value (headers res) ''Location'' in
      if location \<noteq> [] \<and> \<not> contiene ''://'' location
      then set_header ''location'' (''http://'' @ get_header_value (req_headers r) ''Host'' @ location) res
      else res)"

definition complete_request :: "('d, 's) entorno_con \<Rightarrow> ('d, 's) cparser \<Rightarrow> ('d, 's) cparser" where
  "complete_request env p =
     (let p1 = en_con (\<lambda>c. c\<lparr>need_to_call_after_handlers := False\<rparr>) p;
          p2 = en_con (prepare_buffers env) (en_res (con_location (req p1)) p1)
      in if file_path (res_c (conexion p2)) \<noteq> [] then do_write_static env p2 else do_write_general env p2)"

subsection \<open>The handlers behind the parser\<close>

text \<open>The response that a handler leaves; its \<^verbatim>\<open>end()\<close> may call \<^verbatim>\<open>complete_request\<close>.\<close>

definition deja_res :: "('d, 's) entorno_con \<Rightarrow> response \<times> bool \<Rightarrow> ('d, 's) cparser \<Rightarrow> ('d, 's) cparser" where
  "deja_res env rb p =
     (let p1 = en_res (\<lambda>_. fst rb) p in if snd rb then complete_request env p1 else p1)"

definition responde_con :: "('d, 's) entorno_con \<Rightarrow> ('d, 's) cparser \<Rightarrow> ('d, 's) cparser" where
  "responde_con env p0 =
     (let p = en_con (\<lambda>c. (cancel_deadline_timer c)
                 \<lparr>add_keep_alive := keep_alive (req p0), close_connection_c := close_connection (req p0)\<rparr>)
               (p0\<lparr>req := (req p0)\<lparr>remote_ip_address := peer_ip env\<rparr>\<rparr>);
          r = req p
      in
      if check_version r 1 1 \<and> ci_count (req_headers r) ''host'' = 0 then
        complete_request env (en_con (\<lambda>c. c\<lparr>need_to_call_after_handlers := False\<rparr>) (en_res (\<lambda>res. asigna res (response_code 400)) p))
      else if check_version r 1 1 \<and> req_upgrade r \<and> take 2 (get_header_value (req_headers r) ''upgrade'') \<noteq> ''h2'' then
        (let p1 = en_con (\<lambda>c. c\<lparr>close_connection_c := True\<rparr>) p in
         case handle_upgrade (stod_e env) (router_e env) r (res_c (conexion p1)) of
           Inl e \<Rightarrow> en_con (\<lambda>c. c\<lparr>fallo_c := Some e\<rparr>) p1
         | Inr rb \<Rightarrow> deja_res env rb p1)
      else
        (let p1 = en_res (\<lambda>res. res\<lparr>con_manejador := False\<rparr>)
                    (en_con (\<lambda>c. c\<lparr>need_to_call_after_handlers := False\<rparr>) p) in
         if completed (res_c (conexion p1)) then complete_request env p1
         else
           let p2 = en_con (\<lambda>c. c\<lparr>need_to_call_after_handlers := True\<rparr>) (en_res (\<lambda>res. res\<lparr>con_manejador := True\<rparr>) p1);
               c = conexion p2
           in case routing_handle_result_c c of
                None \<Rightarrow> en_con (\<lambda>c. c\<lparr>fallo_c := Some Indefinido\<rparr>) p2
              | Some found \<Rightarrow>
                  (case handle_router (router_e env) r (res_c c) found (aplicacion c) of
                     (Inl e, s) \<Rightarrow> en_con (\<lambda>c. c\<lparr>aplicacion := s, fallo_c := Some e\<rparr>) p2
                   | (Inr rb, s) \<Rightarrow>
                       let p3 = deja_res env rb (en_con (\<lambda>c. c\<lparr>aplicacion := s\<rparr>) p2)
                       in if add_keep_alive (conexion p3) then en_res (set_header ''connection'' ''Keep-Alive'') p3 else p3)))"

text \<open>\<^verbatim>\<open>remote_endpoint\<close> throws on a closed socket, and on an open one whose peer has gone.\<close>

definition handle_con :: "('d, 's) entorno_con \<Rightarrow> ('d, 's) cparser \<Rightarrow> ('d, 's) cparser" where
  "handle_con env p =
     (if abierto (conexion p) \<and> conectado (conexion p) then responde_con env p
      else en_con (\<lambda>c. lanza_con System_error ((cancel_deadline_timer c)\<lparr>add_keep_alive := False\<rparr>)) p)"

definition handle_url_con :: "('d, 's) entorno_con \<Rightarrow> ('d, 's) cparser \<Rightarrow> ('d, 's) cparser" where
  "handle_url_con env p =
     (case handle_initial (stod_e env) (router_e env) (req p) (res_c (conexion p)) of
        (found, rb) \<Rightarrow>
          let p1 = deja_res env rb (en_con (\<lambda>c. c\<lparr>routing_handle_result_c := Some found\<rparr>) p)
          in if found_index found = 0 then complete_request env (done_parser (handle_con env) p1) else p1)"

definition handle_header_con :: "('d, 's) cparser \<Rightarrow> ('d, 's) cparser" where
  "handle_header_con p =
     (if http_ver_major (req p) = 1 \<and> http_ver_minor (req p) = 1 \<and>
         get_header_value (req_headers (req p)) ''expect'' = ''100-continue''
      then en_con (\<lambda>c. do_write_con (c\<lparr>continue_requested := True, buffers_c := [''HTTP/1.1 100 Continue'' @ crlf @ crlf]\<rparr>)) p
      else p)"

text \<open>After a failure the parser runs no handler any more.\<close>

definition si_vivo :: "(('d, 's) cparser \<Rightarrow> ('d, 's) cparser) \<Rightarrow> ('d, 's) cparser \<Rightarrow> ('d, 's) cparser" where
  "si_vivo f p = (if fallo_c (conexion p) = None then f p else p)"

definition manejadores_con :: "('d, 's) entorno_con \<Rightarrow> ('d, 's) con manejadores" where
  "manejadores_con env = 
     \<lparr>handle_url = si_vivo (handle_url_con env), handle_header = si_vivo handle_header_con, handle = si_vivo (handle_con env)\<rparr>"

subsection \<open>Completions\<close>

definition con_inicial :: "'s \<Rightarrow> ('d, 's) con" where
  "con_inicial s =
     \<lparr>routing_handle_result_c = None, res_c = response_code 200, close_connection_c = False, buffers_c = [],
      res_body_copy = [], continue_requested = False, need_to_call_after_handlers = False,
      need_to_start_read_after_complete = False, add_keep_alive = False, abierto = True, conectado = True, enviado = [], escrituras = 0,
      lecturas = 0, plazo = False, aplicacion = s, fallo_c = None\<rparr>"

text \<open>\<^verbatim>\<open>start()\<close> of an accepted connection.\<close>

definition start_con :: "('d, 's) cparser \<Rightarrow> ('d, 's) cparser" where
  "start_con p = en_con do_read_con (clear_parser (en_con start_deadline p))"

text \<open>
  The completion of a read, \<open>None\<close> for an error; the result is \<open>None\<close> when the process dies. A failure of a
  handler leaves the completion at once.
\<close>

definition leido :: "('d, 's) entorno_con \<Rightarrow> 64 word \<Rightarrow> string option \<Rightarrow> ('d, 's) cparser \<Rightarrow> ('d, 's) cparser option" where
  "leido env dir datos p0 =
     (let p = en_con (\<lambda>c. c\<lparr>lecturas := lecturas c - 1, fallo_c := None\<rparr>) p0;
          acaba = (\<lambda>q. done_parser (handle_con env) (en_con cancel_deadline_timer q));
          mal = (\<lambda>q. Some (si_vivo (en_con cierra) (acaba q)));
          bien = (\<lambda>q.
            if close_connection_c (conexion q) then Some (acaba q)
            else if \<not> need_to_call_after_handlers (conexion q) then Some (en_con (\<lambda>c. do_read_con (start_deadline c)) q)
            else Some (en_con (\<lambda>c. c\<lparr>need_to_start_read_after_complete := True\<rparr>) q))
      in case datos of
           None \<Rightarrow> mal p
         | Some data \<Rightarrow>
             (case feed (manejadores_con env) dir data p of
                Some (Alimento ret q) \<Rightarrow>
                  if fallo_c (conexion q) \<noteq> None then Some q
                  else if ret \<and> abierto (conexion q) then bien q else mal q
              | _ \<Rightarrow> None))"

text \<open>The completion of an asynchronous write.\<close>

definition escrito :: "bool \<Rightarrow> ('d, 's) cparser \<Rightarrow> ('d, 's) cparser" where
  "escrito ok p0 =
     (let p = en_con (\<lambda>c. c\<lparr>res_c := clear_res (res_c c), res_body_copy := [], escrituras := escrituras c - 1\<rparr>) p0;
          p1 = (if \<not> continue_requested (conexion p) then clear_parser p
                else en_con (\<lambda>c. c\<lparr>continue_requested := False\<rparr>) p)
      in if ok \<and> close_connection_c (conexion p1) then en_con cierra p1 else p1)"

text \<open>The deadline expires.\<close>

definition vence :: "('d, 's) cparser \<Rightarrow> ('d, 's) cparser" where
  "vence p = en_con (\<lambda>c. cierra (c\<lparr>plazo := False\<rparr>)) p"

subsection \<open>The connection is what the parser relies on\<close>

lemma control_de_en [simp]: "control_de (en_con f p) = control_de p" "control_de (en_res g p) = control_de p"
  "control_de (p\<lparr>req := r\<rparr>) = control_de p"
  by (simp_all add: en_con_def en_res_def control_de_def)

lemma respeta_en: "respeta p q \<Longrightarrow> respeta p (en_con f q)" "respeta p q \<Longrightarrow> respeta p (en_res g q)"
  by (simp_all add: respeta_trans [OF _ respeta_control])

lemma respeta_clear: "respeta p (clear_parser p)"
  by (simp add: respeta_def clear_parser_def)

lemma respeta_fin_sincrono: "respeta p (fin_sincrono p)"
  unfolding fin_sincrono_def by (rule respeta_trans [OF respeta_en(1) [OF respeta_refl] respeta_clear])

lemma respeta_complete_request: "respeta p q \<Longrightarrow> respeta p (complete_request env q)"
  unfolding complete_request_def Let_def do_write_static_def do_write_general_def
  by (simp add: respeta_en respeta_trans [OF _ respeta_fin_sincrono])

lemma respeta_deja_res: "respeta p q \<Longrightarrow> respeta p (deja_res env rb q)"
  by (simp add: deja_res_def Let_def respeta_en respeta_complete_request)

lemma respeta_responde_con: "respeta p (responde_con env p)"
proof -
  have "respeta p (en_con f (p\<lparr>req := r\<rparr>))" for f r
    by (intro respeta_en) (simp add: respeta_control)
  then show ?thesis
    unfolding responde_con_def Let_def
    by (simp add: respeta_en respeta_deja_res respeta_complete_request split: sum.split option.split prod.split)
qed

lemma respeta_handle_con: "respeta p (handle_con env p)"
  by (simp add: handle_con_def respeta_responde_con respeta_en)

lemma done_parser_respeta:
  "p_errno (done_parser (handle_con env) p) \<noteq> CHPE_OK \<or> respeta p (done_parser (handle_con env) p)"
proof -
  have "respeta p (on_message_complete (handle_con env) p)"
    unfolding on_message_complete_def
    by (rule respeta_trans [OF respeta_control respeta_handle_con]) (simp add: control_de_def)
  then show ?thesis by (auto simp: done_parser_def split: state.split)
qed

lemma errno_complete_request [simp]: "p_errno (complete_request env p) = p_errno p"
  using respeta_complete_request [of p p env] by (simp add: respeta_def)

lemma respeta_handle_url_con:
  "p_errno (handle_url_con env p) \<noteq> CHPE_OK \<or> respeta p (handle_url_con env p)"
proof -
  obtain found rb where i: "handle_initial (stod_e env) (router_e env) (req p) (res_c (conexion p)) = (found, rb)"
    by (cases "handle_initial (stod_e env) (router_e env) (req p) (res_c (conexion p))") auto
  define p1 where "p1 = deja_res env rb (en_con (\<lambda>c. c\<lparr>routing_handle_result_c := Some found\<rparr>) p)"
  have 1: "respeta p p1" unfolding p1_def by (intro respeta_deja_res respeta_en) simp
  define p2 where "p2 = done_parser (handle_con env) p1"
  have "p_errno p2 \<noteq> CHPE_OK \<or> respeta p p2"
    using done_parser_respeta [of env p1] respeta_trans [OF 1] by (auto simp: p2_def)
  then have "p_errno (complete_request env p2) \<noteq> CHPE_OK \<or> respeta p (complete_request env p2)"
    using respeta_complete_request by auto
  then show ?thesis
    using 1 by (simp add: handle_url_con_def i p1_def [symmetric] p2_def [symmetric] Let_def)
qed

interpretation crow: conexion_http "manejadores_con env" for env
proof
  show "p_errno (handle_url (manejadores_con env) p) \<noteq> CHPE_OK \<or> respeta p (handle_url (manejadores_con env) p)" for p
    using respeta_handle_url_con [of env p] by (simp add: manejadores_con_def si_vivo_def)
  show "control_de (handle_header (manejadores_con env) p) = control_de p" for p
    by (simp add: manejadores_con_def handle_header_con_def si_vivo_def)
  show "respeta p (handle (manejadores_con env) p)" for p
    by (simp add: manejadores_con_def respeta_handle_con si_vivo_def)
qed

subsection \<open>The life of a connection\<close>

text \<open>
  What can happen to a connection from its acceptance: the reads, writes and the deadline that are under way
  complete in any order, the peer resets it (bytes it had sent may still be read), and other connections change the state of the application. A read gives at most
  the 4096 bytes of the buffer; it is taken to bring no null character. A state after undefined behaviour of a
  handler is not counted.
\<close>

definition trozo_ok :: "string option \<Rightarrow> bool" where
  "trozo_ok datos \<longleftrightarrow> (case datos of None \<Rightarrow> True | Some d \<Rightarrow> d \<noteq> [] \<and> length d \<le> 4096 \<and> nul \<notin> set d)"

inductive alcanza :: "('d, 's) entorno_con \<Rightarrow> 's \<Rightarrow> ('d, 's) cparser \<Rightarrow> bool" for env s0 where
  acepta: "alcanza env s0 (start_con (http_parser_init (con_inicial s0)))"
| lee: "\<lbrakk>alcanza env s0 p; 0 < lecturas (conexion p); trozo_ok datos; leido env dir datos p = Some q;
    fallo_c (conexion q) \<noteq> Some Indefinido\<rbrakk> \<Longrightarrow> alcanza env s0 q"
| escribe: "\<lbrakk>alcanza env s0 p; 0 < escrituras (conexion p)\<rbrakk> \<Longrightarrow> alcanza env s0 (escrito ok p)"
| caduca: "\<lbrakk>alcanza env s0 p; plazo (conexion p)\<rbrakk> \<Longrightarrow> alcanza env s0 (vence p)"
| se_va: "alcanza env s0 p \<Longrightarrow> alcanza env s0 (en_con (\<lambda>c. c\<lparr>conectado := False\<rparr>) p)"
| cambia: "alcanza env s0 p \<Longrightarrow> alcanza env s0 (en_con (\<lambda>c. c\<lparr>aplicacion := s\<rparr>) p)"

lemma inv_parser_en [simp]: "inv_parser (en_con f p) = inv_parser p"
  by (cases "pstate p") (simp_all add: inv_parser_def estado_ok_def en_con_def)

lemma inv_parser_simple: "pstate p = s_start_req \<or> pstate p = s_body_identity_eof \<or> p_errno p \<noteq> CHPE_OK \<Longrightarrow> inv_parser p"
  by (auto simp: inv_parser_def estado_ok_def)

lemma inv_parser_done:
  assumes "inv_parser p"
  shows "inv_parser (done_parser (handle_con env) p)"
proof -
  have "inv_parser (on_message_complete (handle_con env) p)" if "pstate p = s_body_identity_eof"
    using respeta_handle_con [of "p\<lparr>message_complete := True\<rparr>" env] that
    by (intro inv_parser_simple) (auto simp: on_message_complete_def respeta_def control_de_def)
  moreover have "inv_parser (p\<lparr>p_errno := CHPE_INVALID_EOF_STATE\<rparr>)" by (simp add: inv_parser_simple)
  ultimately show ?thesis using assms by (auto simp: done_parser_def split: state.split)
qed

lemma feed_ok:
  assumes "inv_parser p" "length d < 2 ^ 64" "nul \<notin> set d"
  shows "\<exists>ret q. feed (manejadores_con env) dir d p = Some (Alimento ret q) \<and> inv_parser q"
proof (cases "message_complete p")
  case False
  then show ?thesis using crow.ejecuta_ok [OF assms, of env dir] by (auto simp: feed_def)
qed (auto simp: feed_def assms(1))

lemma leido_ok:
  assumes "inv_parser p" "trozo_ok datos"
  shows "\<exists>q. leido env dir datos p = Some q \<and> inv_parser q"
proof (cases datos)
  case None
  then show ?thesis using assms(1) by (simp add: leido_def inv_parser_done si_vivo_def Let_def)
next
  case (Some d)
  then have "length d < 2 ^ 64" "nul \<notin> set d" using assms(2) by (simp_all add: trozo_ok_def)
  with feed_ok [of "en_con (\<lambda>c. c\<lparr>lecturas := lecturas c - 1, fallo_c := None\<rparr>) p" d env dir] assms(1)
  obtain ret q where "feed (manejadores_con env) dir d (en_con (\<lambda>c. c\<lparr>lecturas := lecturas c - 1, fallo_c := None\<rparr>) p) =
        Some (Alimento ret q)" "inv_parser q" by auto
  then show ?thesis using Some by (simp add: leido_def inv_parser_done si_vivo_def Let_def)
qed

lemma alcanza_inv: "alcanza env s0 p \<Longrightarrow> inv_parser p"
proof (induction rule: alcanza.induct)
  case (lee p datos dir q)
  then show ?case using leido_ok [of p datos env dir] by auto
qed (simp_all add: start_con_def escrito_def vence_def inv_parser_clear Let_def)

text \<open>C9. No sequence of events on a connection can fail an assertion of the parser: in every state that a
  connection reaches from its acceptance by reads without null characters, write completions, the deadline, a
  reset by the peer and changes of the application, the next read, whatever it brings, is processed to its end, and so is every
  other event; the states the parser can be in then are well formed.\<close>

theorem conexion_viva:
  assumes "alcanza env s0 p" "trozo_ok datos"
  shows "inv_parser p \<and> (\<exists>q. leido env dir datos p = Some q \<and> inv_parser q)"
  using alcanza_inv [OF assms(1)] leido_ok assms(2) by blast

theorem conexion_viva_testigo:
  "\<exists>q. leido \<lparr>stod_e = \<lambda>_. None :: (nat \<times> nat) option, router_e = router_nuevo, server_name = ''Crow/master'', date_str = [],
      peer_ip = ''127.0.0.1'', res_stream_threshold = 1048576, contenido = \<lambda>_. []\<rparr> 0 (Some ''GET /'')
     (start_con (http_parser_init (con_inicial (0 :: nat)))) = Some q \<and> inv_parser q"
proof -
  have "trozo_ok (Some ''GET /'')" by (simp add: trozo_ok_def)
  show ?thesis by (rule conexion_viva [OF alcanza.acepta \<open>trozo_ok _\<close>, THEN conjunct2])
qed

end
