(* ===== verification/Estatico.thy ===== *)
theory Estatico
  imports Http
begin

text \<open>
  Files served by Crow itself: the route \<^verbatim>\<open>/static/<path>\<close> that \<^verbatim>\<open>Crow::validate\<close> adds to every application,
  \<^verbatim>\<open>sanitize_filename\<close> and \<^verbatim>\<open>set_static_file_info_unsafe\<close> of \<^verbatim>\<open>includes/crow_all.h\<close>. What \<^verbatim>\<open>stat\<close> says of
  a path is an argument: the size of a regular file, or nothing.
\<close>

subsection \<open>Cleaning a file name\<close>

definition es_separador :: "char \<Rightarrow> bool" where
  "es_separador c \<longleftrightarrow> c = CHR ''/'' \<or> c = CHR 0x5C"

text \<open>What follows a pattern of capitals at the head of the text, compared without case.\<close>

fun tras_patron :: "string \<Rightarrow> string \<Rightarrow> string option" where
  "tras_patron [] s = Some s"
| "tras_patron (p # ps) [] = None"
| "tras_patron (p # ps) (c # s) = (if toupper c \<noteq> p then None else tras_patron ps s)"

definition sanitizeSpecialFile :: "char \<Rightarrow> string \<Rightarrow> bool \<Rightarrow> string \<Rightarrow> string" where
  "sanitizeSpecialFile replacement pattern includeNumber source =
     (case tras_patron pattern source of
        None \<Rightarrow> source
      | Some r \<Rightarrow>
          (case (if includeNumber
                 then (case r of [] \<Rightarrow> None | d # r' \<Rightarrow> if d < CHR ''1'' \<or> CHR ''9'' < d then None else Some r')
                 else Some r) of
             None \<Rightarrow> source
           | Some r' \<Rightarrow>
               if r' = [] \<or> hd r' = CHR ''.'' \<or> hd r' = CHR '':'' \<or> es_separador (hd r') then replacement # r'
               else source))"

definition entrada_especial :: "char \<Rightarrow> string \<Rightarrow> string" where
  "entrada_especial replacement data =
     (let c = toupper (hd data) in
      if c = CHR ''A'' then sanitizeSpecialFile replacement ''AUX'' False data
      else if c = CHR ''C'' then
        sanitizeSpecialFile replacement ''COM'' True (sanitizeSpecialFile replacement ''CON'' False data)
      else if c = CHR ''L'' then sanitizeSpecialFile replacement ''LPT'' True data
      else if c = CHR ''N'' then sanitizeSpecialFile replacement ''NUL'' False data
      else if c = CHR ''P'' then sanitizeSpecialFile replacement ''PRN'' False data
      else if c = CHR ''.'' then sanitizeSpecialFile replacement ''..'' False data
      else data)"

definition caracter_malo :: "char \<Rightarrow> bool" where
  "caracter_malo c \<longleftrightarrow>
     c < CHR '' '' \<or> (CHR 0x80 \<le> c \<and> c \<le> CHR 0x9F) \<or> c = CHR ''?'' \<or> c = CHR ''<'' \<or> c = CHR ''>'' \<or>
     c = CHR '':'' \<or> c = CHR ''*'' \<or> c = CHR ''|'' \<or> c = CHR 0x22"

lemma tras_patron_corto: "tras_patron ps s = Some r \<Longrightarrow> length r + length ps = length s"
  by (induction ps s rule: tras_patron.induct) (auto split: if_splits)

lemma sanitizeSpecialFile_corto:
  assumes "pattern \<noteq> []"
  shows "length (sanitizeSpecialFile replacement pattern n s) \<le> length s"
  using assms tras_patron_corto [of pattern s]
  by (cases pattern) (auto simp: sanitizeSpecialFile_def split: option.split list.split)

lemma entrada_especial_corto: "length (entrada_especial replacement s) \<le> length s"
proof -
  have "length (sanitizeSpecialFile replacement ''COM'' True (sanitizeSpecialFile replacement ''CON'' False s)) \<le>
      length (sanitizeSpecialFile replacement ''CON'' False s)"
    by (rule sanitizeSpecialFile_corto) simp
  then show ?thesis
    unfolding entrada_especial_def Let_def
    using sanitizeSpecialFile_corto [of "''AUX''" replacement False s] sanitizeSpecialFile_corto [of "''CON''" replacement False s]
      sanitizeSpecialFile_corto [of "''LPT''" replacement True s] sanitizeSpecialFile_corto [of "''NUL''" replacement False s]
      sanitizeSpecialFile_corto [of "''PRN''" replacement False s] sanitizeSpecialFile_corto [of "''..''" replacement False s]
    by auto
qed

lemma resto_especial_corto: "length (tl (entrada_especial replacement (c # s))) \<le> length s"
  using entrada_especial_corto [of replacement "c # s"] by simp

text \<open>
  The loop at position \<open>i\<close> with the rest of the name from there; the flag is
  \<^verbatim>\<open>checkForSpecialEntries\<close>.
\<close>

function sanitiza_desde :: "char \<Rightarrow> nat \<Rightarrow> bool \<Rightarrow> string \<Rightarrow> string" where
  "sanitiza_desde replacement i chk [] = []"
| "sanitiza_desde replacement i chk (c # s) =
     (let data = (if chk then entrada_especial replacement (c # s) else c # s);
          d = hd data; resto = tl data
      in
      if caracter_malo d then replacement # sanitiza_desde replacement (i + 1) False resto
      else if es_separador d then
        (if i = 0 then replacement # sanitiza_desde replacement (i + 1) False resto
         else d # sanitiza_desde replacement (i + 1) True resto)
      else d # sanitiza_desde replacement (i + 1) False resto)"
  by pat_completeness auto
termination
  by (relation "measure (\<lambda>(replacement, i, chk, s). length s)")
    (simp_all add: le_imp_less_Suc resto_especial_corto del: length_tl)

definition sanitize_filename :: "char \<Rightarrow> string \<Rightarrow> string" where
  "sanitize_filename replacement data = sanitiza_desde replacement 0 True (take 255 data)"


subsection \<open>Serving a file\<close>

definition CROW_STATIC_DIRECTORY :: string where
  "CROW_STATIC_DIRECTORY = ''static/''"

definition CROW_STATIC_ENDPOINT :: string where
  "CROW_STATIC_ENDPOINT = ''/static/<path>''"

text \<open>\<^verbatim>\<open>path.substr(path.find_last_of(".") + 1)\<close>: the whole path when it has no dot.\<close>

definition extension_de :: "string \<Rightarrow> string" where
  "extension_de path = rev (takeWhile (\<lambda>c. c \<noteq> CHR ''.'') (rev path))"

definition set_static_file_info_unsafe ::
    "(string \<Rightarrow> nat option) \<Rightarrow> (string \<rightharpoonup> string) \<Rightarrow> string \<Rightarrow> response \<Rightarrow> response" where
  "set_static_file_info_unsafe stat mime_types path res =
     (let res1 = res\<lparr>file_path := path\<rparr> in
      case stat path of
        Some tam \<Rightarrow>
          (let extension = extension_de path;
               res2 = add_header ''Content-Length'' (decimal tam) (res1\<lparr>code := 200\<rparr>)
           in if extension \<noteq> [] then add_header ''Content-Type'' (get_mime_type mime_types extension) res2 else res2)
      | None \<Rightarrow> res1\<lparr>code := 404, file_path := []\<rparr>)"

definition set_static_file_info ::
    "(string \<Rightarrow> nat option) \<Rightarrow> (string \<rightharpoonup> string) \<Rightarrow> string \<Rightarrow> response \<Rightarrow> response" where
  "set_static_file_info stat mime_types path res =
     set_static_file_info_unsafe stat mime_types (sanitize_filename (CHR ''_'') path) res"

text \<open>The directory ends in a slash, whatever the macro says.\<close>

definition static_dir :: "string \<Rightarrow> string" where
  "static_dir d =
     (let e = map (\<lambda>c. if c = CHR 0x5C then CHR ''/'' else c) d in if e = [] \<or> last e \<noteq> CHR ''/'' then e @ ''/'' else e)"

definition ruta_static ::
    "(string \<Rightarrow> nat option) \<Rightarrow> (string \<rightharpoonup> string) \<Rightarrow> string \<Rightarrow> response \<Rightarrow> response \<times> bool" where
  "ruta_static stat mime_types file_path_partial res =
     end_res (set_static_file_info_unsafe stat mime_types
       (static_dir CROW_STATIC_DIRECTORY @ sanitize_filename (CHR ''_'') file_path_partial) res)"

subsection \<open>No way out of the directory\<close>

text \<open>A path climbs when one of its components, between separators, is the parent directory.\<close>

definition sube :: "string \<Rightarrow> bool" where
  "sube s \<longleftrightarrow>
     (\<exists>a r. s = a @ ''..'' @ r \<and> (a = [] \<or> es_separador (last a)) \<and> (r = [] \<or> es_separador (hd r)))"

lemma toupper_punto: "toupper c = CHR ''.'' \<longleftrightarrow> c = CHR ''.''"
proof
  assume t: "toupper c = CHR ''.''"
  show "c = CHR ''.''"
  proof (rule ccontr)
    assume "c \<noteq> CHR ''.''"
    with t have r: "CHR ''a'' \<le> c" "c \<le> CHR ''z''" and e: "char_of (of_char c - 32 :: nat) = CHR ''.''"
      by (auto simp: toupper_def split: if_splits)
    have "(of_char c :: nat) < 256" by (rule nat_of_char_less_256)
    then have "((of_char c :: nat) - 32) mod 256 = of_char c - 32" by (intro mod_less) linarith
    then have "(of_char c :: nat) - 32 = 46"
      using arg_cong [of _ _ "of_char :: char \<Rightarrow> nat", OF e] by simp
    moreover have "(97 :: nat) \<le> of_char c" using r(1) by (simp add: less_eq_char_def)
    ultimately show False by simp
  qed
qed (simp add: toupper_def less_eq_char_def)


text \<open>A special entry is left alone or loses its first character.\<close>

lemma sanitizeSpecialFile_cabeza:
  "sanitizeSpecialFile x p n t = t \<or> (\<exists>r. sanitizeSpecialFile x p n t = x # r)"
  by (auto simp: sanitizeSpecialFile_def split: option.split list.split)

lemma entrada_especial_cabeza: "entrada_especial x s = s \<or> (\<exists>r. entrada_especial x s = x # r)"
proof -
  define P where "P t \<longleftrightarrow> t = s \<or> (\<exists>r. t = x # r)" for t
  have "P s" and p: "P t \<Longrightarrow> P (sanitizeSpecialFile x p n t)" for p n t
    using sanitizeSpecialFile_cabeza [of x p n t] by (auto simp: P_def)
  then have "P (entrada_especial x s)" unfolding entrada_especial_def Let_def by simp
  then show ?thesis by (simp add: P_def)
qed

text \<open>The special entry of two dots never survives at the head.\<close>

lemma entrada_especial_puntos:
  assumes "entrada_especial x (c # s) = ''..'' @ r" "r = [] \<or> es_separador (hd r)" "x \<noteq> CHR ''.''"
  shows False
proof -
  have cs: "c # s = ''..'' @ r" using entrada_especial_cabeza [of x "c # s"] assms(1,3) by auto
  then have "entrada_especial x (c # s) = sanitizeSpecialFile x ''..'' False (c # s)"
    by (simp add: entrada_especial_def toupper_punto toupper_def less_eq_char_def Let_def)
  also have "\<dots> = x # r" using assms(2) unfolding cs by (auto simp: sanitizeSpecialFile_def toupper_punto)
  finally show False using assms(1,3) by simp
qed

text \<open>One turn of the loop.\<close>

lemma sanitiza_paso:
  obtains (cambia) d resto where "(if chk then entrada_especial x (c # s) else c # s) = d # resto"
      "sanitiza_desde x i chk (c # s) = x # sanitiza_desde x (i + 1) False resto"
  | (separa) d resto where "(if chk then entrada_especial x (c # s) else c # s) = d # resto" "es_separador d" "0 < i"
      "sanitiza_desde x i chk (c # s) = d # sanitiza_desde x (i + 1) True resto"
  | (copia) d resto where "(if chk then entrada_especial x (c # s) else c # s) = d # resto" "\<not> es_separador d"
      "sanitiza_desde x i chk (c # s) = d # sanitiza_desde x (i + 1) False resto"
proof -
  define data where "data = (if chk then entrada_especial x (c # s) else c # s)"
  have "data \<noteq> []" using entrada_especial_cabeza [of x "c # s"] by (auto simp: data_def)
  then obtain d resto where d: "data = d # resto" by (cases data) auto
  have "sanitiza_desde x i chk (c # s) =
      (if caracter_malo d then x # sanitiza_desde x (i + 1) False resto
       else if es_separador d then
         (if i = 0 then x # sanitiza_desde x (i + 1) False resto else d # sanitiza_desde x (i + 1) True resto)
       else d # sanitiza_desde x (i + 1) False resto)"
    by (simp add: data_def [symmetric] d Let_def del: Suc_eq_plus1)
  then show thesis using that d unfolding data_def by (metis gr0I)
qed

declare sanitiza_desde.simps(2) [simp del]

text \<open>A character of the result that is not the replacement is the one that was read.\<close>

lemma sanitiza_cabeza:
  assumes "sanitiza_desde x i False s = y # t" "y \<noteq> x"
  obtains t' chk' where "s = y # t'" "sanitiza_desde x (i + 1) chk' t' = t" "chk' \<longrightarrow> es_separador y"
proof (cases s)
  case (Cons c u)
  show thesis
    using assms that unfolding Cons
    by (cases rule: sanitiza_paso [of False x c u i]) auto
qed (use assms in simp)

lemma sanitiza_vacia: "sanitiza_desde x i chk s = [] \<longleftrightarrow> s = []"
proof (cases s)
  case (Cons c u)
  show ?thesis unfolding Cons by (cases rule: sanitiza_paso [of chk x c u i]) auto
qed simp

lemma sanitiza_primera:
  assumes "sanitiza_desde x i True s = ''..'' @ r" "r = [] \<or> es_separador (hd r)" "x \<noteq> CHR ''.''" "\<not> es_separador x"
  shows False
proof (cases s)
  case (Cons c u)
  have "\<exists>resto. entrada_especial x (c # u) = CHR ''.'' # resto \<and> sanitiza_desde x (i + 1) False resto = CHR ''.'' # r"
    using assms(1,3) unfolding Cons
    by (cases rule: sanitiza_paso [of True x c u i]) (auto simp: es_separador_def)
  then obtain resto where 1: "entrada_especial x (c # u) = CHR ''.'' # resto"
    "sanitiza_desde x (i + 1) False resto = CHR ''.'' # r" by blast
  from sanitiza_cabeza [OF 1(2)] assms(3) obtain t where t: "resto = CHR ''.'' # t" "sanitiza_desde x (i + 2) False t = r"
    by (auto simp: es_separador_def)
  have "t = [] \<or> es_separador (hd t)"
  proof (cases r)
    case Nil
    then show ?thesis using t(2) by (simp add: sanitiza_vacia)
  next
    case (Cons y r')
    then have "es_separador y" "y \<noteq> x" using assms(2,4) by auto
    with sanitiza_cabeza [of x "i + 2" t y r'] t(2) Cons show ?thesis by (metis list.sel(1))
  qed
  with 1(1) t(1) assms(3) entrada_especial_puntos [of x c u t] show False by simp
qed (use assms in simp)

lemma sanitiza_no_sube:
  assumes "sanitiza_desde x i chk s = a @ ''..'' @ r" "r = [] \<or> es_separador (hd r)"
    and "if a = [] then chk else es_separador (last a)" "x \<noteq> CHR ''.''" "\<not> es_separador x"
  shows False
  using assms(1,3)
proof (induction a arbitrary: i chk s)
  case Nil
  then show False using sanitiza_primera [OF _ assms(2,4,5)] by simp
next
  case (Cons y a)
  then obtain c u where s: "s = c # u" by (cases s) auto
  obtain i' chk' s' where 1: "sanitiza_desde x i' chk' s' = a @ ''..'' @ r" "y \<noteq> x \<Longrightarrow> es_separador y \<Longrightarrow> chk'"
    using Cons.prems(1) unfolding s
    by (cases rule: sanitiza_paso [of chk x c u i]) auto
  show False
  proof (cases "a = []")
    case True
    then have "es_separador y" using Cons.prems(2) by simp
    then show False using Cons.IH [OF 1(1)] 1(2) assms(5) True by auto
  next
    case False
    then show False using Cons.IH [OF 1(1)] Cons.prems(2) by simp
  qed
qed

lemma sanitiza_primer_caracter: "\<not> es_separador x \<Longrightarrow> sanitiza_desde x 0 chk s = y # t \<Longrightarrow> \<not> es_separador y"
proof (cases s)
  case (Cons c u)
  assume "\<not> es_separador x" "sanitiza_desde x 0 chk s = y # t"
  then show ?thesis unfolding Cons by (cases rule: sanitiza_paso [of chk x c u 0]) auto
qed simp

text \<open>C32. No way out of the static directory: whatever path a client asks for, the name that
  \<^verbatim>\<open>sanitize_filename\<close> leaves has no component \<^verbatim>\<open>..\<close>, with either separator, and does not start with a
  separator; so every file that the route \<^verbatim>\<open>/static/<path>\<close> answers with lies below \<^verbatim>\<open>static/\<close>.\<close>

theorem estatico_sin_salida:
  "let f = sanitize_filename (CHR ''_'') p in
     file_path (fst (ruta_static stat mt p res)) = (if stat (''static/'' @ f) = None then [] else ''static/'' @ f) \<and>
     \<not> sube f \<and> takeWhile es_separador f = []"
proof -
  define f where "f = sanitize_filename (CHR ''_'') p"
  have "static_dir CROW_STATIC_DIRECTORY = ''static/''" by (simp add: static_dir_def CROW_STATIC_DIRECTORY_def)
  then have "file_path (fst (ruta_static stat mt p res)) = (if stat (''static/'' @ f) = None then [] else ''static/'' @ f)"
    unfolding ruta_static_def f_def [symmetric]
    by (auto simp: set_static_file_info_unsafe_def end_res_def add_header_def set_header_def Let_def split: option.split)
  moreover have "\<not> sube f"
  proof
    assume "sube f"
    then obtain a r where a: "sanitiza_desde (CHR ''_'') 0 True (take 255 p) = a @ ''..'' @ r"
        "a = [] \<or> es_separador (last a)" "r = [] \<or> es_separador (hd r)"
      unfolding sube_def f_def sanitize_filename_def by blast
    then have "if a = [] then True else es_separador (last a)" by auto
    from sanitiza_no_sube [OF a(1,3) this] show False by (simp add: es_separador_def)
  qed
  moreover have "takeWhile es_separador f = []"
    using sanitiza_primer_caracter [of "CHR ''_''" True "take 255 p"]
    by (cases f) (auto simp: f_def sanitize_filename_def es_separador_def)
  ultimately show ?thesis unfolding f_def by (simp add: Let_def)
qed

end
