(* ===== verification/Aplicacion.thy ===== *)
theory Aplicacion
  imports Router Estatico ServidorWeb
begin

text \<open>
  The web application of \<^verbatim>\<open>servidor.cpp\<close> on Crow's router: the four routes of \<^verbatim>\<open>servidor_crow_handler\<close> and the
  route \<^verbatim>\<open>/static/<path>\<close> that \<^verbatim>\<open>Crow::validate\<close> adds, their registration, and what each request does
  to the store. The state is the store. The rendering of \<^verbatim>\<open>/perfil\<close>, the conversion \<^verbatim>\<open>strtod\<close>, \<^verbatim>\<open>stat\<close> and
  the table of MIME types are arguments.
\<close>

subsection \<open>Routes\<close>

text \<open>\<open>Inl\<close>: the route does not compile.\<close>

definition CROW_ROUTE :: "string \<Rightarrow> ('d, 's) regla res" where
  "CROW_ROUTE u =
     (case get_parameter_tag u of
        Inl _ \<Rightarrow> Inl Indefinido
      | Inr t \<Rightarrow> (case arguments t of None \<Rightarrow> Inl Indefinido | Some ts \<Rightarrow> Inr (nueva_regla u ts)))"

text \<open>A handler that returns a string or fails, as a function of the store.\<close>

definition con_texto ::
    "(string \<times> almacen_direcciones) res \<Rightarrow> almacen_direcciones \<Rightarrow> response res \<times> almacen_direcciones" where
  "con_texto x alm = (case x of Inl e \<Rightarrow> (Inl e, alm) | Inr (b, alm') \<Rightarrow> (Inr (response_body b), alm'))"

definition manejador_inicio :: "request \<Rightarrow> 'd valor list \<Rightarrow> almacen_direcciones \<Rightarrow> response res \<times> almacen_direcciones" where
  "manejador_inicio req vs alm = con_texto (bindE (ruta_inicio alm) (\<lambda>b. Inr (b, alm))) alm"

definition manejador_guardar :: "request \<Rightarrow> 'd valor list \<Rightarrow> almacen_direcciones \<Rightarrow> response res \<times> almacen_direcciones" where
  "manejador_guardar req vs alm = con_texto (ruta_guardar (req_body req) alm) alm"

definition manejador_agregar :: "request \<Rightarrow> 'd valor list \<Rightarrow> almacen_direcciones \<Rightarrow> response res \<times> almacen_direcciones" where
  "manejador_agregar req vs alm =
     (case vs of
        [V_string f, V_string ip, V_string p] \<Rightarrow> con_texto (ruta_agregar_fichero f ip p alm) alm
      | _ \<Rightarrow> (Inl Indefinido, alm))"

definition manejador_perfil ::
    "response res \<Rightarrow> request \<Rightarrow> 'd valor list \<Rightarrow> almacen_direcciones \<Rightarrow> response res \<times> almacen_direcciones" where
  "manejador_perfil perfil req vs alm = (perfil, alm)"

definition manejador_static ::
    "(string \<Rightarrow> nat option) \<Rightarrow> (string \<rightharpoonup> string) \<Rightarrow> ('d, almacen_direcciones) manejador_ruta" where
  "manejador_static stat mt req res vs alm =
     (case vs of [V_string p] \<Rightarrow> (Inr (ruta_static stat mt p res), alm) | _ \<Rightarrow> (Inl Indefinido, alm))"

definition con_manejador_de :: "('d, 's) manejador_ruta \<Rightarrow> ('d, 's) regla res \<Rightarrow> ('d, 's) regla res" where
  "con_manejador_de h r = bindE r (\<lambda>r. Inr (r\<lparr>rule_handler := Some h\<rparr>))"

definition rutas_app ::
    "response res \<Rightarrow> (string \<Rightarrow> nat option) \<Rightarrow> (string \<rightharpoonup> string) \<Rightarrow> ('d, almacen_direcciones) regla list res" where
  "rutas_app perfil stat mt =
     bindE (con_manejador_de (wrapped_handler_call manejador_inicio) (CROW_ROUTE ''/'')) (\<lambda>r1.
     bindE (con_manejador_de (wrapped_handler_call manejador_guardar) (bindE (CROW_ROUTE ''/guardar'') (con_metodo Post))) (\<lambda>r2.
     bindE (con_manejador_de (wrapped_handler_call (manejador_perfil perfil)) (CROW_ROUTE ''/perfil'')) (\<lambda>r3.
     bindE (con_manejador_de (wrapped_handler_call manejador_agregar)
       (CROW_ROUTE ''/agregar_fichero/<string>/<string>/<string>'')) (\<lambda>r4.
     bindE (con_manejador_de (manejador_static stat mt) (CROW_ROUTE CROW_STATIC_ENDPOINT)) (\<lambda>r5.
     Inr [r1, r2, r3, r4, r5])))))"

text \<open>\<^verbatim>\<open>Crow::validate\<close> on the routes of the program.\<close>

definition inicia_app ::
    "response res \<Rightarrow> (string \<Rightarrow> nat option) \<Rightarrow> (string \<rightharpoonup> string) \<Rightarrow>
     (validate_fallo + ('d, almacen_direcciones) router) res" where
  "inicia_app perfil stat mt =
     bindE (rutas_app perfil stat mt) (\<lambda>rs. Inr (validate_router (router_nuevo\<lparr>all_rules := rs\<rparr>)))"

subsection \<open>The routes are well formed\<close>

definition texto :: "string \<Rightarrow> elem list" where
  "texto w = map (\<lambda>c. (P_MAX, [c])) w"

lemma elems_rutas:
  "elems_url ''/'' = Some (texto ''/'')" "elems_url ''/guardar'' = Some (texto ''/guardar'')"
  "elems_url ''/perfil'' = Some (texto ''/perfil'')"
  "elems_url ''/agregar_fichero/<string>/<string>/<string>'' =
     Some (texto ''/agregar_fichero/'' @ [(P_STRING, []), (P_MAX, ''/''), (P_STRING, []), (P_MAX, ''/''), (P_STRING, [])])"
  "elems_url ''/static/<path>'' = Some (texto ''/static/'' @ [(P_PATH, [])])"
  by (simp_all add: texto_def evalua_trie)


lemma params_texto: "params_de (texto w @ es) = params_de es" "tipos (texto w @ es) = tipos es"
  by (induction w) (simp_all add: texto_def)

lemma CROW_ROUTE_eq:
  assumes "elems_url u = Some es" "length (params_de es) \<le> 24"
  shows "CROW_ROUTE u = Inr (nueva_regla u (tipos es))"
proof -
  have "P_MAX \<notin> set (params_de es)" by (simp add: params_de_def)
  then have "arguments (of_nat (etiqueta (params_de es))) = Some (tipos es)"
    using arguments_etiqueta [OF assms(2)] by (simp add: map_filter_params_de)
  then show ?thesis using assms(1) by (simp add: CROW_ROUTE_def get_parameter_tag_elems)
qed

lemma tipos_rutas:
  "CROW_ROUTE ''/'' = Inr (nueva_regla ''/'' [])"
  "CROW_ROUTE ''/guardar'' = Inr (nueva_regla ''/guardar'' [])"
  "CROW_ROUTE ''/perfil'' = Inr (nueva_regla ''/perfil'' [])"
  "CROW_ROUTE ''/agregar_fichero/<string>/<string>/<string>'' =
     Inr (nueva_regla ''/agregar_fichero/<string>/<string>/<string>'' [A_string, A_string, A_string])"
  "CROW_ROUTE ''/static/<path>'' = Inr (nueva_regla ''/static/<path>'' [A_string])"
proof -
  have t: "params_de (texto w) = []" "tipos (texto w) = []" for w using params_texto [of w "[]"] by simp_all
  show "CROW_ROUTE ''/'' = Inr (nueva_regla ''/'' [])"
    using CROW_ROUTE_eq [OF elems_rutas(1)] by (simp add: t)
  show "CROW_ROUTE ''/guardar'' = Inr (nueva_regla ''/guardar'' [])"
    using CROW_ROUTE_eq [OF elems_rutas(2)] by (simp add: t)
  show "CROW_ROUTE ''/perfil'' = Inr (nueva_regla ''/perfil'' [])"
    using CROW_ROUTE_eq [OF elems_rutas(3)] by (simp add: t)
  show "CROW_ROUTE ''/agregar_fichero/<string>/<string>/<string>'' =
     Inr (nueva_regla ''/agregar_fichero/<string>/<string>/<string>'' [A_string, A_string, A_string])"
    using CROW_ROUTE_eq [OF elems_rutas(4)] by (simp add: params_texto)
  show "CROW_ROUTE ''/static/<path>'' = Inr (nueva_regla ''/static/<path>'' [A_string])"
    using CROW_ROUTE_eq [OF elems_rutas(5)] by (simp add: params_texto)
qed

text \<open>The five rules as they are registered.\<close>

definition regla_de ::
    "string \<Rightarrow> HTTPMethod \<Rightarrow> tipo_arg list \<Rightarrow> ('d, 's) manejador_ruta \<Rightarrow> ('d, 's) regla" where
  "regla_de u m ts h =
     \<lparr>rule_url = u, metodos_mascara = push_bit (numero m) 1, rule_name = [], args_tipos = ts, rule_handler = Some h\<rparr>"

definition reglas_app ::
    "response res \<Rightarrow> (string \<Rightarrow> nat option) \<Rightarrow> (string \<rightharpoonup> string) \<Rightarrow> ('d, almacen_direcciones) regla list" where
  "reglas_app perfil stat mt =
     [regla_de ''/'' Get [] (wrapped_handler_call manejador_inicio),
      regla_de ''/guardar'' Post [] (wrapped_handler_call manejador_guardar),
      regla_de ''/perfil'' Get [] (wrapped_handler_call (manejador_perfil perfil)),
      regla_de ''/agregar_fichero/<string>/<string>/<string>'' Get [A_string, A_string, A_string]
        (wrapped_handler_call manejador_agregar),
      regla_de ''/static/<path>'' Get [A_string] (manejador_static stat mt)]"

lemma numero_simps: "numero Get = 1" "numero Post = 3" "numero Head = 2"
  by (simp_all add: numero_def metodos_def)

lemma rutas_app_eq: "rutas_app perfil stat mt = Inr (reglas_app perfil stat mt)"
  by (simp add: rutas_app_def reglas_app_def regla_de_def con_manejador_de_def tipos_rutas CROW_STATIC_ENDPOINT_def
      nueva_regla_def con_metodo_def numero_simps)

lemma bit_unico: "(2 :: uint32) ^ n AND 2 ^ i \<noteq> 0 \<longleftrightarrow> n = i \<and> n < 32"
  unfolding bit_eq_iff [of "(2 :: uint32) ^ n AND 2 ^ i" 0] by (auto simp: bit_and_iff bit_exp_iff possible_bit_def)

lemma foreach_regla_de: "numero m < 32 \<Longrightarrow> set (foreach_method (regla_de u m ts h)) = {numero m}"
  by (auto simp: foreach_method_def regla_de_def bit_unico length_metodos)

lemma patron_regla_de: "elems_url u = Some es \<Longrightarrow> patron_de (regla_de u m ts h) = es"
  by (simp add: patron_de_def regla_de_def)

lemmas patrones_app =
  elems_rutas [THEN patron_regla_de]

lemma de_metodo_app:
  "de_metodo i (reglas_app perfil stat mt) =
     (if i = numero Get then
        [regla_de ''/'' Get [] (wrapped_handler_call manejador_inicio),
         regla_de ''/perfil'' Get [] (wrapped_handler_call (manejador_perfil perfil)),
         regla_de ''/agregar_fichero/<string>/<string>/<string>'' Get [A_string, A_string, A_string]
           (wrapped_handler_call manejador_agregar),
         regla_de ''/static/<path>'' Get [A_string] (manejador_static stat mt)]
      else if i = numero Post then [regla_de ''/guardar'' Post [] (wrapped_handler_call manejador_guardar)]
      else [])"
  by (simp add: de_metodo_def reglas_app_def foreach_regla_de numero_simps)

lemma reglas_app_ok: "reglas_ok (reglas_app perfil stat mt)"
proof -
  have "list_all regla_ok (reglas_app perfil stat mt)"
    by (simp add: reglas_app_def regla_ok_def regla_de_def validate_rule_def barra_final_def elems_rutas del: elems_url.simps)
  moreover have "distinct (map patron_de (de_metodo i (reglas_app perfil stat mt)))" for i
    unfolding de_metodo_app by (simp add: patrones_app texto_def)
  moreover have "length (reglas_app perfil stat mt) + 2 < 2 ^ 16" by (simp add: reglas_app_def)
  ultimately show ?thesis unfolding reglas_ok_def by blast
qed


subsection \<open>Matching the routes\<close>

lemma casa_prefijo:
  assumes "pos \<le> length u"
  shows "casa sd u pos ps (texto w @ es) =
    (if empieza w (drop pos u) then casa sd u (pos + length w) ps es else None)"
  using assms
proof (induction w arbitrary: pos)
  case Nil
  then show ?case by (simp add: texto_def empieza_def)
next
  case (Cons c w)
  show ?case
  proof (cases "drop pos u")
    case Nil
    then show ?thesis using Cons.prems by (simp add: texto_def empieza_def)
  next
    case d: (Cons x t)
    then have pos: "pos < length u" by (metis drop_all linorder_not_le list.distinct(1))
    have "drop (Suc pos) u = t" using d by (metis drop_Suc drop_tl list.sel(3))
    with pos show ?thesis
      using Cons.IH [of "Suc pos"] d by (auto simp: texto_def consume_texto empieza_Cons empieza_def)
  qed
qed

lemma casa_todo: "casa sd u 0 ps (texto w) = (if u = w then Some ps else None)"
proof -
  have "casa sd u 0 ps (texto w) = (if empieza w u then casa sd u (length w) ps [] else None)"
    using casa_prefijo [of 0 u sd ps w "[]"] by simp
  then show ?thesis by (auto simp: empieza_def)
qed

lemma casa_string:
  assumes "drop pos u = w @ r" "w \<noteq> []" "CHR ''/'' \<notin> set w" "r = [] \<or> hd r = CHR ''/''"
  shows "casa sd u pos ps ((P_STRING, []) # es) =
    casa sd u (pos + length w) (ps\<lparr>string_params := string_params ps @ [w]\<rparr>) es"
proof -
  have "takeWhile (\<lambda>c. c \<noteq> CHR ''/'') (w @ r) = w"
    using assms(3,4) by (intro takeWhile_stop) (auto simp: list_all_iff)
  moreover have "pos \<noteq> length u" using assms(1,2) by auto
  ultimately show ?thesis
    using assms(1,2) by (simp add: consume_elem_def consume_param_def Let_def)
qed

lemma casa_barra:
  assumes "drop pos u = CHR ''/'' # r"
  shows "casa sd u pos ps ((P_MAX, ''/'') # es) = casa sd u (pos + 1) ps es"
  using assms casa_prefijo [of pos u sd ps "''/''" es]
  by (cases "pos \<le> length u") (auto simp: texto_def empieza_def)

text \<open>A name, an address and a port as path components.\<close>

definition segmento :: "string \<Rightarrow> bool" where
  "segmento w \<longleftrightarrow> w \<noteq> [] \<and> CHR ''/'' \<notin> set w"

lemma string_params_sin: "string_params sin_params = []"
  by (simp add: sin_params_def)

lemma casa_tres:
  assumes "segmento f" "segmento ip" "segmento p" "u = w @ f @ ''/'' @ ip @ ''/'' @ p"
  shows "casa sd u 0 sin_params (texto w @ [(P_STRING, []), (P_MAX, ''/''), (P_STRING, []), (P_MAX, ''/''), (P_STRING, [])]) =
   Some (sin_params\<lparr>string_params := [f, ip, p]\<rparr>)"
proof -
  define n where "n = length w"
  note casa.simps(2) [simp del]
  have d: "drop n u = f @ ''/'' @ ip @ ''/'' @ p" "drop (n + length f) u = CHR ''/'' # ip @ ''/'' @ p"
    "drop (n + length f + 1) u = ip @ ''/'' @ p" "drop (n + length f + 1 + length ip) u = CHR ''/'' # p"
    "drop (n + length f + 1 + length ip + 1) u = p @ []" "n + length f + 1 + length ip + 1 + length p = length u"
    using assms(4) by (simp_all add: n_def)
  have "casa sd u 0 sin_params (texto w @ [(P_STRING, []), (P_MAX, ''/''), (P_STRING, []), (P_MAX, ''/''), (P_STRING, [])]) =
     casa sd u n sin_params [(P_STRING, []), (P_MAX, ''/''), (P_STRING, []), (P_MAX, ''/''), (P_STRING, [])]"
    using casa_prefijo [of 0 u sd sin_params w] assms(4) by (simp add: empieza_def n_def)
  also have "\<dots> = casa sd u (n + length f) (sin_params\<lparr>string_params := [f]\<rparr>)
     [(P_MAX, ''/''), (P_STRING, []), (P_MAX, ''/''), (P_STRING, [])]"
    using casa_string [OF d(1), where sd = sd] assms(1) by (simp add: segmento_def string_params_sin)
  also have "\<dots> = casa sd u (n + length f + 1) (sin_params\<lparr>string_params := [f]\<rparr>)
     [(P_STRING, []), (P_MAX, ''/''), (P_STRING, [])]"
    by (rule casa_barra [OF d(2)])
  also have "\<dots> = casa sd u (n + length f + 1 + length ip) (sin_params\<lparr>string_params := [f, ip]\<rparr>)
     [(P_MAX, ''/''), (P_STRING, [])]"
    using casa_string [OF d(3), where sd = sd] assms(2) by (simp add: segmento_def)
  also have "\<dots> = casa sd u (n + length f + 1 + length ip + 1) (sin_params\<lparr>string_params := [f, ip]\<rparr>) [(P_STRING, [])]"
    by (rule casa_barra [OF d(4)])
  also have "\<dots> = casa sd u (length u) (sin_params\<lparr>string_params := [f, ip, p]\<rparr>) []"
    using casa_string [OF d(5), where sd = sd] assms(3) unfolding d(6) by (simp add: segmento_def)
  finally show ?thesis by simp
qed

text \<open>Which rule each URL selects.\<close>

lemma primera_post:
  "primera_regla sd u (de_metodo (numero Post) (reglas_app perfil stat mt)) =
     (if u = ''/guardar'' then Some (regla_de ''/guardar'' Post [] (wrapped_handler_call manejador_guardar), sin_params)
      else None)"
  by (simp add: de_metodo_app numero_simps casa_regla_def patrones_app casa_todo)

lemma primera_get_inicio:
  "primera_regla sd ''/'' (de_metodo (numero Get) (reglas_app perfil stat mt)) =
     Some (regla_de ''/'' Get [] (wrapped_handler_call manejador_inicio), sin_params)"
  by (simp add: de_metodo_app numero_simps casa_regla_def patrones_app casa_todo)

lemma primera_get_agregar:
  assumes "segmento f" "segmento ip" "segmento p" "u = ''/agregar_fichero/'' @ f @ ''/'' @ ip @ ''/'' @ p"
  shows "primera_regla sd u (de_metodo (numero Get) (reglas_app perfil stat mt)) =
     Some (regla_de ''/agregar_fichero/<string>/<string>/<string>'' Get [A_string, A_string, A_string]
        (wrapped_handler_call manejador_agregar), sin_params\<lparr>string_params := [f, ip, p]\<rparr>)"
proof -
  have "u \<noteq> ''/''" "u \<noteq> ''/perfil''" using assms(4) by simp_all
  then show ?thesis
    using casa_tres [OF assms, where sd = sd] by (simp add: de_metodo_app numero_simps casa_regla_def patrones_app casa_todo del: casa.simps)
qed

lemma guardar_definida: "\<exists>b alm'. ruta_guardar bd alm = Inr (b, alm')"
proof -
  obtain b alm' where "agregar_cliente (formatea_solicitud bd) alm = Inr (b, alm')"
    unfolding formatea_solicitud_peticion using agregar_peticion_definida by blast
  then show ?thesis by (auto simp: ruta_guardar_def)
qed

lemma agregar_fichero_definida: "\<exists>b alm'. ruta_agregar_fichero f ip p alm = Inr (b, alm')"
proof -
  obtain b alm' where "agregar_cliente (peticion f ip p) alm = Inr (b, alm')"
    using agregar_peticion_definida by blast
  then show ?thesis by (auto simp: ruta_agregar_fichero_def peticion_def SEPARADOR_def delimiter_def)
qed

lemma ejecuta_texto:
  assumes "f req vs alm = con_texto (Inr (b, alm')) alm" "llama_args 0 0 0 0 ts ps = Inr vs"
  shows "ejecuta_regla (regla_de u m ts (wrapped_handler_call f)) req res ps alm =
    (Inr (end_res (asigna res (response_body b))), alm')"
  using assms by (simp add: ejecuta_regla_def rule_handle_def regla_de_def wrapped_handler_call_def con_texto_def)

text \<open>C31. The web application does what its routes say, through registration, search and call: after a start
  that always succeeds, POST \<^verbatim>\<open>/guardar\<close> runs the form handler on the body, GET \<^verbatim>\<open>/\<close> answers the page of the
  store, and GET \<^verbatim>\<open>/agregar_fichero/f/ip/p\<close> registers exactly these three path components; every answer has
  code 200. POST to any other path is refused and changes nothing.\<close>

theorem aplicacion_responde:
  fixes sd :: "string \<Rightarrow> ('d \<times> nat) option"
  assumes "segmento f" "segmento ip" "segmento p"
  shows "\<exists>rt. inicia_app perfil stat mt = Inr (Inr rt) \<and>
    (\<forall>req res alm. req_method req = Post \<longrightarrow> url req = ''/guardar'' \<longrightarrow>
      (\<exists>b alm'. ruta_guardar (req_body req) alm = Inr (b, alm') \<and>
        handle_full sd rt req res alm = (Inr (end_res (asigna res (response_body b))), alm'))) \<and>
    (\<forall>req res alm. req_method req = Post \<longrightarrow> url req \<noteq> ''/guardar'' \<longrightarrow>
      (\<exists>c \<in> {404, 405}. handle_full sd rt req res alm = (Inr (end_res (res\<lparr>code := c\<rparr>)), alm))) \<and>
    (\<forall>req res alm. req_method req = Get \<longrightarrow> url req = ''/'' \<longrightarrow>
      handle_full sd rt req res alm = (Inr (end_res (asigna res (response_body (to_html alm)))), alm)) \<and>
    (\<forall>req res alm. req_method req = Get \<longrightarrow> url req = ''/agregar_fichero/'' @ f @ ''/'' @ ip @ ''/'' @ p \<longrightarrow>
      (\<exists>b alm'. ruta_agregar_fichero f ip p alm = Inr (b, alm') \<and>
        handle_full sd rt req res alm = (Inr (end_res (asigna res (response_body b))), alm')))"
proof -
  let ?rs = "reglas_app perfil stat mt :: ('d, almacen_direcciones) regla list"
  obtain rt :: "('d, almacen_direcciones) router" where rt: "validate_router (router_nuevo\<lparr>all_rules := ?rs\<rparr>) = Inr rt"
    using validate_router_ok [OF reglas_app_ok] by blast
  have d: "handle_full sd rt req res alm =
      (case primera_regla sd (url req) (de_metodo (numero m) ?rs) of
         Some (r, ps) \<Rightarrow> ejecuta_regla r req res ps alm
       | None \<Rightarrow> (Inr (end_res (res\<lparr>code := codigo_ausente sd (url req) ?rs\<rparr>)), alm))"
    if "req_method req = m" "m = Get \<or> m = Post" for req res alm m
    using despacho [OF reglas_app_ok rt, of m req sd res alm] that by auto
  have post: "\<exists>b alm'. ruta_guardar (req_body req) alm = Inr (b, alm') \<and>
        handle_full sd rt req res alm = (Inr (end_res (asigna res (response_body b))), alm')"
    if q: "req_method req = Post" "url req = ''/guardar''" for req res alm
  proof -
    obtain b alm' where g: "ruta_guardar (req_body req) alm = Inr (b, alm')" using guardar_definida by blast
    then have "manejador_guardar req ([] :: 'd valor list) alm = con_texto (Inr (b, alm')) alm" by (simp add: manejador_guardar_def)
    from ejecuta_texto [where f = manejador_guardar, OF this, of "[]" sin_params] d [OF q(1)] q(2) g show ?thesis by (simp add: primera_post)
  qed
  have otro: "\<exists>c \<in> {404, 405}. handle_full sd rt req res alm = (Inr (end_res (res\<lparr>code := c\<rparr>)), alm)"
    if q: "req_method req = Post" "url req \<noteq> ''/guardar''" for req res alm
    using d [OF q(1)] q(2) by (simp add: primera_post codigo_ausente_def)
  have inicio: "handle_full sd rt req res alm = (Inr (end_res (asigna res (response_body (to_html alm)))), alm)"
    if q: "req_method req = Get" "url req = ''/''" for req res alm
  proof -
    have "manejador_inicio req ([] :: 'd valor list) alm = con_texto (Inr (to_html alm, alm)) alm"
      by (simp add: manejador_inicio_def ruta_inicio_def)
    from ejecuta_texto [where f = manejador_inicio, OF this, of "[]" sin_params] d [OF q(1)] q(2) show ?thesis by (simp add: primera_get_inicio)
  qed
  have agregar: "\<exists>b alm'. ruta_agregar_fichero f ip p alm = Inr (b, alm') \<and>
        handle_full sd rt req res alm = (Inr (end_res (asigna res (response_body b))), alm')"
    if q: "req_method req = Get" "url req = ''/agregar_fichero/'' @ f @ ''/'' @ ip @ ''/'' @ p" for req res alm
  proof -
    let ?ps = "sin_params\<lparr>string_params := [f, ip, p]\<rparr> :: 'd routing_params"
    obtain b alm' where g: "ruta_agregar_fichero f ip p alm = Inr (b, alm')" using agregar_fichero_definida by blast
    then have "manejador_agregar req [V_string f :: 'd valor, V_string ip, V_string p] alm = con_texto (Inr (b, alm')) alm"
      by (simp add: manejador_agregar_def)
    from ejecuta_texto [where f = manejador_agregar, OF this, of "[A_string, A_string, A_string]" ?ps] d [OF q(1)] g
      primera_get_agregar [OF assms q(2), of sd perfil stat mt]
    show ?thesis by simp
  qed
  have "inicia_app perfil stat mt = Inr (Inr rt)" by (simp add: inicia_app_def rutas_app_eq rt)
  with post otro inicio agregar show ?thesis by blast
qed


theorem aplicacion_responde_testigo:
  "\<exists>rt. inicia_app (Inr (response_code 200)) (\<lambda>_. None) Map.empty = Inr (Inr rt) \<and>
    handle_full (\<lambda>_. None :: (nat \<times> nat) option) rt (request_vacia\<lparr>url := ''/''\<rparr>) (response_code 200) almacen_vacio =
      (Inr (end_res (asigna (response_code 200) (response_body (to_html almacen_vacio)))), almacen_vacio)"
proof -
  have "segmento ''f.txt''" "segmento ''127.0.0.1''" "segmento ''5050''" by (simp_all add: segmento_def)
  from aplicacion_responde [OF this, of "Inr (response_code 200)" "\<lambda>_. None" Map.empty "\<lambda>_. None :: (nat \<times> nat) option"]
  obtain rt where 1: "inicia_app (Inr (response_code 200)) (\<lambda>_. None) Map.empty = Inr (Inr rt)"
    and 2: "\<forall>req res alm. req_method req = Get \<longrightarrow> url req = ''/'' \<longrightarrow>
      handle_full (\<lambda>_. None :: (nat \<times> nat) option) rt req res alm =
        (Inr (end_res (asigna res (response_body (to_html alm)))), alm)" by blast
  have "req_method (request_vacia\<lparr>url := ''/''\<rparr>) = Get" "url (request_vacia\<lparr>url := ''/''\<rparr>) = ''/''"
    by (simp_all add: request_vacia_def)
  with 1 2 show ?thesis by blast
qed

end
