(* ===== verification/Peticion.thy ===== *)
theory Peticion
  imports Conexion Aplicacion
begin

text \<open>
  A request from its bytes to the bytes of its answer: parser, connection, router and application together.
\<close>

subsection \<open>An idle connection\<close>

text \<open>A connection between two requests: a read is under way and nothing else.\<close>

definition libre_con :: "('d, 's) con \<Rightarrow> bool" where
  "libre_con c \<longleftrightarrow>
     abierto c \<and> conectado c \<and> \<not> close_connection_c c \<and> \<not> completed (res_c c) \<and> \<not> skip_body (res_c c) \<and>
     \<not> manual_length_header (res_c c) \<and> file_path (res_c c) = [] \<and> \<not> continue_requested c \<and>
     \<not> need_to_start_read_after_complete c \<and> \<not> need_to_call_after_handlers c \<and> \<not> con_manejador (res_c c) \<and>
     res_body_copy c = []"

definition libre :: "('d, 's) cparser \<Rightarrow> bool" where
  "libre p \<longleftrightarrow> al_inicio p \<and> inv_parser p \<and> nread p = 0 \<and> libre_con (conexion p) \<and> lecturas (conexion p) = 1 \<and>
     escrituras (conexion p) = 0 \<and> fallo_c (conexion p) = None"

text \<open>The bytes of an answer with code 200.\<close>

definition texto_respuesta :: "('d, 's) entorno_con \<Rightarrow> string \<Rightarrow> string" where
  "texto_respuesta env a =
     ''HTTP/1.1 200 OK'' @ crlf @ ''Content-Length: '' @ decimal (length a) @ crlf @ ''Server: '' @ server_name env @ crlf @
     ''Date: '' @ date_str env @ crlf @ ''Connection: Keep-Alive'' @ crlf @ crlf @ a"

text \<open>A request handed to the connection, and, when its answer is written asynchronously, the end of the write.\<close>

definition intercambio :: "('d, 's) entorno_con \<Rightarrow> 64 word \<Rightarrow> string \<Rightarrow> ('d, 's) cparser \<Rightarrow> ('d, 's) cparser option" where
  "intercambio env dir data p =
     map_option (\<lambda>q. if 0 < escrituras (conexion q) then escrito True q else q) (leido env dir (Some data) p)"

lemma libre_acepta: "libre (start_con (http_parser_init (con_inicial s)))"
  by (simp add: libre_def libre_con_def al_inicio_def start_con_def clear_parser_def http_parser_init_def con_inicial_def en_con_def
      do_read_con_def start_deadline_def cancel_deadline_timer_def response_code_def inv_parser_def estado_ok_def)

subsection \<open>The answer\<close>

lemma statusCodes_200: "statusCodes 200 = Some (''HTTP/1.1 200 OK'' @ crlf)"
  by (simp add: statusCodes_def razones_def)

definition respuesta_lista :: "string \<Rightarrow> response \<Rightarrow> bool" where
  "respuesta_lista a r \<longleftrightarrow> code r = 200 \<and> body r = a \<and> headers r = [] \<and> completed r \<and> \<not> skip_body r \<and>
     \<not> manual_length_header r \<and> file_path r = []"

lemma termina_respuesta:
  assumes "\<not> skip_body res" "\<not> manual_length_header res" "con_manejador res"
  shows "\<exists>r. end_res (asigna res (response_body a)) = (r, True) \<and> respuesta_lista a r"
  using assms
  by (simp add: end_res_def asigna_def response_body_def response_code_def respuesta_lista_def Let_def)

lemma prepare_buffers_ok:
  assumes "abierto c" "respuesta_lista a (res_c c)" "add_keep_alive c"
  shows "\<exists>bs. prepare_buffers env c = c\<lparr>res_c := (res_c c)\<lparr>con_manejador := False\<rparr>, buffers_c := bs\<rparr> \<and>
    concat bs @ a = texto_respuesta env a"
proof (intro exI conjI)
  let ?bs = "[linea_estado 200, ''Content-Length: '' @ decimal (length a) @ crlf, ''Server: '' @ server_name env @ crlf,
    ''Date: '' @ date_str env @ crlf, ''Connection: Keep-Alive'' @ crlf, crlf]"
  have "ci_count [] k = 0" for k by (simp add: ci_count_def)
  then show "prepare_buffers env c = c\<lparr>res_c := (res_c c)\<lparr>con_manejador := False\<rparr>, buffers_c := ?bs\<rparr>"
    using assms by (simp add: prepare_buffers_def fija_estado_def cabeza_def respuesta_lista_def statusCodes_200 Let_def)
  show "concat ?bs @ a = texto_respuesta env a"
    by (simp add: texto_respuesta_def linea_estado_def statusCodes_200)
qed

text \<open>
  What is true of the connection once the answer has left: an asynchronous write has taken the body out of
  the response, which stays completed until the write ends.
\<close>

definition respuesta_vaciada :: "response \<Rightarrow> bool" where
  "respuesta_vaciada r \<longleftrightarrow> completed r \<and> body r = [] \<and> code r = 200 \<and> file_path r = []"

definition respondida :: "('d, 's) entorno_con \<Rightarrow> string \<Rightarrow> ('d, 's) cparser \<Rightarrow> ('d, 's) cparser \<Rightarrow> bool" where
  "respondida env a p q \<longleftrightarrow>
     p_errno q = p_errno p \<and> enviado (conexion q) = enviado (conexion p) @ texto_respuesta env a \<and>
     lecturas (conexion q) = lecturas (conexion p) \<and> aplicacion (conexion q) = aplicacion (conexion p) \<and>
     fallo_c (conexion q) = fallo_c (conexion p) \<and> \<not> skip_body (res_c (conexion q)) \<and>
     \<not> manual_length_header (res_c (conexion q)) \<and> add_keep_alive (conexion q) \<and>
     abierto (conexion q) \<and> conectado (conexion q) \<and> \<not> close_connection_c (conexion q) \<and> \<not> continue_requested (conexion q) \<and>
     \<not> need_to_start_read_after_complete (conexion q) \<and> \<not> need_to_call_after_handlers (conexion q) \<and>
     \<not> con_manejador (res_c (conexion q)) \<and>
     (if length a < res_stream_threshold env then
        escrituras (conexion q) = escrituras (conexion p) + 1 \<and> respuesta_vaciada (res_c (conexion q)) \<and> pstate q = pstate p \<and>
        req q = req p \<and> routing_handle_result_c (conexion q) = routing_handle_result_c (conexion p)
      else escrituras (conexion q) = escrituras (conexion p) \<and> al_inicio q \<and> libre_con (conexion q))"


lemma con_location_lista: "respuesta_lista a r \<Longrightarrow> con_location rq r = r"
  by (simp add: con_location_def respuesta_lista_def get_header_value_find)

lemma complete_request_ok:
  assumes "respuesta_lista a (res_c (conexion p))" "add_keep_alive (conexion p)" "abierto (conexion p)" "conectado (conexion p)" "p_errno p = CHPE_OK"
    and "\<not> close_connection_c (conexion p)" "\<not> continue_requested (conexion p)" "\<not> need_to_start_read_after_complete (conexion p)"
    and "res_body_copy (conexion p) = []"
  shows "respondida env a p (complete_request env p)"
proof -
  define p1 where "p1 = en_con (\<lambda>c. c\<lparr>need_to_call_after_handlers := False\<rparr>) p"
  have "respuesta_lista a (res_c (conexion p1))" "abierto (conexion p1)" "add_keep_alive (conexion p1)"
    using assms by (simp_all add: p1_def en_con_def)
  from prepare_buffers_ok [OF this(2,1,3)] obtain bs where
    bs: "prepare_buffers env (conexion p1) = (conexion p1)\<lparr>res_c := (res_c (conexion p1))\<lparr>con_manejador := False\<rparr>, buffers_c := bs\<rparr>"
      "concat bs @ a = texto_respuesta env a" by blast
  have "en_res (con_location (req p1)) p1 = p1"
    using con_location_lista [OF \<open>respuesta_lista a (res_c (conexion p1))\<close>] by (simp add: en_res_def en_con_def)
  then have "complete_request env p = do_write_general env (p1\<lparr>conexion := (conexion p1)\<lparr>res_c := (res_c (conexion p1))
      \<lparr>con_manejador := False\<rparr>, buffers_c := bs\<rparr>\<rparr>)"
    using assms(1) by (simp add: complete_request_def Let_def p1_def [symmetric] bs(1) en_con_def [of "prepare_buffers env"])
      (simp add: p1_def en_con_def respuesta_lista_def)
  moreover have "respondida env a p (do_write_general env (p1\<lparr>conexion := (conexion p1)\<lparr>res_c := (res_c (conexion p1))
      \<lparr>con_manejador := False\<rparr>, buffers_c := bs\<rparr>\<rparr>))"
    using assms
    by (simp add: respondida_def do_write_general_def p1_def en_con_def respuesta_lista_def do_write_con_def write_sync_def Let_def
        bs(2) fin_sincrono_def clear_parser_def cancel_deadline_timer_def end_res_def clear_res_def al_inicio_def libre_con_def
        respuesta_vaciada_def)
  ultimately show ?thesis by simp
qed

lemma respondida_set_header: "respondida env a p q \<Longrightarrow> respondida env a p (en_res (set_header k v) q)"
  by (auto simp: respondida_def en_res_def en_con_def set_header_def al_inicio_def libre_con_def respuesta_vaciada_def)

lemma handle_con_ok:
  assumes "libre_con (conexion p)" "p_errno p = CHPE_OK" "fallo_c (conexion p) = None"
    and r: "r = (req p)\<lparr>remote_ip_address := peer_ip env\<rparr>" "check_version r 1 1" "ci_count (req_headers r) ''host'' \<noteq> 0"
      "\<not> req_upgrade r" "keep_alive r" "\<not> close_connection r"
    and "routing_handle_result_c (conexion p) = Some found"
    and h: "\<And>res. handle_router (router_e env) r res found (aplicacion (conexion p)) = (Inr (end_res (asigna res (response_body a))), s')"
  shows "respondida env a (en_con (\<lambda>c. c\<lparr>aplicacion := s'\<rparr>) (p\<lparr>req := r\<rparr>)) (handle_con env p)"
proof -
  let ?c = "conexion p"
  define res where "res = (res_c ?c)\<lparr>con_manejador := True\<rparr>"
  have "\<not> skip_body res" "\<not> manual_length_header res" "con_manejador res"
    using assms(1) by (simp_all add: res_def libre_con_def)
  from termina_respuesta [OF this] obtain rs where rs: "end_res (asigna res (response_body a)) = (rs, True)" "respuesta_lista a rs"
    by blast
  define p3 where "p3 = p\<lparr>req := r, conexion := ?c\<lparr>plazo := False, add_keep_alive := True, close_connection_c := False,
    need_to_call_after_handlers := True, aplicacion := s', res_c := rs\<rparr>\<rparr>"
  have 1: "handle_con env p = en_res (set_header ''connection'' ''Keep-Alive'') (complete_request env p3)"
    if "add_keep_alive (conexion (complete_request env p3))"
    using that assms(1,3,5-10) h [of res]
    unfolding p3_def res_def
    by (simp add: handle_con_def responde_con_def Let_def libre_con_def en_con_def en_res_def deja_res_def cancel_deadline_timer_def
        r(1) rs(1) [unfolded res_def])
  have "respondida env a p3 (complete_request env p3)"
    using assms(1,2) rs(2) by (intro complete_request_ok) (simp_all add: p3_def libre_con_def)
  moreover from this have "add_keep_alive (conexion (complete_request env p3))" by (simp add: respondida_def)
  ultimately have "respondida env a p3 (handle_con env p)" using 1 respondida_set_header by metis
  then show ?thesis by (simp add: respondida_def p3_def en_con_def)
qed

subsection \<open>One exchange\<close>

definition cabeceras_peticion_ok :: "(string \<times> string) list \<Rightarrow> bool" where
  "cabeceras_peticion_ok hs \<longleftrightarrow> ci_count hs ''host'' \<noteq> 0 \<and> get_header_value hs ''expect'' \<noteq> ''100-continue''"

text \<open>A routed request reaches the handler of the message as it was printed.\<close>

lemma handle_url_halla:
  assumes "found_index found \<noteq> 0" "fallo_c (conexion q) = None"
    and "handle_initial (stod_e env) (router_e env) (req q) (res_c (conexion q)) = (found, res_c (conexion q), False)"
  shows "handle_url (manejadores_con env) q = q\<lparr>conexion := (conexion q)\<lparr>routing_handle_result_c := Some found\<rparr>\<rparr>"
  using assms by (simp add: manejadores_con_def si_vivo_def handle_url_con_def deja_res_def en_res_def en_con_def)

lemma llega_peticion:
  assumes "peticion_ok mt u hs b" "al_inicio p" "inv_parser p" "nread p + length (texto_peticion mt u hs b) < max_header_size"
    and "fallo_c (conexion p) = None" "get_header_value (hs @ longitud b) ''expect'' \<noteq> ''100-continue''" "found_index found \<noteq> 0"
    and hi: "handle_initial (stod_e env) (router_e env) (request_vacia\<lparr>req_method := mt, raw_url := u, url := sin_consulta u\<rparr>)
      (res_c (conexion p)) = (found, res_c (conexion p), False)"
  shows "\<exists>q. http_parser_execute (manejadores_con env) dir (texto_peticion mt u hs b) p =
      Some (Devuelve (length (texto_peticion mt u hs b)) ((handle_con env q)\<lparr>nread := 0\<rparr>)) \<and>
    req q = peticion_leida mt u hs b \<and> conexion q = (conexion p)\<lparr>routing_handle_result_c := Some found\<rparr> \<and> p_errno q = CHPE_OK \<and>
    message_complete q"
proof -
  let ?d = "texto_peticion mt u hs b" and ?m = "manejadores_con env"
  define c where "c = (conexion p)\<lparr>routing_handle_result_c := Some found\<rparr>"
  have "handle_url ?m q = q\<lparr>conexion := c\<rparr>"
    if "req q = request_vacia\<lparr>req_method := mt, raw_url := u, url := sin_consulta u\<rparr>" "conexion q = conexion p" for q
    using handle_url_halla [OF assms(7), of q env] that assms(5) hi by (simp add: c_def)
  moreover have "handle_header ?m q = q" if "req q = (peticion_leida mt u hs b)\<lparr>req_body := []\<rparr>" for q
    using that assms(6) by (simp add: manejadores_con_def si_vivo_def handle_header_con_def peticion_leida_def)
  ultimately obtain q where q: "http_parser_execute ?m dir ?d p = Some (Devuelve (length ?d) (handle ?m q\<lparr>nread := 0\<rparr>))"
      "req q = peticion_leida mt u hs b" "conexion q = c" "message_complete q" "p_errno q = CHPE_OK"
    using crow.analiza_peticion [OF assms(1-3) refl, where c = c and env = env and dir = dir] assms(4) by auto
  moreover have "handle ?m q = handle_con env q" using q(3) assms(5) by (simp add: manejadores_con_def si_vivo_def c_def)
  ultimately show ?thesis unfolding c_def by auto
qed

lemma intercambio_ok:
  assumes "libre p" "peticion_ok mt u hs b" "cabeceras_peticion_ok (hs @ longitud b)"
    and "length (texto_peticion mt u hs b) < max_header_size" "found_index found \<noteq> 0"
    and hi: "\<And>rq res. req_method rq = mt \<Longrightarrow> url rq = sin_consulta u \<Longrightarrow>
      handle_initial (stod_e env) (router_e env) rq res = (found, res, False)"
    and hr: "\<And>rq res. req_method rq = mt \<Longrightarrow> url rq = sin_consulta u \<Longrightarrow> req_body rq = b \<Longrightarrow>
      handle_router (router_e env) rq res found (aplicacion (conexion p)) = (Inr (end_res (asigna res (response_body a))), s')"
  shows "\<exists>q. intercambio env dir (texto_peticion mt u hs b) p = Some q \<and> libre q \<and>
    enviado (conexion q) = enviado (conexion p) @ texto_respuesta env a \<and> aplicacion (conexion q) = s'"
proof -
  let ?d = "texto_peticion mt u hs b" and ?m = "manejadores_con env"
  define p0 where "p0 = en_con (\<lambda>c. c\<lparr>lecturas := lecturas c - 1, fallo_c := None\<rparr>) p"
  define c where "c = (conexion p0)\<lparr>routing_handle_result_c := Some found\<rparr>"
  have p0: "al_inicio p0" "inv_parser p0" "nread p0 = 0" "libre_con (conexion p0)" "lecturas (conexion p0) = 0"
      "escrituras (conexion p0) = 0" "fallo_c (conexion p0) = None" "enviado (conexion p0) = enviado (conexion p)"
      "aplicacion (conexion p0) = aplicacion (conexion p)"
    using assms(1) by (auto simp: p0_def libre_def libre_con_def al_inicio_def en_con_def inv_parser_def estado_ok_def)
  have "handle_initial (stod_e env) (router_e env) (request_vacia\<lparr>req_method := mt, raw_url := u, url := sin_consulta u\<rparr>)
      (res_c (conexion p0)) = (found, res_c (conexion p0), False)" by (rule hi) simp_all
  moreover have "nread p0 + length ?d < max_header_size" using p0(3) assms(4) by simp
  ultimately obtain q where q: "http_parser_execute ?m dir ?d p0 = Some (Devuelve (length ?d) ((handle_con env q)\<lparr>nread := 0\<rparr>))"
      "req q = peticion_leida mt u hs b" "conexion q = c" "p_errno q = CHPE_OK"
    using llega_peticion [OF assms(2) p0(1,2) _ p0(7) _ assms(5), of env dir] assms(3) by (auto simp: cabeceras_peticion_ok_def c_def)
  define r where "r = (req q)\<lparr>remote_ip_address := peer_ip env\<rparr>"
  have R: "respondida env a (en_con (\<lambda>c. c\<lparr>aplicacion := s'\<rparr>) (q\<lparr>req := r\<rparr>)) (handle_con env q)"
  proof (rule handle_con_ok [OF _ q(4) _ r_def])
    show "libre_con (conexion q)" "fallo_c (conexion q) = None" "routing_handle_result_c (conexion q) = Some found"
      using p0(4,7) q(3) by (simp_all add: c_def libre_con_def)
    show "check_version r 1 1" "\<not> req_upgrade r" "keep_alive r" "\<not> close_connection r" "ci_count (req_headers r) ''host'' \<noteq> 0"
      using assms(3) q(2) by (simp_all add: r_def check_version_def peticion_leida_def cabeceras_peticion_ok_def)
    show "handle_router (router_e env) r res found (aplicacion (conexion q)) = (Inr (end_res (asigna res (response_body a))), s')" for res
      using hr [of r res] q(2,3) p0(9) by (simp add: r_def peticion_leida_def c_def)
  qed
  define q1 where "q1 = (handle_con env q)\<lparr>nread := 0\<rparr>"
  have e: "p_errno q1 = CHPE_OK" "abierto (conexion q1)" "\<not> close_connection_c (conexion q1)" "fallo_c (conexion q1) = None"
      "\<not> need_to_call_after_handlers (conexion q1)"
    using R q(3,4) p0(7) by (simp_all add: q1_def respondida_def en_con_def c_def)
  have "feed ?m dir ?d p0 = Some (Alimento True q1)"
    using q(1) p0(1) e(1) by (simp add: feed_def al_inicio_def q1_def)
  then have L: "leido env dir (Some ?d) p = Some (en_con (\<lambda>c. do_read_con (start_deadline c)) q1)"
    unfolding leido_def p0_def [symmetric] Let_def using e by simp
  define q2 where "q2 = en_con (\<lambda>c. do_read_con (start_deadline c)) q1"
  have q2: "p_errno q2 = CHPE_OK" "nread q2 = 0" using e(1) by (simp_all add: q2_def q1_def en_con_def)
  have c2: "enviado (conexion q2) = enviado (conexion p) @ texto_respuesta env a" "aplicacion (conexion q2) = s'" "lecturas (conexion q2) = 1"
      "fallo_c (conexion q2) = None"
    using R q(3) p0 by (simp_all add: q2_def q1_def respondida_def en_con_def c_def do_read_con_def start_deadline_def cancel_deadline_timer_def)
  show ?thesis
  proof (cases "length a < res_stream_threshold env")
    case True
    then have "escrituras (conexion q2) = 1"
      using R q(3) p0 by (simp add: q2_def q1_def respondida_def en_con_def c_def do_read_con_def start_deadline_def cancel_deadline_timer_def)
    then have "intercambio env dir ?d p = Some (escrito True q2)" using L by (simp add: intercambio_def q2_def)
    moreover have "libre (escrito True q2)"
      using c2 q2 e R q(3) p0(4,6) True
      by (simp add: libre_def libre_con_def al_inicio_def inv_parser_simple escrito_def en_con_def clear_parser_def clear_res_def
          Let_def q2_def q1_def respondida_def c_def do_read_con_def start_deadline_def cancel_deadline_timer_def)
    moreover have "enviado (conexion (escrito True q2)) = enviado (conexion q2)" "aplicacion (conexion (escrito True q2)) = aplicacion (conexion q2)"
      by (simp_all add: escrito_def en_con_def cierra_def clear_parser_def Let_def)
    ultimately show ?thesis using c2 by simp
  next
    case False
    then have "escrituras (conexion q2) = 0" "al_inicio q2" "libre_con (conexion q2)"
      using R q(3,4) p0(6) False
      by (auto simp: q2_def q1_def respondida_def en_con_def c_def do_read_con_def start_deadline_def cancel_deadline_timer_def
          al_inicio_def libre_con_def)
    moreover from this have "libre q2" using c2 q2 by (simp add: libre_def inv_parser_simple al_inicio_def)
    ultimately show ?thesis using L c2 by (simp add: intercambio_def q2_def)
  qed
qed

subsection \<open>The requests of the web page\<close>

text \<open>The requests that the routes of the server answer from the store, and what each does to it.\<close>

datatype pedido = Inicio | Guardar string | Agregar string string string

definition metodo_pedido :: "pedido \<Rightarrow> HTTPMethod" where
  "metodo_pedido pd = (case pd of Guardar _ \<Rightarrow> Post | _ \<Rightarrow> Get)"

definition ruta_pedido :: "pedido \<Rightarrow> string" where
  "ruta_pedido pd =
     (case pd of
        Inicio \<Rightarrow> ''/''
      | Guardar _ \<Rightarrow> ''/guardar''
      | Agregar f ip p \<Rightarrow> ''/agregar_fichero/'' @ f @ ''/'' @ ip @ ''/'' @ p)"

definition cuerpo_pedido :: "pedido \<Rightarrow> string" where
  "cuerpo_pedido pd = (case pd of Guardar b \<Rightarrow> b | _ \<Rightarrow> [])"

definition atiende_pedido :: "pedido \<Rightarrow> almacen_direcciones \<Rightarrow> (string \<times> almacen_direcciones) res" where
  "atiende_pedido pd alm =
     (case pd of
        Inicio \<Rightarrow> bindE (ruta_inicio alm) (\<lambda>b. Inr (b, alm))
      | Guardar b \<Rightarrow> ruta_guardar b alm
      | Agregar f ip p \<Rightarrow> ruta_agregar_fichero f ip p alm)"

text \<open>A path component that needs no escape and does not start a query.\<close>

definition componente :: "string \<Rightarrow> bool" where
  "componente w \<longleftrightarrow> segmento w \<and> list_all CROW_IS_URL_CHAR w"

definition pedido_ok :: "(string \<times> string) list \<Rightarrow> pedido \<Rightarrow> bool" where
  "pedido_ok hs pd \<longleftrightarrow>
     (case pd of Inicio \<Rightarrow> True | Guardar b \<Rightarrow> nul \<notin> set b | Agregar f ip p \<Rightarrow> componente f \<and> componente ip \<and> componente p) \<and>
     cabeceras_ok hs \<and> cabeceras_peticion_ok (hs @ longitud (cuerpo_pedido pd))"

definition texto_pedido :: "(string \<times> string) list \<Rightarrow> pedido \<Rightarrow> string" where
  "texto_pedido hs pd = texto_peticion (metodo_pedido pd) (ruta_pedido pd) hs (cuerpo_pedido pd)"

lemma letras_url: "list_all CROW_IS_URL_CHAR ''guardar''" "list_all CROW_IS_URL_CHAR ''agregar_fichero/''" "CROW_IS_URL_CHAR (CHR ''/'')"
  by (simp_all add: CROW_IS_URL_CHAR_def normal_url_char_def Let_def bit_Suc_0_iff)

lemma url_pedido:
  assumes "pedido_ok hs pd"
  shows "url_ok (ruta_pedido pd)" "sin_consulta (ruta_pedido pd) = ruta_pedido pd"
proof -
  obtain w where w: "ruta_pedido pd = CHR ''/'' # w" "list_all CROW_IS_URL_CHAR w"
    using assms letras_url by (cases pd) (auto simp: ruta_pedido_def pedido_ok_def componente_def)
  then show "url_ok (ruta_pedido pd)" by (auto simp: url_ok_def url_letra_def list_all_iff)
  have "CHR ''?'' \<notin> set w" using w(2) no_url_char(6) unfolding list_all_iff by metis
  then show "sin_consulta (ruta_pedido pd) = ruta_pedido pd" using w(1) by (auto simp: sin_consulta_def)
qed

lemma peticion_pedido: "pedido_ok hs pd \<Longrightarrow> peticion_ok (metodo_pedido pd) (ruta_pedido pd) hs (cuerpo_pedido pd)"
  using url_pedido(1) [of hs pd]
  by (auto simp: peticion_ok_def pedido_ok_def metodo_pedido_def cuerpo_pedido_def split: pedido.splits)

lemma pedido_halla:
  fixes rt :: "('d, almacen_direcciones) router"
  assumes "inicia_app perfil stat mt = Inr (Inr rt)" "pedido_ok hs pd"
  obtains found a alm' where "found_index found \<noteq> 0" "atiende_pedido pd alm = Inr (a, alm')"
    "\<And>rq res. req_method rq = metodo_pedido pd \<Longrightarrow> url rq = ruta_pedido pd \<Longrightarrow>
      handle_initial sd rt rq res = (found, res, False)"
    "\<And>rq res. req_method rq = metodo_pedido pd \<Longrightarrow> url rq = ruta_pedido pd \<Longrightarrow> req_body rq = cuerpo_pedido pd \<Longrightarrow>
      handle_router rt rq res found alm = (Inr (end_res (asigna res (response_body a))), alm')"
proof -
  let ?rs = "reglas_app perfil stat mt :: ('d, almacen_direcciones) regla list" and ?m = "metodo_pedido pd"
  have rt: "validate_router (router_nuevo\<lparr>all_rules := ?rs\<rparr>) = Inr rt"
    using assms(1) by (simp add: inicia_app_def rutas_app_eq)
  have m: "?m \<noteq> InternalMethodCount" "?m \<noteq> Head" "?m \<noteq> Options" by (simp_all add: metodo_pedido_def split: pedido.split)
  obtain a alm' r ps where x: "atiende_pedido pd alm = Inr (a, alm')" "primera_regla sd (ruta_pedido pd) (de_metodo (numero ?m) ?rs) = Some (r, ps)"
      "\<And>rq res. req_body rq = cuerpo_pedido pd \<Longrightarrow> ejecuta_regla r rq res ps alm = (Inr (end_res (asigna res (response_body a))), alm')"
  proof (cases pd)
    case Inicio
    have "manejador_inicio rq ([] :: 'd valor list) alm = con_texto (Inr (to_html alm, alm)) alm" for rq
      by (simp add: manejador_inicio_def ruta_inicio_def)
    from ejecuta_texto [where f = manejador_inicio, OF this, of "[]" sin_params] show thesis
      using that Inicio primera_get_inicio [of sd perfil stat mt]
      by (simp add: atiende_pedido_def ruta_inicio_def ruta_pedido_def metodo_pedido_def)
  next
    case (Guardar b)
    obtain a alm' where g: "ruta_guardar b alm = Inr (a, alm')" using guardar_definida by blast
    then have "manejador_guardar rq ([] :: 'd valor list) alm = con_texto (Inr (a, alm')) alm" if "req_body rq = b" for rq
      using that by (simp add: manejador_guardar_def)
    from ejecuta_texto [where f = manejador_guardar, OF this, of _ "[]" sin_params] show thesis
      using that Guardar g primera_post [of sd "''/guardar''" perfil stat mt]
      by (simp add: atiende_pedido_def ruta_pedido_def metodo_pedido_def cuerpo_pedido_def)
  next
    case (Agregar f ip p)
    let ?ps = "sin_params\<lparr>string_params := [f, ip, p]\<rparr> :: 'd routing_params"
    have s: "segmento f" "segmento ip" "segmento p" using assms(2) Agregar by (simp_all add: pedido_ok_def componente_def)
    obtain a alm' where g: "ruta_agregar_fichero f ip p alm = Inr (a, alm')" using agregar_fichero_definida by blast
    then have "manejador_agregar rq [V_string f :: 'd valor, V_string ip, V_string p] alm = con_texto (Inr (a, alm')) alm" for rq
      by (simp add: manejador_agregar_def)
    from ejecuta_texto [where f = manejador_agregar, OF this, of "[A_string, A_string, A_string]" ?ps] show thesis
      using that Agregar g primera_get_agregar [OF s refl, of sd perfil stat mt]
      by (simp add: atiende_pedido_def ruta_pedido_def metodo_pedido_def cuerpo_pedido_def)
  qed
  obtain found where "found_index found \<noteq> 0"
    "\<And>req res. req_method req = ?m \<Longrightarrow> url req = ruta_pedido pd \<Longrightarrow> handle_initial sd rt req res = (found, res, False)"
    "\<And>req res s. handle_router rt req res found s = ejecuta_regla r req res ps s"
    by (rule inicial_halla [OF reglas_app_ok rt m x(2)]) blast
  then show thesis using that x(1,3) by simp
qed

lemma intercambio_pedido:
  assumes "inicia_app perfil stat mt = Inr (Inr (router_e env))" "pedido_ok hs pd" "libre p" "length (texto_pedido hs pd) \<le> 4096"
  obtains q a where "intercambio env dir (texto_pedido hs pd) p = Some q" "libre q"
    "atiende_pedido pd (aplicacion (conexion p)) = Inr (a, aplicacion (conexion q))"
    "enviado (conexion q) = enviado (conexion p) @ texto_respuesta env a"
proof -
  obtain found a alm' where h: "found_index found \<noteq> 0" "atiende_pedido pd (aplicacion (conexion p)) = Inr (a, alm')"
    "\<And>rq res. req_method rq = metodo_pedido pd \<Longrightarrow> url rq = ruta_pedido pd \<Longrightarrow>
      handle_initial (stod_e env) (router_e env) rq res = (found, res, False)"
    "\<And>rq res. req_method rq = metodo_pedido pd \<Longrightarrow> url rq = ruta_pedido pd \<Longrightarrow> req_body rq = cuerpo_pedido pd \<Longrightarrow>
      handle_router (router_e env) rq res found (aplicacion (conexion p)) = (Inr (end_res (asigna res (response_body a))), alm')"
    by (rule pedido_halla [where sd = "stod_e env" and alm = "aplicacion (conexion p)", OF assms(1,2)]) blast
  have "cabeceras_peticion_ok (hs @ longitud (cuerpo_pedido pd))" using assms(2) by (simp add: pedido_ok_def)
  moreover have "length (texto_pedido hs pd) < max_header_size" using assms(4) by (simp add: max_header_size_def)
  ultimately show thesis
    using intercambio_ok [OF assms(3) peticion_pedido [OF assms(2)], of found env a alm' dir] h that url_pedido(2) [OF assms(2)]
    by (auto simp: texto_pedido_def)
qed

subsection \<open>A conversation\<close>

text \<open>Requests one after another on a kept-alive connection, and what they do to the store.\<close>

fun conversacion :: "('d, 's) entorno_con \<Rightarrow> 64 word \<Rightarrow> string list \<Rightarrow> ('d, 's) cparser \<Rightarrow> ('d, 's) cparser option" where
  "conversacion env dir [] p = Some p"
| "conversacion env dir (d # ds) p =
     (case intercambio env dir d p of None \<Rightarrow> None | Some q \<Rightarrow> conversacion env dir ds q)"

fun atiende_pedidos :: "pedido list \<Rightarrow> almacen_direcciones \<Rightarrow> (string list \<times> almacen_direcciones) res" where
  "atiende_pedidos [] alm = Inr ([], alm)"
| "atiende_pedidos (pd # pds) alm =
     bindE (atiende_pedido pd alm) (\<lambda>(a, alm1). bindE (atiende_pedidos pds alm1) (\<lambda>(as, alm2). Inr (a # as, alm2)))"

lemma conversacion_pedidos:
  assumes "inicia_app perfil stat mt = Inr (Inr (router_e env))" "libre p"
    and "list_all (\<lambda>(hs, pd). pedido_ok hs pd \<and> length (texto_pedido hs pd) \<le> 4096) pds"
  shows "\<exists>q as. conversacion env dir (map (\<lambda>(hs, pd). texto_pedido hs pd) pds) p = Some q \<and> libre q \<and>
    atiende_pedidos (map snd pds) (aplicacion (conexion p)) = Inr (as, aplicacion (conexion q)) \<and>
    enviado (conexion q) = enviado (conexion p) @ concat (map (texto_respuesta env) as)"
  using assms(2,3)
proof (induction pds arbitrary: p)
  case (Cons hpd pds)
  obtain hs pd where hpd: "hpd = (hs, pd)" by (cases hpd)
  from Cons.prems(2) hpd have ok: "pedido_ok hs pd" "length (texto_pedido hs pd) \<le> 4096" by simp_all
  obtain q a where 1: "intercambio env dir (texto_pedido hs pd) p = Some q" "libre q"
    "atiende_pedido pd (aplicacion (conexion p)) = Inr (a, aplicacion (conexion q))"
    "enviado (conexion q) = enviado (conexion p) @ texto_respuesta env a"
    by (rule intercambio_pedido [OF assms(1) ok(1) Cons.prems(1) ok(2)])
  from Cons.IH [OF 1(2)] Cons.prems(2) obtain q' as where
    "conversacion env dir (map (\<lambda>(hs, pd). texto_pedido hs pd) pds) q = Some q'" "libre q'"
    "atiende_pedidos (map snd pds) (aplicacion (conexion q)) = Inr (as, aplicacion (conexion q'))"
    "enviado (conexion q') = enviado (conexion q) @ concat (map (texto_respuesta env) as)" by auto
  then show ?case using 1 hpd by (intro exI [of _ q'] exI [of _ "a # as"]) (simp add: bindE_def)
qed simp

text \<open>C4. The web server refines its store, from bytes to bytes: on one connection, from its acceptance, any
  sequence of requests for the page, for saving a form and for adding a file, where each request has headers of
  its own, arrives whole in one read of at most 4096 bytes and is sent when the answer to the one before has been
  written, is parsed, routed and answered; the bytes sent are the answers of the store's operations in that
  order, each with its length, the store ends as those operations leave it, and the connection is idle and open
  again. A header's value is not empty, does not begin with white space and has no line break; a Host is among
  the headers, no \<^verbatim>\<open>Expect: 100-continue\<close> and none that the parser interprets (\<^verbatim>\<open>Connection\<close>, \<^verbatim>\<open>Proxy-Connection\<close>,
  \<^verbatim>\<open>Content-Length\<close>, \<^verbatim>\<open>Upgrade\<close> and names that begin with \<^verbatim>\<open>Transfer-Encoding\<close>); the length of a form is added to
  them, a form has no null character, and the parts of a file to add are path components of URL characters.
  This holds whatever the size of the answers, that is for both ways in which the connection writes.\<close>

theorem sesion_web:
  fixes env :: "('d, almacen_direcciones) entorno_con"
  assumes "inicia_app perfil stat mt = Inr (Inr (router_e env))"
    and "list_all (\<lambda>(hs, pd). pedido_ok hs pd \<and> length (texto_pedido hs pd) \<le> 4096) pds"
  shows "\<exists>q as. conversacion env dir (map (\<lambda>(hs, pd). texto_pedido hs pd) pds) (start_con (http_parser_init (con_inicial alm))) = Some q \<and>
    libre q \<and> atiende_pedidos (map snd pds) alm = Inr (as, aplicacion (conexion q)) \<and>
    enviado (conexion q) = concat (map (texto_respuesta env) as)"
proof -
  let ?p = "start_con (http_parser_init (con_inicial alm)) :: ('d, almacen_direcciones) cparser"
  have "enviado (conexion ?p) = []" "aplicacion (conexion ?p) = alm"
    by (simp_all add: start_con_def clear_parser_def http_parser_init_def con_inicial_def en_con_def do_read_con_def
        start_deadline_def cancel_deadline_timer_def)
  then show ?thesis using conversacion_pedidos [OF assms(1) libre_acepta assms(2), of dir alm] by simp
qed

text \<open>An environment around a router, and a request for the examples.\<close>

definition entorno_ejemplo :: "('d, 's) router \<Rightarrow> ('d, 's) entorno_con" where
  "entorno_ejemplo rt =
     \<lparr>stod_e = \<lambda>_. None, router_e = rt, server_name = ''Crow/master'', date_str = ''hoy'', peer_ip = ''127.0.0.1'',
      res_stream_threshold = 1048576, contenido = \<lambda>_. []\<rparr>"

definition anfitrion :: "(string \<times> string) list" where
  "anfitrion = [(''Host'', ''localhost'')]"

lemma app_arranca: "\<exists>rt :: ('d, almacen_direcciones) router. inicia_app perfil stat mt = Inr (Inr rt)"
  using validate_router_ok [OF reglas_app_ok, of perfil stat mt] by (auto simp: inicia_app_def rutas_app_eq)

text \<open>Headers as a browser sends them with a form.\<close>

definition cabeceras_formulario :: "(string \<times> string) list" where
  "cabeceras_formulario =
     [(''Host'', ''localhost''), (''User-Agent'', ''curl/7.8''), (''Cookie'', ''a=1''), (''Content-Type'', ''text/plain'')]"

lemma letras_token:
  "map CROW_TOKEN ''Host'' = ''host''" "map CROW_TOKEN ''User-Agent'' = ''user-agent''"
  "map CROW_TOKEN ''Cookie'' = ''cookie''" "map CROW_TOKEN ''Content-Type'' = ''content-type''"
  by (simp_all add: CROW_TOKEN_def tokens_def Let_def nth_append)

lemma nombres_generales:
  "nombre_general ''Host''" "nombre_general ''User-Agent''" "nombre_general ''Cookie''" "nombre_general ''Content-Type''"
  using letras_token by (simp_all add: nombre_general_def nombre_campo_def)

lemma valores_campo: "valor_campo ''localhost''" "valor_campo ''curl/7.8''" "valor_campo ''a=1''" "valor_campo ''text/plain''"
  by (simp_all add: valor_campo_def CROW_IS_HEADER_CHAR_def less_char_def)

lemma anfitrion_ok: "cabeceras_ok anfitrion" "cabeceras_peticion_ok (anfitrion @ longitud b)"
  "cabeceras_ok cabeceras_formulario" "cabeceras_peticion_ok (cabeceras_formulario @ longitud b)"
proof -
  show "cabeceras_ok anfitrion" "cabeceras_ok cabeceras_formulario"
    by (simp_all add: cabeceras_ok_def anfitrion_def cabeceras_formulario_def nombres_generales valores_campo)
  show "cabeceras_peticion_ok (anfitrion @ longitud b)" "cabeceras_peticion_ok (cabeceras_formulario @ longitud b)"
    by (simp_all add: cabeceras_peticion_ok_def anfitrion_def cabeceras_formulario_def longitud_def ci_count_def get_header_value_find
        ci_key_eq_iff toupper_def char_of_def bit_numeral_rec bit_Suc_0_iff)
qed

theorem sesion_web_testigo:
  "\<exists>(rt :: (nat, almacen_direcciones) router) q.
     conversacion (entorno_ejemplo rt) 0 [texto_pedido anfitrion Inicio, texto_pedido cabeceras_formulario (Guardar ''a=b'')]
       (start_con (http_parser_init (con_inicial almacen_vacio))) = Some q \<and> libre q"
proof -
  obtain rt :: "(nat, almacen_direcciones) router" where rt: "inicia_app (Inr (response_code 200)) (\<lambda>_. None) Map.empty = Inr (Inr rt)"
    using app_arranca by blast
  have l: "length (texto_pedido cabeceras_formulario (Guardar ''a=b'')) \<le> 4096" "length (texto_pedido anfitrion Inicio) \<le> 4096"
    by (simp_all add: texto_pedido_def texto_peticion_def linea_peticion_def metodo_pedido_def ruta_pedido_def cuerpo_pedido_def
        anfitrion_def cabeceras_formulario_def longitud_def linea_def method_name_simps evalua_decimal)
  let ?pds = "[(anfitrion, Inicio), (cabeceras_formulario, Guardar ''a=b'')]"
  have ok: "list_all (\<lambda>(hs, pd). pedido_ok hs pd \<and> length (texto_pedido hs pd) \<le> 4096) ?pds"
    using l by (simp add: pedido_ok_def anfitrion_ok cuerpo_pedido_def)
  have "inicia_app (Inr (response_code 200)) (\<lambda>_. None) Map.empty = Inr (Inr (router_e (entorno_ejemplo rt)))"
    using rt by (simp add: entorno_ejemplo_def)
  from sesion_web [OF this ok, of 0 almacen_vacio] show ?thesis by auto
qed



end
