(* ===== verification/Robustez.thy ===== *)
theory Robustez
  imports Peticion
begin

text \<open>
  What the connection does with input that is not one well-formed request in one read: a null character in a
  header value, a URL that arrives in two pieces, bytes after the body, and lengths near the limits of the
  counters.
\<close>

subsection \<open>A null character that ends the process\<close>

lemma token_conexion: "CROW_TOKEN (CHR ''c'') = CHR ''c''" "CROW_TOKEN (CHR ''i'') = CHR ''i''"
  by (simp_all add: CROW_TOKEN_def tokens_def Let_def nth_append)

lemma lee_campo_conexion:
  "header_state p = h_C \<Longrightarrow> index p = 0 \<Longrightarrow>
   lee_campo (''onnection'' @ CHR '':'' # r) i p = (True, i + 9, p\<lparr>index := 9, header_state := h_connection\<rparr>)"
  by (simp add: token_longitud token_conexion no_token campo_char_def avanza_def coincide_def car_c_def Let_def)

context conexion_http
begin

lemma lee_connection:
  assumes "mt \<noteq> InternalMethodCount" "mt \<noteq> Connect" "url_ok u" "al_inicio p" "inv_parser p" "data = linea_peticion mt u @ ''Connection: ''"
    and "nread p + length data < max_header_size" "nul \<notin> set data"
    and hu: "\<And>q. req q = request_vacia\<lparr>req_method := mt, raw_url := u, url := sin_consulta u\<rparr> \<Longrightarrow> conexion q = conexion p \<Longrightarrow>
      handle_url m q = q\<lparr>conexion := c\<rparr>"
  shows "\<exists>q. http_parser_execute m dir data p = Some (Devuelve (length data) q) \<and> pstate q = s_header_value_discard_ws \<and>
    header_state q = h_connection \<and> p_errno q = CHPE_OK \<and> message_complete q = message_complete p \<and> conexion q = c \<and>
    nread q = nread p + length data"
proof -
  let ?L = "length (linea_peticion mt u)" and ?n = "nread p" and ?k = "''Connection''" and ?mk = "marca_inicio (length (method_name mt) + 1)"
  have len: "length data = ?L + 12" by (simp add: assms(6))
  obtain q where 1: "corre m dir data False (en p 0 ?n (\<lambda>_. None)) False (en q ?L (?n + ?L) ?mk)"
      and q: "tras_peticion mt u c q" "message_complete q = message_complete p"
  proof (rule corre_linea_peticion [OF assms(1-4,6)])
    show "?n + ?L < max_header_size" using assms(7) len by simp
  qed (use hu in blast)+
  have e: "empieza_linea q q" "p_errno q = CHPE_OK" using q(1) by (simp_all add: empieza_linea_def tras_peticion_def)
  have d: "drop ?L data = ?k @ CHR '':'' # [CHR '' '']" by (simp add: assms(6))
  define q1 where "q1 = tras_nombre ?k h_connection 9 q"
  have 2: "corre m dir data False (en q ?L (?n + ?L) ?mk) False (en q1 (?L + length ?k + 1) (?n + ?L + length ?k + 1) ?mk)"
    unfolding q1_def
  proof (rule corre_campo [OF e(1) d _ e(2)])
    show "nombre_campo ?k" by (simp add: nombre_campo_def token_longitud token_conexion)
    show "?n + ?L + length ?k < max_header_size" using assms(7) len by simp
    show "lee_campo (tl ?k @ CHR '':'' # [CHR '' '']) (Suc ?L)
      (q\<lparr>index := 0, pstate := s_header_field, header_state := cabecera_inicial (CROW_TOKEN (hd ?k))\<rparr>) =
      (True, ?L + length ?k, q\<lparr>index := 9, pstate := s_header_field, header_state := h_connection\<rparr>)"
      using lee_campo_conexion [of "q\<lparr>index := 0, pstate := s_header_field, header_state := h_C\<rparr>" "[CHR '' '']" "Suc ?L"]
      by (simp add: token_longitud cabecera_inicial_def del: lee_campo.simps)
  qed (simp add: marca_inicio_def)
  have q1: "pstate q1 = s_header_value_discard_ws" "p_errno q1 = CHPE_OK" "header_state q1 = h_connection"
      "conexion q1 = c" "message_complete q1 = message_complete p"
    using e(2) q by (simp_all add: q1_def tras_nombre_def on_header_field_def tras_peticion_def entre_lineas_def Let_def)
  have d1: "drop (?L + length ?k + 1) data = CHR '' '' # []" using queda(4) [OF sigue_tras [OF d]] by simp
  have "paso_estado m dir data (en q1 (?L + length ?k + 1) (Suc (?n + ?L + length ?k + 1)) ?mk) =
      (Sigue, en q1 (?L + length ?k + 1) (Suc (?n + ?L + length ?k + 1)) ?mk)"
    using q1(1) queda [OF d1] by (simp add: paso_estado_def paso_header_value_discard_ws_def)
  then have 3: "corre m dir data False (en q1 (?L + length ?k + 1) (?n + ?L + length ?k + 1) ?mk) False
      (en q1 (length data) (?n + length data) ?mk)"
  proof -
    have e: "length data = Suc (?L + length ?k + 1)" "?n + length data = Suc (?n + ?L + length ?k + 1)" by (simp_all add: len)
    assume "paso_estado m dir data (en q1 (?L + length ?k + 1) (Suc (?n + ?L + length ?k + 1)) ?mk) =
      (Sigue, en q1 (?L + length ?k + 1) (Suc (?n + ?L + length ?k + 1)) ?mk)"
    then show ?thesis unfolding e using q1(1) assms(7) len by (intro corre_letra [OF d1]) (simp_all add: estados_cuerpo_def)
  qed
  have "bucle 1 m dir data False (en q1 (length data) (?n + length data) ?mk) = Some (Devuelve (length data) (q1\<lparr>nread := ?n + length data\<rparr>))"
    using q1(2) by (simp add: epilogo_libre marcas_libres_def marca_inicio_def)
  moreover have "ejec_inicial p = en p 0 ?n (\<lambda>_. None)"
    using assms(4) by (simp add: al_inicio_def ejec_inicial_def estado_url_def fun_eq_iff)
  moreover have "length data < 2 ^ 64" using assms(7) by (simp add: max_header_size_def)
  then obtain j r where "http_parser_execute m dir data p = Some (Devuelve j r)"
    using ejecuta_ok [OF assms(5), of data dir] assms(8) by auto
  moreover have "data \<noteq> []" using len by auto
  ultimately have "http_parser_execute m dir data p = Some (Devuelve (length data) (q1\<lparr>nread := ?n + length data\<rparr>))"
    using corre_resultado [OF corre_trans [OF corre_trans [OF 1 2] 3], of 1] assms(4) by (auto simp: al_inicio_def http_parser_execute_def)
  then show ?thesis using q1 by simp
qed

end

lemma ejecuta_nul:
  assumes "pstate q = s_header_value_discard_ws" "header_state q = h_connection" "p_errno q = CHPE_OK"
    and "nread q + 2 < max_header_size" "CROW_IS_HEADER_CHAR x" "x \<noteq> cr" "x \<noteq> lf"
  shows "http_parser_execute m dir [nul, x] q = Some Abortado"
proof -
  define n where "n = nread q"
  define q1 where "q1 = q\<lparr>pstate := s_header_value, index := 0\<rparr>"
  define mk where "mk = (\<lambda>_. None)(header_value_mark := Some (0 :: nat))"
  have "CROW_LOWER nul = CHR '' ''" by (simp add: CROW_LOWER_def char_of_def bit_numeral_rec bit_Suc_0_iff)
  then have 1: "paso_estado m dir [nul, x] (en q 0 (Suc n) (\<lambda>_. None)) = (Sigue, en q1 0 (Suc n) mk)"
    using assms(1,2)
    by (simp add: paso_estado_def paso_header_value_discard_ws_def paso_header_value_start_def CROW_MARK_def en_parser_def q1_def mk_def Let_def)
  have 2: "fst (paso_estado m dir [nul, x] (en q1 1 (Suc (Suc n)) mk)) = Aborta"
    using assms(2,5-7) by (simp add: paso_estado_def paso_header_value_def q1_def valor_char_def Let_def)
  have c: "cuenta (en q 0 n (\<lambda>_. None)) = (Sigue, en q 0 (Suc n) (\<lambda>_. None))" "cuenta (en q1 1 (Suc n) mk) = (Sigue, en q1 1 (Suc (Suc n)) mk)"
    using assms(1,4) by (intro cuenta_en; simp add: q1_def n_def estados_cuerpo_def)+
  have "ejec_inicial q = en q 0 n (\<lambda>_. None)"
    using assms(1) by (simp add: ejec_inicial_def estado_url_def n_def fun_eq_iff)
  moreover have "combustible [nul, x] = Suc (Suc 7)" by (simp add: combustible_def)
  ultimately have "http_parser_execute m dir [nul, x] q = bucle (Suc (Suc 7)) m dir [nul, x] False (en q 0 n (\<lambda>_. None))"
    using assms(3) by (simp add: http_parser_execute_def del: bucle.simps)
  also have "\<dots> = bucle (Suc 7) m dir [nul, x] False (en q1 1 (Suc n) mk)"
    using c(1) 1 by (subst bucle.simps) (simp add: luego_def Let_def del: bucle.simps)
  also have "\<dots> = Some Abortado"
    using c(2) 2 by (subst bucle.simps) (simp add: luego_def Let_def del: bucle.simps)
  finally show ?thesis .
qed

text \<open>C14. One byte ends the server. When a read stops right after \<^verbatim>\<open>Connection:\<close> and a space, on any route, the
  connection waits for the rest; if the next two bytes are a null character and any other character of a header,
  the assertion \<^verbatim>\<open>Shouldn't get here\<close> of the parser fails and the process ends, with the store and all other
  connections. The null character becomes a space when it is lowered, so the header keeps the state that the
  parser has no case for.\<close>

theorem nulo_mata_servidor:
  fixes env :: "('d, almacen_direcciones) entorno_con"
  assumes "inicia_app perfil stat mt = Inr (Inr (router_e env))" "pedido_ok hs pd" "libre p"
    and "length (linea_peticion (metodo_pedido pd) (ruta_pedido pd)) \<le> 4000"
    and "CROW_IS_HEADER_CHAR x" "x \<noteq> cr" "x \<noteq> lf"
  shows "\<exists>q. leido env dir (Some (linea_peticion (metodo_pedido pd) (ruta_pedido pd) @ ''Connection: '')) p = Some q \<and>
    abierto (conexion q) \<and> feed (manejadores_con env) dir' [nul, x] q = Some Muere \<and>
    leido env dir' (Some [nul, x]) q = None"
proof -
  let ?mt = "metodo_pedido pd" and ?u = "ruta_pedido pd" and ?m = "manejadores_con env"
  let ?d = "linea_peticion ?mt ?u @ ''Connection: ''"
  obtain found where f: "found_index found \<noteq> 0" "\<And>rq res. req_method rq = ?mt \<Longrightarrow> url rq = ?u \<Longrightarrow>
      handle_initial (stod_e env) (router_e env) rq res = (found, res, False)"
    by (rule pedido_halla [where sd = "stod_e env", OF assms(1,2)]) blast
  define p0 where "p0 = en_con (\<lambda>c. c\<lparr>lecturas := lecturas c - 1, fallo_c := None\<rparr>) p"
  define c where "c = (conexion p0)\<lparr>routing_handle_result_c := Some found\<rparr>"
  have p0: "al_inicio p0" "inv_parser p0" "nread p0 = 0" "libre_con (conexion p0)" "fallo_c (conexion p0) = None"
    using assms(3) by (auto simp: p0_def libre_def libre_con_def al_inicio_def en_con_def inv_parser_def estado_ok_def)
  have pk: "peticion_ok ?mt ?u hs (cuerpo_pedido pd)" by (rule peticion_pedido [OF assms(2)])
  then have ok: "?mt \<noteq> InternalMethodCount" "?mt \<noteq> Connect" "url_ok ?u" by (simp_all add: peticion_ok_def)
  have "handle_url ?m q = q\<lparr>conexion := c\<rparr>"
    if "req q = request_vacia\<lparr>req_method := ?mt, raw_url := ?u, url := sin_consulta ?u\<rparr>" "conexion q = conexion p0" for q
    using handle_url_halla [OF f(1), of q env] f(2) [of "req q"] that p0(5) url_pedido(2) [OF assms(2)] by (simp add: c_def)
  moreover have "nread p0 + length ?d < max_header_size" using p0(3) assms(4) by (simp add: max_header_size_def)
  moreover have "nul \<notin> set ?d" using linea_peticion_nul [OF ok(1,3)] by simp
  ultimately obtain q where q: "http_parser_execute ?m dir ?d p0 = Some (Devuelve (length ?d) q)" "pstate q = s_header_value_discard_ws"
      "header_state q = h_connection" "p_errno q = CHPE_OK" "message_complete q = message_complete p0" "conexion q = c" "nread q = nread p0 + length ?d"
    using crow.lee_connection [OF ok p0(1,2) refl, of env c dir] by blast
  have mc: "\<not> message_complete q" using q(5) p0(1) by (simp add: al_inicio_def)
  have "feed ?m dir ?d p0 = Some (Alimento True q)"
    using q(1,4) p0(1) by (simp add: feed_def al_inicio_def)
  moreover have "fallo_c c = None" "abierto c" "\<not> close_connection_c c" "\<not> need_to_call_after_handlers c"
    using p0(4,5) by (simp_all add: c_def libre_con_def)
  ultimately have L: "leido env dir (Some ?d) p = Some (en_con (\<lambda>c. do_read_con (start_deadline c)) q)"
    unfolding leido_def p0_def [symmetric] Let_def using q(6) by simp
  have mata: "feed ?m dir' [nul, x] (en_con g q) = Some Muere" for g
    using ejecuta_nul [where q = "en_con g q"] q(2,3,4,7) p0(3) assms(4-7) mc by (simp add: feed_def en_con_def max_header_size_def)
  have "leido env dir' (Some [nul, x]) (en_con (\<lambda>c. do_read_con (start_deadline c)) q) = None"
    using mata [of "(\<lambda>c. c\<lparr>lecturas := lecturas c - 1, fallo_c := None\<rparr>) \<circ> (\<lambda>c. do_read_con (start_deadline c))"]
    by (simp add: leido_def Let_def en_con_def)
  then show ?thesis using L mata q(6) \<open>abierto c\<close>
    by (simp add: en_con_def do_read_con_def start_deadline_def cancel_deadline_timer_def)
qed

theorem nulo_mata_servidor_testigo:
  "\<exists>(rt :: (nat, almacen_direcciones) router) q.
     leido (entorno_ejemplo rt) 0 (Some (linea_peticion Get ''/'' @ ''Connection: ''))
       (start_con (http_parser_init (con_inicial almacen_vacio))) = Some q \<and>
     feed (manejadores_con (entorno_ejemplo rt)) 0 [nul, CHR ''x''] q = Some Muere"
proof -
  obtain rt :: "(nat, almacen_direcciones) router" where "inicia_app (Inr (response_code 200)) (\<lambda>_. None) Map.empty = Inr (Inr rt)"
    using app_arranca by blast
  then have i: "inicia_app (Inr (response_code 200)) (\<lambda>_. None) Map.empty = Inr (Inr (router_e (entorno_ejemplo rt)))"
    by (simp add: entorno_ejemplo_def)
  have ok: "pedido_ok anfitrion Inicio" by (simp add: pedido_ok_def anfitrion_ok)
  have l: "length (linea_peticion (metodo_pedido Inicio) (ruta_pedido Inicio)) \<le> 4000"
    by (simp add: linea_peticion_def metodo_pedido_def ruta_pedido_def method_name_simps)
  have x: "CROW_IS_HEADER_CHAR (CHR ''x'')" "CHR ''x'' \<noteq> cr" "CHR ''x'' \<noteq> lf" by (simp_all add: CROW_IS_HEADER_CHAR_def less_char_def)
  from nulo_mata_servidor [OF i ok libre_acepta l x, of 0 almacen_vacio 0] show ?thesis
    by (auto simp: metodo_pedido_def ruta_pedido_def)
qed

subsection \<open>A URL in two pieces\<close>

context conexion_http
begin

lemma lee_url_parcial:
  assumes "mt \<noteq> InternalMethodCount" "mt \<noteq> Connect" "url_ok u" "al_inicio p" "inv_parser p" "data = method_name mt @ '' '' @ u"
    and "nread p + length data < max_header_size" "nul \<notin> set data"
  shows "\<exists>q k. req q = request_vacia\<lparr>req_method := mt, raw_url := u, url := sin_consulta u\<rparr> \<and> conexion q = conexion p \<and>
    p_errno q = CHPE_OK \<and> estado_ruta (pstate q) \<and> message_complete q = message_complete p \<and>
    http_parser_execute m dir data p = Some (Devuelve (length data)
      (if p_errno (handle_url m q) = CHPE_OK then (handle_url m q)\<lparr>nread := k\<rparr> else handle_url m q))"
proof -
  let ?M = "length (method_name mt)" and ?n = "nread p"
  have ini: "pstate p = s_start_req" "p_errno p = CHPE_OK" "req p = request_vacia" "qs_point p = 0"
    using assms(4) by (simp_all add: al_inicio_def)
  have len: "length data = ?M + 1 + length u" by (simp add: assms(6))
  have d0: "drop 0 data = method_name mt @ CHR '' '' # (u @ [])" by (simp add: assms(6))
  have d1: "drop (?M + 1) data = u @ []" using queda(4) [OF sigue_tras [OF d0]] by simp
  obtain k where 1: "corre m dir data False (en p 0 ?n (\<lambda>_. None)) False
      (en (con_metodo_leido mt k (inicio_peticion p)\<lparr>pstate := s_req_spaces_before_url\<rparr>) (?M + 1) (?n + ?M + 1) (\<lambda>_. None))"
    using corre_metodo [OF assms(1) d0 ini(1,2), of ?n m dir "\<lambda>_. None"] assms(7) len by auto
  define p1 where "p1 = con_metodo_leido mt k (inicio_peticion p)\<lparr>pstate := s_req_spaces_before_url\<rparr>"
  have p1: "req p1 = request_vacia\<lparr>req_method := mt\<rparr>" "conexion p1 = conexion p" "p_method p1 = mt" "p_errno p1 = CHPE_OK" "qs_point p1 = 0"
      "raw_url (req p1) = []" "pstate p1 = s_req_spaces_before_url" "message_complete p1 = message_complete p"
    using ini by (simp_all add: p1_def con_metodo_leido_def inicio_peticion_def request_vacia_def)
  have "p_method p1 \<noteq> Connect" "?n + ?M + 1 + length u < max_header_size" using p1(3) assms(2,7) len by simp_all
  from corre_url_letras [OF assms(3) d1 p1(7) this(1) p1(4,5) this(2), of m dir] obtain x s where
    s: "estado_ruta s" "(if x \<noteq> 0 then take (unat x) u else u) = sin_consulta u"
      "corre m dir data False (en p1 (?M + 1) (?n + ?M + 1) (\<lambda>_. None)) False
        (en (p1\<lparr>qs_point := x, pstate := s\<rparr>) (length data) (?n + ?M + 1 + length u) (marca_url (?M + 1)))"
    unfolding len by blast
  define q where "q = p1\<lparr>qs_point := x, pstate := s, req := (req p1)\<lparr>raw_url := u, url := sin_consulta u\<rparr>\<rparr>"
  let ?r = "Devuelve (length data) (if p_errno (handle_url m q) = CHPE_OK then (handle_url m q)\<lparr>nread := ?n + ?M + 1 + length u\<rparr> else handle_url m q)"
  have t: "drop (Suc ?M) data = u" "length data - Suc ?M = length u" using d1 len by simp_all
  have "on_url m u (p1\<lparr>qs_point := x, pstate := s\<rparr>) = handle_url m q"
    unfolding q_def by (rule on_url_ok [OF s(2) p1(6)])
  then have b: "bucle 1 m dir data False (en (p1\<lparr>qs_point := x, pstate := s\<rparr>) (length data) (?n + ?M + 1 + length u) (marca_url (?M + 1))) = Some ?r"
    using p1(4) t
    by (simp add: epilogo_def marcas_puestas_def marca_url_def afirma_def luego_def CROW_CALLBACK_DATA_NOADVANCE_def
        CROW_CALLBACK_DATA_ER_def termina_ejec_def en_parser_def on_dato_def Let_def)
  have "ejec_inicial p = en p 0 ?n (\<lambda>_. None)"
    using ini(1) by (simp add: ejec_inicial_def estado_url_def fun_eq_iff)
  moreover have "length data < 2 ^ 64" using assms(7) by (simp add: max_header_size_def)
  then obtain r where r: "http_parser_execute m dir data p = Some r"
    using ejecuta_ok [OF assms(5), of data dir] assms(8) by auto
  moreover have "data \<noteq> []" using len by auto
  ultimately have "bucle (combustible data) m dir data False (en p 0 ?n (\<lambda>_. None)) = Some r"
    using ini(2) by (simp add: http_parser_execute_def)
  from corre_resultado [OF corre_trans [OF 1 [folded p1_def] s(3)] b this] r
  have "http_parser_execute m dir data p = Some ?r" by simp
  then show ?thesis
    using p1 s(1) by (intro exI [of _ q] exI [of _ "?n + ?M + 1 + length u"]) (simp add: q_def)
qed

end

lemma statusCodes_ausente: "c = 404 \<or> c = 405 \<Longrightarrow> statusCodes c \<noteq> None"
  by (auto simp: statusCodes_def razones_def)

lemma prepare_buffers_inicio:
  assumes "abierto c" "statusCodes (code (res_c c)) \<noteq> None"
  shows "\<exists>bs r. prepare_buffers env c = c\<lparr>res_c := r, buffers_c := linea_estado (code (res_c c)) # bs\<rparr> \<and> file_path r = file_path (res_c c)"
proof -
  have "code (fija_estado r) = code r \<and> file_path (fija_estado r) = file_path r" if "statusCodes (code r) \<noteq> None" for r
    using that by (auto simp: fija_estado_def Let_def)
  moreover have "\<exists>bs. cabeza env k r = linea_estado (code r) # bs" for k r by (simp only: cabeza_def append_Cons append_Nil) blast
  then obtain bs where "cabeza env (add_keep_alive c) (fija_estado ((res_c c)\<lparr>con_manejador := False\<rparr>)) =
      linea_estado (code (fija_estado ((res_c c)\<lparr>con_manejador := False\<rparr>))) # bs" by blast
  ultimately show ?thesis using assms
    by (intro exI [of _ bs] exI [of _ "fija_estado ((res_c c)\<lparr>con_manejador := False\<rparr>)"]) (simp add: prepare_buffers_def Let_def)
qed

lemma completa_con:
  assumes "abierto (conexion p)" "code (res_c (conexion p)) = c" "statusCodes c \<noteq> None" "file_path (res_c (conexion p)) = []"
  shows "\<exists>t. enviado (conexion (complete_request env p)) = enviado (conexion p) @ linea_estado c @ t \<and>
    p_errno (complete_request env p) = p_errno p \<and> aplicacion (conexion (complete_request env p)) = aplicacion (conexion p) \<and>
    fallo_c (conexion (complete_request env p)) = fallo_c (conexion p) \<and>
    close_connection_c (conexion (complete_request env p)) = close_connection_c (conexion p) \<and>
    (\<not> close_connection_c (conexion p) \<longrightarrow> abierto (conexion (complete_request env p))) \<and>
    \<not> need_to_call_after_handlers (conexion (complete_request env p))"
proof -
  define p1 where "p1 = en_res (con_location (req p)) (en_con (\<lambda>c. c\<lparr>need_to_call_after_handlers := False\<rparr>) p)"
  have l: "code (con_location rq r) = code r" "file_path (con_location rq r) = file_path r" for rq r
    by (simp_all add: con_location_def set_header_def Let_def)
  have p1: "abierto (conexion p1)" "statusCodes (code (res_c (conexion p1))) \<noteq> None" "code (res_c (conexion p1)) = c"
      "file_path (res_c (conexion p1)) = []"
    using assms by (auto simp: p1_def en_res_def en_con_def l)
  from prepare_buffers_inicio [OF p1(1,2), of env] obtain bs r where
    b: "prepare_buffers env (conexion p1) = (conexion p1)\<lparr>res_c := r, buffers_c := linea_estado c # bs\<rparr>" "file_path r = []"
    using p1(3,4) by auto
  have "complete_request env p = do_write_general env (p1\<lparr>conexion := (conexion p1)\<lparr>res_c := r, buffers_c := linea_estado c # bs\<rparr>\<rparr>)"
    using b by (simp add: complete_request_def Let_def en_con_def [of "prepare_buffers env"] p1_def [symmetric])
      (simp add: p1_def en_con_def en_res_def)
  then show ?thesis
    using p1(1)
    by (simp add: do_write_general_def en_con_def do_write_con_def write_sync_def fin_sincrono_def clear_parser_def Let_def
        cancel_deadline_timer_def cierra_def do_read_con_def start_deadline_def p1_def en_res_def)
qed

lemma no_halla:
  fixes rt :: "('d, almacen_direcciones) router"
  assumes "inicia_app perfil stat mt = Inr (Inr rt)" "req_method rq = Post" "url rq \<noteq> ''/guardar''"
    and "\<not> completed res" "\<not> skip_body res" "\<not> con_manejador res"
  shows "\<exists>found c. handle_initial sd rt rq res = (found, res\<lparr>code := c, completed := True\<rparr>, False) \<and> found_index found = 0 \<and> (c = 404 \<or> c = 405)"
proof -
  let ?rs = "reglas_app perfil stat mt :: ('d, almacen_direcciones) regla list"
  have rt: "validate_router (router_nuevo\<lparr>all_rules := ?rs\<rparr>) = Inr rt"
    using assms(1) by (simp add: inicia_app_def rutas_app_eq)
  have c: "catchall rt = None" using validate_router_ok [of ?rs, OF reglas_app_ok] rt by auto
  obtain ps where "find_metodo sd rt Post (url rq) = (0, [], ps)"
    using find_router [OF reglas_app_ok rt, of Post sd "url rq"] primera_post [of sd "url rq" perfil stat mt] assms(3) by auto
  then show ?thesis
    using assms(2,4-6) c by (auto simp: handle_initial_def resultado_def get_error_def end_res_def Let_def)
qed



subsection \<open>A byte after the body\<close>

context conexion_http
begin

lemma analiza_con_byte:
  assumes "peticion_ok mt u hs b" "al_inicio p" "inv_parser p" "data = texto_peticion mt u hs b @ [x]" "b \<noteq> []" "x \<noteq> nul"
    and "nread p + length data < max_header_size"
    and hu: "\<And>q. req q = request_vacia\<lparr>req_method := mt, raw_url := u, url := sin_consulta u\<rparr> \<Longrightarrow> conexion q = conexion p \<Longrightarrow>
      handle_url m q = q\<lparr>conexion := c\<rparr>"
    and hh: "\<And>q. req q = (peticion_leida mt u hs b)\<lparr>req_body := []\<rparr> \<Longrightarrow> conexion q = c \<Longrightarrow> handle_header m q = q"
    and hk: "\<And>q. req q = peticion_leida mt u hs b \<Longrightarrow> conexion q = c \<Longrightarrow> pstate q = s_message_done \<Longrightarrow> p_errno q = CHPE_OK \<Longrightarrow>
      pstate (handle m q) = s_message_done"
  shows "\<exists>q. http_parser_execute m dir data p =
      Some (Devuelve (length data) (handle m ((handle m q)\<lparr>message_complete := True\<rparr>)\<lparr>nread := 0\<rparr>)) \<and>
    req q = peticion_leida mt u hs b \<and> conexion q = c \<and> p_errno q = CHPE_OK \<and> pstate q = s_message_done"
proof -
  have d: "data = linea_peticion mt u @ concat (map linea (hs @ longitud b)) @ cr # lf # (b @ [x])" by (simp add: assms(4) texto_peticion_def)
  have b: "length b < 2 ^ 59" "nread p + length (linea_peticion mt u @ concat (map linea (hs @ longitud b))) + 2 < max_header_size"
    using assms(7) d by (simp_all add: max_header_size_def)
  have dl: "length data < 2 ^ 63" "length b < 2 ^ 63" using assms(7) b(1) by (simp_all add: max_header_size_def)
  obtain q i n mk where 1: "corre m dir data False (en p 0 (nread p) (\<lambda>_. None)) True (en q i n mk)" "drop i data = lf # b @ [x]" "marcas_libres mk"
    "pstate q = s_headers_done" "req q = (peticion_leida mt u hs b)\<lparr>req_body := []\<rparr>" "flags q \<subseteq> {F_CONTENTLENGTH}"
    "\<not> uses_transfer_encoding q" "content_length q = (if b = [] then CROW_ULLONG_MAX else of_nat (length b))" "\<not> upgrade q"
    "p_errno q = CHPE_OK" "conexion q = c"
    by (rule corre_cabeza [OF assms(1,2) d b(2,1) hu hh])
  have ne: "data \<noteq> []" using d by auto
  have "req_body (req q) = []" using 1(5) by simp
  then obtain q' where 2: "corre m dir data True (en q i n mk) False (en (handle m q') (Suc (i + length b)) 0 mk)"
      and q': "req q' = (req q)\<lparr>req_body := b\<rparr>" "conexion q' = conexion q" "message_complete q'" "p_errno q' = CHPE_OK"
      "pstate q' = s_message_done"
    using corre_mensaje [where i = i and dir = dir and n = n, OF ne 1(4,6,7,9,10) 1(2,3) dl(2) _ 1(8) dl(1)] assms(5) by auto
  have dx: "drop (Suc (i + length b)) data = [x]" using sigue_tras [OF queda(4) [OF 1(2)]] by simp
  have fin: "Suc (Suc (i + length b)) = length data" using queda(2,4) [OF dx] by simp
  have req': "req q' = peticion_leida mt u hs b" using q'(1) 1(5) by (simp add: peticion_leida_def)
  have st: "pstate (handle m q') = s_message_done" by (rule hk [OF req' _ q'(5,4)]) (use q'(2) 1(11) in simp)
  have er: "p_errno (handle m q') = CHPE_OK" using q'(4) by (simp add: message_errno)
  define q2 where "q2 = handle m ((handle m q')\<lparr>message_complete := True\<rparr>)"
  have "paso_estado m dir data (en (handle m q') (Suc (i + length b)) 0 mk) = (Sigue, en q2 (Suc (i + length b)) 0 mk)"
    using notifica [OF er] st by (simp add: paso_estado_def paso_message_done_def q2_def)
  moreover have "cuenta (en (handle m q') (Suc (i + length b)) 0 mk) = (Sigue, en (handle m q') (Suc (i + length b)) 0 mk)"
    using st by (simp add: cuenta_def CROW_PARSING_HEADER_def estados_cuerpo_def)
  ultimately have 3: "corre m dir data False (en (handle m q') (Suc (i + length b)) 0 mk) False (en q2 (length data) 0 mk)"
    using corre_sigue [of "en (handle m q') (Suc (i + length b)) 0 mk" data _ m dir] queda(1) [OF dx] fin
    by (metis (no_types, lifting) Suc_eq_plus1 ejec.select_convs(2) ejec.update_convs(2))
  have "http_parser_execute m dir data p = Some (Devuelve (length data) (q2\<lparr>nread := 0\<rparr>))"
  proof (rule ejecuta_corre [OF corre_trans [OF corre_trans [OF 1(1) 2] 3] assms(2,3) ne])
    show "bucle 1 m dir data False (en q2 (length data) 0 mk) = Some (Devuelve (length data) (q2\<lparr>nread := 0\<rparr>))"
      using er 1(3) by (simp add: q2_def message_errno epilogo_libre)
    show "length data < 2 ^ 64" "nul \<notin> set data" using dl(1) texto_sin_nul [OF assms(1)] assms(4,6) by simp_all
  qed
  then show ?thesis using q' req' 1(11) unfolding q2_def by (intro exI [of _ q']) simp
qed

end

text \<open>The second call finds the response completed and completes the request again.\<close>

lemma handle_con_otra:
  assumes "abierto (conexion p)" "conectado (conexion p)" "respuesta_vaciada (res_c (conexion p))"
    and "check_version (req p) 1 1" "ci_count (req_headers (req p)) ''host'' \<noteq> 0" "\<not> req_upgrade (req p)"
    and "keep_alive (req p)" "\<not> close_connection (req p)"
  shows "\<exists>t. enviado (conexion (handle_con env p)) = enviado (conexion p) @ linea_estado 200 @ t \<and>
    p_errno (handle_con env p) = p_errno p \<and> aplicacion (conexion (handle_con env p)) = aplicacion (conexion p) \<and>
    fallo_c (conexion (handle_con env p)) = fallo_c (conexion p) \<and> abierto (conexion (handle_con env p)) \<and>
    \<not> close_connection_c (conexion (handle_con env p)) \<and> \<not> need_to_call_after_handlers (conexion (handle_con env p))"
proof -
  define p1 where "p1 = p\<lparr>req := (req p)\<lparr>remote_ip_address := peer_ip env\<rparr>,
    conexion := (conexion p)\<lparr>plazo := False, add_keep_alive := True, close_connection_c := False, need_to_call_after_handlers := False,
      res_c := (res_c (conexion p))\<lparr>con_manejador := False\<rparr>\<rparr>\<rparr>"
  have 1: "handle_con env p = complete_request env p1"
    using assms
    by (simp add: handle_con_def responde_con_def Let_def en_con_def en_res_def cancel_deadline_timer_def check_version_def
        respuesta_vaciada_def p1_def)
  have "abierto (conexion p1)" "code (res_c (conexion p1)) = 200" "statusCodes 200 \<noteq> None" "file_path (res_c (conexion p1)) = []"
    using assms(1,3) by (simp_all add: p1_def respuesta_vaciada_def statusCodes_200)
  from completa_con [OF this, of env] show ?thesis unfolding 1 by (simp add: p1_def)
qed

text \<open>C36. A byte after the body runs the request's completion again: when a read brings a form saved by POST and
  one more byte, whatever it is, the form is saved once but the server answers twice, so that the second answer
  is taken by the client for that of its next request.\<close>

theorem byte_de_mas_responde_dos_veces:
  fixes env :: "('d, almacen_direcciones) entorno_con"
  assumes "inicia_app perfil stat mt = Inr (Inr (router_e env))" "pedido_ok hs (Guardar b)" "libre p" "b \<noteq> []" "x \<noteq> nul"
    and "length (texto_pedido hs (Guardar b)) \<le> 4095"
    and "\<forall>a alm. ruta_guardar b (aplicacion (conexion p)) = Inr (a, alm) \<longrightarrow> length a < res_stream_threshold env"
  shows "\<exists>q a alm t. ruta_guardar b (aplicacion (conexion p)) = Inr (a, alm) \<and>
    leido env dir (Some (texto_pedido hs (Guardar b) @ [x])) p = Some q \<and> aplicacion (conexion q) = alm \<and> abierto (conexion q) \<and>
    enviado (conexion q) = enviado (conexion p) @ texto_respuesta env a @ linea_estado 200 @ t"
proof -
  let ?u = "''/guardar''" and ?m = "manejadores_con env"
  let ?d = "texto_peticion Post ?u hs b @ [x]"
  have td: "texto_pedido hs (Guardar b) = texto_peticion Post ?u hs b"
    by (simp add: texto_pedido_def metodo_pedido_def ruta_pedido_def cuerpo_pedido_def)
  define p0 where "p0 = en_con (\<lambda>c. c\<lparr>lecturas := lecturas c - 1, fallo_c := None\<rparr>) p"
  have p0: "al_inicio p0" "inv_parser p0" "nread p0 = 0" "libre_con (conexion p0)" "fallo_c (conexion p0) = None"
      "enviado (conexion p0) = enviado (conexion p)" "aplicacion (conexion p0) = aplicacion (conexion p)"
    using assms(3) by (auto simp: p0_def libre_def libre_con_def al_inicio_def en_con_def inv_parser_def estado_ok_def)
  obtain found a alm where f: "found_index found \<noteq> 0" "ruta_guardar b (aplicacion (conexion p)) = Inr (a, alm)"
    "\<And>rq res. req_method rq = Post \<Longrightarrow> url rq = ?u \<Longrightarrow> handle_initial (stod_e env) (router_e env) rq res = (found, res, False)"
    "\<And>rq res. req_method rq = Post \<Longrightarrow> url rq = ?u \<Longrightarrow> req_body rq = b \<Longrightarrow>
      handle_router (router_e env) rq res found (aplicacion (conexion p)) = (Inr (end_res (asigna res (response_body a))), alm)"
    using pedido_halla [where sd = "stod_e env" and alm = "aplicacion (conexion p)", OF assms(1,2)]
    by (auto simp: metodo_pedido_def ruta_pedido_def cuerpo_pedido_def atiende_pedido_def)
  have corta: "length a < res_stream_threshold env" using assms(7) f(2) by blast
  define c where "c = (conexion p0)\<lparr>routing_handle_result_c := Some found\<rparr>"
  have ok: "peticion_ok Post ?u hs b" and u: "sin_consulta ?u = ?u" and ch: "cabeceras_peticion_ok (hs @ longitud b)"
    using peticion_pedido [OF assms(2)] assms(2) url_pedido(2) [OF assms(2)]
    by (simp_all add: metodo_pedido_def ruta_pedido_def cuerpo_pedido_def pedido_ok_def)
  have R: "respondida env a (en_con (\<lambda>c. c\<lparr>aplicacion := alm\<rparr>) (q\<lparr>req := (req q)\<lparr>remote_ip_address := peer_ip env\<rparr>\<rparr>)) (handle_con env q)"
    if q: "req q = peticion_leida Post ?u hs b" "conexion q = c" "p_errno q = CHPE_OK" for q
  proof (rule handle_con_ok [OF _ q(3) _ refl])
    show "libre_con (conexion q)" "fallo_c (conexion q) = None" "routing_handle_result_c (conexion q) = Some found"
      using p0(4,5) q(2) by (simp_all add: c_def libre_con_def)
    show "handle_router (router_e env) ((req q)\<lparr>remote_ip_address := peer_ip env\<rparr>) res found (aplicacion (conexion q)) =
        (Inr (end_res (asigna res (response_body a))), alm)" for res
      using f(4) q(1,2) p0(7) u by (simp add: peticion_leida_def c_def)
  qed (use ch q(1) in \<open>simp_all add: check_version_def peticion_leida_def cabeceras_peticion_ok_def\<close>)
  have h: "handle ?m q = handle_con env q" if "fallo_c (conexion q) = None" for q
    using that by (simp add: manejadores_con_def si_vivo_def)
  have "\<exists>q. http_parser_execute ?m dir ?d p0 =
        Some (Devuelve (length ?d) (handle ?m ((handle ?m q)\<lparr>message_complete := True\<rparr>)\<lparr>nread := 0\<rparr>)) \<and>
      req q = peticion_leida Post ?u hs b \<and> conexion q = c \<and> p_errno q = CHPE_OK \<and> pstate q = s_message_done"
  proof (rule crow.analiza_con_byte [OF ok p0(1,2) refl assms(4,5)])
    show "nread p0 + length ?d < max_header_size" using p0(3) assms(6) by (simp add: td max_header_size_def)
    show "handle_url ?m q = q\<lparr>conexion := c\<rparr>"
      if "req q = request_vacia\<lparr>req_method := Post, raw_url := ?u, url := sin_consulta ?u\<rparr>" "conexion q = conexion p0" for q
      using handle_url_halla [OF f(1), of q env] f(3) [of "req q"] that p0(5) u by (simp add: c_def)
    show "handle_header ?m q = q" if "req q = (peticion_leida Post ?u hs b)\<lparr>req_body := []\<rparr>" for q
      using that ch by (simp add: manejadores_con_def si_vivo_def handle_header_con_def peticion_leida_def cabeceras_peticion_ok_def)
    show "pstate (handle ?m q) = s_message_done"
      if "req q = peticion_leida Post ?u hs b" "conexion q = c" "pstate q = s_message_done" "p_errno q = CHPE_OK" for q
      using R [OF that(1,2,4)] that(2,3) p0(5) corta h [of q] by (simp add: respondida_def c_def en_con_def)
  qed
  then obtain q where x: "http_parser_execute ?m dir ?d p0 =
        Some (Devuelve (length ?d) (handle ?m ((handle ?m q)\<lparr>message_complete := True\<rparr>)\<lparr>nread := 0\<rparr>))"
      and q: "req q = peticion_leida Post ?u hs b" "conexion q = c" "p_errno q = CHPE_OK" by blast
  note R = R [OF q]
  define q1 where "q1 = (handle_con env q)\<lparr>message_complete := True\<rparr>"
  have q1: "abierto (conexion q1)" "conectado (conexion q1)" "respuesta_vaciada (res_c (conexion q1))" "\<not> need_to_start_read_after_complete (conexion q1)"
      "fallo_c (conexion q1) = None" "p_errno q1 = CHPE_OK" "aplicacion (conexion q1) = alm"
      "enviado (conexion q1) = enviado (conexion p) @ texto_respuesta env a"
      "req q1 = (peticion_leida Post ?u hs b)\<lparr>remote_ip_address := peer_ip env\<rparr>"
    using R q p0(5,6) corta by (simp_all add: q1_def respondida_def c_def en_con_def)
  have "check_version (req q1) 1 1" "ci_count (req_headers (req q1)) ''host'' \<noteq> 0" "\<not> req_upgrade (req q1)" "keep_alive (req q1)"
      "\<not> close_connection (req q1)"
    using ch q1(9) by (simp_all add: check_version_def peticion_leida_def cabeceras_peticion_ok_def)
  from handle_con_otra [OF q1(1-3) this, of env] obtain t where
    t: "enviado (conexion (handle_con env q1)) = enviado (conexion p) @ texto_respuesta env a @ linea_estado 200 @ t"
      "p_errno (handle_con env q1) = CHPE_OK" "aplicacion (conexion (handle_con env q1)) = alm" "fallo_c (conexion (handle_con env q1)) = None"
      "abierto (conexion (handle_con env q1))" "\<not> close_connection_c (conexion (handle_con env q1))"
      "\<not> need_to_call_after_handlers (conexion (handle_con env q1))"
    using q1(5-8) by auto
  define q2 where "q2 = (handle_con env q1)\<lparr>nread := 0\<rparr>"
  have "handle ?m ((handle ?m q)\<lparr>message_complete := True\<rparr>) = handle_con env q1"
    using h [of q] h [of q1] q(2) p0(5) q1(5) by (simp add: q1_def c_def)
  then have "feed ?m dir ?d p0 = Some (Alimento True q2)"
    using x p0(1) t(2) by (simp add: feed_def al_inicio_def q2_def)
  then have "leido env dir (Some ?d) p = Some (en_con (\<lambda>c. do_read_con (start_deadline c)) q2)"
    unfolding leido_def p0_def [symmetric] Let_def using t(4-7) by (simp add: q2_def)
  then show ?thesis using t f(2) unfolding td
    by (auto simp: q2_def en_con_def do_read_con_def start_deadline_def cancel_deadline_timer_def)
qed

theorem byte_de_mas_responde_dos_veces_testigo:
  "\<exists>(rt :: (nat, almacen_direcciones) router) q a t.
     leido (entorno_ejemplo rt) 0 (Some (texto_pedido anfitrion (Guardar ''a=b'') @ [lf]))
       (start_con (http_parser_init (con_inicial almacen_vacio))) = Some q \<and>
     enviado (conexion q) = texto_respuesta (entorno_ejemplo rt) a @ linea_estado 200 @ t"
proof -
  obtain rt :: "(nat, almacen_direcciones) router" where "inicia_app (Inr (response_code 200)) (\<lambda>_. None) Map.empty = Inr (Inr rt)"
    using app_arranca by blast
  then have i: "inicia_app (Inr (response_code 200)) (\<lambda>_. None) Map.empty = Inr (Inr (router_e (entorno_ejemplo rt)))"
    by (simp add: entorno_ejemplo_def)
  have ok: "pedido_ok anfitrion (Guardar ''a=b'')" by (simp add: pedido_ok_def anfitrion_ok cuerpo_pedido_def)
  have l: "length (texto_pedido anfitrion (Guardar ''a=b'')) \<le> 4095"
    by (simp add: texto_pedido_def texto_peticion_def linea_peticion_def metodo_pedido_def ruta_pedido_def cuerpo_pedido_def
        anfitrion_def longitud_def linea_def method_name_simps evalua_decimal)
  have x: "''a=b'' \<noteq> []" "lf \<noteq> nul" by simp_all
  let ?p = "start_con (http_parser_init (con_inicial almacen_vacio)) :: (nat, almacen_direcciones) cparser"
  have p: "enviado (conexion ?p) = []" "aplicacion (conexion ?p) = almacen_vacio"
    by (simp_all add: start_con_def clear_parser_def http_parser_init_def con_inicial_def en_con_def do_read_con_def
        start_deadline_def cancel_deadline_timer_def)
  have corto: "length (formatea_solicitud ''a=b'') < 100" by code_simp
  have "\<forall>a alm. ruta_guardar ''a=b'' (aplicacion (conexion ?p)) = Inr (a, alm) \<longrightarrow> length a < res_stream_threshold (entorno_ejemplo rt)"
    unfolding p using corto by (auto simp: ruta_guardar_def bindE_def entorno_ejemplo_def Let_def split: sum.splits if_splits)
  from byte_de_mas_responde_dos_veces [OF i ok libre_acepta x l this, of 0] show ?thesis unfolding p by auto
qed

subsection \<open>The counter of the body\<close>

definition limite_longitud :: nat where
  "limite_longitud = 18446744073709551610"

lemma digito_desborda:
  assumes "unat (n :: 64 word) < limite_longitud"
  shows "(CROW_ULLONG_MAX - 10) div 10 < n \<longleftrightarrow> limite_longitud \<le> 10 * unat n"
proof -
  have "unat ((CROW_ULLONG_MAX - 10) div 10) = (2 ^ 64 - 11) div 10"
    unfolding unat_div by (subst unat_sub) (simp_all add: word_le_nat_alt unat_max)
  then show ?thesis by (auto simp: word_less_nat_alt limite_longitud_def)
qed

lemma valor_digito_ok:
  assumes "es_digito c" "unat (content_length p) < limite_longitud"
  defines "v \<equiv> 10 * unat (content_length p) + digito c"
  shows "valor_char c h_content_length_num p =
    (if v < limite_longitud then V_sigue h_content_length_num (p\<lparr>content_length := of_nat v\<rparr>) else V_mal CHPE_INVALID_CONTENT_LENGTH)"
proof -
  have d: "digito c < 10" using assms(1) by (auto simp: es_digito_def digito_def)
  have "(limite_longitud \<le> 10 * unat (content_length p)) = (\<not> v < limite_longitud)"
    using d unfolding v_def limite_longitud_def by presburger
  moreover have "of_nat v = content_length p * 10 + of_nat (of_char c - 48)" by (simp add: v_def digito_def algebra_simps)
  ultimately show ?thesis
    using digito_desborda [OF assms(2)] assms(1) es_digitoD [OF assms(1)]
    by (simp add: valor_char_def valor_digito_def es_digito_num Let_def)
qed

text \<open>C38. The length of a body is counted exactly: of the digits of a \<^verbatim>\<open>Content-Length\<close> the parser keeps the
  number they denote when it is below 18446744073709551610, and refuses the request with its error otherwise;
  the 64-bit counter never wraps around and never takes the value that stands for an absent length.\<close>

theorem longitud_exacta:
  assumes "list_all es_digito ds" "unat (content_length p) < limite_longitud"
  defines "v \<equiv> foldl (\<lambda>n c. 10 * n + digito c) (unat (content_length p)) ds"
  shows "if v < limite_longitud
    then lee_valor (ds @ cr # r) i h_content_length_num p =
           (Fin_cr, i + length ds, h_content_length_num, p\<lparr>content_length := of_nat v\<rparr>) \<and>
         unat (of_nat v :: 64 word) = v \<and> (of_nat v :: 64 word) \<noteq> CROW_ULLONG_MAX
    else fst (lee_valor (ds @ cr # r) i h_content_length_num p) = Fin_longitud CHPE_INVALID_CONTENT_LENGTH"
proof -
  have u: "unat (of_nat n :: 64 word) = n \<and> (of_nat n :: 64 word) \<noteq> CROW_ULLONG_MAX" if "n < limite_longitud" for n
  proof -
    have e: "unat (of_nat n :: 64 word) = n" using that by (simp add: limite_longitud_def unat_of_nat take_bit_nat_eq_self_iff)
    moreover from this have "(of_nat n :: 64 word) \<noteq> CROW_ULLONG_MAX" using that unat_max by (auto simp: limite_longitud_def)
    ultimately show ?thesis by simp
  qed
  have "(if v < limite_longitud
    then lee_valor (ds @ cr # r) i h_content_length_num p =
           (Fin_cr, i + length ds, h_content_length_num, p\<lparr>content_length := of_nat v\<rparr>)
    else fst (lee_valor (ds @ cr # r) i h_content_length_num p) = Fin_longitud CHPE_INVALID_CONTENT_LENGTH)"
    using assms(1,2) unfolding v_def
  proof (induction ds arbitrary: i p)
    case Nil
    then show ?case by (cases p) simp
  next
    case (Cons c ds)
    define n where "n = 10 * unat (content_length p) + digito c"
    have c: "es_digito c" "list_all es_digito ds" using Cons.prems(1) by simp_all
    note v = valor_digito_ok [OF c(1) Cons.prems(2), folded n_def]
    have f: "foldl (\<lambda>n c. 10 * n + digito c) (unat (content_length p)) (c # ds) = foldl (\<lambda>n c. 10 * n + digito c) n ds"
      by (simp add: n_def)
    show ?case
    proof (cases "n < limite_longitud")
      case True
      then show ?thesis
        unfolding f using Cons.IH [OF c(2), of "p\<lparr>content_length := of_nat n\<rparr>" "Suc i"] v u [OF True] es_digitoD [OF c(1)] by simp
    next
      case False
      then have "\<not> foldl (\<lambda>n c. 10 * n + digito c) n ds < limite_longitud"
        using foldl_decimal_le [of n ds] by simp
      then show ?thesis unfolding f using False v es_digitoD [OF c(1)] by simp
    qed
  qed
  then show ?thesis using u by auto
qed

theorem longitud_exacta_testigo:
  "fst (lee_valor (''18446744073709551610'' @ cr # []) 0 h_content_length_num (http_parser_init ())) = Fin_longitud CHPE_INVALID_CONTENT_LENGTH"
proof -
  have d: "list_all es_digito ''18446744073709551610''" by (simp add: es_digito_def)
  have z: "unat (content_length (http_parser_init ())) < limite_longitud" by (simp add: http_parser_init_def limite_longitud_def)
  show ?thesis using longitud_exacta [OF d z, of "[]" 0] by (simp add: http_parser_init_def limite_longitud_def digito_def del: lee_valor.simps)
qed

end
