(* ===== verification/Json.thy ===== *)
theory Json
  imports Cadenas
begin

text \<open>
  The values of \<^verbatim>\<open>crow::json::wvalue\<close> in \<^verbatim>\<open>includes/crow_all.h\<close>, which are also the contexts of the
  templates: their kinds, assignment and access by key, and their text. What \<^verbatim>\<open>printf("%f")\<close> writes
  for a \<^verbatim>\<open>double\<close> and which doubles are not finite are given.
\<close>

subsection \<open>Values\<close>

datatype 'd numero_json =
    Signed_integer "64 word"
  | Unsigned_integer "64 word"
  | Floating_point 'd

text \<open>
  The table of an object is an unordered map; here it is in some order with distinct keys. A list or object
  whose pointer is null behaves everywhere as an empty one. A function may be empty.
\<close>

datatype 'd wvalue =
    J_Null
  | J_False
  | J_True
  | J_Number "'d numero_json"
  | J_String string
  | J_List "'d wvalue list"
  | J_Object "(string \<times> 'd wvalue) list"
  | J_Function "(string \<Rightarrow> string) option"

text \<open>Construction by move: the function of the source is not moved.\<close>

fun mueve :: "'d wvalue \<Rightarrow> 'd wvalue" where
  "mueve (J_Function f) = J_Function None"
| "mueve v = v"

text \<open>The assignments from the arithmetic types.\<close>

definition de_bool :: "bool \<Rightarrow> 'd wvalue" where
  "de_bool b = (if b then J_True else J_False)"

definition de_int :: "int \<Rightarrow> 'd wvalue" where
  "de_int i = J_Number (Signed_integer (word_of_int i))"

definition de_unsigned :: "nat \<Rightarrow> 'd wvalue" where
  "de_unsigned n = J_Number (Unsigned_integer (word_of_nat n))"

subsection \<open>Access\<close>

fun cuenta_clave :: "'d wvalue \<Rightarrow> string \<Rightarrow> nat" where
  "cuenta_clave (J_Object kvs) k = (if map_of kvs k = None then 0 else 1)"
| "cuenta_clave v k = 0"

text \<open>
  \<^verbatim>\<open>v[k]\<close> makes \<^verbatim>\<open>v\<close> an object, if it is not one, and adds the key with a null value, if it is not there;
  the result is the object and the value the reference refers to.
\<close>

fun elementos :: "'d wvalue \<Rightarrow> (string \<times> 'd wvalue) list" where
  "elementos (J_Object kvs) = kvs"
| "elementos v = []"

definition acceso :: "'d wvalue \<Rightarrow> string \<Rightarrow> 'd wvalue \<times> 'd wvalue" where
  "acceso v k =
     (case map_of (elementos v) k of
        Some x \<Rightarrow> (J_Object (elementos v), x)
      | None \<Rightarrow> (J_Object (elementos v @ [(k, J_Null)]), J_Null))"

text \<open>\<^verbatim>\<open>v[k] = x\<close>.\<close>

definition pon_clave :: "string \<Rightarrow> 'd wvalue \<Rightarrow> 'd wvalue \<Rightarrow> 'd wvalue" where
  "pon_clave k x v =
     J_Object (map (\<lambda>(k', y). if k' = k then (k', x) else (k', y)) (elementos (fst (acceso v k))))"

fun keys :: "'d wvalue \<Rightarrow> string list" where
  "keys (J_Object kvs) = map fst kvs"
| "keys v = []"

fun execute :: "'d wvalue \<Rightarrow> string \<Rightarrow> string option" where
  "execute (J_Function f) txt = map_option (\<lambda>g. g txt) f"
| "execute v txt = Some []"

fun size_json :: "'d wvalue \<Rightarrow> nat" where
  "size_json (J_List l) = length l"
| "size_json v = 1"

fun estimate_length :: "'d wvalue \<Rightarrow> nat" where
  "estimate_length J_Null = 4"
| "estimate_length J_False = 5"
| "estimate_length J_True = 4"
| "estimate_length (J_Number n) = 30"
| "estimate_length (J_String s) = 2 + length s + length s div 2"
| "estimate_length (J_List l) = sum_list (map (\<lambda>x. 1 + estimate_length x) l) + 2"
| "estimate_length (J_Object kvs) =
     sum_list (map (\<lambda>(k, x). 2 + (2 + length k + length k div 2) + estimate_length x) kvs) + 2"
| "estimate_length (J_Function f) = 0"

subsection \<open>Text of a value\<close>

definition to_hex :: "nat \<Rightarrow> char" where
  "to_hex c = (let d = c mod 16 in if d < 10 then char_of (48 + d) else char_of (97 + d - 10))"

text \<open>\<^verbatim>\<open>char\<close> is signed: characters from 128 on are negative and go out as they are.\<close>

definition escape_char :: "char \<Rightarrow> string" where
  "escape_char c =
     (if c = CHR 0x22 then [CHR 0x5C, CHR 0x22]
      else if c = CHR 0x5C then [CHR 0x5C, CHR 0x5C]
      else if c = CHR 0x0A then [CHR 0x5C, CHR ''n'']
      else if c = CHR 0x08 then [CHR 0x5C, CHR ''b'']
      else if c = CHR 0x0C then [CHR 0x5C, CHR ''f'']
      else if c = CHR 0x0D then [CHR 0x5C, CHR ''r'']
      else if c = CHR 0x09 then [CHR 0x5C, CHR ''t'']
      else let n = of_char c :: nat
           in if n < 32 then CHR 0x5C # ''u00'' @ [to_hex (n div 16), to_hex (n mod 16)] else [c])"

definition escape_json :: "string \<Rightarrow> string" where
  "escape_json s = concat (map escape_char s)"

definition dump_string :: "string \<Rightarrow> string" where
  "dump_string s = CHR 0x22 # escape_json s @ [CHR 0x22]"

text \<open>
  The search for the zeros at the end of a printed \<^verbatim>\<open>double\<close>: the position from which they are cut. The
  first digit after the point always stays.
\<close>

datatype f_state = F_start | F_decp | F_zero

fun busca_ceros :: "f_state \<Rightarrow> nat \<Rightarrow> nat option \<Rightarrow> string \<Rightarrow> nat option" where
  "busca_ceros st p z [] = z"
| "busca_ceros F_start p z (ch # r) =
     (if ch = CHR ''.'' then
        (if r \<noteq> [] \<and> hd r = CHR ''0'' then busca_ceros F_decp (p + 2) z (tl r) else busca_ceros F_decp (p + 1) z r)
      else busca_ceros F_start (p + 1) z r)"
| "busca_ceros F_decp p z (ch # r) =
     (if ch = CHR ''0'' then busca_ceros F_zero (p + 1) (Some p) r else busca_ceros F_decp (p + 1) z r)"
| "busca_ceros F_zero p z (ch # r) =
     (if ch \<noteq> CHR ''0'' then busca_ceros F_decp (p + 1) None r else busca_ceros F_zero (p + 1) z r)"

definition recorta_ceros :: "string \<Rightarrow> string" where
  "recorta_ceros s = (case busca_ceros F_start 0 None s of Some i \<Rightarrow> take i s | None \<Rightarrow> s)"

fun dump_numero :: "('d \<Rightarrow> string option) \<Rightarrow> 'd numero_json \<Rightarrow> string" where
  "dump_numero printf_f (Floating_point d) =
     (case printf_f d of None \<Rightarrow> ''null'' | Some s \<Rightarrow> recorta_ceros (take 127 s))"
| "dump_numero printf_f (Signed_integer n) = to_string_int (sint n)"
| "dump_numero printf_f (Unsigned_integer n) = decimal (unat n)"

text \<open>The elements of a list or object with a comma between them.\<close>

fun con_comas :: "string list \<Rightarrow> string" where
  "con_comas [] = []"
| "con_comas [s] = s"
| "con_comas (s # t # ss) = s @ '','' @ con_comas (t # ss)"

fun dump :: "('d \<Rightarrow> string option) \<Rightarrow> 'd wvalue \<Rightarrow> string" where
  "dump printf_f J_Null = ''null''"
| "dump printf_f J_False = ''false''"
| "dump printf_f J_True = ''true''"
| "dump printf_f (J_Number n) = dump_numero printf_f n"
| "dump printf_f (J_String s) = dump_string s"
| "dump printf_f (J_List l) = ''['' @ con_comas (map (dump printf_f) l) @ '']''"
| "dump printf_f (J_Object kvs) =
     ''{'' @ con_comas (map (\<lambda>(k, x). dump_string k @ '':'' @ dump printf_f x) kvs) @ ''}''"
| "dump printf_f (J_Function f) = ''custom function''"

subsection \<open>Assignment and access agree\<close>

lemma elementos_acceso_clave: "map_of (elementos (fst (acceso v k))) k = Some (snd (acceso v k))"
  by (auto simp: acceso_def map_add_def split: option.splits)

lemma map_of_pon:
  "map_of (map (\<lambda>(k', y). if k' = k then (k', x) else (k', y)) al) k' =
     (if k' = k \<and> map_of al k \<noteq> None then Some x else map_of al k')"
  by (induction al) auto

lemma cuenta_pon_clave: "cuenta_clave (pon_clave k x v) k = 1"
  by (simp add: pon_clave_def map_of_pon elementos_acceso_clave)

lemma elementos_pon_clave:
  "map_of (elementos (pon_clave k x v)) k' = (if k' = k then Some x else map_of (elementos v) k')"
  by (auto simp: pon_clave_def map_of_pon elementos_acceso_clave acceso_def map_add_def split: option.splits)

lemma dump_int: "- (2 ^ 63) \<le> i \<Longrightarrow> i < 2 ^ 63 \<Longrightarrow> dump pf (de_int i) = to_string_int i"
  by (simp add: de_int_def sint_sbintrunc' signed_take_bit_int_eq_self)

end
