(* ===== verification/Plantilla.thy ===== *)
theory Plantilla
  imports Json Estatico
begin

text \<open>
  The parser of the templates of \<^verbatim>\<open>crow::mustache\<close> in \<^verbatim>\<open>includes/crow_all.h\<close>: it cuts a text into fragments and
  actions between them. Positions are natural numbers (a template is far shorter than 2 GB). The renderer is in
  \<open>Render\<close>.
\<close>

subsection \<open>Failures\<close>

datatype fallo_plantilla =
    Invalid_template string
  | Not_implemented
  | Bad_function_call
  | Sin_definir

type_synonym 'a res_plantilla = "fallo_plantilla + 'a"

definition bindP :: "'a res_plantilla \<Rightarrow> ('a \<Rightarrow> 'b res_plantilla) \<Rightarrow> 'b res_plantilla" where
  "bindP m f = (case m of Inl e \<Rightarrow> Inl e | Inr x \<Rightarrow> f x)"

lemma bindP_simps [simp]: "bindP (Inl e) f = Inl e" "bindP (Inr x) f = f x"
  by (simp_all add: bindP_def)

definition mal :: "string \<Rightarrow> 'a res_plantilla" where
  "mal s = Inl (Invalid_template (''crow::mustache error: '' @ s))"

subsection \<open>Templates\<close>

datatype ActionType = Ignore | Tag | UnescapeTag | OpenBlock | CloseBlock | ElseBlock | Partial

record Action =
  inicio :: nat
  fin :: nat
  pos_bloque :: nat
  tipo :: ActionType

definition accion :: "ActionType \<Rightarrow> nat \<Rightarrow> nat \<Rightarrow> nat \<Rightarrow> Action" where
  "accion t s e p = \<lparr>inicio = s, fin = e, pos_bloque = p, tipo = t\<rparr>"

record template_t =
  fragments :: "(nat \<times> nat) list"
  actions :: "Action list"
  cuerpo :: string

subsection \<open>Positions in the text\<close>

text \<open>\<^verbatim>\<open>body_[i]\<close>; at the end of the text there is a null character.\<close>

definition car :: "string \<Rightarrow> nat \<Rightarrow> char" where
  "car b i = (if i < length b then b ! i else CHR 0x00)"

text \<open>\<^verbatim>\<open>while (body_[i] == ' ') i++\<close>\<close>

definition avanza_blancos :: "string \<Rightarrow> nat \<Rightarrow> nat" where
  "avanza_blancos b i = i + length (takeWhile (\<lambda>c. c = CHR '' '') (drop i b))"

text \<open>\<^verbatim>\<open>while (body_[e - 1] == ' ') e--\<close>\<close>

fun quita_blancos :: "string \<Rightarrow> nat \<Rightarrow> nat" where
  "quita_blancos b 0 = 0"
| "quita_blancos b (Suc e) = (if car b e = CHR '' '' then quita_blancos b e else Suc e)"

text \<open>
  \<^verbatim>\<open>body_.substr(s, e - s)\<close>: when the end lies before the start the length wraps around and the rest of the
  text is taken.
\<close>

definition trozo :: "string \<Rightarrow> nat \<Rightarrow> nat \<Rightarrow> string" where
  "trozo b s e = (if s \<le> e then take (e - s) (drop s b) else drop s b)"

text \<open>\<^verbatim>\<open>body_.find(d, i)\<close>\<close>

definition busca_desde :: "string \<Rightarrow> string \<Rightarrow> nat \<Rightarrow> nat option" where
  "busca_desde d b i = (if i \<le> length b then map_option ((+) i) (busca d (drop i b)) else None)"

definition tag_name :: "template_t \<Rightarrow> Action \<Rightarrow> string" where
  "tag_name t a = trozo (cuerpo t) (inicio a) (fin a)"

subsection \<open>Parsing\<close>

record estado_parse =
  tag_open :: string
  tag_close :: string
  acs :: "Action list"
  bloques :: "nat list"

definition pon_accion :: "ActionType \<Rightarrow> nat \<Rightarrow> nat \<Rightarrow> estado_parse \<Rightarrow> estado_parse" where
  "pon_accion t s e st = st\<lparr>acs := acs st @ [accion t s e 0]\<rparr>"

text \<open>An opening tag: its place goes on the stack of open blocks.\<close>

definition abre_bloque :: "ActionType \<Rightarrow> nat \<Rightarrow> nat \<Rightarrow> estado_parse \<Rightarrow> estado_parse" where
  "abre_bloque t s e st = (pon_accion t s e st)\<lparr>bloques := length (acs st) # bloques st\<rparr>"

text \<open>
  A closing tag: it must have the name of the last open block, which learns the place of its end. With no open
  block \<^verbatim>\<open>back()\<close> of the empty stack is undefined.
\<close>

definition cierra_bloque :: "string \<Rightarrow> nat \<Rightarrow> nat \<Rightarrow> estado_parse \<Rightarrow> estado_parse res_plantilla" where
  "cierra_bloque b s e st =
     (case bloques st of
        [] \<Rightarrow> Inl Sin_definir
      | k # ks \<Rightarrow>
          let m = acs st ! k in
          if trozo b s e \<noteq> trozo b (inicio m) (fin m)
          then mal (''not matched {{# {{/ pair: '' @ trozo b (inicio m) (fin m) @ '', '' @ trozo b s e)
          else Inr (st\<lparr>acs := (acs st)[k := m\<lparr>pos_bloque := length (acs st)\<rparr>] @ [accion CloseBlock s e k], bloques := ks\<rparr>))"

text \<open>The tag that changes the delimiters.\<close>

definition cambia_delimitadores :: "string \<Rightarrow> nat \<Rightarrow> nat \<Rightarrow> estado_parse \<Rightarrow> estado_parse res_plantilla" where
  "cambia_delimitadores b idx0 endIdx0 st0 =
     (let idx1 = idx0 + 1;
          st = pon_accion Ignore idx1 endIdx0 st0;
          endIdx1 = endIdx0 - 1
      in
      if car b endIdx1 \<noteq> CHR ''='' then mal (''{{=: not matching = tag: '' @ trozo b idx1 endIdx1)
      else
        let idx = avanza_blancos b idx1;
            endIdx = quita_blancos b endIdx1;
            i = idx + length (takeWhile (\<lambda>c. c \<noteq> CHR '' '') (trozo b idx endIdx))
        in
        if endIdx \<le> idx \<or> endIdx \<le> i then mal ''{{=: cannot find space between new open/close tags''
        else
          let op = trozo b idx i; j = avanza_blancos b i; cl = trozo b j endIdx in
          if op = [] then mal ''{{=: empty open tag''
          else if cl = [] then mal ''{{=: empty close tag''
          else if aparece '' '' cl then mal (''{{=: invalid open/close tag: '' @ op @ '' '' @ cl)
          else Inr (st\<lparr>tag_open := op, tag_close := cl\<rparr>))"

text \<open>One tag between \<^verbatim>\<open>idx\<close> and \<^verbatim>\<open>endIdx\<close>; the number is where the text after it begins.\<close>

definition lee_etiqueta :: "string \<Rightarrow> nat \<Rightarrow> nat \<Rightarrow> estado_parse \<Rightarrow> (estado_parse \<times> nat) res_plantilla" where
  "lee_etiqueta b idx endIdx st =
     (let current = endIdx + length (tag_close st);
          s = avanza_blancos b (idx + 1);
          e = quita_blancos b endIdx;
          c = car b idx
      in
      if c = CHR ''#'' then Inr (abre_bloque OpenBlock s e st, current)
      else if c = CHR ''/'' then bindP (cierra_bloque b s e st) (\<lambda>st'. Inr (st', current))
      else if c = CHR ''^'' then Inr (abre_bloque ElseBlock s e st, current)
      else if c = CHR ''!'' then Inr (pon_accion Ignore (idx + 1) endIdx st, current)
      else if c = CHR ''>'' then Inr (pon_accion Partial s e st, current)
      else if c = CHR ''{'' then
        (if tag_open st \<noteq> ''{{'' \<or> tag_close st \<noteq> ''}}'' then mal ''cannot use triple mustache when delimiter changed''
         else if car b (endIdx + 2) \<noteq> CHR ''}'' then mal ''{{{: }}} not matched''
         else Inr (pon_accion UnescapeTag s e st, current + 1))
      else if c = CHR ''&'' then Inr (pon_accion UnescapeTag s e st, current)
      else if c = CHR ''='' then bindP (cambia_delimitadores b idx endIdx st) (\<lambda>st'. Inr (st', current))
      else Inr (pon_accion Tag (avanza_blancos b idx) e st, current))"

lemma busca_desde_bound: "busca_desde d b i = Some j \<Longrightarrow> i \<le> j \<and> j + length d \<le> length b"
  by (auto simp: busca_desde_def split: if_splits dest!: busca_bound)

lemma lee_etiqueta_avanza:
  "lee_etiqueta b idx endIdx st = Inr (st', n) \<Longrightarrow> endIdx + length (tag_close st) \<le> n"
  by (auto simp: lee_etiqueta_def Let_def bindP_def mal_def split: if_splits sum.splits)

text \<open>The loop over the tags.\<close>

function lee_etiquetas ::
    "string \<Rightarrow> nat \<Rightarrow> (nat \<times> nat) list \<Rightarrow> estado_parse \<Rightarrow> ((nat \<times> nat) list \<times> Action list) res_plantilla" where
  "lee_etiquetas b current frs st =
     (case busca_desde (tag_open st) b current of
        None \<Rightarrow> Inr (frs @ [(current, length b)], acs st @ [accion Ignore 0 0 0])
      | Some idx0 \<Rightarrow>
          let idx = idx0 + length (tag_open st) in
          (case busca_desde (tag_close st) b idx of
             None \<Rightarrow> mal ''not matched opening tag''
           | Some endIdx \<Rightarrow>
               if endIdx = idx then mal ''empty tag is not allowed''
               else
                 (case lee_etiqueta b idx endIdx st of
                    Inl e \<Rightarrow> Inl e
                  | Inr (st', n) \<Rightarrow> lee_etiquetas b n (frs @ [(current, idx0)]) st')))"
  by pat_completeness auto
termination
  by (relation "measure (\<lambda>(b, current, frs, st). length b - current)")
    (auto dest!: busca_desde_bound lee_etiqueta_avanza)

declare lee_etiquetas.simps [simp del]

subsection \<open>Tags alone on their line\<close>

text \<open>
  \<open>quita_desde b f e\<close> is one more than the last position in \<open>[f, e)\<close> without a blank, at least \<open>f\<close> if \<open>f \<le> e\<close>.
\<close>

fun quita_desde :: "string \<Rightarrow> nat \<Rightarrow> nat \<Rightarrow> nat" where
  "quita_desde b f 0 = 0"
| "quita_desde b f (Suc e) = (if f \<le> e \<and> car b e = CHR '' '' then quita_desde b f e else Suc e)"

text \<open>
  Action \<open>i\<close> of \<open>n\<close>, with the fragments around it: when it is alone on its line, the blanks before it and the
  end of the line after it are dropped. A partial remembers how far it was indented.
\<close>

definition es_salto :: "string \<Rightarrow> nat \<Rightarrow> bool" where
  "es_salto b k \<longleftrightarrow>
     car b k = CHR 0x0A \<or> (car b k = CHR 0x0D \<and> k + 1 < length b \<and> car b (k + 1) = CHR 0x0A)"

definition renglon_propio :: "string \<Rightarrow> nat \<Rightarrow> nat \<Rightarrow> nat \<times> nat \<Rightarrow> nat \<times> nat \<Rightarrow> bool" where
  "renglon_propio b n i antes despues =
     (let j1 = quita_desde b (fst antes) (snd antes);
          todo_antes = (j1 \<le> fst antes);
          tope = min (length b) (snd despues);
          k = fst despues + length (takeWhile (\<lambda>c. c = CHR '' '') (take (tope - fst despues) (drop (fst despues) b)));
          todo_despues = (tope \<le> k)
      in \<not> (todo_antes \<and> 0 < i) \<and> (todo_antes \<or> car b (j1 - 1) = CHR 0x0A) \<and>
         (if todo_despues then i = n - 2 else es_salto b k))"

definition recorta_renglon :: "string \<Rightarrow> nat \<times> nat \<Rightarrow> nat \<times> nat \<Rightarrow> (nat \<times> nat) \<times> (nat \<times> nat)" where
  "recorta_renglon b antes despues =
     (let j1 = quita_desde b (fst antes) (snd antes);
          tope = min (length b) (snd despues);
          k = fst despues + length (takeWhile (\<lambda>c. c = CHR '' '') (take (tope - fst despues) (drop (fst despues) b)))
      in ((fst antes, j1),
          if tope \<le> k then despues
          else (if car b k = CHR 0x0A then k + 1 else k + 2, snd despues)))"

definition quita_sola ::
    "string \<Rightarrow> nat \<Rightarrow> (nat \<times> nat) list \<times> Action list \<Rightarrow> (nat \<times> nat) list \<times> Action list" where
  "quita_sola b i fa =
     (case fa of (frs, as) \<Rightarrow>
        if tipo (as ! i) = Tag \<or> tipo (as ! i) = UnescapeTag then (frs, as)
        else if \<not> renglon_propio b (length as) i (frs ! i) (frs ! (i + 1)) then (frs, as)
        else
          let (antes, despues) = recorta_renglon b (frs ! i) (frs ! (i + 1)) in
          (frs[i := antes, i + 1 := despues],
           if tipo (as ! i) = Partial then as[i := (as ! i)\<lparr>pos_bloque := snd (frs ! i) - snd antes\<rparr>] else as))"

definition quita_solas ::
    "string \<Rightarrow> (nat \<times> nat) list \<times> Action list \<Rightarrow> (nat \<times> nat) list \<times> Action list" where
  "quita_solas b fa = foldl (\<lambda>fa i. quita_sola b i fa) fa (rev [0..<length (snd fa) - 1])"

definition compile :: "string \<Rightarrow> template_t res_plantilla" where
  "compile txt =
     bindP (lee_etiquetas txt 0 [] \<lparr>tag_open = ''{{'', tag_close = ''}}'', acs = [], bloques = []\<rparr>) (\<lambda>fa.
       case quita_solas txt fa of (frs, as) \<Rightarrow> Inr \<lparr>fragments = frs, actions = as, cuerpo = txt\<rparr>)"

end
