(* ===== verification/Render.thy ===== *)
theory Render
  imports Plantilla
begin

text \<open>
  The renderer of \<^verbatim>\<open>crow::mustache\<close>: the search of a name in the stack of contexts, the actions, partials and
  functions, and the loading of templates from the directory \<^verbatim>\<open>templates\<close>. The top of the stack is the head
  of the list. The texts of a \<^verbatim>\<open>double\<close> are given, as in the theory of the values.
\<close>

type_synonym 'd pila = "'d wvalue list"

subsection \<open>Names\<close>

text \<open>The parts of a name between its dots.\<close>

fun partes :: "string \<Rightarrow> string list" where
  "partes [] = [[]]"
| "partes (c # s) =
     (if c = CHR ''.'' then [] # partes s else (case partes s of [] \<Rightarrow> [[c]] | p # ps \<Rightarrow> (c # p) # ps))"

fun busca_nombre :: "string \<Rightarrow> 'd pila \<Rightarrow> 'd wvalue option" where
  "busca_nombre n [] = None"
| "busca_nombre n (v # vs) = (case map_of (elementos v) n of Some x \<Rightarrow> Some x | None \<Rightarrow> busca_nombre n vs)"

fun sigue_nombres :: "string list \<Rightarrow> 'd wvalue \<Rightarrow> 'd wvalue option" where
  "sigue_nombres [] v = Some v"
| "sigue_nombres (n # ns) v = (case map_of (elementos v) n of Some x \<Rightarrow> sigue_nombres ns x | None \<Rightarrow> None)"

fun busca_nombres :: "bool \<Rightarrow> string list \<Rightarrow> 'd pila \<Rightarrow> 'd wvalue option" where
  "busca_nombres solo_primero ns [] = None"
| "busca_nombres solo_primero ns (v # vs) =
     (case sigue_nombres ns v of
        Some x \<Rightarrow> Some x
      | None \<Rightarrow> if solo_primero then None else busca_nombres solo_primero ns vs)"

text \<open>The context of a name, \<open>None\<close> when there is none; \<^verbatim>\<open>back()\<close> of an empty stack is undefined.\<close>

definition find_context :: "string \<Rightarrow> 'd pila \<Rightarrow> bool \<Rightarrow> 'd wvalue option res_plantilla" where
  "find_context name stack shouldUseOnlyFirstStackValue =
     (if name = ''.'' then (case stack of [] \<Rightarrow> Inl Sin_definir | v # vs \<Rightarrow> Inr (Some v))
      else if CHR ''.'' \<notin> set name then Inr (busca_nombre name stack)
      else Inr (busca_nombres shouldUseOnlyFirstStackValue (partes name) stack))"

definition es_objeto :: "'d wvalue \<Rightarrow> bool" where
  "es_objeto v \<longleftrightarrow> (case v of J_Object kvs \<Rightarrow> True | _ \<Rightarrow> False)"

text \<open>The search of an open block backwards from an action: \<^verbatim>\<open>ElseBlock\<close> is not counted, its end is.\<close>

fun tag_inside :: "int \<Rightarrow> bool \<Rightarrow> Action list \<Rightarrow> bool" where
  "tag_inside openedBlock objeto [] = False"
| "tag_inside openedBlock objeto (a # as) =
     (case tipo a of
        OpenBlock \<Rightarrow> (if openedBlock = 0 \<and> objeto then True else tag_inside (openedBlock - 1) objeto as)
      | CloseBlock \<Rightarrow> tag_inside (openedBlock + 1) objeto as
      | _ \<Rightarrow> tag_inside openedBlock objeto as)"

definition isTagInsideObjectBlock :: "Action list \<Rightarrow> nat \<Rightarrow> 'd pila \<Rightarrow> bool" where
  "isTagInsideObjectBlock as current stack = tag_inside 0 (stack \<noteq> [] \<and> es_objeto (hd stack)) (rev (take current as))"

subsection \<open>Output\<close>

definition escape_html_char :: "char \<Rightarrow> string" where
  "escape_html_char c =
     (if c = CHR ''&'' then ''&amp;''
      else if c = CHR ''<'' then ''&lt;''
      else if c = CHR ''>'' then ''&gt;''
      else if c = CHR 0x22 then ''&quot;''
      else if c = CHR 0x27 then ''&#39;''
      else if c = CHR ''/'' then ''&#x2F;''
      else if c = CHR 0x60 then ''&#x60;''
      else if c = CHR ''='' then ''&#x3D;''
      else [c])"

definition escape_html :: "string \<Rightarrow> string" where
  "escape_html s = concat (map escape_html_char s)"

text \<open>After each end of line but the last of the whole text come the blanks of the indentation.\<close>

definition render_fragment :: "string \<Rightarrow> nat \<Rightarrow> nat \<times> nat \<Rightarrow> string" where
  "render_fragment b indent fragment =
     (if indent = 0 then trozo b (fst fragment) (snd fragment)
      else concat (map (\<lambda>i. b ! i # (if b ! i = CHR 0x0A \<and> i + 1 \<noteq> length b then replicate indent (CHR '' '') else []))
             [fst fragment ..< snd fragment]))"

subsection \<open>Actions\<close>

text \<open>
  What one action asks for: the end, the next action with its stack and output, a repetition for the elements
  of a list, a partial, or a function.
\<close>

datatype 'd orden =
    Falla fallo_plantilla
  | Sigue_en nat "'d pila" string
  | Repite nat "'d wvalue list"
  | Parcial string nat
  | Funcion ActionType "string \<Rightarrow> string"

text \<open>A tag writes the value of its name; an unknown name is the empty text.\<close>

definition escribe_texto :: "ActionType \<Rightarrow> string \<Rightarrow> string" where
  "escribe_texto t s = (if t = Tag then escape_html s else s)"

definition escribe_etiqueta ::
    "('d \<Rightarrow> string option) \<Rightarrow> ActionType \<Rightarrow> 'd wvalue option \<Rightarrow> nat \<Rightarrow> 'd pila \<Rightarrow> string \<Rightarrow> 'd orden" where
  "escribe_etiqueta pf t ctx current stack out =
     (case (case ctx of None \<Rightarrow> J_String [] | Some v \<Rightarrow> v) of
        J_False \<Rightarrow> Sigue_en (current + 1) stack (out @ ''false'')
      | J_True \<Rightarrow> Sigue_en (current + 1) stack (out @ ''true'')
      | J_Number x \<Rightarrow> Sigue_en (current + 1) stack (out @ dump_numero pf x)
      | J_String s \<Rightarrow> Sigue_en (current + 1) stack (out @ escribe_texto t s)
      | J_Function f \<Rightarrow> (case f of None \<Rightarrow> Falla Bad_function_call | Some g \<Rightarrow> Funcion t g)
      | _ \<Rightarrow> Falla Not_implemented)"

text \<open>The beginning of a section. Each value but a list goes on the stack, the false ones skip the section.\<close>

definition abre_seccion :: "'d wvalue option \<Rightarrow> nat \<Rightarrow> nat \<Rightarrow> 'd pila \<Rightarrow> string \<Rightarrow> 'd orden" where
  "abre_seccion ctx current p stack out =
     (case ctx of
        None \<Rightarrow> Sigue_en (p + 1) stack out
      | Some v \<Rightarrow>
          (case v of
             J_List l \<Rightarrow> Repite p l
           | J_False \<Rightarrow> Sigue_en (p + 1) stack out
           | J_Null \<Rightarrow> Sigue_en (p + 1) stack out
           | J_Function f \<Rightarrow> Falla Not_implemented
           | _ \<Rightarrow> Sigue_en (current + 1) (v # stack) out))"

text \<open>The beginning of an inverted section.\<close>

definition abre_inversa :: "'d wvalue option \<Rightarrow> nat \<Rightarrow> nat \<Rightarrow> 'd pila \<Rightarrow> string \<Rightarrow> 'd orden" where
  "abre_inversa ctx current p stack out =
     (let entra = Sigue_en (current + 1) (J_Null # stack) out in
      case ctx of
        None \<Rightarrow> entra
      | Some v \<Rightarrow>
          (case v of
             J_List l \<Rightarrow> if l \<noteq> [] then Sigue_en (p + 1) stack out else entra
           | J_False \<Rightarrow> entra
           | J_Null \<Rightarrow> entra
           | _ \<Rightarrow> Sigue_en (p + 1) stack out))"

definition con_contexto :: "'d wvalue option res_plantilla \<Rightarrow> ('d wvalue option \<Rightarrow> 'd orden) \<Rightarrow> 'd orden" where
  "con_contexto r f = (case r of Inl e \<Rightarrow> Falla e | Inr ctx \<Rightarrow> f ctx)"

definition paso_render ::
    "('d \<Rightarrow> string option) \<Rightarrow> template_t \<Rightarrow> nat \<Rightarrow> 'd pila \<Rightarrow> string \<Rightarrow> 'd orden" where
  "paso_render pf t current stack out =
     (let a = actions t ! current; name = tag_name t a in
      case tipo a of
        Ignore \<Rightarrow> Sigue_en (current + 1) stack out
      | Partial \<Rightarrow> Parcial name (pos_bloque a)
      | CloseBlock \<Rightarrow> (case stack of [] \<Rightarrow> Falla Sin_definir | v # vs \<Rightarrow> Sigue_en (current + 1) vs out)
      | ElseBlock \<Rightarrow>
          con_contexto (find_context name stack False) (\<lambda>ctx. abre_inversa ctx current (pos_bloque a) stack out)
      | OpenBlock \<Rightarrow>
          con_contexto (find_context name stack False) (\<lambda>ctx. abre_seccion ctx current (pos_bloque a) stack out)
      | _ \<Rightarrow>
          con_contexto (find_context name stack (isTagInsideObjectBlock (actions t) current stack))
            (\<lambda>ctx. escribe_etiqueta pf (tipo a) ctx current stack out))"

subsection \<open>Rendering\<close>

type_synonym 'd fin_render = "('d pila \<times> string) res_plantilla option"

definition luego_render :: "'d fin_render \<Rightarrow> ('d pila \<Rightarrow> string \<Rightarrow> 'd fin_render) \<Rightarrow> 'd fin_render" where
  "luego_render r f = (case r of None \<Rightarrow> None | Some (Inl e) \<Rightarrow> Some (Inl e) | Some (Inr (st, s)) \<Rightarrow> f st s)"

lemma luego_render_simps [simp]:
  "luego_render None f = None" "luego_render (Some (Inl e)) f = Some (Inl e)"
  "luego_render (Some (Inr (st, s))) f = f st s"
  by (simp_all add: luego_render_def)

definition sangra :: "nat \<Rightarrow> string" where
  "sangra n = replicate n (CHR '' '')"

definition ultimo :: "template_t \<Rightarrow> nat" where
  "ultimo t = length (fragments t) - 1"

text \<open>
  The three loops: \<open>Bucle\<close> is that of \<^verbatim>\<open>render_internal\<close> from an action on, up to an action; \<open>Lista\<close> the loop over a
  list inside it; \<open>Texto\<close> the loop over the text of a function while it has tags, whose result is the text with
  the stack left as it was. A step of a loop calls the others through its first argument; \<open>ld\<close> gives the text
  of a partial.
\<close>

datatype 'd trabajo =
    Bucle template_t nat nat "'d pila" string nat
  | Lista template_t nat nat "'d wvalue list" "'d pila" string nat
  | Texto "'d pila" string

definition paso_bucle ::
    "('d trabajo \<Rightarrow> 'd fin_render) \<Rightarrow> ('d \<Rightarrow> string option) \<Rightarrow> (string \<Rightarrow> string) \<Rightarrow> template_t \<Rightarrow> nat \<Rightarrow> nat \<Rightarrow>
      'd pila \<Rightarrow> string \<Rightarrow> nat \<Rightarrow> 'd fin_render" where
  "paso_bucle corre pf ld t current actionEnd stack out0 indent =
     (if actionEnd \<le> current
      then Some (Inr (stack, out0 @ render_fragment (cuerpo t) indent (fragments t ! actionEnd)))
      else
        let out = out0 @ render_fragment (cuerpo t) indent (fragments t ! current) in
        case paso_render pf t current stack out of
          Falla e \<Rightarrow> Some (Inl e)
        | Sigue_en c st s \<Rightarrow> corre (Bucle t c actionEnd st s indent)
        | Repite p l \<Rightarrow>
            luego_render (corre (Lista t (current + 1) p l stack out indent))
              (\<lambda>st s. corre (Bucle t (p + 1) actionEnd st s indent))
        | Parcial name p \<Rightarrow>
            (case compile (ld name) of
               Inl e \<Rightarrow> Some (Inl e)
             | Inr pt \<Rightarrow>
                 let ind = (if p \<noteq> 0 then indent + p else 0) in
                 luego_render (corre (Bucle pt 0 (ultimo pt) stack (out @ sangra ind) ind))
                   (\<lambda>st s. corre (Bucle t (current + 1) actionEnd st s indent)))
        | Funcion ty g \<Rightarrow>
            luego_render (corre (Texto stack (g [])))
              (\<lambda>st s. corre (Bucle t (current + 1) actionEnd st (out @ escribe_texto ty s) indent)))"

definition paso_lista ::
    "('d trabajo \<Rightarrow> 'd fin_render) \<Rightarrow> template_t \<Rightarrow> nat \<Rightarrow> nat \<Rightarrow> 'd wvalue list \<Rightarrow> 'd pila \<Rightarrow> string \<Rightarrow> nat \<Rightarrow> 'd fin_render" where
  "paso_lista corre t current actionEnd l stack out indent =
     (case l of
        [] \<Rightarrow> Some (Inr (stack, out))
      | v # vs \<Rightarrow>
          luego_render (corre (Bucle t current actionEnd (v # stack) (out @ sangra indent) indent))
            (\<lambda>st s. if st = [] then Some (Inl Sin_definir) else corre (Lista t current actionEnd vs (tl st) s indent)))"

definition paso_texto :: "('d trabajo \<Rightarrow> 'd fin_render) \<Rightarrow> 'd pila \<Rightarrow> string \<Rightarrow> 'd fin_render" where
  "paso_texto corre stack s =
     (if \<not> aparece ''{{'' s then Some (Inr (stack, s))
      else
        case compile s of
          Inl e \<Rightarrow> Some (Inl e)
        | Inr t \<Rightarrow> luego_render (corre (Bucle t 0 (ultimo t) [last stack] [] 0)) (\<lambda>st r. corre (Texto stack r)))"

primrec corre_render :: "('d \<Rightarrow> string option) \<Rightarrow> (string \<Rightarrow> string) \<Rightarrow> nat \<Rightarrow> 'd trabajo \<Rightarrow> 'd fin_render" where
  "corre_render pf ld 0 = (\<lambda>w. None)"
| "corre_render pf ld (Suc n) = (\<lambda>w.
     case w of
       Bucle t current actionEnd stack out indent \<Rightarrow>
         paso_bucle (corre_render pf ld n) pf ld t current actionEnd stack out indent
     | Lista t current actionEnd l stack out indent \<Rightarrow> paso_lista (corre_render pf ld n) t current actionEnd l stack out indent
     | Texto stack s \<Rightarrow> paso_texto (corre_render pf ld n) stack s)"

text \<open>\<^verbatim>\<open>render(ctx)\<close> and \<^verbatim>\<open>render_string(ctx)\<close>; without a context the stack holds a null value.\<close>

definition render_string ::
    "nat \<Rightarrow> ('d \<Rightarrow> string option) \<Rightarrow> (string \<Rightarrow> string) \<Rightarrow> template_t \<Rightarrow> 'd wvalue \<Rightarrow> string res_plantilla option" where
  "render_string n pf ld t ctx =
     map_option (map_sum id snd) (corre_render pf ld n (Bucle t 0 (ultimo t) [ctx] [] 0))"

subsection \<open>Loading\<close>

text \<open>\<^verbatim>\<open>path / fname\<close> of the file system library, for a name that does not begin with a separator.\<close>

definition join_path :: "string \<Rightarrow> string \<Rightarrow> string" where
  "join_path path fname = (if path = [] \<or> last path = CHR ''/'' then path @ fname else path @ ''/'' @ fname)"

definition template_base_directory :: string where
  "template_base_directory = ''templates''"

text \<open>A file that cannot be opened is an empty template.\<close>

definition default_loader :: "(string \<rightharpoonup> string) \<Rightarrow> string \<Rightarrow> string" where
  "default_loader disco filename =
     (case disco (join_path template_base_directory filename) of Some s \<Rightarrow> s | None \<Rightarrow> [])"

definition load_text :: "(string \<rightharpoonup> string) \<Rightarrow> string \<Rightarrow> string" where
  "load_text disco filename = default_loader disco (sanitize_filename (CHR ''_'') filename)"

definition load :: "(string \<rightharpoonup> string) \<Rightarrow> string \<Rightarrow> template_t res_plantilla" where
  "load disco filename = compile (load_text disco filename)"

end
