(* ===== verification/Mustache.thy ===== *)
theory Mustache
  imports Render
begin

text \<open>
  What a template means: a specification on the tree of a template, with its texts, tags and sections, and the
  proof that the parser and the renderer implement it on the printed template. The names have no dots and the
  values are no functions, which the program does not use. A tag that is alone on its line swallows the line;
  the specification leaves lines alone, so such sections are excluded.
\<close>

subsection \<open>The tree of a template\<close>

text \<open>
  Each node has the text before it and the template after it. A tag is raw or escaped, a section inverted or
  not.
\<close>

datatype bosque =
    Fin string
  | Etiqueta string bool string bosque
  | Seccion string bool string bosque bosque

fun imprime :: "bosque \<Rightarrow> string" where
  "imprime (Fin s) = s"
| "imprime (Etiqueta s cruda n r) =
     s @ (if cruda then ''{{{'' @ n @ ''}}}'' else ''{{'' @ n @ ''}}'') @ imprime r"
| "imprime (Seccion s neg n x r) =
     s @ (if neg then ''{{^'' else ''{{#'') @ n @ ''}}'' @ imprime x @ ''{{/'' @ n @ ''}}'' @ imprime r"

text \<open>A text has no opening delimiter and does not end in half of one; a name has no delimiters, dots or blanks at its ends.\<close>

fun texto_ok :: "string \<Rightarrow> bool" where
  "texto_ok [] \<longleftrightarrow> True"
| "texto_ok [c] \<longleftrightarrow> c \<noteq> CHR ''{''"
| "texto_ok (c # d # s) \<longleftrightarrow> \<not> (c = CHR ''{'' \<and> d = CHR ''{'') \<and> texto_ok (d # s)"

definition nombre_tag :: "string \<Rightarrow> bool" where
  "nombre_tag n \<longleftrightarrow>
     n \<noteq> [] \<and> hd n \<notin> set ''#/^!>{&= '' \<and> last n \<noteq> CHR '' '' \<and> CHR ''}'' \<notin> set n \<and> CHR ''.'' \<notin> set n"

fun bosque_ok :: "bosque \<Rightarrow> bool" where
  "bosque_ok (Fin s) \<longleftrightarrow> texto_ok s"
| "bosque_ok (Etiqueta s cruda n r) \<longleftrightarrow> texto_ok s \<and> nombre_tag n \<and> bosque_ok r"
| "bosque_ok (Seccion s neg n x r) \<longleftrightarrow> texto_ok s \<and> nombre_tag n \<and> bosque_ok x \<and> bosque_ok r"

text \<open>The text that ends a template, and the number of its actions.\<close>

fun texto_final :: "bosque \<Rightarrow> string" where
  "texto_final (Fin s) = s"
| "texto_final (Etiqueta s cruda n r) = texto_final r"
| "texto_final (Seccion s neg n x r) = texto_final r"

fun num_acciones :: "bosque \<Rightarrow> nat" where
  "num_acciones (Fin s) = 0"
| "num_acciones (Etiqueta s cruda n r) = Suc (num_acciones r)"
| "num_acciones (Seccion s neg n x r) = Suc (Suc (num_acciones x + num_acciones r))"

lemma texto_ok_final: "bosque_ok x \<Longrightarrow> texto_ok (texto_final x)"
  by (induction x) simp_all

subsection \<open>What the parser makes of it\<close>

text \<open>The actions and the fragments before them, for a template that begins at a position and with a number.\<close>

definition ancho :: "bool \<Rightarrow> nat" where
  "ancho cruda = (if cruda then 3 else 2)"

definition tipo_seccion :: "bool \<Rightarrow> ActionType" where
  "tipo_seccion neg = (if neg then ElseBlock else OpenBlock)"

fun acciones_de :: "nat \<Rightarrow> nat \<Rightarrow> bosque \<Rightarrow> Action list" where
  "acciones_de i k (Fin s) = []"
| "acciones_de i k (Etiqueta s cruda n r) =
     (let j = i + length s + ancho cruda
      in accion (if cruda then UnescapeTag else Tag) j (j + length n) 0 #
         acciones_de (j + length n + ancho cruda) (Suc k) r)"
| "acciones_de i k (Seccion s neg n x r) =
     (let j = i + length s + 3;
          i' = j + length n + 2;
          k' = Suc k + num_acciones x;
          j' = i' + length (imprime x) + 3
      in accion (tipo_seccion neg) j (j + length n) k' # acciones_de i' (Suc k) x @
         accion CloseBlock j' (j' + length n) k # acciones_de (j' + length n + 2) (Suc k') r)"

fun fragmentos_de :: "nat \<Rightarrow> bosque \<Rightarrow> (nat \<times> nat) list" where
  "fragmentos_de i (Fin s) = []"
| "fragmentos_de i (Etiqueta s cruda n r) =
     (i, i + length s) # fragmentos_de (i + length s + length n + 2 * ancho cruda) r"
| "fragmentos_de i (Seccion s neg n x r) =
     (let i' = i + length s + length n + 5;
          f' = i' + length (imprime x)
      in (i, i + length s) # fragmentos_de i' x @
         (f' - length (texto_final x), f') # fragmentos_de (f' + length n + 5) r)"

lemma length_acciones_de [simp]: "length (acciones_de i k x) = num_acciones x"
  by (induction x arbitrary: i k) (simp_all add: Let_def)

lemma length_fragmentos_de [simp]: "length (fragmentos_de i x) = num_acciones x"
  by (induction x arbitrary: i) (simp_all add: Let_def)

lemma texto_final_largo: "length (texto_final x) \<le> length (imprime x)"
  by (induction x) simp_all

lemma imprime_final: "\<exists>s. imprime x = s @ texto_final x"
  by (induction x) auto

subsection \<open>Searching and trimming\<close>

lemma busca_abre: "texto_ok s \<Longrightarrow> busca ''{{'' (s @ CHR ''{'' # CHR ''{'' # r) = Some (length s)"
  by (induction s rule: texto_ok.induct) auto

lemma busca_abre_no: "texto_ok s \<Longrightarrow> busca ''{{'' s = None"
  by (induction s rule: texto_ok.induct) auto

lemma busca_cierra: "CHR ''}'' \<notin> set n \<Longrightarrow> busca ''}}'' (n @ CHR ''}'' # CHR ''}'' # r) = Some (length n)"
proof (induction n)
  case (Cons c n)
  then show ?case by (cases n) auto
qed simp

lemma busca_desde_append:
  "busca_desde d (p @ q) (length p) = map_option ((+) (length p)) (busca d q)"
  by (simp add: busca_desde_def)

lemma car_append: "car (p @ q) (length p) = (if q = [] then CHR 0x00 else hd q)"
  by (simp add: car_def hd_conv_nth nth_append)

lemma car_append_mas: "car (p @ q) (length p + i) = car q i"
  by (simp add: car_def nth_append)

lemma avanza_blancos_append:
  "q \<noteq> [] \<Longrightarrow> hd q \<noteq> CHR '' '' \<Longrightarrow> avanza_blancos (p @ q) (length p) = length p"
  by (cases q) (simp_all add: avanza_blancos_def)

lemma quita_blancos_append:
  "p \<noteq> [] \<Longrightarrow> last p \<noteq> CHR '' '' \<Longrightarrow> quita_blancos (p @ q) (length p) = length p"
proof (cases p rule: rev_cases)
  case (snoc p' c)
  then show "p \<noteq> [] \<Longrightarrow> last p \<noteq> CHR '' '' \<Longrightarrow> quita_blancos (p @ q) (length p) = length p"
    by (simp add: car_def nth_append)
qed simp

lemma trozo_append: "trozo (p @ n @ q) (length p) (length p + length n) = n"
  by (simp add: trozo_def)

subsection \<open>The parser on a printed template\<close>

lemma nombre_tagD:
  assumes "nombre_tag n"
  shows "n \<noteq> []" "last n \<noteq> CHR '' ''" "CHR ''}'' \<notin> set n" "CHR ''.'' \<notin> set n" "hd n \<notin> set ''#/^!>{&= ''" "hd n \<noteq> CHR '' ''"
  using assms by (simp_all add: nombre_tag_def)

lemma lee_etiquetas_paso:
  assumes b: "b = p @ s @ ''{{'' @ m @ ''}}'' @ q" and "texto_ok s" "m \<noteq> []" "CHR ''}'' \<notin> set m"
    and st: "tag_open st = ''{{''" "tag_close st = ''}}''"
  shows "lee_etiquetas b (length p) frs st =
    (case lee_etiqueta b (length p + length s + 2) (length p + length s + 2 + length m) st of
       Inl e \<Rightarrow> Inl e
     | Inr (st', n) \<Rightarrow> lee_etiquetas b n (frs @ [(length p, length p + length s)]) st')"
proof -
  have "busca_desde ''{{'' b (length p) = Some (length p + length s)"
    using busca_abre [OF assms(2), of "m @ ''}}'' @ q"] by (simp add: b busca_desde_append)
  moreover have "busca_desde ''}}'' b (length p + length s + 2) = Some (length p + length s + 2 + length m)"
    using busca_desde_append [of "''}}''" "p @ s @ ''{{''" "m @ ''}}'' @ q"] busca_cierra [OF assms(4), of q]
    by (simp add: b add.assoc)
  ultimately show ?thesis
    using assms(3) by (subst lee_etiquetas.simps) (simp add: st Let_def)
qed

text \<open>The tag of each kind, for a name that begins at \<open>j\<close>.\<close>

lemma posiciones:
  assumes "nombre_tag n" and "b = p @ n @ ''}}'' @ q" and "length p = j"
  shows "avanza_blancos b j = j" "quita_blancos b (j + length n) = j + length n" "trozo b j (j + length n) = n"
proof -
  have "n @ ''}}'' @ q \<noteq> []" "hd (n @ ''}}'' @ q) \<noteq> CHR '' ''" using nombre_tagD [OF assms(1)] by simp_all
  from avanza_blancos_append [OF this, of p] show "avanza_blancos b j = j" by (simp add: assms(2,3))
  show "quita_blancos b (j + length n) = j + length n"
    using quita_blancos_append [of "p @ n" "''}}'' @ q"] nombre_tagD [OF assms(1)]
    unfolding assms(2) assms(3) [symmetric] by simp
  show "trozo b j (j + length n) = n" using trozo_append [of p n "''}}'' @ q"] unfolding assms(2) assms(3) [symmetric] .
qed

lemma lee_etiqueta_normal:
  assumes n: "nombre_tag n" and b: "b = p @ n @ ''}}'' @ q" and st: "tag_close st = ''}}''" and j: "length p = j"
  shows "lee_etiqueta b j (j + length n) st =
    Inr (st\<lparr>acs := acs st @ [accion Tag j (j + length n) 0]\<rparr>, j + length n + 2)"
proof -
  have "car b j = hd n" using car_append [of p "n @ ''}}'' @ q"] nombre_tagD [OF n] by (simp add: b j)
  then show ?thesis
    using nombre_tagD(5) [OF n] posiciones [OF n b j] by (simp add: lee_etiqueta_def Let_def st pon_accion_def)
qed

lemma lee_etiqueta_marca:
  assumes n: "nombre_tag n" and b: "b = p @ c # n @ ''}}'' @ q" and st: "tag_open st = ''{{''" "tag_close st = ''}}''" and j: "length p = i"
  shows "c = CHR ''{'' \<Longrightarrow> q = CHR ''}'' # q' \<Longrightarrow> lee_etiqueta b i (i + 1 + length n) st =
      Inr (st\<lparr>acs := acs st @ [accion UnescapeTag (i + 1) (i + 1 + length n) 0]\<rparr>, i + 1 + length n + 3)" (is "_ \<Longrightarrow> _ \<Longrightarrow> ?cruda")
    and "c = CHR ''#'' \<Longrightarrow> lee_etiqueta b i (i + 1 + length n) st =
      Inr (abre_bloque OpenBlock (i + 1) (i + 1 + length n) st, i + 1 + length n + 2)" (is "_ \<Longrightarrow> ?abre_seccion")
    and "c = CHR ''^'' \<Longrightarrow> lee_etiqueta b i (i + 1 + length n) st =
      Inr (abre_bloque ElseBlock (i + 1) (i + 1 + length n) st, i + 1 + length n + 2)" (is "_ \<Longrightarrow> ?inversa")
    and "c = CHR ''/'' \<Longrightarrow> lee_etiqueta b i (i + 1 + length n) st =
      bindP (cierra_bloque b (i + 1) (i + 1 + length n) st) (\<lambda>st'. Inr (st', i + 1 + length n + 2))" (is "_ \<Longrightarrow> ?cierra")
proof -
  have c: "car b i = c" using car_append [of p "c # n @ ''}}'' @ q"] by (simp add: b j)
  have b': "b = (p @ [c]) @ n @ ''}}'' @ q" and j': "length (p @ [c]) = i + 1" by (simp_all add: b j)
  note pos = posiciones [OF n b' j']
  show "c = CHR ''{'' \<Longrightarrow> q = CHR ''}'' # q' \<Longrightarrow> ?cruda"
  proof -
    assume h: "c = CHR ''{''" "q = CHR ''}'' # q'"
    have "car b (i + 1 + length n + 2) = CHR ''}''"
      using car_append [of "p @ c # n @ ''}}''" q] by (simp add: b j h(2) add.assoc add.commute)
    then show ?cruda using pos c h st by (simp add: lee_etiqueta_def Let_def pon_accion_def)
  qed
  show "c = CHR ''#'' \<Longrightarrow> ?abre_seccion" "c = CHR ''^'' \<Longrightarrow> ?inversa" "c = CHR ''/'' \<Longrightarrow> ?cierra"
    using pos c st by (simp_all add: lee_etiqueta_def Let_def)
qed

text \<open>
  A printed tree adds its fragments and actions, and the parser goes on at its last text. The places of the
  sections that are open do not change.
\<close>

lemma acs_abre_bloque:
  "acs (abre_bloque t s e st) = acs st @ [accion t s e 0]" "bloques (abre_bloque t s e st) = length (acs st) # bloques st"
  "tag_open (abre_bloque t s e st) = tag_open st" "tag_close (abre_bloque t s e st) = tag_close st"
  by (simp_all add: abre_bloque_def pon_accion_def)

lemma lee_bosque:
  assumes "bosque_ok x" and "b = p @ imprime x @ q" and "tag_open st = ''{{''" "tag_close st = ''}}''"
  shows "lee_etiquetas b (length p) frs st =
    lee_etiquetas b (length p + length (imprime x) - length (texto_final x)) (frs @ fragmentos_de (length p) x)
      (st\<lparr>acs := acs st @ acciones_de (length p) (length (acs st)) x\<rparr>)"
  using assms
proof (induction x arbitrary: p q frs st)
  case (Fin s)
  then show ?case by simp
next
  case (Etiqueta s cruda n r)
  let ?i = "length p" and ?w = "ancho cruda"
  let ?j = "?i + length s + ?w"
  let ?p = "p @ s @ (if cruda then ''{{{'' @ n @ ''}}}'' else ''{{'' @ n @ ''}}'')"
  let ?st = "st\<lparr>acs := acs st @ [accion (if cruda then UnescapeTag else Tag) ?j (?j + length n) 0]\<rparr>"
  have n: "nombre_tag n" and s: "texto_ok s" using Etiqueta.prems by simp_all
  have b: "b = ?p @ imprime r @ q" using Etiqueta.prems(2) by simp
  have lp: "length ?p = ?j + length n + ?w" by (simp add: ancho_def)
  have paso: "lee_etiquetas b ?i frs st = lee_etiquetas b (length ?p) (frs @ [(?i, ?i + length s)]) ?st"
  proof (cases cruda)
    case True
    have "lee_etiqueta b (?i + length s + 2) (?i + length s + 2 + 1 + length n) st =
      Inr (st\<lparr>acs := acs st @ [accion UnescapeTag (?i + length s + 2 + 1) (?i + length s + 2 + 1 + length n) 0]\<rparr>,
           ?i + length s + 2 + 1 + length n + 3)"
      using lee_etiqueta_marca(1) [OF n, of b "p @ s @ ''{{''" "CHR ''{''" "CHR ''}'' # imprime r @ q" st
          "?i + length s + 2" "imprime r @ q"] Etiqueta.prems(3,4) True b by simp
    then show ?thesis
      using lee_etiquetas_paso [of b p s "CHR ''{'' # n" "CHR ''}'' # imprime r @ q" st frs] s nombre_tagD [OF n] Etiqueta.prems(3,4) True b lp
      by (simp add: ancho_def add.assoc eval_nat_numeral)
  next
    case False
    have "lee_etiqueta b (?i + length s + 2) (?i + length s + 2 + length n) st =
      Inr (st\<lparr>acs := acs st @ [accion Tag (?i + length s + 2) (?i + length s + 2 + length n) 0]\<rparr>,
           ?i + length s + 2 + length n + 2)"
      using lee_etiqueta_normal [OF n, of b "p @ s @ ''{{''" "imprime r @ q" st "?i + length s + 2"] Etiqueta.prems(4) False b by simp
    then show ?thesis
      using lee_etiquetas_paso [of b p s n "imprime r @ q" st frs] s nombre_tagD [OF n] Etiqueta.prems(3,4) False b lp
      by (simp add: ancho_def add.assoc)
  qed
  have "lee_etiquetas b (length ?p) (frs @ [(?i, ?i + length s)]) ?st =
    lee_etiquetas b (length ?p + length (imprime r) - length (texto_final r))
      ((frs @ [(?i, ?i + length s)]) @ fragmentos_de (length ?p) r)
      (?st\<lparr>acs := acs ?st @ acciones_de (length ?p) (length (acs ?st)) r\<rparr>)"
    by (rule Etiqueta.IH) (use Etiqueta.prems b in simp_all)
  then show ?case
    unfolding paso lp using lp by (simp add: Let_def ancho_def add.assoc add.commute add.left_commute split: if_splits)
next
  case (Seccion s neg n x r)
  let ?i = "length p"
  let ?j = "?i + length s + 3"
  let ?p1 = "p @ s @ (if neg then ''{{^'' else ''{{#'') @ n @ ''}}''"
  let ?st1 = "abre_bloque (tipo_seccion neg) ?j (?j + length n) st"
  have n: "nombre_tag n" and s: "texto_ok s" using Seccion.prems by simp_all
  let ?q1 = "''{{/'' @ n @ ''}}'' @ imprime r @ q"
  have b1: "b = ?p1 @ imprime x @ ?q1" using Seccion.prems(2) by simp
  have l1: "length ?p1 = ?j + length n + 2" by simp
  have abre: "lee_etiquetas b ?i frs st = lee_etiquetas b (length ?p1) (frs @ [(?i, ?i + length s)]) ?st1"
  proof -
    let ?c = "if neg then CHR ''^'' else CHR ''#''"
    have "lee_etiqueta b (?i + length s + 2) (?i + length s + 2 + 1 + length n) st =
      Inr (abre_bloque (tipo_seccion neg) (?i + length s + 2 + 1) (?i + length s + 2 + 1 + length n) st,
           ?i + length s + 2 + 1 + length n + 2)"
      using lee_etiqueta_marca(2,3) [OF n, of b "p @ s @ ''{{''" ?c "imprime x @ ?q1" st
          "?i + length s + 2"] Seccion.prems(3,4) b1
      by (simp add: tipo_seccion_def split: if_splits)
    then show ?thesis
      using lee_etiquetas_paso [of b p s "?c # n" "imprime x @ ?q1" st frs] s nombre_tagD [OF n] Seccion.prems(3,4) b1 l1
      by (simp add: add.assoc eval_nat_numeral split: if_splits)
  qed
  let ?k = "length (acs st)"
  let ?a = "accion (tipo_seccion neg) ?j (?j + length n) 0"
  let ?st2 = "?st1\<lparr>acs := acs st @ ?a # acciones_de (length ?p1) (Suc ?k) x\<rparr>"
  let ?frs2 = "(frs @ [(?i, ?i + length s)]) @ fragmentos_de (length ?p1) x"
  obtain s0 where s0: "imprime x = s0 @ texto_final x" using imprime_final by blast
  let ?p2 = "?p1 @ s0"
  have dentro: "lee_etiquetas b (length ?p1) (frs @ [(?i, ?i + length s)]) ?st1 = lee_etiquetas b (length ?p2) ?frs2 ?st2"
  proof -
    have "length ?p1 + length (imprime x) - length (texto_final x) = length ?p2" by (simp add: s0)
    then show ?thesis
      using Seccion.IH(1) [of ?p1 ?q1 ?st1 "frs @ [(?i, ?i + length s)]"] Seccion.prems b1
      by (simp add: acs_abre_bloque)
  qed
  let ?j' = "length ?p1 + length (imprime x) + 3"
  let ?k' = "Suc ?k + num_acciones x"
  let ?p3 = "?p2 @ texto_final x @ ''{{/'' @ n @ ''}}''"
  let ?st3 = "st\<lparr>acs := acs st @ ?a\<lparr>pos_bloque := ?k'\<rparr> # acciones_de (length ?p1) (Suc ?k) x @ [accion CloseBlock ?j' (?j' + length n) ?k]\<rparr>"
  let ?frs3 = "?frs2 @ [(length ?p2, length ?p2 + length (texto_final x))]"
  have b2: "b = ?p2 @ texto_final x @ ''{{'' @ (CHR ''/'' # n) @ ''}}'' @ imprime r @ q" using b1 s0 by simp
  have cierre: "lee_etiquetas b (length ?p2) ?frs2 ?st2 = lee_etiquetas b (length ?p3) ?frs3 ?st3"
  proof -
    have j': "length ?p2 + length (texto_final x) + 2 + 1 = ?j'" by (simp add: s0)
    have "trozo b ?j (?j + length n) = n"
      using posiciones(3) [OF n, of b "p @ s @ (if neg then ''{{^'' else ''{{#'')" "imprime x @ ?q1" ?j] b1
      by (simp split: if_splits)
    moreover have "trozo b ?j' (?j' + length n) = n"
      using posiciones(3) [OF n, of b "?p2 @ texto_final x @ ''{{/''" "imprime r @ q" ?j'] b2 j' by simp
    ultimately have "cierra_bloque b ?j' (?j' + length n) ?st2 = Inr ?st3"
      by (simp add: cierra_bloque_def acs_abre_bloque Let_def accion_def abre_bloque_def pon_accion_def)
    then have E: "lee_etiqueta b (length ?p2 + length (texto_final x) + 2)
        (length ?p2 + length (texto_final x) + 2 + 1 + length n) ?st2 = Inr (?st3, ?j' + length n + 2)"
      using lee_etiqueta_marca(4) [OF n, of b "?p2 @ texto_final x @ ''{{''" "CHR ''/''" "imprime r @ q" ?st2
          "length ?p2 + length (texto_final x) + 2"] Seccion.prems(3,4) b2
      unfolding j' by (simp add: acs_abre_bloque)
    have m: "length ?p2 + length (texto_final x) + 2 + length (CHR ''/'' # n) =
        length ?p2 + length (texto_final x) + 2 + 1 + length n" by simp
    have L: "length ?p3 = ?j' + length n + 2" by (simp add: s0)
    have tf: "texto_ok (texto_final x)" using Seccion.prems(1) by (simp add: texto_ok_final)
    have nb: "CHR ''/'' # n \<noteq> []" "CHR ''}'' \<notin> set (CHR ''/'' # n)" using nombre_tagD [OF n] by simp_all
    have st2: "tag_open ?st2 = ''{{''" "tag_close ?st2 = ''}}''" using Seccion.prems by (simp_all add: acs_abre_bloque)
    show ?thesis by (simp only: lee_etiquetas_paso [OF b2 tf nb st2] m E L sum.case prod.case)
  qed
  have b3: "b = ?p3 @ imprime r @ q" using b2 by simp
  have resto: "lee_etiquetas b (length ?p3) ?frs3 ?st3 =
    lee_etiquetas b (length ?p3 + length (imprime r) - length (texto_final r)) (?frs3 @ fragmentos_de (length ?p3) r)
      (?st3\<lparr>acs := acs ?st3 @ acciones_de (length ?p3) (length (acs ?st3)) r\<rparr>)"
    by (rule Seccion.IH(2)) (use Seccion.prems b3 in simp_all)
  have h: "?i + length s + length n + 5 = length ?p1" "?j + length n + 2 = length ?p1"
    "length ?p1 + length (imprime x) + length n + 5 = length ?p3" "?j' + length n + 2 = length ?p3"
    "length ?p1 + length (imprime x) - length (texto_final x) = length ?p2"
    "length ?p1 + length (imprime x) = length ?p2 + length (texto_final x)"
    by (simp_all add: s0)
  have h': "length ?p2 + length (texto_final x) + length n + 5 = length ?p3" by simp
  have "fragmentos_de ?i (Seccion s neg n x r) = (?i, ?i + length s) # fragmentos_de (length ?p1) x @
      (length ?p2, length ?p2 + length (texto_final x)) # fragmentos_de (length ?p3) r"
    by (simp only: fragmentos_de.simps Let_def h h' diff_add_inverse2)
  then have F: "frs @ fragmentos_de ?i (Seccion s neg n x r) = ?frs3 @ fragmentos_de (length ?p3) r" by simp
  have "acciones_de ?i ?k (Seccion s neg n x r) = accion (tipo_seccion neg) ?j (?j + length n) ?k' #
      acciones_de (length ?p1) (Suc ?k) x @ accion CloseBlock ?j' (?j' + length n) ?k # acciones_de (length ?p3) (Suc ?k') r"
    unfolding acciones_de.simps Let_def h(1-5) ..
  moreover have "accion (tipo_seccion neg) ?j (?j + length n) ?k' = ?a\<lparr>pos_bloque := ?k'\<rparr>" by (simp add: accion_def)
  ultimately have A: "acs st @ acciones_de ?i ?k (Seccion s neg n x r) = acs ?st3 @ acciones_de (length ?p3) (length (acs ?st3)) r"
    by simp
  have N: "?i + length (imprime (Seccion s neg n x r)) - length (texto_final (Seccion s neg n x r)) =
      length ?p3 + length (imprime r) - length (texto_final r)"
    by (simp add: s0)
  show ?case unfolding abre dentro cierre resto F A N by simp
qed

text \<open>The whole text.\<close>

lemma lee_imprime:
  assumes "bosque_ok x"
  shows "lee_etiquetas (imprime x) 0 [] \<lparr>tag_open = ''{{'', tag_close = ''}}'', acs = [], bloques = []\<rparr> =
    Inr (fragmentos_de 0 x @ [(length (imprime x) - length (texto_final x), length (imprime x))],
         acciones_de 0 0 x @ [accion Ignore 0 0 0])"
proof -
  obtain s where s: "imprime x = s @ texto_final x" using imprime_final by blast
  have "busca_desde ''{{'' (imprime x) (length s) = None"
    using busca_desde_append [of "''{{''" s "texto_final x"] busca_abre_no [OF texto_ok_final [OF assms]] by (simp add: s)
  then have "lee_etiquetas (imprime x) (length s) frs st =
      Inr (frs @ [(length s, length (imprime x))], acs st @ [accion Ignore 0 0 0])"
    if "tag_open st = ''{{''" for frs st
    using that by (subst lee_etiquetas.simps) simp
  then show ?thesis
    using lee_bosque [OF assms, of "imprime x" "[]" "[]"] by (simp add: s)
qed

subsection \<open>No line of its own\<close>

text \<open>The texts before the actions, with the kind of the action, and the texts of a template.\<close>

fun marcas :: "bosque \<Rightarrow> (string \<times> bool) list" where
  "marcas (Fin s) = []"
| "marcas (Etiqueta s cruda n r) = (s, False) # marcas r"
| "marcas (Seccion s neg n x r) = (s, True) # marcas x @ (texto_final x, True) # marcas r"

definition textos :: "bosque \<Rightarrow> string list" where
  "textos x = map fst (marcas x) @ [texto_final x]"

definition sin_blancos :: "string \<Rightarrow> string" where
  "sin_blancos s = dropWhile (\<lambda>c. c = CHR '' '') s"

text \<open>
  A text keeps the tag after it in company: it shows something between the last end of line and the tag. The
  first tag may also have no text before it, if something follows on its line.
\<close>

definition acompana :: "bool \<Rightarrow> string \<Rightarrow> string \<Rightarrow> bool" where
  "acompana primera s t \<longleftrightarrow>
     (case sin_blancos (rev s) of
        [] \<Rightarrow> primera \<longrightarrow> (case sin_blancos t of [] \<Rightarrow> True | c # u \<Rightarrow> c \<noteq> CHR 0x0A \<and> c \<noteq> CHR 0x0D)
      | c # u \<Rightarrow> c \<noteq> CHR 0x0A)"

definition sin_solas :: "bosque \<Rightarrow> bool" where
  "sin_solas x \<longleftrightarrow>
     list_all (\<lambda>i. snd (marcas x ! i) \<longrightarrow> acompana (i = 0) (textos x ! i) (textos x ! (i + 1))) [0..<length (marcas x)]"

lemma length_marcas [simp]: "length (marcas x) = num_acciones x"
  by (induction x) simp_all

definition esta_en :: "string \<Rightarrow> nat \<times> nat \<Rightarrow> string \<Rightarrow> bool" where
  "esta_en b f s \<longleftrightarrow> (\<exists>p q. b = p @ s @ q \<and> f = (length p, length p + length s))"

lemma esta_enI: "b = p @ s @ q \<Longrightarrow> length p = i \<Longrightarrow> esta_en b (i, i + length s) s"
  by (auto simp: esta_en_def)

lemma fragmentos_estan:
  "b = p @ imprime x @ q \<Longrightarrow> length p = i \<Longrightarrow> list_all2 (esta_en b) (fragmentos_de i x) (map fst (marcas x))"
proof (induction x arbitrary: p i q)
  case (Etiqueta s cruda n r)
  have "esta_en b (i, i + length s) s"
    by (rule esta_enI [of _ p]) (use Etiqueta.prems in simp_all)
  moreover have "list_all2 (esta_en b) (fragmentos_de (i + length s + length n + 2 * ancho cruda) r) (map fst (marcas r))"
    by (rule Etiqueta.IH [of "p @ s @ (if cruda then ''{{{'' @ n @ ''}}}'' else ''{{'' @ n @ ''}}'')" q])
      (use Etiqueta.prems in \<open>simp_all add: ancho_def\<close>)
  ultimately show ?case by simp
next
  case (Seccion s neg n x r)
  obtain s0 where s0: "imprime x = s0 @ texto_final x" using imprime_final by blast
  let ?p1 = "p @ s @ (if neg then ''{{^'' else ''{{#'') @ n @ ''}}''"
  have "esta_en b (i, i + length s) s"
    by (rule esta_enI [of _ p]) (use Seccion.prems in simp_all)
  moreover have "list_all2 (esta_en b) (fragmentos_de (i + length s + length n + 5) x) (map fst (marcas x))"
    by (rule Seccion.IH(1) [of ?p1 "''{{/'' @ n @ ''}}'' @ imprime r @ q"]) (use Seccion.prems in simp_all)
  moreover have "esta_en b (length (?p1 @ s0), length (?p1 @ s0) + length (texto_final x)) (texto_final x)"
    by (rule esta_enI [of _ "?p1 @ s0" _ "''{{/'' @ n @ ''}}'' @ imprime r @ q"]) (use Seccion.prems s0 in simp_all)
  then have "esta_en b (i + length s + length n + 5 + length (imprime x) - length (texto_final x),
      i + length s + length n + 5 + length (imprime x)) (texto_final x)"
    by (rule back_subst [where P = "\<lambda>f. esta_en b f (texto_final x)"]) (use Seccion.prems(2) in \<open>simp add: s0\<close>)
  moreover have "list_all2 (esta_en b) (fragmentos_de (i + length s + length n + 5 + length (imprime x) + length n + 5) r)
      (map fst (marcas r))"
    by (rule Seccion.IH(2) [of "?p1 @ imprime x @ ''{{/'' @ n @ ''}}''" q]) (use Seccion.prems in simp_all)
  ultimately show ?case
    unfolding fragmentos_de.simps marcas.simps Let_def
    by (auto simp only: list.map map_append fst_conv list_all2_Cons intro!: list_all2_appendI)
qed simp

lemma tipos_marcas:
  "map (\<lambda>a. tipo a \<noteq> Tag \<and> tipo a \<noteq> UnescapeTag) (acciones_de i k x) = map snd (marcas x)"
  by (induction x arbitrary: i k) (simp_all add: Let_def accion_def tipo_seccion_def)

lemma quita_desde_texto:
  assumes "esta_en b f s"
  shows "quita_desde b (fst f) (snd f) = fst f + length (sin_blancos (rev s))"
    and "sin_blancos (rev s) \<noteq> [] \<Longrightarrow> car b (fst f + length (sin_blancos (rev s)) - 1) = hd (sin_blancos (rev s))"
proof -
  from assms obtain p q where b: "b = p @ s @ q" and f: "f = (length p, length p + length s)"
    unfolding esta_en_def by blast
  have "quita_desde (p @ s @ q) (length p) (length p + length s) = length p + length (sin_blancos (rev s)) \<and>
    (sin_blancos (rev s) \<noteq> [] \<longrightarrow> car (p @ s @ q) (length p + length (sin_blancos (rev s)) - 1) = hd (sin_blancos (rev s)))"
  proof (induction s arbitrary: q rule: rev_induct)
    case Nil
    show ?case by (cases "length p") (simp_all add: sin_blancos_def)
  next
    case (snoc c s)
    have "car (p @ (s @ [c]) @ q) (length p + length s) = c" by (simp add: car_def nth_append)
    then show ?case using snoc.IH [of "c # q"] by (cases "c = CHR '' ''") (simp_all add: sin_blancos_def)
  qed
  then show "quita_desde b (fst f) (snd f) = fst f + length (sin_blancos (rev s))"
    and "sin_blancos (rev s) \<noteq> [] \<Longrightarrow> car b (fst f + length (sin_blancos (rev s)) - 1) = hd (sin_blancos (rev s))"
    by (simp_all add: b f)
qed

lemma acompana_renglon:
  assumes "esta_en b f s" "esta_en b g t" "acompana (i = 0) s t" "i = 0 \<Longrightarrow> 2 < n"
  shows "\<not> renglon_propio b n i f g"
proof (cases "sin_blancos (rev s)")
  case (Cons c u)
  then show ?thesis
    using quita_desde_texto [OF assms(1)] assms(3) by (simp add: renglon_propio_def Let_def acompana_def)
next
  case Nil
  from assms(2) obtain p q where b: "b = p @ t @ q" and g: "g = (length p, length p + length t)"
    unfolding esta_en_def by blast
  let ?k = "length p + length (takeWhile (\<lambda>c. c = CHR '' '') t)"
  have "car b ?k = hd (sin_blancos t)" if "sin_blancos t \<noteq> []"
  proof -
    have "t = takeWhile (\<lambda>c. c = CHR '' '') t @ sin_blancos t" by (simp add: sin_blancos_def)
    then have "b = (p @ takeWhile (\<lambda>c. c = CHR '' '') t) @ sin_blancos t @ q" by (simp add: b)
    then show ?thesis using car_append [of "p @ takeWhile (\<lambda>c. c = CHR '' '') t" "sin_blancos t @ q"] that by simp
  qed
  moreover have "sin_blancos t = [] \<longleftrightarrow> length t \<le> length (takeWhile (\<lambda>c. c = CHR '' '') t)"
  proof -
    have "length t = length (takeWhile (\<lambda>c. c = CHR '' '') t) + length (sin_blancos t)"
      unfolding sin_blancos_def by (metis length_append takeWhile_dropWhile_id)
    then show ?thesis by auto
  qed
  ultimately show ?thesis
    using quita_desde_texto [OF assms(1)] assms(3,4) Nil
    by (cases "sin_blancos t") (auto simp: renglon_propio_def Let_def acompana_def b g es_salto_def)
qed

lemma foldl_fijo: "(\<And>x. x \<in> set xs \<Longrightarrow> f a x = a) \<Longrightarrow> foldl f a xs = a"
  by (induction xs) simp_all

text \<open>The parser of a printed template whose sections are in company.\<close>

definition plantilla_de :: "bosque \<Rightarrow> template_t" where
  "plantilla_de x =
     \<lparr>fragments = fragmentos_de 0 x @ [(length (imprime x) - length (texto_final x), length (imprime x))],
      actions = acciones_de 0 0 x @ [accion Ignore 0 0 0], cuerpo = imprime x\<rparr>"

lemma textos_estan: "list_all2 (esta_en (imprime x)) (fragments (plantilla_de x)) (textos x)"
proof -
  obtain s where s: "imprime x = s @ texto_final x" using imprime_final by blast
  have "list_all2 (esta_en (imprime x)) (fragmentos_de 0 x) (map fst (marcas x))"
    by (rule fragmentos_estan [of _ "[]" _ "[]"]) simp_all
  moreover have "esta_en (imprime x) (length s, length s + length (texto_final x)) (texto_final x)"
    by (rule esta_enI [of _ s _ "[]"]) (simp_all add: s)
  ultimately show ?thesis by (simp add: plantilla_de_def textos_def s list_all2_appendI)
qed

lemma seccion_dos: "num_acciones x = 1 \<Longrightarrow> \<not> snd (marcas x ! 0)"
  by (cases x) simp_all

lemma compile_imprime:
  assumes "bosque_ok x" "sin_solas x"
  shows "compile (imprime x) = Inr (plantilla_de x)"
proof -
  let ?t = "plantilla_de x"
  have "quita_sola (imprime x) i (fragments ?t, actions ?t) = (fragments ?t, actions ?t)" if "i < num_acciones x" for i
  proof (cases "snd (marcas x ! i)")
    case False
    moreover have "(tipo (actions ?t ! i) \<noteq> Tag \<and> tipo (actions ?t ! i) \<noteq> UnescapeTag) = snd (marcas x ! i)"
      using arg_cong [OF tipos_marcas [of 0 0 x], of "\<lambda>l. l ! i"] that by (simp add: plantilla_de_def nth_append)
    ultimately show ?thesis by (auto simp: quita_sola_def)
  next
    case True
    have e: "esta_en (imprime x) (fragments ?t ! j) (textos x ! j)" if "j \<le> num_acciones x" for j
      using list_all2_nthD [OF textos_estan, of j x] that by (simp add: plantilla_de_def)
    have "acompana (i = 0) (textos x ! i) (textos x ! (i + 1))"
      using assms(2) that True by (simp add: sin_solas_def list_all_iff)
    then have "\<not> renglon_propio (imprime x) (length (actions ?t)) i (fragments ?t ! i) (fragments ?t ! (i + 1))"
      by (intro acompana_renglon [of _ _ "textos x ! i" _ "textos x ! (i + 1)"] e)
        (use that True seccion_dos [of x] in \<open>auto simp: plantilla_de_def intro!: Suc_lessI\<close>)
    then show ?thesis by (simp add: quita_sola_def)
  qed
  then have "quita_solas (imprime x) (fragments ?t, actions ?t) = (fragments ?t, actions ?t)"
    unfolding quita_solas_def by (intro foldl_fijo) (simp add: plantilla_de_def)
  then show ?thesis
    using lee_imprime [OF assms(1)] by (simp add: compile_def plantilla_de_def)
qed

subsection \<open>The meaning of a template\<close>

text \<open>The text of a value in a tag; a null value, a list and an object have none and are an error.\<close>

definition texto_valor :: "('d \<Rightarrow> string option) \<Rightarrow> bool \<Rightarrow> 'd wvalue option \<Rightarrow> string res_plantilla" where
  "texto_valor pf cruda ctx =
     (case ctx of
        None \<Rightarrow> Inr []
      | Some (J_String s) \<Rightarrow> Inr (if cruda then s else escape_html s)
      | Some (J_Number x) \<Rightarrow> Inr (dump_numero pf x)
      | Some J_True \<Rightarrow> Inr ''true''
      | Some J_False \<Rightarrow> Inr ''false''
      | _ \<Rightarrow> Inl Not_implemented)"

text \<open>The contexts for which a section is written, in their order.\<close>

definition vueltas :: "bool \<Rightarrow> 'd wvalue option \<Rightarrow> 'd wvalue list" where
  "vueltas neg ctx =
     (case ctx of
        None \<Rightarrow> if neg then [J_Null] else []
      | Some (J_List l) \<Rightarrow> if neg then (if l = [] then [J_Null] else []) else l
      | Some J_False \<Rightarrow> if neg then [J_Null] else []
      | Some J_Null \<Rightarrow> if neg then [J_Null] else []
      | Some v \<Rightarrow> if neg then [] else [v])"

fun junta :: "string res_plantilla list \<Rightarrow> string res_plantilla" where
  "junta [] = Inr []"
| "junta (r # rs) = bindP r (\<lambda>s. bindP (junta rs) (\<lambda>u. Inr (s @ u)))"

primrec significado :: "('d \<Rightarrow> string option) \<Rightarrow> bosque \<Rightarrow> 'd pila \<Rightarrow> string res_plantilla" where
  "significado pf (Fin s) = (\<lambda>pila. Inr s)"
| "significado pf (Etiqueta s cruda n r) =
     (\<lambda>pila. junta [Inr s, texto_valor pf cruda (busca_nombre n pila), significado pf r pila])"
| "significado pf (Seccion s neg n x r) =
     (\<lambda>pila. junta [Inr s, junta (map (\<lambda>v. significado pf x (v # pila)) (vueltas neg (busca_nombre n pila))),
                    significado pf r pila])"

text \<open>Values without functions.\<close>

fun sin_funciones :: "'d wvalue \<Rightarrow> bool" where
  "sin_funciones (J_List l) \<longleftrightarrow> list_all sin_funciones l"
| "sin_funciones (J_Object kvs) \<longleftrightarrow> list_all (\<lambda>(k, v). sin_funciones v) kvs"
| "sin_funciones (J_Function f) \<longleftrightarrow> False"
| "sin_funciones v \<longleftrightarrow> True"

lemma sin_funciones_busca: "list_all sin_funciones pila \<Longrightarrow> busca_nombre n pila = Some v \<Longrightarrow> sin_funciones v"
proof (induction pila)
  case (Cons w ws)
  have "sin_funciones w \<Longrightarrow> map_of (elementos w) n = Some v \<Longrightarrow> sin_funciones v"
    by (cases w) (auto simp: list_all_iff dest: map_of_SomeD)
  with Cons show ?case by (auto split: option.splits)
qed simp

lemma sin_funciones_vueltas:
  "list_all sin_funciones pila \<Longrightarrow> list_all sin_funciones (vueltas neg (busca_nombre n pila))"
  using sin_funciones_busca [of pila n]
  by (auto simp: vueltas_def list_all_iff split: option.splits wvalue.splits)

subsection \<open>Runs of the renderer\<close>

text \<open>More fuel does not change a result.\<close>

lemma luego_render_mono:
  "luego_render r f = Some y \<Longrightarrow> (\<And>x. r = Some x \<Longrightarrow> r' = Some x) \<Longrightarrow> (\<And>st s x. f st s = Some x \<Longrightarrow> f' st s = Some x) \<Longrightarrow>
    luego_render r' f' = Some y"
  by (auto simp: luego_render_def split: option.splits sum.splits)

lemma corre_render_Suc: "corre_render pf ld n w = Some r \<Longrightarrow> corre_render pf ld (Suc n) w = Some r"
proof (induction n arbitrary: w r)
  case (Suc n)
  have IH: "\<And>w r. corre_render pf ld n w = Some r \<Longrightarrow> corre_render pf ld (Suc n) w = Some r" by (rule Suc.IH)
  let ?c = "corre_render pf ld n" and ?c' = "corre_render pf ld (Suc n)"
  have b: "paso_bucle ?c pf ld t i j st out ind = Some x \<Longrightarrow> paso_bucle ?c' pf ld t i j st out ind = Some x" for t i j st out ind x
    unfolding paso_bucle_def Let_def
    by (auto simp del: corre_render.simps split: if_splits orden.splits sum.splits intro: IH elim!: luego_render_mono)
  have l: "paso_lista ?c t i j vs st out ind = Some x \<Longrightarrow> paso_lista ?c' t i j vs st out ind = Some x" for t i j vs st out ind x
    unfolding paso_lista_def
    by (auto simp del: corre_render.simps split: list.splits if_splits intro: IH elim!: luego_render_mono)
  have x: "paso_texto ?c st s = Some x \<Longrightarrow> paso_texto ?c' st s = Some x" for st s x
    unfolding paso_texto_def
    by (auto simp del: corre_render.simps split: if_splits sum.splits intro: IH elim!: luego_render_mono)
  from Suc.prems show ?case
    by (subst corre_render.simps(2), subst (asm) corre_render.simps(2)) (auto simp del: corre_render.simps split: trabajo.splits intro: b l x)
qed simp

lemma corre_render_mono: "corre_render pf ld n w = Some r \<Longrightarrow> n \<le> m \<Longrightarrow> corre_render pf ld m w = Some r"
  by (induction m) (auto simp del: corre_render.simps simp: le_Suc_eq intro: corre_render_Suc)

definition rinde :: "('d \<Rightarrow> string option) \<Rightarrow> (string \<Rightarrow> string) \<Rightarrow> 'd trabajo \<Rightarrow> ('d pila \<times> string) res_plantilla \<Rightarrow> bool" where
  "rinde pf ld w r \<longleftrightarrow> (\<exists>n. corre_render pf ld n w = Some r)"

lemma rinde_paso:
  assumes "current < actionEnd" "fragments t ! current = (i, i + length s)" "esta_en (cuerpo t) (i, i + length s) s"
  shows "paso_render pf t current st (out @ s) = Sigue_en c st' out' \<Longrightarrow> rinde pf ld (Bucle t c actionEnd st' out' 0) r \<Longrightarrow>
      rinde pf ld (Bucle t current actionEnd st out 0) r"
    and "paso_render pf t current st (out @ s) = Falla e \<Longrightarrow> rinde pf ld (Bucle t current actionEnd st out 0) (Inl e)"
    and "paso_render pf t current st (out @ s) = Repite p l \<Longrightarrow>
      rinde pf ld (Lista t (current + 1) p l st (out @ s) 0) (Inr (st', out')) \<Longrightarrow>
      rinde pf ld (Bucle t (p + 1) actionEnd st' out' 0) r \<Longrightarrow> rinde pf ld (Bucle t current actionEnd st out 0) r"
    and "paso_render pf t current st (out @ s) = Repite p l \<Longrightarrow>
      rinde pf ld (Lista t (current + 1) p l st (out @ s) 0) (Inl e) \<Longrightarrow> rinde pf ld (Bucle t current actionEnd st out 0) (Inl e)"
proof -
  have f: "render_fragment (cuerpo t) 0 (fragments t ! current) = s"
    using assms(2,3) by (auto simp: render_fragment_def esta_en_def trozo_append)
  note paso = paso_bucle_def Let_def f
  have sube: "corre_render pf ld (Suc n) (Bucle t current actionEnd st out 0) = Some r \<Longrightarrow> rinde pf ld (Bucle t current actionEnd st out 0) r" for n r
    unfolding rinde_def by blast
  show "rinde pf ld (Bucle t current actionEnd st out 0) r"
    if p: "paso_render pf t current st (out @ s) = Sigue_en c st' out'" and r: "rinde pf ld (Bucle t c actionEnd st' out' 0) r"
  proof -
    from r obtain n where "corre_render pf ld n (Bucle t c actionEnd st' out' 0) = Some r" unfolding rinde_def by blast
    then show ?thesis using assms(1) p by (intro sube [of n]) (simp add: paso)
  qed
  show "rinde pf ld (Bucle t current actionEnd st out 0) (Inl e)" if "paso_render pf t current st (out @ s) = Falla e"
    using assms(1) that by (intro sube [of 0]) (simp add: paso)
  show "rinde pf ld (Bucle t current actionEnd st out 0) (Inl e)"
    if p: "paso_render pf t current st (out @ s) = Repite p l" and r: "rinde pf ld (Lista t (current + 1) p l st (out @ s) 0) (Inl e)"
  proof -
    from r obtain n where "corre_render pf ld n (Lista t (current + 1) p l st (out @ s) 0) = Some (Inl e)" unfolding rinde_def by blast
    then show ?thesis using assms(1) p by (intro sube [of n]) (simp add: paso)
  qed
  assume p: "paso_render pf t current st (out @ s) = Repite p l"
    and "rinde pf ld (Lista t (current + 1) p l st (out @ s) 0) (Inr (st', out'))" "rinde pf ld (Bucle t (p + 1) actionEnd st' out' 0) r"
  then obtain n m where "corre_render pf ld n (Lista t (current + 1) p l st (out @ s) 0) = Some (Inr (st', out'))"
    "corre_render pf ld m (Bucle t (p + 1) actionEnd st' out' 0) = Some r"
    unfolding rinde_def by blast
  then have "corre_render pf ld (max n m) (Lista t (current + 1) p l st (out @ s) 0) = Some (Inr (st', out'))"
    "corre_render pf ld (max n m) (Bucle t (p + 1) actionEnd st' out' 0) = Some r"
    by (auto elim: corre_render_mono)
  then have "corre_render pf ld (Suc (max n m)) (Bucle t current actionEnd st out 0) = Some r"
    using assms(1) p by (simp add: paso)
  then show "rinde pf ld (Bucle t current actionEnd st out 0) r" unfolding rinde_def by blast
qed

subsection \<open>The renderer implements the meaning\<close>

text \<open>A tree stands in a template from an action on.\<close>

definition hay_texto :: "template_t \<Rightarrow> nat \<Rightarrow> string \<Rightarrow> bool" where
  "hay_texto t k s \<longleftrightarrow> esta_en (cuerpo t) (fragments t ! k) s"

definition hay_accion :: "template_t \<Rightarrow> nat \<Rightarrow> ActionType \<Rightarrow> string \<Rightarrow> nat \<Rightarrow> bool" where
  "hay_accion t k ty n p \<longleftrightarrow>
     tipo (actions t ! k) = ty \<and> tag_name t (actions t ! k) = n \<and> pos_bloque (actions t ! k) = p"

fun encaja :: "template_t \<Rightarrow> nat \<Rightarrow> bosque \<Rightarrow> bool" where
  "encaja t k (Fin s) \<longleftrightarrow> hay_texto t k s"
| "encaja t k (Etiqueta s cruda n r) \<longleftrightarrow>
     hay_texto t k s \<and> hay_accion t k (if cruda then UnescapeTag else Tag) n 0 \<and> encaja t (Suc k) r"
| "encaja t k (Seccion s neg n x r) \<longleftrightarrow>
     hay_texto t k s \<and> hay_accion t k (tipo_seccion neg) n (Suc k + num_acciones x) \<and> encaja t (Suc k) x \<and>
     hay_accion t (Suc k + num_acciones x) CloseBlock n k \<and> encaja t (Suc (Suc k + num_acciones x)) r"

lemma encaja_final: "encaja t k x \<Longrightarrow> hay_texto t (k + num_acciones x) (texto_final x)"
proof (induction x arbitrary: k)
  case (Seccion s neg n x r)
  then show ?case using Seccion.IH(2) [of "Suc (Suc k + num_acciones x)"] by (simp add: add.assoc)
qed (simp_all, metis add_Suc)

lemma hay_accionI:
  assumes "cuerpo t = p @ n @ q" "length p = j" and "actions t ! k = accion ty j (j + length n) m"
  shows "hay_accion t k ty n m"
  using trozo_append [of p n q] assms by (simp add: hay_accion_def accion_def tag_name_def)

lemma encaja_construida:
  assumes "bosque_ok x" "cuerpo t = p @ imprime x @ q" "length p = i"
    and "actions t = A0 @ acciones_de i k x @ A1" "length A0 = k"
    and "fragments t = F0 @ fragmentos_de i x @ F1" "length F0 = k" "hay_texto t (k + num_acciones x) (texto_final x)"
  shows "encaja t k x"
  using assms
proof (induction x arbitrary: p q i A0 A1 F0 F1 k)
  case (Etiqueta s cruda n r)
  let ?j = "i + length s + ancho cruda"
  let ?p = "p @ s @ (if cruda then ''{{{'' @ n @ ''}}}'' else ''{{'' @ n @ ''}}'')"
  have nombre: "cuerpo t = (p @ s @ (if cruda then ''{{{'' else ''{{'')) @ n @ ''}}'' @ (if cruda then ''}'' else []) @ imprime r @ q"
    "length (p @ s @ (if cruda then ''{{{'' else ''{{'')) = ?j"
    using Etiqueta.prems by (simp_all add: ancho_def)
  have "hay_texto t k s"
    unfolding hay_texto_def by (simp add: Etiqueta.prems nth_append del: Etiqueta.prems(2)) (rule esta_enI [of _ p], use Etiqueta.prems in simp_all)
  moreover have "hay_accion t k (if cruda then UnescapeTag else Tag) n 0"
    by (rule hay_accionI [OF nombre]) (use Etiqueta.prems in \<open>simp add: Let_def nth_append\<close>)
  moreover have "encaja t (Suc k) r"
  proof (rule Etiqueta.IH [of ?p q _ "A0 @ [accion (if cruda then UnescapeTag else Tag) ?j (?j + length n) 0]" "Suc k" A1
        "F0 @ [(i, i + length s)]" F1])
    show "length ?p = ?j + length n + ancho cruda" using Etiqueta.prems(3) by (simp add: ancho_def)
    have "i + length s + length n + 2 * ancho cruda = ?j + length n + ancho cruda" by simp
    then show "fragments t = (F0 @ [(i, i + length s)]) @ fragmentos_de (?j + length n + ancho cruda) r @ F1"
      using Etiqueta.prems(6) by (simp only: fragmentos_de.simps append_assoc append_Cons append_Nil)
  qed (use Etiqueta.prems in \<open>simp_all add: Let_def\<close>)
  ultimately show ?case by simp
next
  case (Seccion s neg n x r)
  let ?j = "i + length s + 3"
  let ?p1 = "p @ s @ (if neg then ''{{^'' else ''{{#'') @ n @ ''}}''"
  let ?i' = "?j + length n + 2"
  let ?k' = "Suc k + num_acciones x"
  let ?f' = "?i' + length (imprime x)"
  let ?j' = "?f' + 3"
  let ?p3 = "?p1 @ imprime x @ ''{{/'' @ n @ ''}}''"
  let ?A = "accion (tipo_seccion neg) ?j (?j + length n) ?k'" and ?C = "accion CloseBlock ?j' (?j' + length n) k"
  let ?F = "(?f' - length (texto_final x), ?f')"
  have A: "actions t = A0 @ ?A # acciones_de ?i' (Suc k) x @ ?C # acciones_de (?j' + length n + 2) (Suc ?k') r @ A1"
    using Seccion.prems(4) by (simp only: acciones_de.simps Let_def append_assoc append_Cons append_Nil)
  have h: "i + length s + length n + 5 = ?i'" "?f' + length n + 5 = ?j' + length n + 2" by simp_all
  have F: "fragments t = F0 @ (i, i + length s) # fragmentos_de ?i' x @ ?F # fragmentos_de (?j' + length n + 2) r @ F1"
    using Seccion.prems(6) unfolding fragmentos_de.simps Let_def h by (simp only: append_assoc append_Cons append_Nil)
  obtain s0 where s0: "imprime x = s0 @ texto_final x" using imprime_final by blast
  note prems = Seccion.prems(1,2,3,5,7,8)
  have "hay_texto t k s"
    unfolding hay_texto_def by (simp add: F prems(5) nth_append) (rule esta_enI [of _ p], use prems in simp_all)
  moreover have "hay_accion t k (tipo_seccion neg) n ?k'"
    by (rule hay_accionI [of _ "p @ s @ (if neg then ''{{^'' else ''{{#'')" _ "''}}'' @ imprime x @ ''{{/'' @ n @ ''}}'' @ imprime r @ q" ?j])
      (use prems in \<open>simp_all add: A nth_append\<close>)
  moreover have "hay_accion t ?k' CloseBlock n k"
    by (rule hay_accionI [of _ "?p1 @ imprime x @ ''{{/''" _ "''}}'' @ imprime r @ q" ?j'])
      (use prems in \<open>simp_all add: A nth_append\<close>)
  moreover have "encaja t (Suc k) x"
  proof (rule Seccion.IH(1) [of ?p1 "''{{/'' @ n @ ''}}'' @ imprime r @ q" ?i' "A0 @ [?A]" _ "?C # acciones_de (?j' + length n + 2) (Suc ?k') r @ A1"
        "F0 @ [(i, i + length s)]" "?F # fragmentos_de (?j' + length n + 2) r @ F1"])
    have "esta_en (cuerpo t) (length (?p1 @ s0), length (?p1 @ s0) + length (texto_final x)) (texto_final x)"
      by (rule esta_enI [of _ "?p1 @ s0" _ "''{{/'' @ n @ ''}}'' @ imprime r @ q"]) (use prems s0 in simp_all)
    moreover have "(length (?p1 @ s0), length (?p1 @ s0) + length (texto_final x)) = ?F"
      using prems(3) by (simp add: s0)
    moreover have "fragments t ! (Suc k + num_acciones x) = ?F" by (simp add: F prems(5) nth_append)
    ultimately show "hay_texto t (Suc k + num_acciones x) (texto_final x)" by (simp only: hay_texto_def)
  qed (use prems A F in simp_all)
  moreover have "encaja t (Suc ?k') r"
    by (rule Seccion.IH(2) [of ?p3 q "?j' + length n + 2" "A0 @ ?A # acciones_de ?i' (Suc k) x @ [?C]" _ A1
          "F0 @ (i, i + length s) # fragmentos_de ?i' x @ [?F]" F1])
      (use prems A F in \<open>simp_all add: add.assoc\<close>)
  ultimately show ?case by simp
qed simp

lemma abre_casos:
  assumes "hay_accion t k (tipo_seccion neg) n p" "nombre_tag n" "list_all sin_funciones pila"
  shows "(paso_render pf t k pila out = Sigue_en (Suc p) pila out \<and> vueltas neg (busca_nombre n pila) = []) \<or>
    (\<exists>v. paso_render pf t k pila out = Sigue_en (Suc k) (v # pila) out \<and> vueltas neg (busca_nombre n pila) = [v]) \<or>
    paso_render pf t k pila out = Repite p (vueltas neg (busca_nombre n pila))"
proof -
  have "find_context n pila b = Inr (busca_nombre n pila)" for b
    using nombre_tagD [OF assms(2)] by (auto simp: find_context_def)
  then have "paso_render pf t k pila out =
      (if neg then abre_inversa (busca_nombre n pila) k p pila out else abre_seccion (busca_nombre n pila) k p pila out)"
    using assms(1) by (simp add: paso_render_def hay_accion_def Let_def con_contexto_def tipo_seccion_def)
  moreover have "busca_nombre n pila \<noteq> Some (J_Function f)" for f
    using sin_funciones_busca [OF assms(3)] by fastforce
  ultimately show ?thesis
    by (auto simp: abre_seccion_def abre_inversa_def vueltas_def Let_def split: option.splits wvalue.splits)
qed

lemma etiqueta_caso:
  assumes "hay_accion t k (if cruda then UnescapeTag else Tag) n p" "nombre_tag n" "list_all sin_funciones pila"
  shows "paso_render pf t k pila out =
    (case texto_valor pf cruda (busca_nombre n pila) of Inl e \<Rightarrow> Falla e | Inr s \<Rightarrow> Sigue_en (Suc k) pila (out @ s))"
proof -
  have "find_context n pila b = Inr (busca_nombre n pila)" for b
    using nombre_tagD [OF assms(2)] by (auto simp: find_context_def)
  then have "paso_render pf t k pila out =
      escribe_etiqueta pf (if cruda then UnescapeTag else Tag) (busca_nombre n pila) k pila out"
    using assms(1) by (auto simp: paso_render_def hay_accion_def Let_def con_contexto_def)
  moreover have "busca_nombre n pila \<noteq> Some (J_Function f)" for f
    using sin_funciones_busca [OF assms(3)] by fastforce
  ultimately show ?thesis
    by (auto simp: escribe_etiqueta_def texto_valor_def escribe_texto_def escape_html_def split: option.splits wvalue.splits)
qed

lemma encaja_plantilla_de: "bosque_ok x \<Longrightarrow> encaja (plantilla_de x) 0 x"
  by (rule encaja_construida [of x _ "[]" "[]" 0 "[]" 0 "[accion Ignore 0 0 0]" "[]"])
    (use list_all2_nthD [OF textos_estan [of x], of "num_acciones x"]
     in \<open>simp_all add: plantilla_de_def hay_texto_def textos_def nth_append\<close>)

text \<open>
  What the run of a tree does: it writes all but the last text and goes on at the action after, or it fails.
\<close>

definition corre_arbol :: "('d \<Rightarrow> string option) \<Rightarrow> (string \<Rightarrow> string) \<Rightarrow> template_t \<Rightarrow> nat \<Rightarrow> bosque \<Rightarrow> 'd pila \<Rightarrow> bool" where
  "corre_arbol pf ld t k x pila \<longleftrightarrow>
     (case significado pf x pila of
        Inl e \<Rightarrow> \<forall>E out. k + num_acciones x \<le> E \<longrightarrow> rinde pf ld (Bucle t k E pila out 0) (Inl e)
      | Inr s \<Rightarrow> \<exists>s1. s = s1 @ texto_final x \<and>
          (\<forall>E out r. k + num_acciones x \<le> E \<longrightarrow> rinde pf ld (Bucle t (k + num_acciones x) E pila (out @ s1) 0) r \<longrightarrow>
             rinde pf ld (Bucle t k E pila out 0) r))"

lemma rinde_fin:
  assumes "hay_texto t k s"
  shows "rinde pf ld (Bucle t k k st out 0) (Inr (st, out @ s))"
proof -
  have "render_fragment (cuerpo t) 0 (fragments t ! k) = s"
    using assms by (auto simp: render_fragment_def hay_texto_def esta_en_def trozo_append)
  then have "corre_render pf ld (Suc 0) (Bucle t k k st out 0) = Some (Inr (st, out @ s))"
    by (simp add: paso_bucle_def)
  then show ?thesis unfolding rinde_def by blast
qed

lemma rinde_lista_Cons:
  assumes "rinde pf ld (Bucle t k E (v # st) out 0) (Inr (v # st, out1))"
  shows "rinde pf ld (Lista t k E vs st out1 0) r \<Longrightarrow> rinde pf ld (Lista t k E (v # vs) st out 0) r"
proof -
  assume "rinde pf ld (Lista t k E vs st out1 0) r"
  with assms obtain n m where "corre_render pf ld n (Bucle t k E (v # st) out 0) = Some (Inr (v # st, out1))"
    "corre_render pf ld m (Lista t k E vs st out1 0) = Some r"
    unfolding rinde_def by blast
  then have "corre_render pf ld (max n m) (Bucle t k E (v # st) out 0) = Some (Inr (v # st, out1))"
    "corre_render pf ld (max n m) (Lista t k E vs st out1 0) = Some r"
    by (auto elim: corre_render_mono)
  then have "corre_render pf ld (Suc (max n m)) (Lista t k E (v # vs) st out 0) = Some r"
    by (simp add: paso_lista_def sangra_def)
  then show ?thesis unfolding rinde_def by blast
qed

lemma rinde_lista_mal:
  assumes "rinde pf ld (Bucle t k E (v # st) out 0) (Inl e)"
  shows "rinde pf ld (Lista t k E (v # vs) st out 0) (Inl e)"
proof -
  from assms obtain n where "corre_render pf ld n (Bucle t k E (v # st) out 0) = Some (Inl e)" unfolding rinde_def by blast
  then have "corre_render pf ld (Suc n) (Lista t k E (v # vs) st out 0) = Some (Inl e)"
    by (simp add: paso_lista_def sangra_def)
  then show ?thesis unfolding rinde_def by blast
qed

lemma rinde_lista_Nil: "rinde pf ld (Lista t k E [] st out 0) (Inr (st, out))"
  unfolding rinde_def by (rule exI [of _ "Suc 0"]) (simp add: paso_lista_def)

lemma corre_lista:
  assumes "\<And>v. v \<in> set l \<Longrightarrow> corre_arbol pf ld t k x (v # pila)" and "hay_texto t (k + num_acciones x) (texto_final x)"
  shows "case junta (map (\<lambda>v. significado pf x (v # pila)) l) of
      Inl e \<Rightarrow> rinde pf ld (Lista t k (k + num_acciones x) l pila out 0) (Inl e)
    | Inr s \<Rightarrow> rinde pf ld (Lista t k (k + num_acciones x) l pila out 0) (Inr (pila, out @ s))"
  using assms(1)
proof (induction l arbitrary: out)
  case Nil
  then show ?case by (simp add: rinde_lista_Nil)
next
  case (Cons v vs)
  let ?E = "k + num_acciones x"
  have v: "corre_arbol pf ld t k x (v # pila)" by (rule Cons.prems) simp
  show ?case
  proof (cases "significado pf x (v # pila)")
    case (Inl e)
    then show ?thesis using v by (simp add: corre_arbol_def rinde_lista_mal)
  next
    case (Inr s)
    then obtain s1 where s1: "s = s1 @ texto_final x"
      "\<And>out z. rinde pf ld (Bucle t ?E ?E (v # pila) (out @ s1) 0) z \<Longrightarrow> rinde pf ld (Bucle t k ?E (v # pila) out 0) z"
      using v by (auto simp: corre_arbol_def)
    have "rinde pf ld (Bucle t k ?E (v # pila) out 0) (Inr (v # pila, out @ s))"
      using s1(2) [OF rinde_fin [OF assms(2)]] by (simp add: s1(1))
    note paso = rinde_lista_Cons [OF this, of vs]
    have "case junta (map (\<lambda>v. significado pf x (v # pila)) vs) of
        Inl e \<Rightarrow> rinde pf ld (Lista t k ?E vs pila (out @ s) 0) (Inl e)
      | Inr u \<Rightarrow> rinde pf ld (Lista t k ?E vs pila (out @ s) 0) (Inr (pila, (out @ s) @ u))"
      by (rule Cons.IH) (simp add: Cons.prems)
    then show ?thesis using Inr paso by (auto split: sum.splits)
  qed
qed

text \<open>A tree whose first part writes the text of \<open>w\<close> and goes on with the rest.\<close>

lemma corre_compone:
  assumes r: "corre_arbol pf ld t k' r pila"
    and "k + num_acciones x = k' + num_acciones r" "texto_final x = texto_final r"
    and "significado pf x pila = junta [Inr s, w, significado pf r pila]"
    and mal: "\<And>e E out. w = Inl e \<Longrightarrow> k + num_acciones x \<le> E \<Longrightarrow> rinde pf ld (Bucle t k E pila out 0) (Inl e)"
    and bien: "\<And>u E out z. w = Inr u \<Longrightarrow> k + num_acciones x \<le> E \<Longrightarrow> rinde pf ld (Bucle t k' E pila (out @ s @ u) 0) z \<Longrightarrow>
      rinde pf ld (Bucle t k E pila out 0) z"
  shows "corre_arbol pf ld t k x pila"
proof (cases w)
  case (Inl e)
  then show ?thesis using assms(4) mal by (simp add: corre_arbol_def)
next
  case w: (Inr v)
  show ?thesis
  proof (cases "significado pf r pila")
    case (Inl e)
    then show ?thesis using r w assms(2,4) bien by (simp add: corre_arbol_def)
  next
    case (Inr u)
    then obtain s1 where "u = s1 @ texto_final r"
      "\<And>E out z. k' + num_acciones r \<le> E \<Longrightarrow> rinde pf ld (Bucle t (k' + num_acciones r) E pila (out @ s1) 0) z \<Longrightarrow>
        rinde pf ld (Bucle t k' E pila out 0) z"
      using r by (auto simp: corre_arbol_def)
    then show ?thesis
      using Inr w assms(2-4) bien by (auto simp: corre_arbol_def intro!: exI [of _ "s @ v @ s1"])
  qed
qed

lemma corre_bosque:
  "encaja t k x \<Longrightarrow> bosque_ok x \<Longrightarrow> list_all sin_funciones pila \<Longrightarrow> corre_arbol pf ld t k x pila"
proof (induction x arbitrary: k pila)
  case (Fin s)
  then show ?case by (auto simp: corre_arbol_def)
next
  case (Etiqueta s cruda n r)
  obtain i where i: "fragments t ! k = (i, i + length s)" "esta_en (cuerpo t) (i, i + length s) s"
    using Etiqueta.prems(1) by (auto simp: hay_texto_def esta_en_def)
  note paso = rinde_paso [OF _ i]
  have e: "paso_render pf t k pila out =
      (case texto_valor pf cruda (busca_nombre n pila) of Inl e \<Rightarrow> Falla e | Inr s \<Rightarrow> Sigue_en (Suc k) pila (out @ s))" for out
    by (rule etiqueta_caso) (use Etiqueta.prems in auto)
  show ?case
  proof (rule corre_compone [of pf ld t "Suc k" r pila])
    show "corre_arbol pf ld t (Suc k) r pila" by (rule Etiqueta.IH) (use Etiqueta.prems in simp_all)
    show "rinde pf ld (Bucle t k E pila out 0) (Inl er)"
      if "texto_valor pf cruda (busca_nombre n pila) = Inl er" "k + num_acciones (Etiqueta s cruda n r) \<le> E" for er E out
      by (rule paso(2)) (use that e in simp_all)
    show "rinde pf ld (Bucle t k E pila out 0) z"
      if "texto_valor pf cruda (busca_nombre n pila) = Inr u" "k + num_acciones (Etiqueta s cruda n r) \<le> E"
        "rinde pf ld (Bucle t (Suc k) E pila (out @ s @ u) 0) z" for u E out z
      by (rule paso(1) [where c = "Suc k" and st' = pila and out' = "out @ s @ u"]) (use that e in simp_all)
  qed simp_all
next
  case (Seccion s neg n x r)
  let ?k' = "Suc k + num_acciones x" and ?V = "vueltas neg (busca_nombre n pila)"
  let ?w = "junta (map (\<lambda>v. significado pf x (v # pila)) ?V)"
  obtain i where i: "fragments t ! k = (i, i + length s)" "esta_en (cuerpo t) (i, i + length s) s"
    using Seccion.prems(1) by (auto simp: hay_texto_def esta_en_def)
  note paso = rinde_paso [OF _ i]
  have casos: "(paso_render pf t k pila out = Sigue_en (Suc ?k') pila out \<and> ?V = []) \<or>
    (\<exists>v. paso_render pf t k pila out = Sigue_en (Suc k) (v # pila) out \<and> ?V = [v]) \<or>
    paso_render pf t k pila out = Repite ?k' ?V" for out
    by (rule abre_casos) (use Seccion.prems in auto)
  have V: "corre_arbol pf ld t (Suc k) x (v # pila)" if "v \<in> set ?V" for v
    by (rule Seccion.IH(1)) (use Seccion.prems that sin_funciones_vueltas [of pila neg n] in \<open>auto simp: list_all_iff\<close>)
  have f: "hay_texto t ?k' (texto_final x)" using encaja_final [of t "Suc k" x] Seccion.prems by simp
  have lista: "case ?w of
      Inl e \<Rightarrow> rinde pf ld (Lista t (Suc k) ?k' ?V pila out 0) (Inl e)
    | Inr u \<Rightarrow> rinde pf ld (Lista t (Suc k) ?k' ?V pila out 0) (Inr (pila, out @ u))" for out
    using corre_lista [of ?V pf ld t "Suc k" x pila out] V f by simp
  have cierra: "rinde pf ld (Bucle t ?k' E (v # pila) out 0) z"
    if "rinde pf ld (Bucle t (Suc ?k') E pila (out @ texto_final x) 0) z" "?k' < E" for v E out z
  proof -
    obtain j where j: "fragments t ! ?k' = (j, j + length (texto_final x))" "esta_en (cuerpo t) (j, j + length (texto_final x)) (texto_final x)"
      using f by (auto simp: hay_texto_def esta_en_def)
    have "paso_render pf t ?k' (v # pila) (out @ texto_final x) = Sigue_en (Suc ?k') pila (out @ texto_final x)"
      using Seccion.prems(1) by (simp add: paso_render_def Let_def hay_accion_def)
    then show ?thesis using rinde_paso(1) [OF that(2) j] that(1) by blast
  qed
  show ?case
  proof (rule corre_compone [of pf ld t "Suc ?k'" r pila])
    show "corre_arbol pf ld t (Suc ?k') r pila" by (rule Seccion.IH(2)) (use Seccion.prems in simp_all)
    show "rinde pf ld (Bucle t k E pila out 0) (Inl e)"
      if w: "?w = Inl e" and E: "k + num_acciones (Seccion s neg n x r) \<le> E" for e E out
    proof -
      have k: "k < E" using E by simp
      from casos [of "out @ s"] show ?thesis
      proof (elim disjE exE conjE)
        fix v assume p: "paso_render pf t k pila (out @ s) = Sigue_en (Suc k) (v # pila) (out @ s)" and v: "?V = [v]"
        have "significado pf x (v # pila) = Inl e" using w v by (auto simp: bindP_def split: sum.splits)
        then have "rinde pf ld (Bucle t (Suc k) E (v # pila) (out @ s) 0) (Inl e)"
          using V [of v] v E by (simp add: corre_arbol_def)
        then show ?thesis using paso(1) [OF k p] by blast
      next
        assume p: "paso_render pf t k pila (out @ s) = Repite ?k' ?V"
        show ?thesis using paso(4) [OF k p] lista [of "out @ s"] w by simp
      qed (use w in simp)
    qed
    show "rinde pf ld (Bucle t k E pila out 0) z"
      if w: "?w = Inr u" and E: "k + num_acciones (Seccion s neg n x r) \<le> E"
        and z: "rinde pf ld (Bucle t (Suc ?k') E pila (out @ s @ u) 0) z" for u E out z
    proof -
      have k: "k < E" "?k' < E" using E by simp_all
      from casos [of "out @ s"] show ?thesis
      proof (elim disjE exE conjE)
        fix v assume p: "paso_render pf t k pila (out @ s) = Sigue_en (Suc k) (v # pila) (out @ s)" and v: "?V = [v]"
        have "significado pf x (v # pila) = Inr u" using w v by (auto simp: bindP_def split: sum.splits)
        then obtain s1 where s1: "u = s1 @ texto_final x"
          "rinde pf ld (Bucle t ?k' E (v # pila) ((out @ s) @ s1) 0) z \<Longrightarrow> rinde pf ld (Bucle t (Suc k) E (v # pila) (out @ s) 0) z"
          using V [of v] v E by (auto simp: corre_arbol_def)
        have "rinde pf ld (Bucle t (Suc k) E (v # pila) (out @ s) 0) z"
          by (rule s1(2), rule cierra) (use z k in \<open>simp_all add: s1(1)\<close>)
        then show ?thesis using paso(1) [OF k(1) p] by blast
      next
        assume p: "paso_render pf t k pila (out @ s) = Repite ?k' ?V"
        show ?thesis using paso(3) [OF k(1) p, where st' = pila and out' = "(out @ s) @ u"] lista [of "out @ s"] w z by simp
      next
        assume p: "paso_render pf t k pila (out @ s) = Sigue_en (Suc ?k') pila (out @ s)" and "?V = []"
        then show ?thesis using paso(1) [OF k(1) p] w z by simp
      qed
    qed
  qed simp_all
qed

text \<open>With enough fuel the renderer ends, with the meaning of the template.\<close>

lemma plantilla_escrita:
  assumes "bosque_ok x" "sin_solas x" "sin_funciones ctx"
  shows "\<exists>t N. compile (imprime x) = Inr t \<and> (\<forall>n \<ge> N. render_string n pf ld t ctx = Some (significado pf x [ctx]))"
proof -
  let ?t = "plantilla_de x"
  have u: "ultimo ?t = num_acciones x" by (simp add: ultimo_def plantilla_de_def)
  have c: "encaja ?t 0 x" using encaja_plantilla_de [OF assms(1)] .
  have a: "corre_arbol pf ld ?t 0 x [ctx]" by (rule corre_bosque) (use c assms in simp_all)
  have f: "hay_texto ?t (num_acciones x) (texto_final x)" using encaja_final [OF c] by simp
  have "\<exists>z. rinde pf ld (Bucle ?t 0 (ultimo ?t) [ctx] [] 0) z \<and> map_sum id snd z = significado pf x [ctx]"
  proof (cases "significado pf x [ctx]")
    case (Inl e)
    then show ?thesis using a by (auto simp: corre_arbol_def u intro!: exI [of _ "Inl e"])
  next
    case (Inr s)
    then obtain s1 where s1: "s = s1 @ texto_final x"
      "\<And>z. rinde pf ld (Bucle ?t (num_acciones x) (num_acciones x) [ctx] ([] @ s1) 0) z \<Longrightarrow>
        rinde pf ld (Bucle ?t 0 (num_acciones x) [ctx] [] 0) z"
      using a by (fastforce simp: corre_arbol_def)
    show ?thesis
      using s1(2) [OF rinde_fin [OF f]] Inr s1(1) by (auto simp: u intro!: exI [of _ "Inr ([ctx], s)"])
  qed
  then obtain z N where z: "corre_render pf ld N (Bucle ?t 0 (ultimo ?t) [ctx] [] 0) = Some z"
    "map_sum id snd z = significado pf x [ctx]"
    unfolding rinde_def by blast
  have "render_string n pf ld ?t ctx = Some (significado pf x [ctx])" if "N \<le> n" for n
    using corre_render_mono [OF z(1) that] z(2) by (simp add: render_string_def)
  then show ?thesis using compile_imprime [OF assms(1,2)] by blast
qed


text \<open>A list of names inside a table.\<close>

definition bosque_ejemplo :: bosque where
  "bosque_ejemplo =
     Seccion ''<ul>'' False ''xs'' (Etiqueta ''<li>'' False ''n'' (Fin ''</li>'')) (Fin ''</ul>'')"

definition contexto_ejemplo :: "'d wvalue" where
  "contexto_ejemplo = J_Object [(''xs'', J_List [J_Object [(''n'', J_String ''a<b'')], J_Object [(''n'', J_True)]])]"


subsection \<open>A section without end\<close>

text \<open>
  The parser does not see that a section is not closed, and leaves its end at action 0; when the section is to be
  skipped the renderer goes on after action 0. If the unclosed section is action 0 itself that is the action after
  it; if tags stand before it, the renderer comes to the section again.
\<close>

fun solo_etiquetas :: "bosque \<Rightarrow> bool" where
  "solo_etiquetas (Fin s) \<longleftrightarrow> True"
| "solo_etiquetas (Etiqueta s cruda n r) \<longleftrightarrow> solo_etiquetas r"
| "solo_etiquetas (Seccion s neg n x r) \<longleftrightarrow> False"

definition abre_texto :: "bool \<Rightarrow> string \<Rightarrow> string" where
  "abre_texto neg a = (if neg then ''{{^'' else ''{{#'') @ a @ ''}}''"

text \<open>A template without partials keeps its actions when its lonely lines are dropped.\<close>

lemma quita_sola_conserva:
  assumes "list_all (\<lambda>a. tipo a \<noteq> Partial) as" "i < length as"
  shows "snd (quita_sola b i (frs, as)) = as" "length (fst (quita_sola b i (frs, as))) = length frs"
proof -
  have "tipo (as ! i) \<noteq> Partial" using assms by (simp add: list_all_length)
  then show "snd (quita_sola b i (frs, as)) = as" "length (fst (quita_sola b i (frs, as))) = length frs"
    by (simp_all add: quita_sola_def Let_def split: prod.split)
qed

lemma quita_solas_conserva:
  assumes "list_all (\<lambda>a. tipo a \<noteq> Partial) as"
  obtains frs' where "quita_solas b (frs, as) = (frs', as)" "length frs' = length frs"
proof -
  have "snd (foldl (\<lambda>fa i. quita_sola b i fa) fa is) = as \<and>
      length (fst (foldl (\<lambda>fa i. quita_sola b i fa) fa is)) = length frs"
    if "set is \<subseteq> {..<length as}" "snd fa = as" "length (fst fa) = length frs" for "is" fa
    using that
  proof (induction "is" arbitrary: fa)
    case (Cons i "is")
    obtain f where fa: "fa = (f, as)" "length f = length frs" using Cons.prems by (cases fa) auto
    have "i < length as" using Cons.prems by simp
    from quita_sola_conserva [OF assms this, of b f] fa Cons show ?case by simp
  qed simp
  from this [of "rev [0..<length as - 1]" "(frs, as)"] show thesis
    using that unfolding quita_solas_def by (metis fst_conv snd_conv surjective_pairing atLeastLessThan_upt
        set_rev atLeast0LessThan lessThan_subset_iff diff_le_self)
qed

lemma sin_parciales: "list_all (\<lambda>a. tipo a \<noteq> Partial) (acciones_de i k x)"
  by (induction x arbitrary: i k) (simp_all add: Let_def accion_def tipo_seccion_def)

text \<open>The parser on tags, a section that is opened, and a printed template behind it.\<close>

lemma compile_sin_cerrar:
  assumes "bosque_ok x" "bosque_ok y" "nombre_tag a"
  obtains t p A where "compile (imprime x @ abre_texto neg a @ imprime y) = Inr t"
    "cuerpo t = imprime x @ abre_texto neg a @ imprime y"
    "actions t = acciones_de 0 0 x @ accion (tipo_seccion neg) (length (imprime x) + 3) (length (imprime x) + 3 + length a) 0 # A"
    "num_acciones x < ultimo t"
proof -
  let ?b = "imprime x @ abre_texto neg a @ imprime y"
  let ?st = "\<lparr>tag_open = ''{{'', tag_close = ''}}'', acs = [], bloques = []\<rparr>"
  let ?st1 = "?st\<lparr>acs := acciones_de 0 0 x\<rparr>"
  let ?j = "length (imprime x) + 3"
  let ?st2 = "abre_bloque (tipo_seccion neg) ?j (?j + length a) ?st1"
  let ?c = "if neg then CHR ''^'' else CHR ''#''"
  let ?p = "imprime x @ abre_texto neg a"
  obtain s where s: "imprime x = s @ texto_final x" using imprime_final by blast
  obtain s' where s': "imprime y = s' @ texto_final y" using imprime_final by blast
  have 1: "lee_etiquetas ?b 0 [] ?st = lee_etiquetas ?b (length s) (fragmentos_de 0 x) ?st1"
    using lee_bosque [OF assms(1), of ?b "[]" "abre_texto neg a @ imprime y" ?st "[]"] by (simp add: s)
  have b: "?b = s @ texto_final x @ ''{{'' @ (?c # a) @ ''}}'' @ imprime y" by (simp add: s abre_texto_def)
  have b': "?b = (imprime x @ ''{{'') @ ?c # a @ ''}}'' @ imprime y" by (simp add: abre_texto_def)
  have "lee_etiqueta ?b (length (imprime x) + 2) (length (imprime x) + 2 + 1 + length a) ?st1 =
      Inr (?st2, length (imprime x) + 2 + 1 + length a + 2)"
    using lee_etiqueta_marca(2,3) [OF assms(3) b', of ?st1] by (cases neg) (simp_all add: tipo_seccion_def eval_nat_numeral)
  then have 2: "lee_etiquetas ?b (length s) (fragmentos_de 0 x) ?st1 =
      lee_etiquetas ?b (length ?p) (fragmentos_de 0 x @ [(length s, length s + length (texto_final x))]) ?st2"
    using lee_etiquetas_paso [OF b texto_ok_final [OF assms(1)], of ?st1] nombre_tagD [OF assms(3)]
    by (simp add: s abre_texto_def eval_nat_numeral add.assoc)
  let ?frs = "fragmentos_de 0 x @ [(length s, length s + length (texto_final x))]"
  have 3: "lee_etiquetas ?b (length ?p) ?frs ?st2 = lee_etiquetas ?b (length (?p @ s')) (?frs @ fragmentos_de (length ?p) y)
      (?st2\<lparr>acs := acs ?st2 @ acciones_de (length ?p) (length (acs ?st2)) y\<rparr>)"
    using lee_bosque [OF assms(2), of ?b ?p "[]" ?st2 ?frs] by (simp add: s' acs_abre_bloque)
  have "busca_desde ''{{'' ?b (length (?p @ s')) = None"
    using busca_desde_append [of "''{{''" "?p @ s'" "texto_final y"] busca_abre_no [OF texto_ok_final [OF assms(2)]] by (simp add: s')
  then have 4: "lee_etiquetas ?b (length (?p @ s')) frs st = Inr (frs @ [(length (?p @ s'), length ?b)], acs st @ [accion Ignore 0 0 0])"
    if "tag_open st = ''{{''" for frs st
    using that by (subst lee_etiquetas.simps) simp
  define fr where "fr = (?frs @ fragmentos_de (length ?p) y) @ [(length (?p @ s'), length ?b)]"
  define A where "A = acciones_de (length ?p) (length (acs ?st2)) y @ [accion Ignore 0 0 0]"
  define as where "as = acciones_de 0 0 x @ accion (tipo_seccion neg) ?j (?j + length a) 0 # A"
  have "lee_etiquetas ?b 0 [] ?st = Inr (fr, as)"
    unfolding 1 2 3 by (subst 4) (simp_all add: acs_abre_bloque fr_def as_def A_def)
  moreover have "list_all (\<lambda>a. tipo a \<noteq> Partial) as"
    using sin_parciales by (simp add: as_def A_def accion_def tipo_seccion_def)
  then obtain fr' where "quita_solas ?b (fr, as) = (fr', as)" "length fr' = length fr" by (rule quita_solas_conserva)
  ultimately show thesis
    by (intro that [of "\<lparr>fragments = fr', actions = as, cuerpo = ?b\<rparr>" A])
      (simp_all add: compile_def as_def ultimo_def fr_def)
qed

text \<open>Tags that can be written are passed one after another.\<close>

lemma pasa_etiquetas:
  assumes "solo_etiquetas x" "bosque_ok x" "cuerpo t = p @ imprime x @ q" "length p = i"
    and "actions t = A0 @ acciones_de i k x @ A1" "length A0 = k" "significado pf x pila = Inr w" "list_all sin_funciones pila"
    and "j < num_acciones x"
  shows "\<exists>s. paso_render pf t (k + j) pila out = Sigue_en (Suc (k + j)) pila s"
  using assms
proof (induction x arbitrary: p i A0 k j w)
  case (Etiqueta s cruda n r)
  let ?j = "i + length s + ancho cruda"
  let ?p = "p @ s @ (if cruda then ''{{{'' @ n @ ''}}}'' else ''{{'' @ n @ ''}}'')"
  have nombre: "cuerpo t = (p @ s @ (if cruda then ''{{{'' else ''{{'')) @ n @ ''}}'' @ (if cruda then ''}'' else []) @ imprime r @ q"
    "length (p @ s @ (if cruda then ''{{{'' else ''{{'')) = ?j"
    using Etiqueta.prems by (simp_all add: ancho_def)
  have a: "hay_accion t k (if cruda then UnescapeTag else Tag) n 0"
    by (rule hay_accionI [OF nombre]) (use Etiqueta.prems in \<open>simp add: Let_def nth_append\<close>)
  obtain v w' where v: "texto_valor pf cruda (busca_nombre n pila) = Inr v" "significado pf r pila = Inr w'"
    using Etiqueta.prems(7) by (auto simp: bindP_def split: sum.splits)
  show ?case
  proof (cases j)
    case 0
    have "nombre_tag n" using Etiqueta.prems(2) by simp
    from etiqueta_caso [OF a this Etiqueta.prems(8)] show ?thesis using 0 v(1) by simp
  next
    case (Suc j')
    have "\<exists>s. paso_render pf t (Suc k + j') pila out = Sigue_en (Suc (Suc k + j')) pila s"
    proof (rule Etiqueta.IH [of ?p _ "A0 @ [accion (if cruda then UnescapeTag else Tag) ?j (?j + length n) 0]" "Suc k" w'])
      show "length ?p = ?j + length n + ancho cruda" using Etiqueta.prems(4) by (simp add: ancho_def)
    qed (use Etiqueta.prems Suc v(2) in \<open>simp_all add: Let_def\<close>)
    then show ?thesis using Suc by simp
  qed
qed simp_all

text \<open>Round and round: no amount of fuel brings the loop to its end.\<close>

lemma gira:
  assumes "\<And>j out. j < K \<Longrightarrow> \<exists>s. paso_render pf t j pila out = Sigue_en (Suc j) pila s"
    and "\<And>out. paso_render pf t K pila out = Sigue_en 1 pila out \<or> paso_render pf t K pila out = Repite 0 []"
    and "0 < K" "K < E"
  shows "j \<le> K \<Longrightarrow> corre_render pf ld n (Bucle t j E pila out 0) = None"
proof (induction n arbitrary: j out rule: less_induct)
  case (less n)
  show ?case
  proof (cases n)
    case (Suc m)
    have IH: "corre_render pf ld m (Bucle t j E pila out 0) = None" if "j \<le> K" for j out
      using less.IH [of m] Suc that by simp
    let ?out = "out @ render_fragment (cuerpo t) 0 (fragments t ! j)"
    have E: "\<not> E \<le> j" using less.prems assms(4) by simp
    show ?thesis
    proof (cases "j = K")
      case False
      then obtain s where "paso_render pf t j pila ?out = Sigue_en (Suc j) pila s" using assms(1) less.prems by (meson le_neq_implies_less)
      then show ?thesis using Suc E IH [of "Suc j"] False less.prems by (simp add: paso_bucle_def Let_def)
    next
      case True
      from assms(2) [of ?out] show ?thesis
      proof
        assume "paso_render pf t K pila ?out = Sigue_en 1 pila ?out"
        then show ?thesis using Suc E IH [of 1] True assms(3) by (simp add: paso_bucle_def Let_def)
      next
        assume r: "paso_render pf t K pila ?out = Repite 0 []"
        have "corre_render pf ld m (Lista t (K + 1) 0 [] pila ?out 0) = None \<or>
            corre_render pf ld m (Lista t (K + 1) 0 [] pila ?out 0) = Some (Inr (pila, ?out))"
          by (cases m) (simp_all add: paso_lista_def)
        then show ?thesis using Suc E IH [of 1] True r assms(3) by (auto simp: paso_bucle_def Let_def)
      qed
    qed
  qed simp
qed

text \<open>C39. A template in which at least one tag, and no other section, stands before a section that is never closed is
  accepted, whatever closed template follows; and when the context skips the section (its name is unknown, false,
  null or an empty list; or for an inverted section any other value) and the tags before it can be written,
  rendering never ends. The names have no dots and the context no functions. (Without a tag before it the unclosed
  section is action 0 and rendering ends.)\<close>

theorem seccion_sin_cerrar_no_termina:
  assumes "bosque_ok x" "solo_etiquetas x" "0 < num_acciones x" "nombre_tag a" "bosque_ok y" "sin_funciones ctx"
    and "significado pf x [ctx] = Inr w" "vueltas neg (busca_nombre a [ctx]) = []"
  shows "\<exists>t. compile (imprime x @ (if neg then ''{{^'' else ''{{#'') @ a @ ''}}'' @ imprime y) = Inr t \<and>
    (\<forall>n. render_string n pf ld t ctx = None)"
proof -
  obtain t A where t: "compile (imprime x @ abre_texto neg a @ imprime y) = Inr t"
    "cuerpo t = imprime x @ abre_texto neg a @ imprime y"
    "actions t = acciones_de 0 0 x @ accion (tipo_seccion neg) (length (imprime x) + 3) (length (imprime x) + 3 + length a) 0 # A"
    "num_acciones x < ultimo t"
    by (rule compile_sin_cerrar [OF assms(1,5,4)])
  let ?K = "num_acciones x"
  have f: "list_all sin_funciones [ctx]" using assms(6) by simp
  have "hay_accion t ?K (tipo_seccion neg) a 0"
    by (rule hay_accionI [of _ "imprime x @ (if neg then ''{{^'' else ''{{#'')" _ "''}}'' @ imprime y" "length (imprime x) + 3"])
      (use t in \<open>simp_all add: abre_texto_def nth_append\<close>)
  from abre_casos [OF this assms(4) f] assms(8)
  have s: "paso_render pf t ?K [ctx] out = Sigue_en 1 [ctx] out \<or> paso_render pf t ?K [ctx] out = Repite 0 []" for out
    by (metis One_nat_def list.distinct(1))
  have "\<exists>s. paso_render pf t j [ctx] out = Sigue_en (Suc j) [ctx] s" if "j < ?K" for j out
    using pasa_etiquetas [of x t "[]" _ 0 "[]" 0 _ pf "[ctx]" w j out] assms(1,2,7) t(2,3) f that by simp
  from gira [OF this s assms(3) t(4), where j = 0 and ld = ld and out = "[]"] have "render_string n pf ld t ctx = None" for n
    by (simp add: render_string_def)
  then show ?thesis using t(1) by (auto simp: abre_texto_def)
qed

theorem seccion_sin_cerrar_no_termina_testigo:
  "\<exists>t. compile ''{{n}}{{#a}}'' = Inr t \<and>
    (\<forall>n. render_string n (\<lambda>_ :: nat. None) (\<lambda>_. []) t (J_Object [(''n'', J_String ''x'')]) = None)"
proof -
  let ?x = "Etiqueta [] False ''n'' (Fin [])" and ?ctx = "J_Object [(''n'', J_String ''x'')] :: nat wvalue"
  have "significado (\<lambda>_. None) ?x [?ctx] = Inr ''x''"
    by (simp add: texto_valor_def escape_html_def escape_html_char_def)
  from seccion_sin_cerrar_no_termina [OF _ _ _ _ _ _ this, of "''a''" "Fin []" False "\<lambda>_. []"] show ?thesis
    by (simp add: nombre_tag_def vueltas_def)
qed

text \<open>The section at the beginning ends at once: the action after action 0 is the last one.\<close>

lemma seccion_primera_acaba:
  "\<exists>t. compile ''{{#a}}'' = Inr t \<and> render_string 3 (\<lambda>_ :: nat. None) (\<lambda>_. []) t (J_Object []) = Some (Inr [])"
proof -
  let ?t = "\<lparr>fragments = [(0, 0), (6, 6)], actions = [accion OpenBlock 3 4 0, accion Ignore 0 0 0], cuerpo = ''{{#a}}''\<rparr>"
  have "compile ''{{#a}}'' = Inr ?t" by code_simp
  moreover have "render_string 3 (\<lambda>_ :: nat. None) (\<lambda>_. []) ?t (J_Object []) = Some (Inr [])"
    by (simp add: render_string_def ultimo_def eval_nat_numeral paso_bucle_def paso_render_def con_contexto_def find_context_def
        abre_seccion_def accion_def Let_def render_fragment_def trozo_def tag_name_def)
  ultimately show ?thesis by blast
qed

end
