(* ===== verification/Perfil.thy ===== *)
theory Perfil
  imports Mustache Aplicacion
begin

text \<open>
  The route \<^verbatim>\<open>/perfil\<close> of \<^verbatim>\<open>servidor.cpp\<close>, which renders the template \<^verbatim>\<open>templates/perfil.html\<close> with the name
  and the age of the user. The disk is a table from file names to contents; the renderer takes fuel.
\<close>

definition nombre_usuario :: string where
  "nombre_usuario = ''Antonio''"

definition edad_usuario :: int where
  "edad_usuario = 22"

definition contexto_perfil :: "'d wvalue" where
  "contexto_perfil =
     pon_clave ''edad'' (de_int edad_usuario) (pon_clave ''nombre'' (J_String nombre_usuario) J_Null)"

text \<open>All failures of the engine but undefined behaviour are standard exceptions.\<close>

definition fallo_de :: "fallo_plantilla \<Rightarrow> fallo" where
  "fallo_de e = (if e = Sin_definir then Indefinido else Excepcion Runtime_error)"

definition ruta_perfil :: "nat \<Rightarrow> ('d \<Rightarrow> string option) \<Rightarrow> (string \<rightharpoonup> string) \<Rightarrow> response res option" where
  "ruta_perfil n pf disco =
     (case load disco ''perfil.html'' of
        Inl e \<Rightarrow> Some (Inl (fallo_de e))
      | Inr t \<Rightarrow>
          map_option (\<lambda>r. case r of Inl e \<Rightarrow> Inl (fallo_de e) | Inr s \<Rightarrow> Inr (response_returnable ''text/html'' s))
            (render_string n pf (load_text disco) t contexto_perfil))"

subsection \<open>The template of the profile\<close>

definition bosque_perfil :: "string \<Rightarrow> string \<Rightarrow> string \<Rightarrow> bosque" where
  "bosque_perfil a b c = Etiqueta a False ''nombre'' (Etiqueta b False ''edad'' (Fin c))"

lemma bosque_perfil_ok:
  "texto_ok a \<Longrightarrow> texto_ok b \<Longrightarrow> texto_ok c \<Longrightarrow> bosque_ok (bosque_perfil a b c)" "sin_solas (bosque_perfil a b c)"
  by (simp_all add: bosque_perfil_def nombre_tag_def sin_solas_def upt_rec)

lemma contexto_perfil_eq: "contexto_perfil = J_Object [(''nombre'', J_String ''Antonio''), (''edad'', de_int 22)]"
  by (simp add: contexto_perfil_def pon_clave_def acceso_def nombre_usuario_def edad_usuario_def)

lemma significado_perfil:
  "significado pf (bosque_perfil a b c) [contexto_perfil] = Inr (a @ ''Antonio'' @ b @ ''22'' @ c)"
proof -
  have "dump_numero pf (Signed_integer 22) = ''22''" by (simp add: to_string_int_def evalua_decimal)
  then show ?thesis
    by (simp add: bosque_perfil_def contexto_perfil_eq texto_valor_def de_int_def escape_html_def escape_html_char_def)
qed

lemma perfil_html: "load_text disco ''perfil.html'' = (case disco ''templates/perfil.html'' of Some s \<Rightarrow> s | None \<Rightarrow> [])"
proof -
  have "sanitize_filename (CHR ''_'') ''perfil.html'' = ''perfil.html''" by code_simp
  then show ?thesis by (simp add: load_text_def default_loader_def join_path_def template_base_directory_def)
qed

lemma ruta_perfil_ok:
  assumes "disco ''templates/perfil.html'' = Some (a @ ''{{nombre}}'' @ b @ ''{{edad}}'' @ c)"
    and "texto_ok a" "texto_ok b" "texto_ok c"
  shows "\<exists>N. \<forall>n \<ge> N. ruta_perfil n pf disco = Some (Inr (response_returnable ''text/html'' (a @ ''Antonio'' @ b @ ''22'' @ c)))"
proof -
  have "sin_funciones (contexto_perfil :: 'a wvalue)" by (simp add: contexto_perfil_eq de_int_def)
  from plantilla_escrita [OF bosque_perfil_ok(1) [OF assms(2-4)] bosque_perfil_ok(2) this]
  obtain t N where t: "compile (imprime (bosque_perfil a b c)) = Inr t"
    "\<And>n. N \<le> n \<Longrightarrow> render_string n pf (load_text disco) t contexto_perfil = Some (significado pf (bosque_perfil a b c) [contexto_perfil])"
    by blast
  have "load disco ''perfil.html'' = Inr t"
    using t(1) assms(1) by (simp add: load_def perfil_html bosque_perfil_def)
  then show ?thesis using t(2) by (intro exI [of _ N]) (simp add: ruta_perfil_def significado_perfil)
qed

text \<open>The rule that GET \<^verbatim>\<open>/perfil\<close> selects.\<close>

lemma primera_get_perfil:
  "primera_regla sd ''/perfil'' (de_metodo (numero Get) (reglas_app perfil stat mt)) =
     Some (regla_de ''/perfil'' Get [] (wrapped_handler_call (manejador_perfil perfil)), sin_params)"
  by (simp add: de_metodo_app numero_simps casa_regla_def patrones_app casa_todo)

text \<open>C16. GET \<^verbatim>\<open>/perfil\<close> answers the profile page: when the template file is text with the two tags of the name
  and the age, whatever the texts around them, the engine parses and renders it, and the application answers
  exactly that text with the name and the age in the place of the tags, as HTML, and leaves the store alone.\<close>

theorem perfil_responde:
  fixes sd :: "string \<Rightarrow> ('d \<times> nat) option"
  assumes "disco ''templates/perfil.html'' = Some (a @ ''{{nombre}}'' @ b @ ''{{edad}}'' @ c)"
    and "texto_ok a" "texto_ok b" "texto_ok c" "req_method req = Get" "url req = ''/perfil''"
  shows "\<exists>N. \<forall>n \<ge> N. \<exists>r rt. ruta_perfil n pf disco = Some r \<and> inicia_app r stat mt = Inr (Inr rt) \<and>
    handle_full sd rt req res alm =
      (Inr (end_res (asigna res (response_returnable ''text/html'' (a @ ''Antonio'' @ b @ ''22'' @ c)))), alm)"
proof -
  let ?r = "Inr (response_returnable ''text/html'' (a @ ''Antonio'' @ b @ ''22'' @ c)) :: response res"
  let ?rs = "reglas_app ?r stat mt :: ('d, almacen_direcciones) regla list"
  obtain N where N: "\<forall>n \<ge> N. ruta_perfil n pf disco = Some ?r" using ruta_perfil_ok [of disco a b c pf] assms(1-4) by blast
  obtain rt :: "('d, almacen_direcciones) router" where rt: "validate_router (router_nuevo\<lparr>all_rules := ?rs\<rparr>) = Inr rt"
    using validate_router_ok [OF reglas_app_ok] by blast
  have "handle_full sd rt req res alm =
      ejecuta_regla (regla_de ''/perfil'' Get [] (wrapped_handler_call (manejador_perfil ?r))) req res (sin_params :: 'd routing_params) alm"
    using despacho [OF reglas_app_ok rt, of Get req sd res alm] assms(5,6) by (simp add: primera_get_perfil)
  also have "\<dots> = (Inr (end_res (asigna res (response_returnable ''text/html'' (a @ ''Antonio'' @ b @ ''22'' @ c)))), alm)"
    by (simp add: ejecuta_regla_def rule_handle_def regla_de_def wrapped_handler_call_def manejador_perfil_def)
  finally show ?thesis using N rt by (auto simp: inicia_app_def rutas_app_eq)
qed

theorem perfil_responde_testigo:
  "\<exists>N. \<forall>n \<ge> N. \<exists>r rt. ruta_perfil n (\<lambda>_ :: nat. None)
      [''templates/perfil.html'' \<mapsto> ''<p>Nombre: {{nombre}}</p><p>Edad: {{edad}}</p>''] = Some r \<and>
    inicia_app r (\<lambda>_. None) Map.empty = Inr (Inr rt) \<and>
    handle_full (\<lambda>_. None :: (nat \<times> nat) option) rt (request_vacia\<lparr>url := ''/perfil''\<rparr>) (response_code 200) almacen_vacio =
      (Inr (end_res (asigna (response_code 200)
         (response_returnable ''text/html'' ''<p>Nombre: Antonio</p><p>Edad: 22</p>''))), almacen_vacio)"
  using perfil_responde [of "[''templates/perfil.html'' \<mapsto> ''<p>Nombre: {{nombre}}</p><p>Edad: {{edad}}</p>'']"
      "''<p>Nombre: ''" "''</p><p>Edad: ''" "''</p>''" "request_vacia\<lparr>url := ''/perfil''\<rparr>" "\<lambda>_ :: nat. None"
      "\<lambda>_. None" Map.empty "\<lambda>_. None :: (nat \<times> nat) option" "response_code 200" almacen_vacio]
  by (simp add: request_vacia_def)

end
