(* ===== verification/Temporizador.thy ===== *)
theory Temporizador
  imports Prelude
begin

text \<open>
  The timer of the connections, \<^verbatim>\<open>detail::task_timer\<close> of \<^verbatim>\<open>includes/crow_all.h\<close>, and its use by the
  connections of one worker, which share it: each keeps the identifier of its last deadline. A task is the
  connection that it closes. Times are counted from some origin; the timeout of the timer is in the same unit.
\<close>

subsection \<open>The timer\<close>

text \<open>The table of tasks is in the order of the identifiers: identifier, time and task.\<close>

record 'c task_timer =
  default_timeout :: nat
  tasks :: "(size_t \<times> nat \<times> 'c) list"
  highest_id :: size_t

definition task_timer_nuevo :: "nat \<Rightarrow> 'c task_timer" where
  "task_timer_nuevo timeout = \<lparr>default_timeout = timeout, tasks = [], highest_id = 0\<rparr>"

definition cancel_tarea :: "size_t \<Rightarrow> 'c task_timer \<Rightarrow> 'c task_timer" where
  "cancel_tarea i tt = tt\<lparr>tasks := filter (\<lambda>e. fst e \<noteq> i) (tasks tt)\<rparr>"

text \<open>\<^verbatim>\<open>std::map::insert\<close>: a key that is there keeps its value.\<close>

definition inserta_tarea :: "size_t \<Rightarrow> nat \<Rightarrow> 'c \<Rightarrow> (size_t \<times> nat \<times> 'c) list \<Rightarrow> (size_t \<times> nat \<times> 'c) list" where
  "inserta_tarea i t c ts =
     (if i \<in> set (map fst ts) then ts
      else takeWhile (\<lambda>e. fst e < i) ts @ (i, t, c) # dropWhile (\<lambda>e. fst e < i) ts)"

definition schedule_en :: "nat \<Rightarrow> 'c \<Rightarrow> nat \<Rightarrow> 'c task_timer \<Rightarrow> 'c task_timer \<times> size_t" where
  "schedule_en now c timeout tt =
     (let i = highest_id tt + 1
      in (tt\<lparr>tasks := inserta_tarea i (now + timeout) c (tasks tt), highest_id := i\<rparr>, i))"

definition schedule_tarea :: "nat \<Rightarrow> 'c \<Rightarrow> 'c task_timer \<Rightarrow> 'c task_timer \<times> size_t" where
  "schedule_tarea now c tt = schedule_en now c (default_timeout tt) tt"

definition set_default_timeout :: "nat \<Rightarrow> 'c task_timer \<Rightarrow> 'c task_timer" where
  "set_default_timeout timeout tt = tt\<lparr>default_timeout := timeout\<rparr>"

text \<open>
  The tasks whose time is over run, in the order of their identifiers, and leave the table. When it is empty
  then, the identifiers begin again.
\<close>

definition process_tasks :: "nat \<Rightarrow> 'c task_timer \<Rightarrow> 'c task_timer \<times> 'c list" where
  "process_tasks now tt =
     (let terminadas = filter (\<lambda>(i, t, c). t < now) (tasks tt);
          quedan = foldl (\<lambda>ts i. filter (\<lambda>e. fst e \<noteq> i) ts) (tasks tt) (map fst terminadas)
      in (tt\<lparr>tasks := quedan, highest_id := (if quedan = [] then 0 else highest_id tt)\<rparr>,
          map (\<lambda>(i, t, c). c) terminadas))"

definition tick_handler :: "bool \<Rightarrow> nat \<Rightarrow> 'c task_timer \<Rightarrow> 'c task_timer \<times> 'c list" where
  "tick_handler ec now tt = (if ec then (tt, []) else process_tasks now tt)"

subsection \<open>The deadlines of the connections\<close>

text \<open>\<^verbatim>\<open>start_deadline\<close> and \<^verbatim>\<open>cancel_deadline_timer\<close> of a connection, and the tick of the timer.\<close>

datatype 'c evento = Inicia 'c nat | Cancela 'c | Tic nat

record 'c reloj =
  temporizador :: "'c task_timer"
  task_id :: "'c \<Rightarrow> size_t"

definition reloj_inicial :: "nat \<Rightarrow> 'c reloj" where
  "reloj_inicial timeout = \<lparr>temporizador = task_timer_nuevo timeout, task_id = (\<lambda>_. 0)\<rparr>"

definition cancela_plazo :: "'c \<Rightarrow> 'c reloj \<Rightarrow> 'c reloj" where
  "cancela_plazo c r = r\<lparr>temporizador := cancel_tarea (task_id r c) (temporizador r)\<rparr>"

definition inicia_plazo :: "nat \<Rightarrow> 'c \<Rightarrow> 'c reloj \<Rightarrow> 'c reloj" where
  "inicia_plazo now c r0 =
     (let r = cancela_plazo c r0; (tt, i) = schedule_tarea now c (temporizador r)
      in r\<lparr>temporizador := tt, task_id := (task_id r)(c := i)\<rparr>)"

fun paso_reloj :: "'c evento \<Rightarrow> 'c reloj \<Rightarrow> 'c reloj \<times> 'c list" where
  "paso_reloj (Inicia c now) r = (inicia_plazo now c r, [])"
| "paso_reloj (Cancela c) r = (cancela_plazo c r, [])"
| "paso_reloj (Tic now) r =
     (let (tt, cs) = tick_handler False now (temporizador r) in (r\<lparr>temporizador := tt\<rparr>, cs))"

text \<open>The connections that each event closes.\<close>

fun corre_reloj :: "'c evento list \<Rightarrow> 'c reloj \<Rightarrow> 'c list list" where
  "corre_reloj [] r = []"
| "corre_reloj (ev # evs) r = (case paso_reloj ev r of (r', cs) \<Rightarrow> cs # corre_reloj evs r')"

subsection \<open>What deadlines should be\<close>

text \<open>Each connection has a deadline of its own or none.\<close>

type_synonym 'c plazos = "'c \<rightharpoonup> nat"

definition vencidos :: "nat \<Rightarrow> 'c plazos \<Rightarrow> 'c set" where
  "vencidos now m = {c. \<exists>t. m c = Some t \<and> t < now}"

fun paso_plazos :: "nat \<Rightarrow> 'c evento \<Rightarrow> 'c plazos \<Rightarrow> 'c plazos" where
  "paso_plazos timeout (Inicia c now) m = m(c \<mapsto> now + timeout)"
| "paso_plazos timeout (Cancela c) m = m(c := None)"
| "paso_plazos timeout (Tic now) m = (\<lambda>c. if c \<in> vencidos now m then None else m c)"

fun cierran :: "'c evento \<Rightarrow> 'c plazos \<Rightarrow> 'c set" where
  "cierran (Tic now) m = vencidos now m"
| "cierran ev m = {}"

fun corre_plazos :: "nat \<Rightarrow> 'c evento list \<Rightarrow> 'c plazos \<Rightarrow> 'c set list" where
  "corre_plazos timeout [] m = []"
| "corre_plazos timeout (ev # evs) m = cierran ev m # corre_plazos timeout evs (paso_plazos timeout ev m)"

text \<open>Some deadline is left after each tick.\<close>

fun siempre_queda :: "nat \<Rightarrow> 'c evento list \<Rightarrow> 'c plazos \<Rightarrow> bool" where
  "siempre_queda timeout [] m \<longleftrightarrow> True"
| "siempre_queda timeout (ev # evs) m \<longleftrightarrow>
     (case ev of Tic now \<Rightarrow> paso_plazos timeout ev m \<noteq> Map.empty | _ \<Rightarrow> True) \<and>
     siempre_queda timeout evs (paso_plazos timeout ev m)"

subsection \<open>Facts of the table\<close>

lemma set_partes: "set xs = set (takeWhile P xs) \<union> set (dropWhile P xs)"
  by (metis set_append takeWhile_dropWhile_id)

lemma set_inserta_tarea: "i \<notin> fst ` set ts \<Longrightarrow> set (inserta_tarea i t c ts) = insert (i, t, c) (set ts)"
  using set_partes [of ts "\<lambda>e. fst e < i"] by (simp add: inserta_tarea_def)

lemma distinct_inserta_tarea:
  assumes "distinct (map fst ts)" "i \<notin> fst ` set ts"
  shows "distinct (map fst (inserta_tarea i t c ts))"
proof -
  let ?a = "takeWhile (\<lambda>e. fst e < i) ts" and ?b = "dropWhile (\<lambda>e. fst e < i) ts"
  have "distinct (map fst (?a @ ?b))" using assms(1) by simp
  then show ?thesis using assms(2) set_partes [of ts "\<lambda>e. fst e < i"]
    by (simp add: inserta_tarea_def del: takeWhile_dropWhile_id) blast
qed

lemma borra_varias:
  "foldl (\<lambda>ts i. filter (\<lambda>e. fst e \<noteq> i) ts) ts is = filter (\<lambda>e. fst e \<notin> set is) ts"
  by (induction "is" arbitrary: ts) (auto intro: filter_cong)

lemma quedan_eq:
  assumes "distinct (map fst ts)"
  shows "filter (\<lambda>e. fst e \<notin> set (map fst (filter (\<lambda>(i, t, c). t < now) ts))) ts = filter (\<lambda>(i, t, c). \<not> t < now) ts"
  by (rule filter_cong) (use assms in \<open>force dest: eq_key_imp_eq_value\<close>)+

subsection \<open>The timer keeps the deadlines\<close>

text \<open>
  The tasks are the deadlines, each under the identifier that its connection remembers and no other connection
  remembers; \<open>k\<close> bounds the identifiers.
\<close>

definition simula :: "nat \<Rightarrow> nat \<Rightarrow> 'c reloj \<Rightarrow> 'c plazos \<Rightarrow> bool" where
  "simula timeout k r m \<longleftrightarrow>
     default_timeout (temporizador r) = timeout \<and>
     distinct (map fst (tasks (temporizador r))) \<and>
     (\<forall>i t c. (i, t, c) \<in> set (tasks (temporizador r)) \<longleftrightarrow> m c = Some t \<and> i = task_id r c) \<and>
     (\<forall>c c'. m c \<noteq> None \<longrightarrow> task_id r c' = task_id r c \<longrightarrow> c' = c) \<and>
     (\<forall>c. task_id r c \<le> highest_id (temporizador r)) \<and> unat (highest_id (temporizador r)) \<le> k"

lemma simulaD:
  assumes "simula timeout k r m"
  shows "default_timeout (temporizador r) = timeout" "distinct (map fst (tasks (temporizador r)))"
    "(i, t, c) \<in> set (tasks (temporizador r)) \<longleftrightarrow> m c = Some t \<and> i = task_id r c"
    "m c \<noteq> None \<Longrightarrow> task_id r c' = task_id r c \<Longrightarrow> c' = c"
    "task_id r c \<le> highest_id (temporizador r)" "unat (highest_id (temporizador r)) \<le> k"
  using assms by (simp_all add: simula_def)

lemma simula_inicial: "simula timeout 0 (reloj_inicial timeout) Map.empty"
  by (simp add: simula_def reloj_inicial_def task_timer_nuevo_def)

lemma simula_cancela:
  assumes "simula timeout k r m"
  shows "simula timeout k (cancela_plazo c r) (m(c := None))"
proof -
  let ?ts = "filter (\<lambda>e. fst e \<noteq> task_id r c) (tasks (temporizador r))"
  have t: "(i, t, d) \<in> set ?ts \<longleftrightarrow> (m(c := None)) d = Some t \<and> i = task_id r d" for i t d
    using simulaD(3) [OF assms, of i t d] simulaD(4) [OF assms, of d c] by auto
  have "distinct (map fst ?ts)" using simulaD(2) [OF assms] by (rule distinct_map_filter)
  then show ?thesis
    using t simulaD(1,4,5,6) [OF assms] by (simp add: simula_def cancela_plazo_def cancel_tarea_def)
qed

lemma simula_inicia:
  assumes "simula timeout k r m" "k + 1 < 2 ^ 64"
  shows "simula timeout (k + 1) (inicia_plazo now c r) (m(c \<mapsto> now + timeout))"
proof -
  define q where "q = cancela_plazo c r"
  let ?tt = "temporizador q"
  let ?i = "highest_id ?tt + 1"
  let ?ts = "inserta_tarea ?i (now + timeout) c (tasks ?tt)"
  have q: "simula timeout k q (m(c := None))" unfolding q_def by (rule simula_cancela [OF assms(1)])
  have u: "unat ?i = unat (highest_id ?tt) + 1"
    using simulaD(6) [OF q] assms(2) by (subst unat_word_ariths) simp
  then have "j < ?i" if "j \<le> highest_id ?tt" for j
    using that by (simp add: word_le_nat_alt word_less_nat_alt)
  then have ids: "task_id q d < ?i" for d using simulaD(5) [OF q] by blast
  have nuevo: "?i \<notin> fst ` set (tasks ?tt)"
    using simulaD(3) [OF q] ids by fastforce
  have eq: "inicia_plazo now c r = q\<lparr>temporizador := ?tt\<lparr>tasks := ?ts, highest_id := ?i\<rparr>, task_id := (task_id q)(c := ?i)\<rparr>"
    using simulaD(1) [OF q] by (simp add: inicia_plazo_def q_def [symmetric] schedule_tarea_def schedule_en_def Let_def)
  have t: "(i, t, d) \<in> set ?ts \<longleftrightarrow> (m(c \<mapsto> now + timeout)) d = Some t \<and> i = ((task_id q)(c := ?i)) d" for i t d
    using simulaD(3) [OF q, of i t d] by (auto simp: set_inserta_tarea [OF nuevo] split: if_splits)
  have j: "d' = d" if "(m(c \<mapsto> now + timeout)) d \<noteq> None" "((task_id q)(c := ?i)) d' = ((task_id q)(c := ?i)) d" for d d'
  proof (cases "d = c \<or> d' = c")
    case True
    then show ?thesis using that(2) ids [of d] ids [of d'] by (auto split: if_splits)
  next
    case False
    then show ?thesis using that simulaD(4) [OF q, of d d'] by simp
  qed
  have "((task_id q)(c := ?i)) d \<le> ?i" for d using ids [of d] by (simp add: less_imp_le)
  moreover have "unat ?i \<le> k + 1" using u simulaD(6) [OF q] by simp
  moreover have "distinct (map fst ?ts)" by (rule distinct_inserta_tarea [OF simulaD(2) [OF q] nuevo])
  moreover have "\<forall>d d'. (m(c \<mapsto> now + timeout)) d \<noteq> None \<longrightarrow> ((task_id q)(c := ?i)) d' = ((task_id q)(c := ?i)) d \<longrightarrow> d' = d"
    using j by blast
  ultimately show ?thesis
    unfolding simula_def eq using t simulaD(1) [OF q] by (simp del: fun_upd_apply)
qed

lemma simula_tic:
  assumes "simula timeout k r m" "paso_plazos timeout (Tic now) m \<noteq> Map.empty"
    and "paso_reloj (Tic now) r = (r', cs)"
  shows "simula timeout k r' (paso_plazos timeout (Tic now) m)" "distinct cs" "set cs = vencidos now m"
proof -
  let ?ts = "tasks (temporizador r)"
  let ?f = "filter (\<lambda>(i, t, c). t < now) ?ts" and ?g = "filter (\<lambda>(i, t, c). \<not> t < now) ?ts"
  have g: "(i, t, c) \<in> set ?g \<longleftrightarrow> paso_plazos timeout (Tic now) m c = Some t \<and> i = task_id r c" for i t c
    using simulaD(3) [OF assms(1), of i t c] by (auto simp: vencidos_def)
  obtain c t where "paso_plazos timeout (Tic now) m c = Some t" using assms(2) by fastforce
  then have "?g \<noteq> []" using g [of "task_id r c" t c] by fastforce
  then have r': "r' = r\<lparr>temporizador := (temporizador r)\<lparr>tasks := ?g\<rparr>\<rparr>" and cs: "cs = map (\<lambda>(i, t, c). c) ?f"
    using assms(3) quedan_eq [OF simulaD(2) [OF assms(1)], of now]
    by (auto simp: tick_handler_def process_tasks_def borra_varias Let_def)
  have "distinct (map fst ?g)" using simulaD(2) [OF assms(1)] by (rule distinct_map_filter)
  moreover have "m c \<noteq> None" if "paso_plazos timeout (Tic now) m c \<noteq> None" for c using that by (auto split: if_splits)
  ultimately show "simula timeout k r' (paso_plazos timeout (Tic now) m)"
    using g simulaD(1,4,5,6) [OF assms(1)] unfolding simula_def r' by (simp del: paso_plazos.simps)
  show "set cs = vencidos now m"
    using simulaD(3) [OF assms(1)] by (force simp: cs vencidos_def)
  have d: "distinct (map fst ?f)" using simulaD(2) [OF assms(1)] by (rule distinct_map_filter)
  have "inj_on (\<lambda>(i, t, c). c) (set ?f)"
  proof (rule inj_onI)
    fix x y assume h: "x \<in> set ?f" "y \<in> set ?f" "(case x of (i, t, c) \<Rightarrow> c) = (case y of (i, t, c) \<Rightarrow> c)"
    obtain i t c i' t' where "x = (i, t, c)" "y = (i', t', c)" using h(3) by (cases x; cases y) simp
    then show "x = y" using h(1,2) simulaD(3) [OF assms(1), of _ _ c] by simp
  qed
  then show "distinct cs" using d by (simp add: cs distinct_map)
qed

lemma corre_simula:
  assumes "simula timeout k r m" "siempre_queda timeout evs m" "k + length evs < 2 ^ 64"
  shows "list_all2 (\<lambda>cs S. distinct cs \<and> set cs = S) (corre_reloj evs r) (corre_plazos timeout evs m)"
  using assms
proof (induction evs arbitrary: k r m)
  case (Cons ev evs)
  obtain r' cs where p: "paso_reloj ev r = (r', cs)" by (cases "paso_reloj ev r")
  have "simula timeout (k + 1) r' (paso_plazos timeout ev m) \<and> distinct cs \<and> set cs = cierran ev m"
  proof (cases ev)
    case (Inicia c now)
    then show ?thesis using p simula_inicia [OF Cons.prems(1), of now c] Cons.prems(3) by auto
  next
    case (Cancela c)
    then show ?thesis using p simula_cancela [OF Cons.prems(1), of c] by (auto simp: simula_def)
  next
    case (Tic now)
    then have "paso_plazos timeout (Tic now) m \<noteq> Map.empty" using Cons.prems(2) by simp
    from simula_tic [OF Cons.prems(1) this p [unfolded Tic]] show ?thesis
      unfolding Tic by (simp add: simula_def del: paso_plazos.simps)
  qed
  moreover have "siempre_queda timeout evs (paso_plazos timeout ev m)" using Cons.prems(2) by simp
  ultimately show ?case using Cons.IH [of "k + 1" r' "paso_plazos timeout ev m"] Cons.prems(3) p by simp
qed simp

text \<open>C17. While some deadline is left after each tick, the shared timer refines the deadlines of the single
  connections: whatever the order in which connections start, restart and cancel their deadlines and the timer
  ticks, each tick closes exactly the connections whose own deadline is over, each once.\<close>

theorem plazos_propios:
  assumes "siempre_queda timeout evs Map.empty" "length evs < 2 ^ 64"
  shows "list_all2 (\<lambda>cs S. distinct cs \<and> set cs = S)
    (corre_reloj evs (reloj_inicial timeout)) (corre_plazos timeout evs Map.empty)"
  using corre_simula [OF simula_inicial assms(1)] assms(2) by simp

theorem plazos_propios_testigo:
  "list_all2 (\<lambda>cs S. distinct cs \<and> set cs = S)
    (corre_reloj [Inicia (1 :: nat) 0, Inicia 2 3, Inicia 1 4, Tic 9] (reloj_inicial 5))
    (corre_plazos 5 [Inicia 1 0, Inicia 2 3, Inicia 1 4, Tic 9] Map.empty) \<and>
   corre_plazos 5 [Inicia (1 :: nat) 0, Inicia 2 3, Inicia 1 4, Tic 9] Map.empty = [{}, {}, {}, {2}]"
proof
  have "siempre_queda 5 [Inicia (1 :: nat) 0, Inicia 2 3, Inicia 1 4, Tic 9] Map.empty"
    by (auto simp: vencidos_def fun_eq_iff intro!: exI [of _ 1])
  then show "list_all2 (\<lambda>cs S. distinct cs \<and> set cs = S)
      (corre_reloj [Inicia (1 :: nat) 0, Inicia 2 3, Inicia 1 4, Tic 9] (reloj_inicial 5))
      (corre_plazos 5 [Inicia 1 0, Inicia 2 3, Inicia 1 4, Tic 9] Map.empty)"
    by (rule plazos_propios) simp
  show "corre_plazos 5 [Inicia (1 :: nat) 0, Inicia 2 3, Inicia 1 4, Tic 9] Map.empty = [{}, {}, {}, {2}]"
    by (auto simp: vencidos_def split: if_splits)
qed

text \<open>Ticks of a timer without tasks.\<close>

lemma tics_sin_tareas:
  "tasks (temporizador r) = [] \<Longrightarrow> corre_reloj (map Tic ts) r = map (\<lambda>_. []) ts"
  by (induction ts arbitrary: r) (auto simp: tick_handler_def process_tasks_def Let_def)

text \<open>C23. A connection can cancel the deadline of another: when the timer has run the last deadline, that of
  \<open>a\<close>, it hands out its identifiers again; \<open>b\<close> starts a deadline under the identifier that \<open>a\<close> still remembers,
  and when \<open>a\<close>, whose read ends because its socket was closed, cancels its deadline, that of \<open>b\<close> is gone: no tick
  ever closes \<open>b\<close>, however long its peer says nothing.\<close>

theorem plazo_ajeno_cancelado:
  assumes "a \<noteq> b" "t0 + timeout < t1"
  shows "corre_reloj ([Inicia a t0, Tic t1, Inicia b t2, Cancela a] @ map Tic ts) (reloj_inicial timeout) =
    [[], [a], [], []] @ map (\<lambda>_. []) ts"
  using assms
  by (simp add: tics_sin_tareas reloj_inicial_def task_timer_nuevo_def inicia_plazo_def cancela_plazo_def cancel_tarea_def schedule_tarea_def
      schedule_en_def inserta_tarea_def tick_handler_def process_tasks_def Let_def)

theorem plazo_ajeno_cancelado_testigo:
  "corre_reloj [Inicia (1 :: nat) 0, Tic 6, Inicia 2 6, Cancela 1, Tic 1000] (reloj_inicial 5) = [[], [1], [], [], []] \<and>
   corre_plazos 5 [Inicia (1 :: nat) 0, Tic 6, Inicia 2 6, Cancela 1, Tic 1000] Map.empty = [{}, {1}, {}, {}, {2}]"
proof
  show "corre_reloj [Inicia (1 :: nat) 0, Tic 6, Inicia 2 6, Cancela 1, Tic 1000] (reloj_inicial 5) = [[], [1], [], [], []]"
    using plazo_ajeno_cancelado [of "1 :: nat" 2 0 5 6 6 "[1000]"] by simp
  show "corre_plazos 5 [Inicia (1 :: nat) 0, Tic 6, Inicia 2 6, Cancela 1, Tic 1000] Map.empty = [{}, {1}, {}, {}, {2}]"
    by (auto simp: vencidos_def split: if_splits)
qed

end
