(* ===== verification/Trabajadores.thy ===== *)
theory Trabajadores
  imports Prelude
begin

text \<open>
  The HTTP server of Crow, class \<^verbatim>\<open>Server\<close> of \<^verbatim>\<open>includes/crow_all.h\<close>: the worker threads, the choice of one for
  each connection, and the loop of accepts. The counters of connections wrap at 32 bits. The connections that
  are open on each worker are recorded beside them.
\<close>

subsection \<open>Number of threads\<close>

text \<open>\<^verbatim>\<open>Crow::concurrency\<close>; \<^verbatim>\<open>multithreaded\<close> passes the number of processors, which may be 0.\<close>

definition concurrency :: "uint16 \<Rightarrow> uint16" where
  "concurrency n = (if n < 2 then 2 else n)"

definition multithreaded :: "nat \<Rightarrow> uint16" where
  "multithreaded hardware_concurrency = concurrency (word_of_nat hardware_concurrency)"

subsection \<open>State\<close>

record servidor_http =
  task_queue_length_pool :: "uint32 list"
  shutting_down :: bool
  pendiente_accept :: "nat option"
  abiertas :: "nat list"

definition server_nuevo :: "uint16 \<Rightarrow> servidor_http" where
  "server_nuevo n =
     \<lparr>task_queue_length_pool = replicate (unat n - 1) 0, shutting_down = False, pendiente_accept = None,
      abiertas = replicate (unat n - 1) 0\<rparr>"

subsection \<open>Accepting\<close>

text \<open>The loop stops at a worker without connections.\<close>

primrec elige_desde :: "uint32 list \<Rightarrow> nat list \<Rightarrow> nat \<Rightarrow> nat" where
  "elige_desde pool [] min_queue_idx = min_queue_idx"
| "elige_desde pool (i # is) min_queue_idx =
     (if 0 < pool ! min_queue_idx
      then elige_desde pool is (if pool ! i < pool ! min_queue_idx then i else min_queue_idx)
      else min_queue_idx)"

definition pick_io_service_idx :: "uint32 list \<Rightarrow> nat" where
  "pick_io_service_idx pool = elige_desde pool [1..<length pool] 0"

text \<open>\<open>None\<close>: the vector of counters is read out of range.\<close>

definition do_accept_http :: "servidor_http \<Rightarrow> servidor_http option" where
  "do_accept_http s =
     (if shutting_down s then Some s
      else
        let i = pick_io_service_idx (task_queue_length_pool s) in
        if length (task_queue_length_pool s) \<le> i then None
        else Some (s\<lparr>task_queue_length_pool := (task_queue_length_pool s)[i := task_queue_length_pool s ! i + 1],
                     pendiente_accept := Some i\<rparr>))"

text \<open>The completion of an accept: the connection starts on its worker, or its place is given back.\<close>

definition recibe_accept :: "bool \<Rightarrow> nat \<Rightarrow> servidor_http \<Rightarrow> servidor_http" where
  "recibe_accept ec i s =
     (let s1 = s\<lparr>pendiente_accept := None\<rparr> in
      if \<not> ec then s1\<lparr>abiertas := (abiertas s1)[i := abiertas s1 ! i + 1]\<rparr>
      else s1\<lparr>task_queue_length_pool := (task_queue_length_pool s1)[i := task_queue_length_pool s1 ! i - 1]\<rparr>)"

definition completa_accept :: "bool \<Rightarrow> servidor_http \<Rightarrow> servidor_http option" where
  "completa_accept ec s =
     (case pendiente_accept s of None \<Rightarrow> Some s | Some i \<Rightarrow> do_accept_http (recibe_accept ec i s))"

definition para_http :: "servidor_http \<Rightarrow> servidor_http" where
  "para_http s = s\<lparr>shutting_down := True\<rparr>"

text \<open>\<^verbatim>\<open>run\<close> up to the loop of the main service.\<close>

definition arranca_http :: "uint16 \<Rightarrow> servidor_http option" where
  "arranca_http n = do_accept_http (server_nuevo n)"

text \<open>A connection ends: nothing in \<^verbatim>\<open>Connection\<close> touches the counter that it was given.\<close>

definition cierra_conexion :: "nat \<Rightarrow> servidor_http \<Rightarrow> servidor_http" where
  "cierra_conexion i s = s\<lparr>abiertas := (abiertas s)[i := abiertas s ! i - 1]\<rparr>"

datatype suceso = Aceptada | Fallida | Cerrada nat

definition paso_http :: "suceso \<Rightarrow> servidor_http \<Rightarrow> servidor_http option" where
  "paso_http ev s =
     (case ev of
        Aceptada \<Rightarrow> completa_accept False s
      | Fallida \<Rightarrow> completa_accept True s
      | Cerrada i \<Rightarrow> Some (cierra_conexion i s))"

text \<open>The worker that each connection is given to.\<close>

fun reparto :: "suceso list \<Rightarrow> servidor_http \<Rightarrow> nat list option" where
  "reparto [] s = Some []"
| "reparto (ev # evs) s =
     (case paso_http ev s of
        None \<Rightarrow> None
      | Some s' \<Rightarrow>
          map_option (\<lambda>ws. (case (ev, pendiente_accept s) of (Aceptada, Some i) \<Rightarrow> [i] | _ \<Rightarrow> []) @ ws) (reparto evs s'))"

subsection \<open>The least loaded worker\<close>

definition primer_minimo :: "uint32 list \<Rightarrow> nat \<Rightarrow> nat \<Rightarrow> bool" where
  "primer_minimo pool k r \<longleftrightarrow> r < k \<and> (\<forall>j < k. pool ! r \<le> pool ! j) \<and> (\<forall>j < r. pool ! r < pool ! j)"

lemma primer_minimo_unico: "primer_minimo pool k r \<Longrightarrow> primer_minimo pool k r' \<Longrightarrow> r = r'"
  unfolding primer_minimo_def by (metis linorder_neqE_nat leD)

lemma primer_minimo_Suc:
  assumes "primer_minimo pool k m"
  shows "primer_minimo pool (Suc k) (if pool ! k < pool ! m then k else m)"
  using assms unfolding primer_minimo_def less_Suc_eq
  by (auto intro: less_imp_le less_le_trans)

lemma primer_minimo_cero:
  assumes "primer_minimo pool k m" "pool ! m = 0" "k \<le> k'"
  shows "primer_minimo pool k' m"
  using assms unfolding primer_minimo_def by auto

lemma elige_desde_minimo:
  assumes "primer_minimo pool k m" "k \<le> length pool"
  shows "primer_minimo pool (length pool) (elige_desde pool [k..<length pool] m)"
  using assms
proof (induction "length pool - k" arbitrary: k m)
  case 0
  then show ?case by simp
next
  case (Suc d)
  then have k: "k < length pool" "[k..<length pool] = k # [Suc k..<length pool]" by (auto simp: upt_rec)
  show ?case
  proof (cases "0 < pool ! m")
    case True
    then show ?thesis
      using Suc.hyps(1) [OF _ primer_minimo_Suc [OF Suc.prems(1)]] Suc.hyps(2) k by simp
  next
    case False
    then have "pool ! m = 0" by (simp add: word_gt_0)
    then show ?thesis using primer_minimo_cero [OF Suc.prems(1)] k by simp
  qed
qed

lemma pick_io_service_idx_minimo:
  assumes "pool \<noteq> []"
  shows "primer_minimo pool (length pool) (pick_io_service_idx pool)"
proof -
  have "primer_minimo pool 1 0" by (simp add: primer_minimo_def)
  then show ?thesis
    using elige_desde_minimo [of pool 1 0] assms by (simp add: pick_io_service_idx_def Suc_leI)
qed

subsection \<open>Round robin\<close>

text \<open>The counters after \<open>N\<close> accepts that went to the workers in turn.\<close>

definition cuota :: "nat \<Rightarrow> nat \<Rightarrow> nat \<Rightarrow> nat" where
  "cuota N w j = N div w + (if j < N mod w then 1 else 0)"

definition en_turno :: "nat \<Rightarrow> nat \<Rightarrow> uint32 list" where
  "en_turno N w = map (\<lambda>j. word_of_nat (cuota N w j)) [0..<w]"

lemma cuota_Suc: "0 < w \<Longrightarrow> j < w \<Longrightarrow> cuota (Suc N) w j = (if j = N mod w then Suc (cuota N w j) else cuota N w j)"
  by (auto simp: cuota_def mod_Suc div_Suc less_Suc_eq)

lemma cuota_cota: "0 < w \<Longrightarrow> N < B * w \<Longrightarrow> cuota N w j \<le> B"
  by (simp add: cuota_def Suc_leI less_mult_imp_div_less less_imp_le)

lemma pick_en_turno:
  assumes "0 < w" "N < (2 ^ 32 - 1) * w"
  shows "pick_io_service_idx (en_turno N w) = N mod w"
proof (rule primer_minimo_unico)
  show "primer_minimo (en_turno N w) w (pick_io_service_idx (en_turno N w))"
    using pick_io_service_idx_minimo [of "en_turno N w"] assms by (simp add: en_turno_def)
  have c: "cuota N w j < 2 ^ 32" for j
    using cuota_cota [OF assms(1), of N "2 ^ 32 - 1" j] assms by simp
  have le: "word_of_nat (cuota N w i) \<le> (word_of_nat (cuota N w j) :: uint32) \<longleftrightarrow> cuota N w i \<le> cuota N w j" for i j
    using c by (simp add: word_le_nat_alt unat_of_nat take_bit_nat_eq_self)
  have lt: "word_of_nat (cuota N w i) < (word_of_nat (cuota N w j) :: uint32) \<longleftrightarrow> cuota N w i < cuota N w j" for i j
    using c by (simp add: word_less_nat_alt unat_of_nat take_bit_nat_eq_self)
  have "N mod w < w" using assms by simp
  then show "primer_minimo (en_turno N w) w (N mod w)"
    by (auto simp: primer_minimo_def en_turno_def le lt) (auto simp: cuota_def)
qed

lemma en_turno_Suc:
  assumes "0 < w"
  shows "(en_turno N w)[N mod w := en_turno N w ! (N mod w) + 1] = en_turno (Suc N) w"
    "(en_turno (Suc N) w)[N mod w := en_turno (Suc N) w ! (N mod w) - 1] = en_turno N w"
  using assms by (auto simp: en_turno_def list_eq_iff_nth_eq nth_list_update cuota_Suc)

text \<open>The state once \<open>N\<close> connections have been accepted and one more accept is waiting.\<close>

definition en_espera :: "nat \<Rightarrow> nat \<Rightarrow> servidor_http \<Rightarrow> bool" where
  "en_espera N w s \<longleftrightarrow>
     task_queue_length_pool s = en_turno (Suc N) w \<and> pendiente_accept s = Some (N mod w) \<and> \<not> shutting_down s"

lemma do_accept_en_espera:
  assumes "0 < w" "N < (2 ^ 32 - 1) * w" "task_queue_length_pool s = en_turno N w" "\<not> shutting_down s"
  shows "\<exists>s'. do_accept_http s = Some s' \<and> en_espera N w s'"
proof -
  have "length (en_turno N w) = w" "\<not> w \<le> N mod w" using assms(1) by (simp_all add: en_turno_def not_le)
  then show ?thesis
    using assms by (simp add: do_accept_http_def pick_en_turno en_espera_def en_turno_Suc Let_def)
qed

lemma paso_http_en_espera:
  assumes "0 < w" "en_espera N w s" "N + (if ev = Aceptada then 1 else 0) < (2 ^ 32 - 1) * w"
  shows "\<exists>s'. paso_http ev s = Some s' \<and> en_espera (N + (if ev = Aceptada then 1 else 0)) w s'"
proof (cases ev)
  case Aceptada
  then show ?thesis
    using assms do_accept_en_espera [of w "Suc N"]
    by (simp add: paso_http_def completa_accept_def recibe_accept_def en_espera_def)
next
  case Fallida
  then show ?thesis
    using assms do_accept_en_espera [of w N]
    by (simp add: paso_http_def completa_accept_def recibe_accept_def en_espera_def en_turno_Suc)
next
  case (Cerrada i)
  then show ?thesis using assms by (simp add: paso_http_def cierra_conexion_def en_espera_def)
qed

definition aceptadas :: "suceso list \<Rightarrow> nat" where
  "aceptadas evs = length (filter (\<lambda>ev. ev = Aceptada) evs)"

lemma reparto_en_espera:
  assumes "0 < w" "en_espera N w s" "N + aceptadas evs < (2 ^ 32 - 1) * w"
  shows "reparto evs s = Some (map (\<lambda>j. j mod w) [N..<N + aceptadas evs])"
  using assms(2,3)
proof (induction evs arbitrary: N s)
  case Nil
  then show ?case by (simp add: aceptadas_def)
next
  case (Cons ev evs)
  let ?N = "N + (if ev = Aceptada then 1 else 0)"
  have cuenta: "N + aceptadas (ev # evs) = ?N + aceptadas evs" by (simp add: aceptadas_def)
  with Cons.prems obtain s' where s': "paso_http ev s = Some s'" "en_espera ?N w s'"
    using paso_http_en_espera [OF assms(1) Cons.prems(1)] by (metis add_lessD1)
  show ?case
  proof (cases "ev = Aceptada")
    case True
    then show ?thesis
      using Cons.IH [OF s'(2)] Cons.prems s' cuenta
      by (simp add: en_espera_def upt_conv_Cons del: upt_Suc)
  next
    case False
    then show ?thesis
      using Cons.IH [OF s'(2)] Cons.prems s' cuenta by (cases ev) simp_all
  qed
qed

text \<open>C40. The connections are given to the workers strictly in turn, whatever happens to them. The server is
  started with \<open>n\<close> threads (\<open>n - 1\<close> workers) and sees any sequence of accepted connections, failed accepts and
  connections that end. The \<open>j\<close>-th accepted connection goes to the worker \<open>j mod (n - 1)\<close>, as long as no counter
  wraps at 32 bits, and no counter is read out of range. A connection that ends does not give its place back, so
  the choice of \<^verbatim>\<open>pick_io_service_idx\<close> does not depend on which workers are busy. With one thread there is no
  worker and the first accept reads out of range; \<^verbatim>\<open>concurrency\<close> never gives that number.
\<close>

theorem reparto_circular:
  "(\<forall>n evs. 2 \<le> unat n \<and> aceptadas evs < (2 ^ 32 - 1) * (unat n - 1) \<longrightarrow>
      (\<exists>s. arranca_http n = Some s \<and>
        reparto evs s = Some (map (\<lambda>j. j mod (unat n - 1)) [0..<aceptadas evs]))) \<and>
   arranca_http 1 = None \<and> (\<forall>h. 2 \<le> unat (multithreaded h))"
proof (intro conjI allI impI)
  fix n :: uint16 and evs
  assume a: "2 \<le> unat n \<and> aceptadas evs < (2 ^ 32 - 1) * (unat n - 1)"
  let ?w = "unat n - 1"
  have "task_queue_length_pool (server_nuevo n) = en_turno 0 ?w" "\<not> shutting_down (server_nuevo n)"
    by (simp_all add: server_nuevo_def en_turno_def cuota_def map_replicate_const)
  then obtain s where "arranca_http n = Some s" "en_espera 0 ?w s"
    using do_accept_en_espera [of ?w 0 "server_nuevo n"] a by (auto simp: arranca_http_def)
  then show "\<exists>s. arranca_http n = Some s \<and> reparto evs s = Some (map (\<lambda>j. j mod ?w) [0..<aceptadas evs])"
    using reparto_en_espera [of ?w 0 s evs] a by simp
next
  show "arranca_http 1 = None"
    by (simp add: arranca_http_def do_accept_http_def server_nuevo_def pick_io_service_idx_def)
next
  fix h
  show "2 \<le> unat (multithreaded h)"
    by (auto simp: multithreaded_def concurrency_def word_less_nat_alt)
qed

lemma reparto_circular_testigo:
  "map_option (reparto [Aceptada, Cerrada 0, Fallida, Aceptada, Cerrada 1, Aceptada, Aceptada]) (arranca_http 4) =
     Some (Some [0, 1, 2, 0])"
proof -
  let ?evs = "[Aceptada, Cerrada 0, Fallida, Aceptada, Cerrada 1, Aceptada, Aceptada]"
  obtain s where "arranca_http 4 = Some s" "reparto ?evs s = Some (map (\<lambda>j. j mod 3) [0..<aceptadas ?evs])"
    using reparto_circular by (auto simp: aceptadas_def dest!: spec [of _ "4 :: uint16"] spec [of _ ?evs])
  then show ?thesis by (simp add: aceptadas_def upt_rec)
qed

end
