(* ===== verification/Hilos.thy ===== *)
theory Hilos
  imports Trabajadores Maquina
begin

text \<open>
  The threads of \<^verbatim>\<open>Server::run\<close> and \<^verbatim>\<open>Server::stop\<close> in \<^verbatim>\<open>includes/crow_all.h\<close>: the thread that calls \<^verbatim>\<open>run\<close>
  and the workers, whose steps mix in any order. A worker fills its places in the pools with pointers into its own
  stack before it counts itself as ready. Its timer keeps its service busy, so \<^verbatim>\<open>run\<close> of a service only returns
  when the service has been stopped.
\<close>

subsection \<open>State\<close>

text \<open>
  A worker: the statements before its loop, then the handlers run by one call of \<^verbatim>\<open>io_service::run\<close>. A handler
  need not return: \<open>vuelven\<close> says for each worker whether the handler it has begun returns or throws, or goes on
  for ever (the blocking write of \<^verbatim>\<open>do_write_static\<close> to a peer that does not read, a page that never ends).
\<close>

datatype fase =
    Sin_lanzar
  | Nuevo
  | Con_fecha
  | Con_timer
  | Con_cola
  | Corriendo nat
  | Manejando nat
  | Terminado

text \<open>A place of a pool: null, a pointer into a live thread, a pointer into a thread that has ended.\<close>

datatype puntero = Nulo | Vivo | Colgado

datatype fase_run = Lanza nat | Espera | Sirve | Parando nat | Junta nat | Acaba_run | Roto

record corrida =
  fases :: "fase list"
  get_cached_date_str_pool :: "puntero list"
  task_timer_pool :: "puntero list"
  parados :: "bool list"
  vuelven :: "bool list"
  init_count :: nat
  servidor_de :: servidor_http
  principal :: fase_run

definition worker_thread_count :: "corrida \<Rightarrow> nat" where
  "worker_thread_count s = length (fases s)"

definition inicio_run :: "uint16 \<Rightarrow> corrida" where
  "inicio_run n =
     (let w = unat n - 1 in
      \<lparr>fases = replicate w Sin_lanzar, get_cached_date_str_pool = replicate w Nulo,
       task_timer_pool = replicate w Nulo, parados = replicate w False, vuelven = replicate w True, init_count = 0,
       servidor_de = server_nuevo n, principal = Lanza 0\<rparr>)"

subsection \<open>Workers\<close>

text \<open>One statement of worker \<open>i\<close> before its loop; the last one counts it.\<close>

definition prepara :: "nat \<Rightarrow> corrida \<Rightarrow> corrida option" where
  "prepara i s =
     (case fases s ! i of
        Nuevo \<Rightarrow> Some (s\<lparr>fases := (fases s)[i := Con_fecha],
          get_cached_date_str_pool := (get_cached_date_str_pool s)[i := Vivo]\<rparr>)
      | Con_fecha \<Rightarrow> Some (s\<lparr>fases := (fases s)[i := Con_timer], task_timer_pool := (task_timer_pool s)[i := Vivo]\<rparr>)
      | Con_timer \<Rightarrow> Some (s\<lparr>fases := (fases s)[i := Con_cola],
          servidor_de := (servidor_de s)\<lparr>task_queue_length_pool := (task_queue_length_pool (servidor_de s))[i := 0]\<rparr>\<rparr>)
      | Con_cola \<Rightarrow> Some (s\<lparr>fases := (fases s)[i := Corriendo 0], init_count := init_count s + 1\<rparr>)
      | _ \<Rightarrow> None)"

text \<open>
  The loop: a handler begins only while the service runs, and it is one that returns or one that does not
  (\<open>vuelve\<close>); one that returns ends, or throws and \<^verbatim>\<open>run\<close> is called again. A stopped service returns the number of
  handlers, and the loop ends when that is 0.
\<close>

definition corre_servicio :: "bool \<Rightarrow> bool \<Rightarrow> nat \<Rightarrow> corrida \<Rightarrow> corrida option" where
  "corre_servicio vuelve lanza_excepcion i s =
     (case fases s ! i of
        Corriendo m \<Rightarrow>
          if \<not> parados s ! i then Some (s\<lparr>fases := (fases s)[i := Manejando m], vuelven := (vuelven s)[i := vuelve]\<rparr>)
          else if m = 0 then Some (s\<lparr>fases := (fases s)[i := Terminado],
            get_cached_date_str_pool := (get_cached_date_str_pool s)[i := Colgado],
            task_timer_pool := (task_timer_pool s)[i := Colgado]\<rparr>)
          else Some (s\<lparr>fases := (fases s)[i := Corriendo 0]\<rparr>)
      | Manejando m \<Rightarrow>
          if vuelven s ! i then Some (s\<lparr>fases := (fases s)[i := Corriendo (if lanza_excepcion then 0 else m + 1)]\<rparr>)
          else None
      | _ \<Rightarrow> None)"

subsection \<open>The thread of run\<close>

text \<open>\<^verbatim>\<open>do_accept\<close> with the pointers that it gives the connection.\<close>

definition acepta_en :: "corrida \<Rightarrow> corrida" where
  "acepta_en s =
     (if shutting_down (servidor_de s) then s
      else
        let i = pick_io_service_idx (task_queue_length_pool (servidor_de s)) in
        if i < worker_thread_count s \<and> get_cached_date_str_pool s ! i = Vivo \<and> task_timer_pool s ! i = Vivo
        then (case do_accept_http (servidor_de s) of
            None \<Rightarrow> s\<lparr>principal := Roto\<rparr>
          | Some v \<Rightarrow> s\<lparr>servidor_de := v\<rparr>)
        else s\<lparr>principal := Roto\<rparr>)"

definition completa_en :: "bool \<Rightarrow> corrida \<Rightarrow> corrida" where
  "completa_en ec s =
     (case pendiente_accept (servidor_de s) of
        None \<Rightarrow> s
      | Some i \<Rightarrow> acepta_en (s\<lparr>servidor_de := recibe_accept ec i (servidor_de s)\<rparr>))"

inductive paso_run :: "corrida \<Rightarrow> corrida \<Rightarrow> bool" where
  lanza: "principal s = Lanza i \<Longrightarrow> i < worker_thread_count s \<Longrightarrow>
    paso_run s (s\<lparr>fases := (fases s)[i := Nuevo], principal := Lanza (i + 1)\<rparr>)"
| lanzados: "principal s = Lanza (worker_thread_count s) \<Longrightarrow> paso_run s (s\<lparr>principal := Espera\<rparr>)"
| prepara: "i < worker_thread_count s \<Longrightarrow> prepara i s = Some t \<Longrightarrow> paso_run s t"
| corre: "i < worker_thread_count s \<Longrightarrow> corre_servicio vuelve lanza_excepcion i s = Some t \<Longrightarrow> paso_run s t"
| empieza: "principal s = Espera \<Longrightarrow> init_count s = worker_thread_count s \<Longrightarrow>
    paso_run s (acepta_en (s\<lparr>principal := Sirve\<rparr>))"
| acepta: "principal s = Sirve \<Longrightarrow> paso_run s (completa_en ec s)"
| senal: "principal s = Sirve \<Longrightarrow> paso_run s (s\<lparr>servidor_de := para_http (servidor_de s), principal := Parando 0\<rparr>)"
| para: "principal s = Parando i \<Longrightarrow> i < worker_thread_count s \<Longrightarrow>
    paso_run s (s\<lparr>parados := (parados s)[i := True], principal := Parando (i + 1)\<rparr>)"
| para_todo: "principal s = Parando (worker_thread_count s) \<Longrightarrow> paso_run s (s\<lparr>principal := Junta 0\<rparr>)"
| junta: "principal s = Junta i \<Longrightarrow> i < worker_thread_count s \<Longrightarrow> fases s ! i = Terminado \<Longrightarrow>
    paso_run s (s\<lparr>principal := Junta (i + 1)\<rparr>)"
| acaba: "principal s = Junta (worker_thread_count s) \<Longrightarrow> paso_run s (s\<lparr>principal := Acaba_run\<rparr>)"

inductive_cases paso_runE: "paso_run s t"

subsection \<open>The invariant\<close>

definition lanzado :: "fase_run \<Rightarrow> nat \<Rightarrow> bool" where
  "lanzado p i \<longleftrightarrow> (case p of Lanza k \<Rightarrow> i < k | _ \<Rightarrow> True)"

definition parado_en :: "fase_run \<Rightarrow> nat \<Rightarrow> bool" where
  "parado_en p i \<longleftrightarrow> (case p of Parando k \<Rightarrow> i < k | Junta k \<Rightarrow> True | Acaba_run \<Rightarrow> True | _ \<Rightarrow> False)"

definition juntado :: "fase_run \<Rightarrow> nat \<Rightarrow> bool" where
  "juntado p i \<longleftrightarrow> (case p of Junta k \<Rightarrow> i < k | Acaba_run \<Rightarrow> True | _ \<Rightarrow> False)"

definition sirviendo :: "fase_run \<Rightarrow> bool" where
  "sirviendo p \<longleftrightarrow> (case p of Lanza k \<Rightarrow> False | Espera \<Rightarrow> False | Roto \<Rightarrow> False | _ \<Rightarrow> True)"

fun listo :: "fase \<Rightarrow> bool" where
  "listo (Corriendo m) = True" | "listo (Manejando m) = True" | "listo Terminado = True" | "listo _ = False"

fun fecha_de :: "fase \<Rightarrow> puntero" where
  "fecha_de Sin_lanzar = Nulo" | "fecha_de Nuevo = Nulo" | "fecha_de Terminado = Colgado" | "fecha_de _ = Vivo"

fun timer_de :: "fase \<Rightarrow> puntero" where
  "timer_de Con_fecha = Nulo" | "timer_de f = fecha_de f"

text \<open>What is known of worker \<open>i\<close>.\<close>

definition trabajador_ok :: "fase_run \<Rightarrow> nat \<Rightarrow> fase \<Rightarrow> bool \<Rightarrow> bool" where
  "trabajador_ok p i f parado \<longleftrightarrow>
     (lanzado p i \<longleftrightarrow> f \<noteq> Sin_lanzar) \<and> (parado \<longleftrightarrow> parado_en p i) \<and> (f = Terminado \<longrightarrow> parado) \<and>
     (juntado p i \<longrightarrow> f = Terminado) \<and> (sirviendo p \<longrightarrow> listo f)"

definition servidor_ok :: "nat \<Rightarrow> corrida \<Rightarrow> bool" where
  "servidor_ok w s \<longleftrightarrow>
     length (task_queue_length_pool (servidor_de s)) = w \<and>
     (shutting_down (servidor_de s) \<longleftrightarrow> (case principal s of Parando k \<Rightarrow> True | Junta k \<Rightarrow> True | Acaba_run \<Rightarrow> True | _ \<Rightarrow> False))"

definition run_inv :: "nat \<Rightarrow> corrida \<Rightarrow> bool" where
  "run_inv w s \<longleftrightarrow>
     length (fases s) = w \<and> length (parados s) = w \<and>
     get_cached_date_str_pool s = map fecha_de (fases s) \<and> task_timer_pool s = map timer_de (fases s) \<and>
     init_count s = length (filter listo (fases s)) \<and> servidor_ok w s \<and> principal s \<noteq> Roto \<and>
     (case principal s of Lanza k \<Rightarrow> k \<le> w | Parando k \<Rightarrow> k \<le> w | Junta k \<Rightarrow> k \<le> w | _ \<Rightarrow> True) \<and>
     (\<forall>i < w. trabajador_ok (principal s) i (fases s ! i) (parados s ! i))"

lemma run_inv_inicio: "run_inv (unat n - 1) (inicio_run n)"
  by (simp add: run_inv_def inicio_run_def Let_def servidor_ok_def server_nuevo_def trabajador_ok_def lanzado_def
      parado_en_def juntado_def sirviendo_def)

lemma filter_listo_update:
  "i < length fs \<Longrightarrow> listo f = listo (fs ! i) \<Longrightarrow> length (filter listo (fs[i := f])) = length (filter listo fs)"
  "i < length fs \<Longrightarrow> \<not> listo (fs ! i) \<Longrightarrow> listo f \<Longrightarrow> length (filter listo (fs[i := f])) = Suc (length (filter listo fs))"
  by (induction fs arbitrary: i) (auto simp: nth_Cons split: nat.splits)

text \<open>A worker that moves keeps the invariant when its new phase agrees with its pointers.\<close>

lemma run_inv_trabajador:
  assumes "run_inv w s" "i < w" "trabajador_ok (principal s) i f (parados s ! i)"
    and "fases t = (fases s)[i := f]" "parados t = parados s" "principal t = principal s"
    and "get_cached_date_str_pool t = (get_cached_date_str_pool s)[i := fecha_de f]"
    and "task_timer_pool t = (task_timer_pool s)[i := timer_de f]"
    and "init_count t = (if listo f \<and> \<not> listo (fases s ! i) then Suc (init_count s) else init_count s)"
    and "listo (fases s ! i) \<longrightarrow> listo f" "servidor_ok w t"
  shows "run_inv w t"
  using assms by (auto simp: run_inv_def map_update nth_list_update filter_listo_update)

lemma prepara_inv:
  assumes "run_inv w s" "i < w" "prepara i s = Some t"
  shows "run_inv w t"
proof -
  have ok: "trabajador_ok (principal s) i (fases s ! i) (parados s ! i)" "servidor_ok w s" "length (fases s) = w"
    "get_cached_date_str_pool s = map fecha_de (fases s)" "task_timer_pool s = map timer_de (fases s)"
    using assms(1,2) by (simp_all add: run_inv_def)
  then have igual: "get_cached_date_str_pool s = (get_cached_date_str_pool s)[i := fecha_de (fases s ! i)]"
    "task_timer_pool s = (task_timer_pool s)[i := timer_de (fases s ! i)]"
    using assms(2) by (simp_all add: list_eq_iff_nth_eq nth_list_update)
  note paso = run_inv_trabajador [OF assms(1,2)]
  show ?thesis
  proof (cases "fases s ! i")
    case Nuevo
    show ?thesis by (rule paso [of Con_fecha]) (use Nuevo ok igual assms(2,3) in \<open>auto simp: prepara_def trabajador_ok_def servidor_ok_def\<close>)
  next
    case Con_fecha
    show ?thesis by (rule paso [of Con_timer]) (use Con_fecha ok igual assms(2,3) in \<open>auto simp: prepara_def trabajador_ok_def servidor_ok_def\<close>)
  next
    case Con_timer
    show ?thesis by (rule paso [of Con_cola]) (use Con_timer ok igual assms(2,3) in \<open>auto simp: prepara_def trabajador_ok_def servidor_ok_def\<close>)
  next
    case Con_cola
    show ?thesis by (rule paso [of "Corriendo 0"]) (use Con_cola ok igual assms(2,3) in \<open>auto simp: prepara_def trabajador_ok_def servidor_ok_def\<close>)
  qed (use assms(3) in \<open>simp_all add: prepara_def\<close>)
qed

lemma corre_servicio_inv:
  assumes "run_inv w s" "i < w" "corre_servicio vuelve lanza_excepcion i s = Some t"
  shows "run_inv w t"
proof -
  have ok: "trabajador_ok (principal s) i (fases s ! i) (parados s ! i)" "servidor_ok w s" "length (fases s) = w"
    "get_cached_date_str_pool s = map fecha_de (fases s)" "task_timer_pool s = map timer_de (fases s)"
    using assms(1,2) by (simp_all add: run_inv_def)
  then have igual: "get_cached_date_str_pool s = (get_cached_date_str_pool s)[i := fecha_de (fases s ! i)]"
    "task_timer_pool s = (task_timer_pool s)[i := timer_de (fases s ! i)]"
    using assms(2) by (simp_all add: list_eq_iff_nth_eq nth_list_update)
  note paso = run_inv_trabajador [OF assms(1,2)]
  show ?thesis
  proof (cases "fases s ! i")
    case (Corriendo m)
    consider "\<not> parados s ! i" | "parados s ! i" "m = 0" | "parados s ! i" "m \<noteq> 0" by blast
    then show ?thesis
    proof cases
      case 1
      show ?thesis by (rule paso [of "Manejando m"]) (use 1 Corriendo ok igual assms(2,3) in \<open>auto simp: corre_servicio_def trabajador_ok_def servidor_ok_def split: if_splits\<close>)
    next
      case 2
      show ?thesis by (rule paso [of Terminado]) (use 2 Corriendo ok assms(2,3) in \<open>auto simp: corre_servicio_def trabajador_ok_def servidor_ok_def split: if_splits\<close>)
    next
      case 3
      show ?thesis by (rule paso [of "Corriendo 0"]) (use 3 Corriendo ok igual assms(2,3) in \<open>auto simp: corre_servicio_def trabajador_ok_def servidor_ok_def split: if_splits\<close>)
    qed
  next
    case (Manejando m)
    show ?thesis
      by (rule paso [of "Corriendo (if lanza_excepcion then 0 else m + 1)"])
        (use Manejando ok igual assms(2,3) in \<open>auto simp: corre_servicio_def trabajador_ok_def servidor_ok_def split: if_splits\<close>)
  qed (use assms(3) in \<open>simp_all add: corre_servicio_def\<close>)
qed

lemma acepta_en_inv:
  assumes "run_inv w s" "0 < w" "principal s = Sirve"
  shows "run_inv w (acepta_en s) \<and> principal (acepta_en s) = Sirve"
proof -
  let ?pool = "task_queue_length_pool (servidor_de s)"
  have l: "length ?pool = w" "worker_thread_count s = w" "\<not> shutting_down (servidor_de s)"
    using assms by (auto simp: run_inv_def servidor_ok_def worker_thread_count_def)
  then have i: "pick_io_service_idx ?pool < w"
    using pick_io_service_idx_minimo [of ?pool] assms(2) by (auto simp: primer_minimo_def)
  have "listo (fases s ! pick_io_service_idx ?pool)" "fases s ! pick_io_service_idx ?pool \<noteq> Terminado"
    using assms i by (auto simp: run_inv_def trabajador_ok_def sirviendo_def parado_en_def)
  then have "get_cached_date_str_pool s ! pick_io_service_idx ?pool = Vivo" "task_timer_pool s ! pick_io_service_idx ?pool = Vivo"
    using assms i by (auto simp: run_inv_def elim: listo.elims)
  then show ?thesis
    using assms l i by (simp add: acepta_en_def Let_def do_accept_http_def run_inv_def servidor_ok_def)
qed

lemma recibe_accept_conserva:
  "length (task_queue_length_pool (recibe_accept ec i v)) = length (task_queue_length_pool v)"
  "shutting_down (recibe_accept ec i v) = shutting_down v"
  by (simp_all add: recibe_accept_def Let_def)

lemma completa_en_inv:
  assumes "run_inv w s" "0 < w" "principal s = Sirve"
  shows "run_inv w (completa_en ec s)"
proof (cases "pendiente_accept (servidor_de s)")
  case (Some i)
  have "run_inv w (s\<lparr>servidor_de := recibe_accept ec i (servidor_de s)\<rparr>)"
    using assms(1) by (simp add: run_inv_def servidor_ok_def recibe_accept_conserva)
  then show ?thesis using acepta_en_inv [of w "s\<lparr>servidor_de := recibe_accept ec i (servidor_de s)\<rparr>"] assms Some
    by (simp add: completa_en_def)
qed (use assms in \<open>simp add: completa_en_def\<close>)

lemmas fases_run_defs = trabajador_ok_def lanzado_def parado_en_def juntado_def sirviendo_def servidor_ok_def para_http_def

lemma principal_inv:
  assumes "run_inv w s" "fases t = fases s" "parados t = parados s" "get_cached_date_str_pool t = get_cached_date_str_pool s"
    "task_timer_pool t = task_timer_pool s" "init_count t = init_count s" "principal t \<noteq> Roto" "servidor_ok w t"
    "case principal t of Lanza k \<Rightarrow> k \<le> w | Parando k \<Rightarrow> k \<le> w | Junta k \<Rightarrow> k \<le> w | _ \<Rightarrow> True"
    "\<And>i. i < w \<Longrightarrow> trabajador_ok (principal s) i (fases s ! i) (parados s ! i) \<Longrightarrow>
      trabajador_ok (principal t) i (fases s ! i) (parados s ! i)"
  shows "run_inv w t"
  using assms by (simp add: run_inv_def)

lemma paso_run_inv:
  assumes "paso_run s t" "run_inv w s" "0 < w"
  shows "run_inv w t"
proof -
  have w: "worker_thread_count s = w" and sv: "servidor_ok w s" using assms(2) by (simp_all add: run_inv_def worker_thread_count_def)
  from assms(1) show ?thesis
  proof cases
    case (lanza i)
    then have "fases s ! i = Sin_lanzar" using assms(2) w by (auto simp: run_inv_def fases_run_defs)
    then show ?thesis using lanza assms(2) w
      by (auto simp: run_inv_def fases_run_defs nth_list_update filter_listo_update map_update list_eq_iff_nth_eq)
  next
    case lanzados
    show ?thesis unfolding lanzados
      by (rule principal_inv [OF assms(2)]) (use lanzados sv w in \<open>auto simp: fases_run_defs\<close>)
  next
    case (prepara i)
    then show ?thesis using prepara_inv [OF assms(2)] w by simp
  next
    case (corre i v l)
    then show ?thesis using corre_servicio_inv [OF assms(2)] w by simp
  next
    case empieza
    have "length (filter listo (fases s)) = length (fases s)" using empieza assms(2) w by (simp add: run_inv_def)
    then have "\<forall>f \<in> set (fases s). listo f" by (metis length_filter_less less_irrefl)
    then have l: "listo (fases s ! i)" if "i < w" for i using assms(2) that by (simp add: run_inv_def)
    have "run_inv w (s\<lparr>principal := Sirve\<rparr>)"
      by (rule principal_inv [OF assms(2)]) (use empieza(2) sv l in \<open>simp_all add: fases_run_defs, blast\<close>)
    then show ?thesis using acepta_en_inv [of w "s\<lparr>principal := Sirve\<rparr>"] empieza assms(3) by simp
  next
    case (acepta ec)
    then show ?thesis using completa_en_inv [OF assms(2,3)] by simp
  next
    case senal
    show ?thesis unfolding senal
      by (rule principal_inv [OF assms(2)]) (use senal sv w in \<open>auto simp: fases_run_defs\<close>)
  next
    case (para i)
    then show ?thesis using assms(2) w by (auto simp: run_inv_def fases_run_defs nth_list_update less_Suc_eq)
  next
    case para_todo
    show ?thesis unfolding para_todo
      by (rule principal_inv [OF assms(2)]) (use para_todo sv w in \<open>auto simp: fases_run_defs\<close>)
  next
    case (junta i)
    show ?thesis unfolding junta
      by (rule principal_inv [OF assms(2)]) (use junta sv w in \<open>auto simp: fases_run_defs less_Suc_eq\<close>)
  next
    case acaba
    show ?thesis unfolding acaba
      by (rule principal_inv [OF assms(2)]) (use acaba sv w in \<open>auto simp: fases_run_defs\<close>)
  qed
qed

interpretation hilos: maquina "\<lambda>s. s = inicio_run n \<and> 2 \<le> unat n" paso_run
    "\<lambda>s. run_inv (unat n - 1) s \<and> 0 < unat n - 1" for n
  by unfold_locales (use run_inv_inicio in \<open>auto intro: paso_run_inv\<close>)

subsection \<open>A server with one worker\<close>

definition corrida_de :: "fase \<Rightarrow> puntero \<Rightarrow> puntero \<Rightarrow> bool \<Rightarrow> nat \<Rightarrow> servidor_http \<Rightarrow> fase_run \<Rightarrow> corrida" where
  "corrida_de f fecha timer parado cuenta v p =
     \<lparr>fases = [f], get_cached_date_str_pool = [fecha], task_timer_pool = [timer], parados = [parado], vuelven = [True],
      init_count = cuenta, servidor_de = v, principal = p\<rparr>"

definition servidor_uno :: "uint32 \<Rightarrow> bool \<Rightarrow> nat option \<Rightarrow> servidor_http" where
  "servidor_uno q parado pendiente =
     \<lparr>task_queue_length_pool = [q], shutting_down = parado, pendiente_accept = pendiente, abiertas = [0]\<rparr>"

abbreviation alcanza_dos :: "corrida \<Rightarrow> bool" where
  "alcanza_dos \<equiv> alcanzable (\<lambda>s. s = inicio_run 2 \<and> 2 \<le> unat (2 :: uint16)) paso_run"

lemmas corrida_de_defs = corrida_de_def servidor_uno_def worker_thread_count_def prepara_def

lemma corrida_sirve:
  "alcanza_dos (corrida_de (Corriendo 0) Vivo Vivo False 1 (servidor_uno 1 False (Some 0)) Sirve)"
proof -
  let ?v = "servidor_uno 0 False None"
  have "inicio_run 2 = corrida_de Sin_lanzar Nulo Nulo False 0 ?v (Lanza 0)"
    by (simp add: inicio_run_def server_nuevo_def corrida_de_defs)
  then have "alcanza_dos (corrida_de Sin_lanzar Nulo Nulo False 0 ?v (Lanza 0))"
    using alcanzable.inicio [of "\<lambda>s. s = inicio_run 2 \<and> 2 \<le> unat (2 :: uint16)"] by simp
  then have "alcanza_dos (corrida_de Nuevo Nulo Nulo False 0 ?v (Lanza 1))"
    by (rule alcanzable.avanza) (use paso_run.lanza [of "corrida_de Sin_lanzar Nulo Nulo False 0 ?v (Lanza 0)" 0] in \<open>simp add: corrida_de_defs\<close>)
  then have "alcanza_dos (corrida_de Nuevo Nulo Nulo False 0 ?v Espera)"
    by (rule alcanzable.avanza) (use paso_run.lanzados [of "corrida_de Nuevo Nulo Nulo False 0 ?v (Lanza 1)"] in \<open>simp add: corrida_de_defs\<close>)
  then have "alcanza_dos (corrida_de Con_fecha Vivo Nulo False 0 ?v Espera)"
    by (rule alcanzable.avanza) (rule paso_run.prepara [of 0]; simp add: corrida_de_defs)
  then have "alcanza_dos (corrida_de Con_timer Vivo Vivo False 0 ?v Espera)"
    by (rule alcanzable.avanza) (rule paso_run.prepara [of 0]; simp add: corrida_de_defs)
  then have "alcanza_dos (corrida_de Con_cola Vivo Vivo False 0 ?v Espera)"
    by (rule alcanzable.avanza) (rule paso_run.prepara [of 0]; simp add: corrida_de_defs)
  then have "alcanza_dos (corrida_de (Corriendo 0) Vivo Vivo False 1 ?v Espera)"
    by (rule alcanzable.avanza) (rule paso_run.prepara [of 0]; simp add: corrida_de_defs)
  then show ?thesis
    by (rule alcanzable.avanza)
      (use paso_run.empieza [of "corrida_de (Corriendo 0) Vivo Vivo False 1 ?v Espera"] in
        \<open>simp add: corrida_de_defs acepta_en_def do_accept_http_def pick_io_service_idx_def\<close>)
qed

lemma corrida_espera:
  "alcanza_dos (corrida_de (Corriendo 0) Vivo Vivo True 1 (servidor_uno 1 True (Some 0)) (Junta 0))"
proof -
  let ?v = "servidor_uno 1 True (Some 0)"
  have "alcanza_dos (corrida_de (Corriendo 0) Vivo Vivo False 1 ?v (Parando 0))"
    by (rule alcanzable.avanza [OF corrida_sirve])
      (use paso_run.senal [of "corrida_de (Corriendo 0) Vivo Vivo False 1 (servidor_uno 1 False (Some 0)) Sirve"] in
        \<open>simp add: corrida_de_defs para_http_def\<close>)
  then have "alcanza_dos (corrida_de (Corriendo 0) Vivo Vivo True 1 ?v (Parando 1))"
    by (rule alcanzable.avanza) (use paso_run.para [of "corrida_de (Corriendo 0) Vivo Vivo False 1 ?v (Parando 0)" 0] in \<open>simp add: corrida_de_defs\<close>)
  then show ?thesis
    by (rule alcanzable.avanza) (use paso_run.para_todo [of "corrida_de (Corriendo 0) Vivo Vivo True 1 ?v (Parando 1)"] in \<open>simp add: corrida_de_defs\<close>)
qed

subsection \<open>No pointer to a worker that is not there\<close>

text \<open>C19. The threads of the server start and stop safely: in every state that \<^verbatim>\<open>run\<close> reaches with at least one
  worker, whatever the order in which the threads move, handlers throw and accepts end, no connection is made with
  a counter, a timer or a date function of a worker that has not set it or has ended; while the server accepts,
  every worker is in its loop with both pointers alive; and when \<^verbatim>\<open>run\<close> returns every worker has ended.\<close>

theorem hilos_seguros:
  assumes "alcanzable (\<lambda>s. s = inicio_run n \<and> 2 \<le> unat n) paso_run s"
  shows "principal s \<noteq> Roto \<and> length (fases s) = unat n - 1 \<and>
    (principal s = Sirve \<longrightarrow> (\<forall>i < unat n - 1. (\<exists>m. fases s ! i \<in> {Corriendo m, Manejando m}) \<and>
      get_cached_date_str_pool s ! i = Vivo \<and> task_timer_pool s ! i = Vivo)) \<and>
    (principal s = Acaba_run \<longrightarrow> (\<forall>i < unat n - 1. fases s ! i = Terminado))"
proof -
  have inv: "run_inv (unat n - 1) s" using hilos.inv_alcanzable [OF assms] by simp
  have "(\<exists>m. fases s ! i \<in> {Corriendo m, Manejando m}) \<and> get_cached_date_str_pool s ! i = Vivo \<and> task_timer_pool s ! i = Vivo"
    if "principal s = Sirve" "i < unat n - 1" for i
  proof -
    have "listo (fases s ! i)" "fases s ! i \<noteq> Terminado" using inv that by (auto simp: run_inv_def fases_run_defs)
    then show ?thesis using inv that by (auto simp: run_inv_def elim: listo.elims)
  qed
  moreover have "fases s ! i = Terminado" if "principal s = Acaba_run" "i < unat n - 1" for i
    using inv that by (auto simp: run_inv_def fases_run_defs)
  ultimately show ?thesis using inv by (simp add: run_inv_def)
qed

theorem hilos_seguros_testigo:
  "\<exists>s :: corrida. principal s = Sirve \<and> fases s = [Corriendo 0] \<and> task_timer_pool s ! 0 = Vivo"
  using hilos_seguros [OF corrida_sirve]
  by (intro exI [of _ "corrida_de (Corriendo 0) Vivo Vivo False 1 (servidor_uno 1 False (Some 0)) Sirve"])
    (simp add: corrida_de_def)

subsection \<open>The end\<close>

text \<open>What a worker of a stopped service still does, and what is left to the thread of \<^verbatim>\<open>run\<close>.\<close>

fun resto_fase :: "fase \<Rightarrow> nat" where
  "resto_fase (Manejando m) = 3"
| "resto_fase (Corriendo m) = (if m = 0 then 1 else 2)"
| "resto_fase f = 0"

definition resto_run :: "corrida \<Rightarrow> nat" where
  "resto_run s = sum_list (map resto_fase (fases s)) +
     (case principal s of Junta k \<Rightarrow> Suc (worker_thread_count s - k) | _ \<Rightarrow> 0)"

definition cerrando :: "fase_run \<Rightarrow> bool" where
  "cerrando p \<longleftrightarrow> (case p of Junta k \<Rightarrow> True | Acaba_run \<Rightarrow> True | _ \<Rightarrow> False)"

lemma suma_fases_update:
  "i < length fs \<Longrightarrow> resto_fase f < resto_fase (fs ! i) \<Longrightarrow>
     sum_list (map resto_fase (fs[i := f])) < sum_list (map resto_fase fs)"
  by (induction fs arbitrary: i) (auto simp: nth_Cons split: nat.splits)

lemma resto_run_baja:
  assumes "paso_run s t" "run_inv w s" "cerrando (principal s)"
  shows "resto_run t < resto_run s \<and> cerrando (principal t)"
proof -
  have w: "worker_thread_count s = w" "length (fases s) = w" using assms(2) by (simp_all add: run_inv_def worker_thread_count_def)
  have f: "listo (fases s ! i)" "parados s ! i" if "i < w" for i
    using assms(2,3) that by (auto simp: run_inv_def fases_run_defs cerrando_def split: fase_run.splits)
  from assms(1) show ?thesis
  proof cases
    case (prepara i)
    then show ?thesis using f [of i] w by (auto simp: prepara_def split: fase.splits)
  next
    case (corre i v l)
    then have i: "i < length (fases s)" using w by simp
    have p: "principal t = principal s" "length (fases t) = length (fases s)"
      using corre(2) by (auto simp: corre_servicio_def split: fase.splits if_splits)
    obtain g where g: "fases t = (fases s)[i := g]" "resto_fase g < resto_fase (fases s ! i)"
      using corre(2) f [of i] i w by (auto simp: corre_servicio_def split: fase.splits if_splits)
    have "sum_list (map resto_fase (fases t)) < sum_list (map resto_fase (fases s))"
      using suma_fases_update [OF i g(2)] g(1) by simp
    then show ?thesis using p assms(3) by (auto simp: resto_run_def worker_thread_count_def split: fase_run.splits)
  qed (use assms(3) w in \<open>auto simp: cerrando_def resto_run_def worker_thread_count_def\<close>)
qed

lemma resto_run_cota: "sum_list (map resto_fase fs) \<le> 3 * length fs"
proof (induction fs)
  case (Cons f fs)
  moreover have "resto_fase f \<le> 3" by (cases f) auto
  ultimately show ?case by simp
qed simp

text \<open>A worker whose handler does not return.\<close>

definition atascado :: "corrida \<Rightarrow> nat \<Rightarrow> bool" where
  "atascado s i \<longleftrightarrow> (\<exists>m. fases s ! i = Manejando m) \<and> \<not> vuelven s ! i"

text \<open>While the server ends no handler begins, so the workers whose handler does not return stay the same.\<close>

lemma atascado_sigue:
  assumes "paso_run s t" "run_inv w s" "cerrando (principal s)" "i < w"
  shows "atascado t i = atascado s i"
proof -
  have f: "listo (fases s ! j)" "parados s ! j" if "j < w" for j
    using assms(2,3) that by (auto simp: run_inv_def fases_run_defs cerrando_def split: fase_run.splits)
  have w: "worker_thread_count s = w" "length (fases s) = w" using assms(2) by (simp_all add: run_inv_def worker_thread_count_def)
  from assms(1) show ?thesis
  proof cases
    case (prepara j)
    then show ?thesis using f [of j] w by (auto simp: prepara_def split: fase.splits)
  next
    case (corre j v l)
    then show ?thesis using f [of j] w assms(4)
      by (cases "j = i") (auto simp: corre_servicio_def atascado_def split: fase.splits if_splits)
  qed (use assms(3) in \<open>auto simp: cerrando_def atascado_def\<close>)
qed

lemma cerrando_sigue:
  assumes "run_inv w s" "cerrando (principal s)" "principal s \<noteq> Acaba_run" "\<forall>i < w. \<not> atascado s i"
  shows "\<exists>t. paso_run s t"
proof -
  have w: "worker_thread_count s = w" using assms(1) by (simp add: run_inv_def worker_thread_count_def)
  from assms(2,3) obtain k where k: "principal s = Junta k" by (auto simp: cerrando_def split: fase_run.splits)
  then have kw: "k \<le> w" using assms(1) by (simp add: run_inv_def)
  show ?thesis
  proof (cases "k = w")
    case True
    then show ?thesis using paso_run.acaba [of s] k w by auto
  next
    case False
    with kw have kw: "k < w" by simp
    then have f: "listo (fases s ! k)" "parados s ! k" using assms(1) k by (auto simp: run_inv_def fases_run_defs)
    show ?thesis
    proof (cases "fases s ! k = Terminado")
      case True
      then show ?thesis using paso_run.junta [OF k] kw w by auto
    next
      case False
      then have "\<exists>t. corre_servicio True False k s = Some t"
        using f kw assms(4) by (cases "fases s ! k") (auto simp: corre_servicio_def atascado_def)
      then show ?thesis using paso_run.corre [of k s True False] kw w by auto
    qed
  qed
qed

lemma cerrando_traza:
  assumes "run_inv w s" "0 < w" "cerrando (principal s)" "(paso_run ^^ j) s t"
  shows "run_inv w t \<and> cerrando (principal t) \<and> j + resto_run t \<le> resto_run s \<and> (\<forall>i < w. atascado t i = atascado s i)"
  using assms(4)
proof (induction j arbitrary: t)
  case 0
  then show ?case using assms by simp
next
  case (Suc j)
  then obtain u where u: "(paso_run ^^ j) s u" "paso_run u t" by auto
  then show ?case
    using Suc.IH [OF u(1)] resto_run_baja [OF u(2)] paso_run_inv [OF u(2) _ assms(2)] atascado_sigue [OF u(2)] by fastforce
qed

lemma no_acaba_atascado: "run_inv w s \<Longrightarrow> principal s = Acaba_run \<Longrightarrow> i < w \<Longrightarrow> \<not> atascado s i"
  by (auto simp: run_inv_def fases_run_defs atascado_def)

text \<open>C28. Once the signal has stopped the services, the server ends exactly when the handlers that have begun
  return: from the state in which \<^verbatim>\<open>run\<close> begins to wait for its workers every sequence of steps has at most four
  steps for each worker and one more; when no worker is in a handler that does not return, some thread can take
  a step as long as \<^verbatim>\<open>run\<close> has not returned, so \<^verbatim>\<open>run\<close> returns; and when some worker is in one, \<^verbatim>\<open>run\<close> never
  returns.\<close>

theorem run_acaba:
  assumes "alcanzable (\<lambda>s. s = inicio_run n \<and> 2 \<le> unat n) paso_run s" "principal s = Junta 0"
    and "(paso_run ^^ j) s t"
  shows "j \<le> 4 * (unat n - 1) + 1 \<and>
    (if \<exists>i < unat n - 1. (\<exists>m. fases s ! i = Manejando m) \<and> \<not> vuelven s ! i then principal t \<noteq> Acaba_run
     else principal t \<noteq> Acaba_run \<longrightarrow> (\<exists>u. paso_run t u))"
proof -
  have inv: "run_inv (unat n - 1) s" "0 < unat n - 1" using hilos.inv_alcanzable [OF assms(1)] by simp_all
  have "cerrando (principal s)" using assms(2) by (simp add: cerrando_def)
  from cerrando_traza [OF inv this assms(3)] have t: "run_inv (unat n - 1) t" "cerrando (principal t)" "j \<le> resto_run s"
    "\<And>i. i < unat n - 1 \<Longrightarrow> atascado t i = atascado s i"
    by simp_all
  moreover have "resto_run s \<le> 4 * (unat n - 1) + 1"
    using resto_run_cota [of "fases s"] inv(1) assms(2) by (simp add: resto_run_def run_inv_def worker_thread_count_def)
  ultimately show ?thesis
    using cerrando_sigue [OF t(1,2)] no_acaba_atascado [OF t(1)] unfolding atascado_def [symmetric] by auto
qed

text \<open>A worker in a handler that does not return when the signal comes.\<close>

lemma corrida_atascada:
  "\<exists>s. alcanza_dos s \<and> principal s = Junta 0 \<and> fases s = [Manejando 0] \<and> vuelven s = [False]"
proof -
  let ?s = "\<lambda>v q p. (corrida_de (Manejando 0) Vivo Vivo q 1 (servidor_uno 1 v (Some 0)) p)\<lparr>vuelven := [False]\<rparr>"
  have "alcanza_dos (?s False False Sirve)"
    by (rule alcanzable.avanza [OF corrida_sirve])
      (rule paso_run.corre [of 0 _ False False]; simp add: corrida_de_defs corre_servicio_def)
  then have "alcanza_dos (?s True False (Parando 0))"
    by (rule alcanzable.avanza) (use paso_run.senal [of "?s False False Sirve"] in \<open>simp add: corrida_de_defs para_http_def\<close>)
  then have "alcanza_dos (?s True True (Parando 1))"
    by (rule alcanzable.avanza) (use paso_run.para [of "?s True False (Parando 0)" 0] in \<open>simp add: corrida_de_defs\<close>)
  then have "alcanza_dos (?s True True (Junta 0))"
    by (rule alcanzable.avanza) (use paso_run.para_todo [of "?s True True (Parando 1)"] in \<open>simp add: corrida_de_defs\<close>)
  then show ?thesis by (intro exI [of _ "?s True True (Junta 0)"]) (simp add: corrida_de_def)
qed

theorem run_acaba_testigo:
  "\<exists>s. (\<exists>u. paso_run (corrida_de (Corriendo 0) Vivo Vivo True 1 (servidor_uno 1 True (Some 0)) (Junta 0)) u) \<and>
     principal s = Junta 0 \<and> fases s = [Manejando 0] \<and> \<not> (\<exists>j t. (paso_run ^^ j) s t \<and> principal t = Acaba_run)"
proof -
  obtain s where s: "alcanza_dos s" "principal s = Junta 0" "fases s = [Manejando 0]" "vuelven s = [False]"
    using corrida_atascada by blast
  have "\<not> (\<exists>j t. (paso_run ^^ j) s t \<and> principal t = Acaba_run)"
    using run_acaba [OF s(1,2)] s(3,4) by auto
  moreover have "\<exists>u. paso_run (corrida_de (Corriendo 0) Vivo Vivo True 1 (servidor_uno 1 True (Some 0)) (Junta 0)) u"
    using run_acaba [OF corrida_espera, of 0] by (simp add: corrida_de_def)
  ultimately show ?thesis using s(2,3) by blast
qed

end
