(* ===== verification/Consulta.thy ===== *)
theory Consulta
  imports Http
begin

text \<open>
  The query string of a request, class \<^verbatim>\<open>query_string\<close> of \<^verbatim>\<open>includes/crow_all.h\<close> and the C functions under it,
  which decode the text in place. A buffer is the list of its characters with the terminating null, a pointer
  into it a position. \<open>None\<close> is an access outside the buffer. The parser builds this object from every URL.
\<close>

subsection \<open>Buffers\<close>

abbreviation nulo :: char where
  "nulo \<equiv> CHR 0x00"

definition lee_car :: "string \<Rightarrow> nat \<Rightarrow> char option" where
  "lee_car b i = (if i < length b then Some (b ! i) else None)"

text \<open>The terminating null may only be written as null.\<close>

definition pon_car :: "string \<Rightarrow> nat \<Rightarrow> char \<Rightarrow> string option" where
  "pon_car b i c = (if Suc i < length b \<or> (Suc i = length b \<and> c = nulo) then Some (b[i := c]) else None)"

text \<open>The position that \<^verbatim>\<open>strcspn\<close> reaches from \<open>p\<close>, and the string at \<open>p\<close>.\<close>

definition strcspn :: "string \<Rightarrow> nat \<Rightarrow> string \<Rightarrow> nat option" where
  "strcspn b p cs =
     (if p < length b then Some (p + length (takeWhile (\<lambda>c. c \<notin> set cs \<and> c \<noteq> nulo) (drop p b))) else None)"

definition cadena_en :: "string \<Rightarrow> nat \<Rightarrow> string" where
  "cadena_en b p = takeWhile (\<lambda>c. c \<noteq> nulo) (drop p b)"

subsection \<open>Characters\<close>

definition CROW_QS_ISHEX :: "char \<Rightarrow> bool" where
  "CROW_QS_ISHEX c \<longleftrightarrow> (CHR ''0'' \<le> c \<and> c \<le> CHR ''9'') \<or> (CHR ''A'' \<le> c \<and> c \<le> CHR ''F'') \<or> (CHR ''a'' \<le> c \<and> c \<le> CHR ''f'')"

definition CROW_QS_HEX2DEC :: "char \<Rightarrow> nat" where
  "CROW_QS_HEX2DEC c =
     (if CHR ''0'' \<le> c \<and> c \<le> CHR ''9'' then of_char c - 48
      else if CHR ''A'' \<le> c \<and> c \<le> CHR ''F'' then of_char c - 55
      else if CHR ''a'' \<le> c \<and> c \<le> CHR ''f'' then of_char c - 87
      else 0)"

definition CROW_QS_ISQSCHR :: "char \<Rightarrow> bool" where
  "CROW_QS_ISQSCHR c \<longleftrightarrow> c \<notin> {CHR ''='', CHR ''#'', CHR ''&'', nulo}"

definition byte_hex :: "char \<Rightarrow> char \<Rightarrow> char" where
  "byte_hex c d = char_of (CROW_QS_HEX2DEC c * 16 + CROW_QS_HEX2DEC d)"

subsection \<open>Decoding\<close>

text \<open>The two characters after a percent sign: the second is read only if the first is a digit.\<close>

definition par_hex :: "string \<Rightarrow> nat \<Rightarrow> char option option" where
  "par_hex b k =
     Option.bind (lee_car b k) (\<lambda>c. if \<not> CROW_QS_ISHEX c then Some None
       else Option.bind (lee_car b (k + 1)) (\<lambda>d. Some (if CROW_QS_ISHEX d then Some (byte_hex c d) else None)))"

lemma lee_carD: "lee_car b j = Some c \<Longrightarrow> j < length b \<and> c = b ! j"
  by (auto simp: lee_car_def split: if_splits)

lemma pon_carD: "pon_car b i c = Some b' \<Longrightarrow> b' = b[i := c] \<and> i < length b"
  by (auto simp: pon_car_def split: if_splits)

function qs_decode :: "string \<Rightarrow> nat \<Rightarrow> nat \<Rightarrow> (string \<times> nat) option" where
  "qs_decode b i j =
     Option.bind (lee_car b j) (\<lambda>c.
       if \<not> CROW_QS_ISQSCHR c then map_option (\<lambda>b'. (b', i)) (pon_car b i nulo)
       else if c = CHR ''+'' then Option.bind (pon_car b i (CHR '' '')) (\<lambda>b'. qs_decode b' (i + 1) (j + 1))
       else if c = CHR ''%'' then
         Option.bind (par_hex b (j + 1)) (\<lambda>h.
           case h of
             None \<Rightarrow> map_option (\<lambda>b'. (b', i)) (pon_car b i nulo)
           | Some x \<Rightarrow> Option.bind (pon_car b i x) (\<lambda>b'. qs_decode b' (i + 1) (j + 3)))
       else Option.bind (pon_car b i c) (\<lambda>b'. qs_decode b' (i + 1) (j + 1)))"
  by pat_completeness auto
termination
  by (relation "measure (\<lambda>(b, i, j). length b - j)") (auto dest!: lee_carD pon_carD)

declare qs_decode.simps [simp del]

subsection \<open>Cutting into pairs\<close>

text \<open>The starts of at most \<open>n\<close> pairs.\<close>

primrec corta_pares :: "string \<Rightarrow> nat \<Rightarrow> nat \<Rightarrow> nat list option" where
  "corta_pares b p 0 = Some []"
| "corta_pares b p (Suc n) =
     Option.bind (strcspn b p ''&'') (\<lambda>q. Option.bind (lee_car b q) (\<lambda>c.
       if c = nulo then Some [p] else map_option ((#) p) (corta_pares b (q + 1) n)))"

definition decodifica_par :: "string \<Rightarrow> nat \<Rightarrow> string option" where
  "decodifica_par b p =
     Option.bind (strcspn b p ''=&#'') (\<lambda>q. Option.bind (lee_car b q) (\<lambda>c.
       if c = CHR ''&'' \<or> c = nulo then pon_car b q nulo else map_option fst (qs_decode b (q + 1) (q + 1))))"

primrec decodifica_pares :: "nat list \<Rightarrow> string \<Rightarrow> string option" where
  "decodifica_pares [] b = Some b"
| "decodifica_pares (p # ps) b = Option.bind (decodifica_par b p) (decodifica_pares ps)"

definition qs_parse :: "string \<Rightarrow> nat \<Rightarrow> bool \<Rightarrow> (string \<times> nat list) option" where
  "qs_parse b qs_kv_size parse_url =
     Option.bind (if parse_url
         then Option.bind (strcspn b 0 ''?#'') (\<lambda>q. map_option (\<lambda>c. if c \<noteq> nulo then Some (q + 1) else None) (lee_car b q))
         else Some (Some 0))
       (\<lambda>p. case p of
          None \<Rightarrow> Some (b, [])
        | Some p \<Rightarrow>
            Option.bind (corta_pares b p qs_kv_size) (\<lambda>kv. map_option (\<lambda>b'. (b', kv)) (decodifica_pares kv b)))"

subsection \<open>Comparing a name\<close>

text \<open>One character of a text with its code undone; the other two characters of a code are read in any case.\<close>

definition qs_byte :: "string \<Rightarrow> nat \<Rightarrow> (char \<times> nat) option" where
  "qs_byte b p =
     Option.bind (lee_car b p) (\<lambda>c.
       if \<not> CROW_QS_ISQSCHR c then Some (nulo, p + 1)
       else if c = CHR ''+'' then Some (CHR '' '', p + 1)
       else if c = CHR ''%'' then
         Option.bind (lee_car b (p + 1)) (\<lambda>unyb. Option.bind (lee_car b (p + 2)) (\<lambda>lnyb.
           Some (if CROW_QS_ISHEX unyb \<and> CROW_QS_ISHEX lnyb then byte_hex unyb lnyb else nulo, p + 3)))
       else Some (c, p + 1))"

primrec qs_strncmp :: "nat \<Rightarrow> string \<Rightarrow> nat \<Rightarrow> string \<Rightarrow> nat \<Rightarrow> int option" where
  "qs_strncmp 0 s ps qs pq = map_option (\<lambda>c. if CROW_QS_ISQSCHR c then - 1 else 0) (lee_car qs pq)"
| "qs_strncmp (Suc n) s ps qs pq =
     Option.bind (qs_byte s ps) (\<lambda>(u1, ps'). Option.bind (qs_byte qs pq) (\<lambda>(u2, pq').
       if u1 \<noteq> u2 then Some (of_char u1 - of_char u2)
       else if u1 = nulo then Some 0
       else qs_strncmp n s ps' qs pq'))"

text \<open>The place after the first \<^verbatim>\<open>=\<close> of a pair, or its end.\<close>

definition salta_igual :: "string \<Rightarrow> nat \<Rightarrow> nat option" where
  "salta_igual b p =
     Option.bind (strcspn b p ''='') (\<lambda>q. map_option (\<lambda>c. if c = CHR ''='' then q + 1 else q) (lee_car b q))"

text \<open>The value of the pair number \<open>k\<close> of those with the name; \<open>Some None\<close> is the null pointer.\<close>

primrec qs_k2v :: "string \<Rightarrow> string \<Rightarrow> nat list \<Rightarrow> nat \<Rightarrow> nat option option" where
  "qs_k2v key b [] k = Some None"
| "qs_k2v key b (p # ps) k =
     Option.bind (qs_strncmp (length (cadena_en key 0)) key 0 b p) (\<lambda>r.
       if r = 0 then (if k = 0 then map_option Some (salta_igual b p) else qs_k2v key b ps (k - 1))
       else qs_k2v key b ps k)"

text \<open>
  \<open>dict_par\<close> is the key between the brackets and the value of a pair that begins with the name, when the
  brackets allow it. The number may become negative: each pair that begins with the name counts.
\<close>

definition dict_par :: "string \<Rightarrow> nat \<Rightarrow> (string \<times> string) option option" where
  "dict_par b p =
     Option.bind (salta_igual b p) (\<lambda>q. Option.bind (strcspn b p ''['') (\<lambda>o0.
       Option.bind (lee_car b o0) (\<lambda>c. map_option (\<lambda>cl.
         let op = (if c = CHR ''['' then o0 + 1 else o0) in
         if op \<le> cl \<and> p < op \<and> p < cl then Some (take (cl - op) (drop op b), cadena_en b q) else None)
       (strcspn b p '']''))))"

primrec qs_dict_name2kv :: "string \<Rightarrow> string \<Rightarrow> nat list \<Rightarrow> int \<Rightarrow> (string \<times> string) option option" where
  "qs_dict_name2kv dict_name b [] k = Some None"
| "qs_dict_name2kv dict_name b (p # ps) k =
     (let name = cadena_en dict_name 0 in
      if take (length name) (cadena_en b p) = name
      then Option.bind (dict_par b p) (\<lambda>r.
        if r \<noteq> None \<and> k = 0 then Some r else qs_dict_name2kv dict_name b ps (k - 1))
      else qs_dict_name2kv dict_name b ps k)"

subsection \<open>The class\<close>

record query_string =
  url_buf :: string
  key_value_pairs :: "nat list"

definition MAX_KEY_VALUE_PAIRS_COUNT :: nat where
  "MAX_KEY_VALUE_PAIRS_COUNT = 256"

definition query_string_vacia :: query_string where
  "query_string_vacia = \<lparr>url_buf = [nulo], key_value_pairs = []\<rparr>"

definition query_string_de :: "string \<Rightarrow> bool \<Rightarrow> query_string option" where
  "query_string_de params de_url =
     (if params = [] then Some query_string_vacia
      else map_option (\<lambda>(b, kv). \<lparr>url_buf = b, key_value_pairs = kv\<rparr>)
        (qs_parse (params @ [nulo]) MAX_KEY_VALUE_PAIRS_COUNT de_url))"

definition clear_qs :: "query_string \<Rightarrow> query_string" where
  "clear_qs q = query_string_vacia"

definition get_qs :: "query_string \<Rightarrow> string \<Rightarrow> nat option option" where
  "get_qs q name = qs_k2v (name @ [nulo]) (url_buf q) (key_value_pairs q) 0"

text \<open>The text of pair \<open>p\<close> begins with \<open>pre\<close>.\<close>

definition item_empieza :: "string \<Rightarrow> string \<Rightarrow> nat \<Rightarrow> bool" where
  "item_empieza pre b p \<longleftrightarrow> take (length pre) (cadena_en b p) = pre"

primrec borra_primero :: "('a \<Rightarrow> bool) \<Rightarrow> 'a list \<Rightarrow> 'a list" where
  "borra_primero P [] = []"
| "borra_primero P (x # xs) = (if P x then xs else x # borra_primero P xs)"

definition pop_qs :: "query_string \<Rightarrow> string \<Rightarrow> (nat option \<times> query_string) option" where
  "pop_qs q name =
     map_option (\<lambda>ret. (ret,
         if ret \<noteq> None
         then q\<lparr>key_value_pairs := borra_primero (item_empieza (name @ ''='') (url_buf q)) (key_value_pairs q)\<rparr>
         else q))
       (get_qs q name)"

lemma qs_k2v_acaba: "qs_k2v key b kv k = Some (Some p) \<Longrightarrow> k < length kv"
  by (induction kv arbitrary: k)
    (auto split: if_splits dest!: less_imp_Suc_add simp: bind_eq_Some_conv intro: less_SucI, fastforce)

lemma qs_dict_acaba: "qs_dict_name2kv name b kv k = Some (Some x) \<Longrightarrow> k < int (length kv)"
  by (induction kv arbitrary: k) (fastforce split: if_splits simp: bind_eq_Some_conv Let_def)+

text \<open>The loops count up until the null pointer comes.\<close>

function lista_desde :: "string \<Rightarrow> string \<Rightarrow> nat list \<Rightarrow> nat \<Rightarrow> nat list option" where
  "lista_desde key b kv count =
     (case qs_k2v key b kv count of
        None \<Rightarrow> None
      | Some None \<Rightarrow> Some []
      | Some (Some p) \<Rightarrow> map_option ((#) p) (lista_desde key b kv (count + 1)))"
  by pat_completeness auto
termination
  by (relation "measure (\<lambda>(key, b, kv, count). length kv - count)") (auto dest: qs_k2v_acaba)

declare lista_desde.simps [simp del]

definition get_list :: "query_string \<Rightarrow> string \<Rightarrow> bool \<Rightarrow> nat list option" where
  "get_list q name use_brackets =
     lista_desde (name @ (if use_brackets then ''[]'' else []) @ [nulo]) (url_buf q) (key_value_pairs q) 0"

definition pop_list :: "query_string \<Rightarrow> string \<Rightarrow> bool \<Rightarrow> (nat list \<times> query_string) option" where
  "pop_list q name use_brackets =
     map_option (\<lambda>ret. (ret,
         if ret \<noteq> []
         then q\<lparr>key_value_pairs :=
           filter (\<lambda>p. \<not> item_empieza (name @ (if use_brackets then ''[]='' else ''='')) (url_buf q) p) (key_value_pairs q)\<rparr>
         else q))
       (get_list q name use_brackets)"

function dict_desde :: "string \<Rightarrow> string \<Rightarrow> nat list \<Rightarrow> nat \<Rightarrow> (string \<times> string) list option" where
  "dict_desde name b kv count =
     (case qs_dict_name2kv name b kv (int count) of
        None \<Rightarrow> None
      | Some None \<Rightarrow> Some []
      | Some (Some x) \<Rightarrow> map_option ((#) x) (dict_desde name b kv (count + 1)))"
  by pat_completeness auto
termination
  by (relation "measure (\<lambda>(name, b, kv, count). length kv - count)") (auto dest: qs_dict_acaba)

declare dict_desde.simps [simp del]

text \<open>\<^verbatim>\<open>insert\<close> keeps the first value of a key.\<close>

definition get_dict :: "query_string \<Rightarrow> string \<Rightarrow> (string \<rightharpoonup> string) option" where
  "get_dict q name = map_option map_of (dict_desde (name @ [nulo]) (url_buf q) (key_value_pairs q) 0)"

definition pop_dict :: "query_string \<Rightarrow> string \<Rightarrow> ((string \<rightharpoonup> string) \<times> query_string) option" where
  "pop_dict q name =
     map_option (\<lambda>ret. (ret,
         if ret \<noteq> Map.empty
         then q\<lparr>key_value_pairs := filter (\<lambda>p. \<not> item_empieza (name @ ''['') (url_buf q) p) (key_value_pairs q)\<rparr>
         else q))
       (get_dict q name)"

definition keys_qs :: "query_string \<Rightarrow> string list" where
  "keys_qs q = map (\<lambda>p. takeWhile (\<lambda>c. c \<noteq> CHR ''='') (cadena_en (url_buf q) p)) (key_value_pairs q)"

text \<open>The two tables of a request: that of its URL, which \<^verbatim>\<open>on_url\<close> builds, and that of a form in its body.\<close>

definition url_params_de :: "request \<Rightarrow> query_string option" where
  "url_params_de req = query_string_de (raw_url req) True"

definition get_body_params :: "request \<Rightarrow> query_string option" where
  "get_body_params req = query_string_de (req_body req) False"

subsection \<open>No access outside the buffer\<close>

definition buffer_ok :: "string \<Rightarrow> bool" where
  "buffer_ok b \<longleftrightarrow> b \<noteq> [] \<and> last b = nulo"

lemma buffer_ok_sigue: "buffer_ok b \<Longrightarrow> j < length b \<Longrightarrow> b ! j \<noteq> nulo \<Longrightarrow> Suc j < length b"
  unfolding buffer_ok_def by (metis Suc_lessI diff_Suc_1 last_conv_nth)

lemma buffer_ok_pon:
  "buffer_ok b \<Longrightarrow> i < length b \<Longrightarrow> (Suc i < length b \<or> c = nulo) \<Longrightarrow>
     pon_car b i c = Some (b[i := c]) \<and> buffer_ok (b[i := c])"
  by (auto simp: buffer_ok_def pon_car_def last_conv_nth nth_list_update)

lemma strcspn_ok:
  assumes "buffer_ok b" "p < length b"
  shows "\<exists>q. strcspn b p cs = Some q \<and> p \<le> q \<and> q < length b \<and> (b ! q = nulo \<or> b ! q \<in> set cs)"
proof -
  let ?P = "\<lambda>c. c \<notin> set cs \<and> c \<noteq> nulo" and ?d = "drop p b"
  have "last ?d = nulo" "?d \<noteq> []" using assms by (auto simp: buffer_ok_def last_drop)
  then have "\<exists>x \<in> set ?d. \<not> ?P x" by (metis last_in_set)
  then have "takeWhile ?P ?d \<noteq> ?d" by (simp add: takeWhile_eq_all_conv)
  then have l: "length (takeWhile ?P ?d) < length ?d"
    using takeWhile_eq_take [of ?P ?d] length_takeWhile_le [of ?P ?d] by (metis le_neq_implies_less take_all_iff order_refl)
  from nth_length_takeWhile [OF l] have "\<not> ?P (b ! (p + length (takeWhile ?P ?d)))" using assms(2) by simp
  then show ?thesis using l assms(2) by (auto simp: strcspn_def)
qed

lemma ISHEX_no_nulo: "CROW_QS_ISHEX c \<Longrightarrow> c \<noteq> nulo"
  by (auto simp: CROW_QS_ISHEX_def less_eq_char_def)

lemma par_hex_ok:
  assumes "buffer_ok b" "k < length b"
  shows "par_hex b k = Some None \<or> (\<exists>x. par_hex b k = Some (Some x) \<and> k + 2 < length b)"
proof (cases "CROW_QS_ISHEX (b ! k)")
  case True
  then have k: "Suc k < length b" using assms buffer_ok_sigue ISHEX_no_nulo by blast
  then show ?thesis
    using True assms buffer_ok_sigue [OF assms(1) k] ISHEX_no_nulo [of "b ! Suc k"]
    by (auto simp: par_hex_def lee_car_def)
qed (use assms in \<open>simp add: par_hex_def lee_car_def\<close>)

lemma qs_decode_ok:
  "buffer_ok b \<Longrightarrow> i \<le> j \<Longrightarrow> j < length b \<Longrightarrow>
     \<exists>b' n. qs_decode b i j = Some (b', n) \<and> buffer_ok b' \<and> length b' = length b \<and> take i b' = take i b"
proof (induction b i j rule: qs_decode.induct)
  case (1 b i j)
  let ?c = "b ! j"
  have c: "lee_car b j = Some ?c" using "1.prems" by (simp add: lee_car_def)
  have fin: "\<exists>b' n. map_option (\<lambda>b'. (b', i)) (pon_car b i nulo) = Some (b', n) \<and> buffer_ok b' \<and> length b' = length b \<and> take i b' = take i b"
    using buffer_ok_pon [of b i nulo] "1.prems" by simp
  show ?case
  proof (cases "CROW_QS_ISQSCHR ?c")
    case False
    then show ?thesis using fin c by (simp add: qs_decode.simps [of b i j])
  next
    case True
    then have j: "Suc j < length b" using buffer_ok_sigue "1.prems" by (simp add: CROW_QS_ISQSCHR_def)
    have pon: "pon_car b i x = Some (b[i := x])" "buffer_ok (b[i := x])" for x
      using buffer_ok_pon [of b i x] "1.prems" j by auto
    have sigue: "\<exists>b' n. qs_decode (b[i := x]) (i + 1) k = Some (b', n) \<and> buffer_ok b' \<and> length b' = length b \<and> take i b' = take i b"
      if "\<exists>b' n. qs_decode (b[i := x]) (i + 1) k = Some (b', n) \<and> buffer_ok b' \<and> length b' = length (b[i := x]) \<and>
        take (i + 1) b' = take (i + 1) (b[i := x])" for k x
    proof -
      from that obtain b' n where b': "qs_decode (b[i := x]) (i + 1) k = Some (b', n)" "buffer_ok b'" "length b' = length b"
        "take (i + 1) b' = take (i + 1) (b[i := x])" by auto
      have "take i b' = take i b" using arg_cong [OF b'(4), of "take i"] by (simp add: min_def)
      with b' show ?thesis by blast
    qed
    consider "?c = CHR ''+''" | "?c = CHR ''%''" | "?c \<noteq> CHR ''+''" "?c \<noteq> CHR ''%''" by blast
    then show ?thesis
    proof cases
      case 1
      then show ?thesis using sigue [OF "1.IH"(1) [OF c _ 1 pon(1) pon(2)]] True pon(1) j "1.prems" c
        by (simp add: qs_decode.simps [of b i j])
    next
      case 2
      from par_hex_ok [OF "1.prems"(1) j] consider "par_hex b (j + 1) = Some None"
        | x where "par_hex b (j + 1) = Some (Some x)" "j + 3 < length b" by auto
      then show ?thesis
      proof cases
        case 1
        then show ?thesis using True 2 c fin by (simp add: qs_decode.simps [of b i j])
      next
        case (2 x)
        then show ?thesis
          using sigue [OF "1.IH"(2) [OF c _ _ \<open>?c = CHR ''%''\<close> 2(1) refl pon(1) pon(2)]] True \<open>?c = CHR ''%''\<close> pon(1) "1.prems" c
          by (simp add: qs_decode.simps [of b i j])
      qed
    next
      case 3
      then show ?thesis using sigue [OF "1.IH"(3) [OF c _ 3 pon(1) pon(2)]] True pon(1) j "1.prems" c
        by (simp add: qs_decode.simps [of b i j])
    qed
  qed
qed

lemma decodifica_par_ok:
  assumes "buffer_ok b" "p < length b"
  shows "\<exists>b'. decodifica_par b p = Some b' \<and> buffer_ok b' \<and> length b' = length b \<and> take p b' = take p b"
proof -
  obtain q where q: "strcspn b p ''=&#'' = Some q" "p \<le> q" "q < length b" "b ! q = nulo \<or> b ! q \<in> set ''=&#''"
    using strcspn_ok [OF assms] by blast
  have tk: "take p b' = take p b" if "take q b' = take q b" for b'
    using arg_cong [OF that, of "take p"] q(2) by (simp add: min_absorb1)
  have l: "lee_car b q = Some (b ! q)" using q(3) by (simp add: lee_car_def)
  show ?thesis
  proof (cases "b ! q = CHR ''&'' \<or> b ! q = nulo")
    case True
    then show ?thesis using q l tk [of "b[q := nulo]"] buffer_ok_pon [OF assms(1) q(3), of nulo] by (simp add: decodifica_par_def)
  next
    case False
    then have "Suc q < length b" using buffer_ok_sigue [OF assms(1) q(3)] by simp
    from qs_decode_ok [OF assms(1) order_refl this] obtain b' n where
      b': "qs_decode b (Suc q) (Suc q) = Some (b', n)" "buffer_ok b'" "length b' = length b" "take (Suc q) b' = take (Suc q) b" by blast
    have "take q b' = take q b" using arg_cong [OF b'(4), of "take q"] by (simp add: min_def)
    then have "take p b' = take p b" by (rule tk)
    moreover have "decodifica_par b p = Some b'" using b'(1) False q(1) l by (simp add: decodifica_par_def)
    ultimately show ?thesis using b'(2,3) by blast
  qed
qed

lemma decodifica_pares_ok:
  "buffer_ok b \<Longrightarrow> \<forall>p \<in> set ps. k \<le> p \<and> p < length b \<Longrightarrow>
     \<exists>b'. decodifica_pares ps b = Some b' \<and> buffer_ok b' \<and> length b' = length b \<and> take k b' = take k b"
proof (induction ps arbitrary: b)
  case (Cons p ps)
  then obtain b1 where b1: "decodifica_par b p = Some b1" "buffer_ok b1" "length b1 = length b" "take p b1 = take p b"
    using decodifica_par_ok [of b p] by auto
  have "take k b1 = take k b" using arg_cong [OF b1(4), of "take k"] Cons.prems(2) by (simp add: min_absorb1)
  then show ?case using Cons.IH [OF b1(2)] Cons.prems(2) b1 by auto
qed simp

lemma corta_pares_ok:
  "buffer_ok b \<Longrightarrow> p < length b \<Longrightarrow>
     \<exists>kv. corta_pares b p n = Some kv \<and> length kv \<le> n \<and> (\<forall>q \<in> set kv. p \<le> q \<and> q < length b)"
proof (induction n arbitrary: p)
  case (Suc n)
  obtain q where q: "strcspn b p ''&'' = Some q" "p \<le> q" "q < length b" using strcspn_ok [OF Suc.prems] by blast
  show ?case
  proof (cases "b ! q = nulo")
    case True
    then show ?thesis using q Suc.prems by (simp add: lee_car_def)
  next
    case False
    from Suc.IH [OF Suc.prems(1) buffer_ok_sigue [OF Suc.prems(1) q(3) False]] obtain kv where
      "corta_pares b (Suc q) n = Some kv" "length kv \<le> n" "\<forall>r \<in> set kv. Suc q \<le> r \<and> r < length b" by blast
    then show ?thesis using q False Suc.prems(2) by (fastforce simp: lee_car_def)
  qed
qed simp

lemma qs_parse_ok:
  assumes "buffer_ok b"
  shows "\<exists>b' kv. qs_parse b n de_url = Some (b', kv) \<and> buffer_ok b' \<and> length b' = length b \<and> length kv \<le> n \<and>
    (\<forall>p \<in> set kv. p < length b) \<and>
    (de_url \<longrightarrow> take (length (takeWhile (\<lambda>c. c \<notin> set ''?#'' \<and> c \<noteq> nulo) b)) b' = takeWhile (\<lambda>c. c \<notin> set ''?#'' \<and> c \<noteq> nulo) b)"
proof -
  let ?pre = "takeWhile (\<lambda>c. c \<notin> set ''?#'' \<and> c \<noteq> nulo) b"
  have resto: "\<exists>b' kv. Option.bind (corta_pares b p n) (\<lambda>kv. map_option (\<lambda>b'. (b', kv)) (decodifica_pares kv b)) = Some (b', kv) \<and>
      buffer_ok b' \<and> length b' = length b \<and> length kv \<le> n \<and> (\<forall>p \<in> set kv. p < length b) \<and> take p b' = take p b"
    if pl: "p < length b" for p
  proof -
    obtain kv where kv: "corta_pares b p n = Some kv" "length kv \<le> n" "\<forall>q \<in> set kv. p \<le> q \<and> q < length b"
      using corta_pares_ok [OF assms pl] by blast
    then show ?thesis using decodifica_pares_ok [OF assms kv(3)] by auto
  qed
  show ?thesis
  proof (cases de_url)
    case False
    then show ?thesis using resto [of 0] assms by (auto simp: qs_parse_def buffer_ok_def)
  next
    case True
    have "0 < length b" using assms by (simp add: buffer_ok_def)
    from strcspn_ok [OF assms this] obtain q where q: "strcspn b 0 ''?#'' = Some q" "q < length b" by blast
    then have lq: "q = length ?pre" by (simp add: strcspn_def split: if_splits)
    then have pre: "take q b = ?pre" using takeWhile_eq_take [of _ b] by simp
    show ?thesis
    proof (cases "b ! q = nulo")
      case True
      then show ?thesis using \<open>de_url\<close> q assms lq pre by (simp add: qs_parse_def lee_car_def)
    next
      case False
      from resto [OF buffer_ok_sigue [OF assms q(2) False]] obtain b' kv where
        r: "Option.bind (corta_pares b (Suc q) n) (\<lambda>kv. map_option (\<lambda>b'. (b', kv)) (decodifica_pares kv b)) = Some (b', kv)"
        "buffer_ok b'" "length b' = length b" "length kv \<le> n" "\<forall>p \<in> set kv. p < length b" "take (Suc q) b' = take (Suc q) b"
        by blast
      have "take q b' = ?pre" using arg_cong [OF r(6), of "take q"] pre by (simp add: min_def)
      then show ?thesis using r \<open>de_url\<close> q False lq by (simp add: qs_parse_def lee_car_def)
    qed
  qed
qed

text \<open>Reading and searching in a buffer of known shape.\<close>

lemma strcspn_hasta:
  assumes "\<forall>x \<in> set X. x \<notin> set cs \<and> x \<noteq> nulo" "c = nulo \<or> c \<in> set cs" "p = length A"
  shows "strcspn (A @ X @ c # R) p cs = Some (p + length X)"
proof -
  have "takeWhile (\<lambda>c. c \<notin> set cs \<and> c \<noteq> nulo) (X @ c # R) = X"
    using assms(1,2) by (subst takeWhile_append2) auto
  then show ?thesis using assms(3) by (simp add: strcspn_def)
qed

lemma lee_car_en: "p = length A \<Longrightarrow> lee_car (A @ c # R) p = Some c"
  by (simp add: lee_car_def)

lemma qs_byte_fuera: "p = length A \<Longrightarrow> qs_byte (A @ [CHR ''%'', nulo]) p = None"
  by (simp add: qs_byte_def lee_car_def CROW_QS_ISQSCHR_def nth_append)

text \<open>C21. Building the query string is safe for every URL: whatever its bytes, no pointer leaves the buffer, at most
  256 pairs are found, all inside it, and the path before the first \<^verbatim>\<open>?\<close> or \<^verbatim>\<open>#\<close> stays as it was. Looking a name up
  is not safe: on a URL whose query is a single percent sign the comparison of any name reads past the end.\<close>

theorem consulta_segura:
  "(\<forall>params de_url. \<exists>q. query_string_de params de_url = Some q \<and> length (url_buf q) = length params + 1 \<and>
      last (url_buf q) = nulo \<and> length (key_value_pairs q) \<le> 256 \<and>
      (\<forall>p \<in> set (key_value_pairs q). p < length (url_buf q)) \<and>
      (de_url \<longrightarrow> take (length (takeWhile (\<lambda>c. c \<notin> set ''?#'' \<and> c \<noteq> nulo) params)) (url_buf q) =
        takeWhile (\<lambda>c. c \<notin> set ''?#'' \<and> c \<noteq> nulo) params)) \<and>
   (\<forall>path name. set path \<inter> set ''?#'' = {} \<and> nulo \<notin> set path \<and> name \<noteq> [] \<and> hd name \<noteq> nulo \<longrightarrow>
      (\<exists>q. query_string_de (path @ ''?%'') True = Some q \<and> get_qs q name = None))"
proof (intro conjI allI impI)
  fix params de_url
  show "\<exists>q. query_string_de params de_url = Some q \<and> length (url_buf q) = length params + 1 \<and>
      last (url_buf q) = nulo \<and> length (key_value_pairs q) \<le> 256 \<and>
      (\<forall>p \<in> set (key_value_pairs q). p < length (url_buf q)) \<and>
      (de_url \<longrightarrow> take (length (takeWhile (\<lambda>c. c \<notin> set ''?#'' \<and> c \<noteq> nulo) params)) (url_buf q) =
        takeWhile (\<lambda>c. c \<notin> set ''?#'' \<and> c \<noteq> nulo) params)"
  proof (cases "params = []")
    case True
    then show ?thesis by (simp add: query_string_de_def query_string_vacia_def)
  next
    case False
    have "buffer_ok (params @ [nulo])" by (simp add: buffer_ok_def)
    from qs_parse_ok [OF this, of 256 de_url] show ?thesis
      using False by (auto simp: query_string_de_def MAX_KEY_VALUE_PAIRS_COUNT_def buffer_ok_def takeWhile_tail)
  qed
next
  fix path name
  assume a: "set path \<inter> set ''?#'' = {} \<and> nulo \<notin> set path \<and> name \<noteq> [] \<and> hd name \<noteq> nulo"
  let ?b = "path @ [CHR ''?'', CHR ''%'', nulo]" and ?p = "Suc (length path)"
  have s: "strcspn ?b 0 ''?#'' = Some (length path)"
    using strcspn_hasta [of path "''?#''" "CHR ''?''" 0 "[]" "[CHR ''%'', nulo]"] a by auto
  have t: "strcspn ?b ?p cs = Some (Suc ?p)" if "CHR ''%'' \<notin> set cs" for cs
    using strcspn_hasta [of "''%''" cs nulo ?p "path @ ''?''" "[]"] that by simp
  have u: "lee_car ?b (length path) = Some (CHR ''?'')" "lee_car ?b (Suc ?p) = Some nulo"
    by (simp_all add: lee_car_def nth_append)
  have w: "pon_car ?b (Suc ?p) nulo = Some ?b" by (simp add: pon_car_def list_update_append)
  have "qs_parse ?b MAX_KEY_VALUE_PAIRS_COUNT True = Some (?b, [?p])"
    by (simp add: qs_parse_def s t u w decodifica_par_def MAX_KEY_VALUE_PAIRS_COUNT_def eval_nat_numeral)
  moreover obtain n where "length (cadena_en (name @ [nulo]) 0) = Suc n"
    using a by (cases name) (auto simp: cadena_en_def)
  moreover have "qs_byte ?b ?p = None" using qs_byte_fuera [of ?p "path @ ''?''"] by simp
  ultimately show "\<exists>q. query_string_de (path @ ''?%'') True = Some q \<and> get_qs q name = None"
    by (simp add: query_string_de_def get_qs_def bind_eq_None_conv)
qed

theorem consulta_segura_testigo:
  "\<exists>q. query_string_de ''/?%'' True = Some q \<and> length (url_buf q) = 4 \<and> take 1 (url_buf q) = ''/'' \<and> get_qs q ''x'' = None"
proof -
  have "\<exists>q. query_string_de (''/'' @ ''?%'') True = Some q \<and> get_qs q ''x'' = None"
    by (rule consulta_segura [THEN conjunct2, rule_format]) simp
  moreover have "\<exists>q. query_string_de ''/?%'' True = Some q \<and> length (url_buf q) = 4 \<and> take 1 (url_buf q) = ''/''"
    using consulta_segura [THEN conjunct1, rule_format, of "''/?%''" True] by auto
  ultimately show ?thesis by auto
qed

subsection \<open>Written queries\<close>

text \<open>A value is written as characters, plus signs for blanks, and codes of two hexadecimal digits.\<close>

datatype simbolo = Literal char | Mas | Codigo char char

fun texto_simbolo :: "simbolo \<Rightarrow> string" where
  "texto_simbolo (Literal c) = [c]"
| "texto_simbolo Mas = ''+''"
| "texto_simbolo (Codigo c d) = [CHR ''%'', c, d]"

fun valor_simbolo :: "simbolo \<Rightarrow> char" where
  "valor_simbolo (Literal c) = c"
| "valor_simbolo Mas = CHR '' ''"
| "valor_simbolo (Codigo c d) = byte_hex c d"

definition liso :: "char \<Rightarrow> bool" where
  "liso c \<longleftrightarrow> CROW_QS_ISQSCHR c \<and> c \<noteq> CHR ''+'' \<and> c \<noteq> CHR ''%''"

fun simbolo_ok :: "simbolo \<Rightarrow> bool" where
  "simbolo_ok (Literal c) \<longleftrightarrow> liso c"
| "simbolo_ok Mas \<longleftrightarrow> True"
| "simbolo_ok (Codigo c d) \<longleftrightarrow> CROW_QS_ISHEX c \<and> CROW_QS_ISHEX d"

type_synonym consulta = "(string \<times> simbolo list) list"

definition texto_valor_qs :: "simbolo list \<Rightarrow> string" where
  "texto_valor_qs ss = concat (map texto_simbolo ss)"

text \<open>The value as a C string.\<close>

definition valor_qs :: "simbolo list \<Rightarrow> string" where
  "valor_qs ss = takeWhile (\<lambda>c. c \<noteq> nulo) (map valor_simbolo ss)"

definition texto_par :: "string \<times> simbolo list \<Rightarrow> string" where
  "texto_par x = fst x @ ''='' @ texto_valor_qs (snd x)"

fun texto_consulta :: "consulta \<Rightarrow> string" where
  "texto_consulta [] = []"
| "texto_consulta [x] = texto_par x"
| "texto_consulta (x # y # xs) = texto_par x @ ''&'' @ texto_consulta (y # xs)"

definition par_ok :: "string \<times> simbolo list \<Rightarrow> bool" where
  "par_ok x \<longleftrightarrow> list_all liso (fst x) \<and> list_all simbolo_ok (snd x)"

fun tira :: "consulta \<Rightarrow> string" where
  "tira [] = []"
| "tira (x # xs) = texto_par x @ (if xs = [] then nulo else CHR ''&'') # tira xs"

lemma texto_consulta_tira: "xs \<noteq> [] \<Longrightarrow> texto_consulta xs @ [nulo] = tira xs"
  by (induction xs rule: texto_consulta.induct) simp_all

fun posiciones :: "nat \<Rightarrow> consulta \<Rightarrow> nat list" where
  "posiciones a [] = []"
| "posiciones a (x # xs) = a # posiciones (Suc (a + length (texto_par x))) xs"

lemma ISHEX_liso: "CROW_QS_ISHEX c \<Longrightarrow> CROW_QS_ISQSCHR c"
  by (auto simp: CROW_QS_ISHEX_def CROW_QS_ISQSCHR_def less_eq_char_def)

lemma simbolo_qschr: "simbolo_ok s \<Longrightarrow> c \<in> set (texto_simbolo s) \<Longrightarrow> CROW_QS_ISQSCHR c"
  by (cases s) (auto simp: liso_def ISHEX_liso, auto simp: CROW_QS_ISQSCHR_def)

lemma texto_par_sin:
  assumes "par_ok x" "c \<in> set (texto_par x)"
  shows "c \<noteq> CHR ''&'' \<and> c \<noteq> CHR ''#'' \<and> c \<noteq> nulo"
  using assms simbolo_qschr
  by (fastforce simp: par_ok_def texto_par_def texto_valor_qs_def list_all_iff liso_def CROW_QS_ISQSCHR_def)

lemma corta_tira:
  assumes "list_all par_ok xs" "xs \<noteq> []" "length xs \<le> n"
  shows "corta_pares (A @ tira xs) (length A) n = Some (posiciones (length A) xs)"
  using assms
proof (induction xs arbitrary: A n)
  case (Cons x xs)
  then obtain m where n: "n = Suc m" by (cases n) simp_all
  let ?t = "if xs = [] then nulo else CHR ''&''"
  have s: "strcspn (A @ texto_par x @ ?t # tira xs) (length A) ''&'' = Some (length A + length (texto_par x))"
    using texto_par_sin [of x] Cons.prems(1) by (intro strcspn_hasta) auto
  have l: "lee_car (A @ texto_par x @ ?t # tira xs) (length A + length (texto_par x)) = Some ?t"
    using lee_car_en [of _ "A @ texto_par x"] by simp
  show ?case
  proof (cases "xs = []")
    case True
    then show ?thesis using s l n by simp
  next
    case False
    then show ?thesis
      using Cons.IH [of m "A @ texto_par x @ ''&''"] Cons.prems n s l by simp
  qed
qed simp

text \<open>Decoding one value.\<close>

lemma cambia_primero: "(A @ X @ x # R)[length A := c] = (A @ [c]) @ tl (X @ [x]) @ R"
  by (cases X) simp_all

lemma pon_car_primero:
  "X @ x # R \<noteq> [x] \<or> c = nulo \<Longrightarrow> pon_car (A @ X @ x # R) (length A) c = Some ((A @ [c]) @ tl (X @ [x]) @ R)"
  by (auto simp: pon_car_def cambia_primero)

lemma qs_decode_simbolos:
  assumes "list_all simbolo_ok ss" "\<not> CROW_QS_ISQSCHR t" "j = length A + length X"
  shows "\<exists>Y n. qs_decode (A @ X @ texto_valor_qs ss @ t # R) (length A) j = Some (A @ map valor_simbolo ss @ nulo # Y @ R, n) \<and>
    length ss + length Y = length X + length (texto_valor_qs ss)"
  using assms
proof (induction ss arbitrary: A X j)
  case Nil
  then show ?case
    using lee_car_en [of j "A @ X" t R] pon_car_primero [of X t R nulo A]
    by (intro exI [of _ "tl (X @ [t])"] exI [of _ "length A"]) (simp add: qs_decode.simps texto_valor_qs_def)
next
  case (Cons s ss)
  let ?R = "texto_valor_qs ss @ t # R"
  show ?case
  proof (cases s)
    case (Literal c)
    then have c: "CROW_QS_ISQSCHR c" "c \<noteq> CHR ''+''" "c \<noteq> CHR ''%''" using Cons.prems(1) by (simp_all add: liso_def)
    from Cons.IH [of "Suc j" "A @ [c]" "tl (X @ [c])"] Cons.prems obtain Y n where
      "qs_decode ((A @ [c]) @ tl (X @ [c]) @ ?R) (Suc (length A)) (Suc j) = Some ((A @ [c]) @ map valor_simbolo ss @ nulo # Y @ R, n)"
      "length ss + length Y = length X + length (texto_valor_qs ss)" by auto
    then show ?thesis
      using Literal c lee_car_en [of j "A @ X" c ?R] pon_car_primero [of X c ?R c A] Cons.prems(3)
      by (intro exI [of _ Y] exI [of _ n]) (simp add: qs_decode.simps [of _ "length A" "length A + length X"] texto_valor_qs_def)
  next
    case Mas
    from Cons.IH [of "Suc j" "A @ '' ''" "tl (X @ ''+'')"] Cons.prems obtain Y n where
      "qs_decode ((A @ '' '') @ tl (X @ ''+'') @ ?R) (Suc (length A)) (Suc j) = Some ((A @ '' '') @ map valor_simbolo ss @ nulo # Y @ R, n)"
      "length ss + length Y = length X + length (texto_valor_qs ss)" by auto
    then show ?thesis
      using Mas lee_car_en [of j "A @ X" "CHR ''+''" ?R] pon_car_primero [of X "CHR ''+''" ?R "CHR '' ''" A] Cons.prems(3)
      by (intro exI [of _ Y] exI [of _ n]) (simp add: qs_decode.simps [of _ "length A" "length A + length X"] texto_valor_qs_def CROW_QS_ISQSCHR_def)
  next
    case (Codigo c d)
    let ?X = "X @ [CHR ''%'', c, d]" and ?b = "A @ X @ CHR ''%'' # c # d # ?R"
    have h: "CROW_QS_ISHEX c" "CROW_QS_ISHEX d" using Cons.prems(1) Codigo by simp_all
    have p: "par_hex ?b (Suc j) = Some (Some (byte_hex c d))"
      using lee_car_en [of "Suc j" "A @ X @ ''%''" c "d # ?R"] lee_car_en [of "Suc (Suc j)" "A @ X @ [CHR ''%'', c]" d ?R] h Cons.prems(3)
      by (simp add: par_hex_def)
    from Cons.IH [of "j + 3" "A @ [byte_hex c d]" "tl ?X"] Cons.prems obtain Y n where
      "qs_decode ((A @ [byte_hex c d]) @ tl ?X @ ?R) (Suc (length A)) (j + 3) =
         Some ((A @ [byte_hex c d]) @ map valor_simbolo ss @ nulo # Y @ R, n)"
      "length ss + length Y = length X + 2 + length (texto_valor_qs ss)" by auto
    moreover have "pon_car ?b (length A) (byte_hex c d) = Some ((A @ [byte_hex c d]) @ tl ?X @ ?R)"
      using pon_car_primero [of X "CHR ''%''" "c # d # ?R" "byte_hex c d" A] by (cases X) simp_all
    ultimately show ?thesis
      using Codigo p lee_car_en [of j "A @ X" "CHR ''%''" "c # d # ?R"] Cons.prems(3)
      by (intro exI [of _ Y] exI [of _ n]) (simp add: qs_decode.simps [of _ "length A" "length A + length X"] texto_valor_qs_def CROW_QS_ISQSCHR_def)
  qed
qed

text \<open>Decoding all the pairs: each has its value behind its name, and then what is left of its text.\<close>

fun bloques_qs :: "consulta \<Rightarrow> string \<Rightarrow> bool" where
  "bloques_qs [] D \<longleftrightarrow> D = []"
| "bloques_qs (x # xs) D \<longleftrightarrow>
     (\<exists>Y D'. D = fst x @ CHR ''='' # map valor_simbolo (snd x) @ nulo # Y @ D' \<and>
       length (snd x) + length Y = length (texto_valor_qs (snd x)) \<and> bloques_qs xs D')"

lemma decodifica_par_texto:
  assumes "par_ok x" "t = nulo \<or> t = CHR ''&''"
  shows "\<exists>Y. decodifica_par (A @ texto_par x @ t # R) (length A) =
      Some (A @ fst x @ CHR ''='' # map valor_simbolo (snd x) @ nulo # Y @ R) \<and>
    length (snd x) + length Y = length (texto_valor_qs (snd x))"
proof -
  let ?b = "A @ texto_par x @ t # R" and ?q = "length A + length (fst x)"
  have "strcspn ?b (length A) ''=&#'' = Some ?q"
    using strcspn_hasta [of "fst x" "''=&#''" "CHR ''=''" "length A" A "texto_valor_qs (snd x) @ t # R"] assms(1)
    by (auto simp: texto_par_def par_ok_def list_all_iff liso_def CROW_QS_ISQSCHR_def)
  moreover have "lee_car ?b ?q = Some (CHR ''='')"
    using lee_car_en [of ?q "A @ fst x" "CHR ''=''" "texto_valor_qs (snd x) @ t # R"] by (simp add: texto_par_def)
  moreover have "list_all simbolo_ok (snd x)" "\<not> CROW_QS_ISQSCHR t" using assms by (auto simp: par_ok_def CROW_QS_ISQSCHR_def)
  from qs_decode_simbolos [OF this, of "Suc ?q" "A @ fst x @ ''=''" "[]" R] obtain Y n where
    "qs_decode ?b (Suc ?q) (Suc ?q) = Some (A @ fst x @ CHR ''='' # map valor_simbolo (snd x) @ nulo # Y @ R, n)"
    "length (snd x) + length Y = length (texto_valor_qs (snd x))"
    by (auto simp: texto_par_def)
  ultimately show ?thesis by (auto simp: decodifica_par_def)
qed

lemma decodifica_tira:
  "list_all par_ok xs \<Longrightarrow>
     \<exists>D. decodifica_pares (posiciones (length A) xs) (A @ tira xs) = Some (A @ D) \<and> bloques_qs xs D"
proof (induction xs arbitrary: A)
  case (Cons x xs)
  let ?t = "if xs = [] then nulo else CHR ''&''"
  have "par_ok x" "?t = nulo \<or> ?t = CHR ''&''" using Cons.prems by simp_all
  from decodifica_par_texto [OF this, of A "tira xs"]
  obtain Y where Y: "decodifica_par (A @ texto_par x @ ?t # tira xs) (length A) =
      Some (A @ fst x @ CHR ''='' # map valor_simbolo (snd x) @ nulo # Y @ tira xs)"
    "length (snd x) + length Y = length (texto_valor_qs (snd x))" by blast
  let ?B = "fst x @ CHR ''='' # map valor_simbolo (snd x) @ nulo # Y"
  have len: "length (A @ ?B) = Suc (length A + length (texto_par x))" using Y(2) by (simp add: texto_par_def)
  have "list_all par_ok xs" using Cons.prems by simp
  from Cons.IH [OF this, of "A @ ?B", unfolded len] obtain D where
    D: "decodifica_pares (posiciones (Suc (length A + length (texto_par x))) xs) ((A @ ?B) @ tira xs) = Some ((A @ ?B) @ D)"
    "bloques_qs xs D" by blast
  have "bloques_qs (x # xs) (?B @ D)" using D(2) Y(2) by auto
  moreover have "decodifica_pares (posiciones (length A) (x # xs)) (A @ tira (x # xs)) = Some (A @ ?B @ D)"
    using Y(1) D(1) by simp
  ultimately show ?case by blast
qed simp

text \<open>Comparing plain names.\<close>

lemma qs_byte_liso: "liso c \<Longrightarrow> p = length A \<Longrightarrow> qs_byte (A @ c # R) p = Some (c, Suc p)"
  by (simp add: qs_byte_def lee_car_en liso_def)

lemma of_char_nulo: "c \<noteq> nulo \<Longrightarrow> (of_char c :: int) \<noteq> 0"
  using of_char_eq_iff [of c nulo, where ?'a = int] by simp

lemma qs_strncmp_liso:
  assumes "list_all liso k1" "list_all liso k2"
  shows "\<exists>r. qs_strncmp (length k1) (P @ k1 @ S) (length P) (A @ k2 @ CHR ''='' # R) (length A) = Some r \<and> (r = 0 \<longleftrightarrow> k1 = k2)"
  using assms
proof (induction k1 arbitrary: k2 P A)
  case Nil
  then show ?case
    by (cases k2) (auto simp: lee_car_def nth_append liso_def CROW_QS_ISQSCHR_def)
next
  case (Cons c k1)
  have c: "qs_byte (P @ c # k1 @ S) (length P) = Some (c, Suc (length P))" "c \<noteq> nulo"
    using Cons.prems(1) qs_byte_liso [of c _ P] by (auto simp: liso_def CROW_QS_ISQSCHR_def)
  show ?case
  proof (cases k2)
    case Nil
    moreover have "qs_byte (A @ CHR ''='' # R) (length A) = Some (nulo, Suc (length A))"
      by (simp add: qs_byte_def lee_car_en CROW_QS_ISQSCHR_def)
    ultimately show ?thesis using c of_char_nulo by simp
  next
    case k2: (Cons d k2')
    have d: "qs_byte (A @ d # k2' @ CHR ''='' # R) (length A) = Some (d, Suc (length A))"
      using Cons.prems(2) k2 qs_byte_liso [of d _ A] by simp
    show ?thesis
    proof (cases "c = d")
      case True
      then show ?thesis using Cons.IH [of k2' "P @ [c]" "A @ [d]"] Cons.prems k2 c d by simp
    next
      case False
      then show ?thesis using k2 c d by simp
    qed
  qed
qed

text \<open>Looking up: the places of the values of a name.\<close>

fun valores_en :: "nat \<Rightarrow> string \<Rightarrow> consulta \<Rightarrow> nat list" where
  "valores_en a key [] = []"
| "valores_en a key (x # xs) =
     (if fst x = key then [a + length key + 1] else []) @ valores_en (Suc (a + length (texto_par x))) key xs"

lemma cadena_en_de: "p = length A \<Longrightarrow> cadena_en (A @ B) p = takeWhile (\<lambda>c. c \<noteq> nulo) B"
  by (simp add: cadena_en_def)

lemma liso_no_nulo: "list_all liso k \<Longrightarrow> nulo \<notin> set k \<and> CHR ''='' \<notin> set k"
  by (auto simp: list_all_iff liso_def CROW_QS_ISQSCHR_def)

lemma longitud_clave: "list_all liso key \<Longrightarrow> length (cadena_en (key @ [nulo]) 0) = length key"
proof -
  assume "list_all liso key"
  then have "takeWhile (\<lambda>c. c \<noteq> nulo) key = key" using liso_no_nulo by (auto simp: takeWhile_eq_all_conv)
  then show ?thesis by (simp add: cadena_en_def takeWhile_tail)
qed

text \<open>The first pair of the buffer, and the buffer that the others see.\<close>

lemma bloque_primero:
  assumes "bloques_qs (x # xs) D"
  obtains B D' where "D = B @ D'" "length (A @ B) = Suc (length A + length (texto_par x))" "bloques_qs xs D'"
    "\<exists>Y. B = fst x @ CHR ''='' # map valor_simbolo (snd x) @ nulo # Y"
proof -
  from assms obtain Y D' where Y: "D = fst x @ CHR ''='' # map valor_simbolo (snd x) @ nulo # Y @ D'"
    "length (snd x) + length Y = length (texto_valor_qs (snd x))" "bloques_qs xs D'" by auto
  show thesis
    by (rule that [of "fst x @ CHR ''='' # map valor_simbolo (snd x) @ nulo # Y" D']) (use Y in \<open>simp_all add: texto_par_def\<close>)
qed

lemma qs_k2v_bloques:
  assumes "list_all liso key" "list_all par_ok xs" "bloques_qs xs D"
  shows "qs_k2v (key @ [nulo]) (A @ D) (posiciones (length A) xs) m =
    Some (let ms = valores_en (length A) key xs in if m < length ms then Some (ms ! m) else None)"
  using assms(2,3)
proof (induction xs arbitrary: A D m)
  case (Cons x xs)
  from Cons.prems(2) obtain B D' Y where B: "D = B @ D'" "length (A @ B) = Suc (length A + length (texto_par x))"
    "bloques_qs xs D'" "B = fst x @ CHR ''='' # map valor_simbolo (snd x) @ nulo # Y"
    by (rule bloque_primero [where A = A]) blast
  have IH: "qs_k2v (key @ [nulo]) (A @ D) (posiciones (Suc (length A + length (texto_par x))) xs) k =
      Some (let ms = valores_en (Suc (length A + length (texto_par x))) key xs in if k < length ms then Some (ms ! k) else None)" for k
    using Cons.IH [of D' "A @ B" k] Cons.prems(1) B(1-3) by simp
  have x: "list_all liso (fst x)" using Cons.prems(1) by (simp add: par_ok_def)
  have D: "A @ D = A @ fst x @ CHR ''='' # map valor_simbolo (snd x) @ nulo # Y @ D'" using B by simp
  obtain r where r: "qs_strncmp (length key) (key @ [nulo]) 0 (A @ D) (length A) = Some r" "r = 0 \<longleftrightarrow> key = fst x"
    using qs_strncmp_liso [OF assms(1) x, of "[]" "[nulo]"] unfolding D by auto
  have "\<forall>c \<in> set (fst x). c \<notin> set ''='' \<and> c \<noteq> nulo" using liso_no_nulo [OF x] by auto
  then have "salta_igual (A @ D) (length A) = Some (Suc (length A + length (fst x)))"
    using strcspn_hasta [of "fst x" "''=''" "CHR ''=''" "length A" A "map valor_simbolo (snd x) @ nulo # Y @ D'"]
      lee_car_en [of "length A + length (fst x)" "A @ fst x" "CHR ''=''" "map valor_simbolo (snd x) @ nulo # Y @ D'"]
    unfolding D by (simp add: salta_igual_def)
  then show ?case using r IH by (cases m) (auto simp: longitud_clave [OF assms(1)] Let_def nth_append)
qed simp

lemma cadenas_valores:
  assumes "bloques_qs xs D"
  shows "map (cadena_en (A @ D)) (valores_en (length A) key xs) = map (\<lambda>x. valor_qs (snd x)) (filter (\<lambda>x. fst x = key) xs)"
  using assms
proof (induction xs arbitrary: A D)
  case (Cons x xs)
  from Cons.prems obtain B D' Y where B: "D = B @ D'" "length (A @ B) = Suc (length A + length (texto_par x))"
    "bloques_qs xs D'" "B = fst x @ CHR ''='' # map valor_simbolo (snd x) @ nulo # Y"
    by (rule bloque_primero [where A = A]) blast
  have "cadena_en (A @ D) (Suc (length A + length (fst x))) = valor_qs (snd x)"
    using cadena_en_de [of _ "A @ fst x @ ''=''"] B by (simp add: valor_qs_def takeWhile_tail)
  then show ?case using Cons.IH [of D' "A @ B"] B(1-3) by auto
qed simp

lemma nombres_bloques:
  assumes "list_all par_ok xs" "bloques_qs xs D"
  shows "map (\<lambda>p. takeWhile (\<lambda>c. c \<noteq> CHR ''='') (cadena_en (A @ D) p)) (posiciones (length A) xs) = map fst xs"
  using assms
proof (induction xs arbitrary: A D)
  case (Cons x xs)
  from Cons.prems(2) obtain B D' Y where B: "D = B @ D'" "length (A @ B) = Suc (length A + length (texto_par x))"
    "bloques_qs xs D'" "B = fst x @ CHR ''='' # map valor_simbolo (snd x) @ nulo # Y"
    by (rule bloque_primero [where A = A]) blast
  have n: "nulo \<notin> set (fst x)" "CHR ''='' \<notin> set (fst x)" using Cons.prems(1) liso_no_nulo by (auto simp: par_ok_def)
  have "takeWhile (\<lambda>c. c \<noteq> nulo) (fst x @ CHR ''='' # Z) = fst x @ CHR ''='' # takeWhile (\<lambda>c. c \<noteq> nulo) Z" for Z
    using n(1) by (subst takeWhile_append2) auto
  moreover have "takeWhile (\<lambda>c. c \<noteq> CHR ''='') (fst x @ CHR ''='' # Z) = fst x" for Z
    using n(2) by (subst takeWhile_append2) auto
  ultimately have "takeWhile (\<lambda>c. c \<noteq> CHR ''='') (cadena_en (A @ D) (length A)) = fst x"
    using B(1,4) by (simp add: cadena_en_de)
  then show ?case using Cons.IH [of D' "A @ B"] Cons.prems(1) B(1-3) by simp
qed simp

lemma lista_desde_eq:
  assumes "\<And>m. qs_k2v key b kv m = Some (if m < length ms then Some (ms ! m) else None)"
  shows "lista_desde key b kv m = Some (drop m ms)"
proof (induction "length ms - m" arbitrary: m)
  case 0
  then show ?case by (simp add: lista_desde.simps assms)
next
  case (Suc d)
  then show ?case by (simp add: lista_desde.simps [of key b kv m] assms Cons_nth_drop_Suc)
qed

text \<open>C20. Parsing is the inverse of writing a query: for every list of at most 256 names and values behind a path,
  however the characters of the values are written (as themselves, as plus signs, as codes), the names come back
  in order, \<^verbatim>\<open>get\<close> gives the first value of a name and the null pointer for a name that is not there, and
  \<^verbatim>\<open>get_list\<close> gives all its values.\<close>

theorem consulta_ida_y_vuelta:
  assumes "set path \<inter> set ''?#'' = {}" "nulo \<notin> set path"
    and "xs \<noteq> []" "length xs \<le> 256" "list_all par_ok xs" "list_all liso name"
  shows "\<exists>q r ps. query_string_de (path @ ''?'' @ texto_consulta xs) True = Some q \<and>
    keys_qs q = map fst xs \<and>
    get_qs q name = Some r \<and> map_option (cadena_en (url_buf q)) r = map_option valor_qs (map_of xs name) \<and>
    get_list q name False = Some ps \<and>
    map (cadena_en (url_buf q)) ps = map (\<lambda>x. valor_qs (snd x)) (filter (\<lambda>x. fst x = name) xs)"
proof -
  let ?A = "path @ ''?''" and ?ms = "valores_en (Suc (length path)) name xs"
  obtain D where D: "decodifica_pares (posiciones (length ?A) xs) (?A @ tira xs) = Some (?A @ D)" "bloques_qs xs D"
    using decodifica_tira [OF assms(5)] by blast
  let ?q = "\<lparr>url_buf = ?A @ D, key_value_pairs = posiciones (length ?A) xs\<rparr>"
  have "strcspn (?A @ tira xs) 0 ''?#'' = Some (length path)"
    using strcspn_hasta [of path "''?#''" "CHR ''?''" 0 "[]" "tira xs"] assms(1,2) by auto
  then have "qs_parse (?A @ tira xs) 256 True = Some (?A @ D, posiciones (length ?A) xs)"
    using corta_tira [OF assms(5,3,4), of ?A] D(1) by (simp add: qs_parse_def lee_car_def nth_append)
  then have q: "query_string_de (path @ ''?'' @ texto_consulta xs) True = Some ?q"
    using texto_consulta_tira [OF assms(3)] by (simp add: query_string_de_def MAX_KEY_VALUE_PAIRS_COUNT_def)
  have k: "qs_k2v (name @ [nulo]) (?A @ D) (posiciones (length ?A) xs) m = Some (if m < length ?ms then Some (?ms ! m) else None)" for m
    using qs_k2v_bloques [OF assms(6,5) D(2), of ?A m] by (simp add: Let_def)
  have c: "map (cadena_en (?A @ D)) ?ms = map (\<lambda>x. valor_qs (snd x)) (filter (\<lambda>x. fst x = name) xs)"
    using cadenas_valores [OF D(2), of ?A name] by simp
  have f: "map_of xs name = (case filter (\<lambda>x. fst x = name) xs of [] \<Rightarrow> None | x # _ \<Rightarrow> Some (snd x))"
    by (induction xs) auto
  have "map_option (cadena_en (?A @ D)) (if 0 < length ?ms then Some (?ms ! 0) else None) = map_option valor_qs (map_of xs name)"
    unfolding f using c by (cases ?ms; cases "filter (\<lambda>x. fst x = name) xs") auto
  then show ?thesis
    using q k [of 0] lista_desde_eq [OF k, of 0] c nombres_bloques [OF assms(5) D(2), of ?A]
    by (intro exI [of _ ?q] exI [of _ "if 0 < length ?ms then Some (?ms ! 0) else None"] exI [of _ ?ms])
      (simp add: keys_qs_def get_qs_def get_list_def)
qed

theorem consulta_ida_y_vuelta_testigo:
  "\<exists>q r ps. query_string_de ''/a?f=a+%2eT&ip=1'' True = Some q \<and> keys_qs q = [''f'', ''ip''] \<and>
    get_qs q ''f'' = Some r \<and> map_option (cadena_en (url_buf q)) r = Some ''a .T'' \<and>
    get_list q ''f'' False = Some ps \<and> map (cadena_en (url_buf q)) ps = [''a .T'']"
proof -
  let ?v = "[Literal (CHR ''a''), Mas, Codigo (CHR ''2'') (CHR ''e''), Literal (CHR ''T'')]"
  let ?xs = "[(''f'', ?v), (''ip'', [Literal (CHR ''1'')])]"
  have "list_all par_ok ?xs" "list_all liso ''f''"
    by (simp_all add: par_ok_def liso_def CROW_QS_ISQSCHR_def CROW_QS_ISHEX_def less_eq_char_def)
  moreover have "texto_consulta ?xs = ''f=a+%2eT&ip=1''" by (simp add: texto_par_def texto_valor_qs_def)
  moreover have "byte_hex (CHR ''2'') (CHR ''e'') = CHR ''.''" by code_simp
  then have "valor_qs ?v = ''a .T''" by (simp add: valor_qs_def)
  ultimately show ?thesis using consulta_ida_y_vuelta [of "''/a''" ?xs "''f''"] by simp
qed

end
